(* ===== verification/Prelude.thy ===== *)
theory Prelude
  imports
    Main
    "HOL-Library.State_Monad"
    "HOL-Library.Word"
    "HOL-Library.Char_ord"
begin

text \<open>
  Shared vocabulary of the development.

  Go code that talks to its collaborators (a clock, a context, a database connection, an HTTP
  transport) is modelled in the state monad of the library: an operation is a value of type
  \<^typ>\<open>('w, 'a) state\<close>, where \<^typ>\<open>'w\<close> is the world the collaborator may change and \<^typ>\<open>'a\<close> is what
  the call returns. The weakest precondition \<open>wp m Q s\<close> says that running \<open>m\<close> from \<open>s\<close> returns a
  value and a state that satisfy \<open>Q\<close>; the collection \<open>wp_simps\<close> turns it into plain HOL along the
  structure of a program, and \<open>wp_intros\<close> holds the laws of operations that are only known by
  contract.
\<close>

section \<open>Collections of facts\<close>

named_theorems wp_simps \<open>equations for weakest preconditions\<close>
named_theorems wp_intros \<open>introduction rules for weakest preconditions of contracted operations\<close>
named_theorems pres_intros \<open>introduction rules for invariants that every operation keeps\<close>

section \<open>Bytes, strings and machine integers\<close>

type_synonym byte = "8 word"
type_synonym bytes = "8 word list"
type_synonym int64 = "64 word"
type_synonym uint64 = "64 word"
type_synonym uint32 = "32 word"
type_synonym uint8 = "8 word"

text \<open>A Go string is a sequence of bytes, and so is a HOL \<^typ>\<open>string\<close>.\<close>

definition bytes_of :: "string \<Rightarrow> bytes" where
  "bytes_of s = map (\<lambda>c. of_nat (of_char c)) s"

definition string_of :: "bytes \<Rightarrow> string" where
  "string_of b = map (\<lambda>w. char_of (unat w)) b"

lemma bytes_of_Nil [simp]: "bytes_of [] = []"
  by (simp add: bytes_of_def)

lemma bytes_of_append [simp]: "bytes_of (s @ t) = bytes_of s @ bytes_of t"
  by (simp add: bytes_of_def)

lemma length_bytes_of [simp]: "length (bytes_of s) = length s"
  by (simp add: bytes_of_def)

lemma length_string_of [simp]: "length (string_of b) = length b"
  by (simp add: string_of_def)

lemma string_of_bytes_of [simp]: "string_of (bytes_of s) = s"
proof -
  have "char_of (unat (of_nat (of_char c) :: 8 word)) = c" for c :: char
  proof -
    have "(of_char c :: nat) < 256"
      by simp
    then have "unat (of_nat (of_char c) :: 8 word) = (of_char c :: nat)"
      by (simp add: unat_of_nat take_bit_nat_eq_self)
    then show ?thesis
      by simp
  qed
  then show ?thesis
    by (simp add: bytes_of_def string_of_def comp_def)
qed

lemma bytes_of_string_of [simp]: "bytes_of (string_of b) = b"
proof -
  have "of_nat (of_char (char_of (unat w) :: char)) = w" for w :: "8 word"
  proof -
    have "unat w < 256"
      using unsigned_less [of w] by simp
    then have "of_char (char_of (unat w) :: char) = unat w"
      by (simp add: of_char_of)
    then show ?thesis
      by simp
  qed
  then show ?thesis
    by (simp add: bytes_of_def string_of_def comp_def)
qed

lemma bytes_of_inject [simp]: "bytes_of s = bytes_of t \<longleftrightarrow> s = t"
  by (metis string_of_bytes_of)

text \<open>The largest value of an \<open>int64\<close>, \<open>math.MaxInt64\<close>.\<close>

definition MaxInt64 :: int64 where
  "MaxInt64 = 0x7FFFFFFFFFFFFFFF"

lemma sint_MaxInt64 [simp]: "sint MaxInt64 = 2 ^ 63 - 1"
  by (simp add: MaxInt64_def)

lemma sint_int64_le: "sint (w :: int64) \<le> 2 ^ 63 - 1"
  using sint_lt [of w] by simp

lemma sint_int64_Suc:
  assumes "(w :: int64) \<noteq> MaxInt64"
  shows "sint (w + 1) = sint w + 1"
proof -
  have "sint w \<noteq> sint MaxInt64"
    using assms by (metis signed_word_eqI)
  then have lt: "sint w < 2 ^ 63 - 1"
    using sint_int64_le [of w] by simp
  have ge: "- (2 ^ 63) \<le> sint w"
    using sint_ge [of w] by simp
  show ?thesis
    using lt ge by (simp add: sint_word_ariths signed_take_bit_int_eq_self)
qed

lemma sint_int64_inject: "sint (v :: int64) = sint w \<Longrightarrow> v = w"
  by (metis signed_word_eqI)

section \<open>Identifiers\<close>

text \<open>
  Several packages check the same shape of identifier with a loop or an anchored regular
  expression: a fixed prefix and lower-case hexadecimal digits.
\<close>

definition lower_hex :: "char \<Rightarrow> bool" where
  "lower_hex c \<longleftrightarrow>
     (CHR ''0'' \<le> c \<and> c \<le> CHR ''9'') \<or> (CHR ''a'' \<le> c \<and> c \<le> CHR ''f'')"

definition hex_string :: "string \<Rightarrow> nat \<Rightarrow> bool" where
  "hex_string s n \<longleftrightarrow> length s = n \<and> list_all lower_hex s"

definition prefixed_hex :: "string \<Rightarrow> string \<Rightarrow> nat \<Rightarrow> bool" where
  "prefixed_hex s prefix n \<longleftrightarrow>
     take (length prefix) s = prefix \<and> hex_string (drop (length prefix) s) n"

lemma prefixed_hex_length: "prefixed_hex s p n \<Longrightarrow> length s = length p + n"
  unfolding prefixed_hex_def hex_string_def
  by (metis append_take_drop_id length_append)

section \<open>Weakest preconditions for the state monad\<close>

abbreviation ret :: "'a \<Rightarrow> ('s, 'a) state" where
  "ret \<equiv> State_Monad.return"

definition wp :: "('s, 'a) state \<Rightarrow> ('a \<Rightarrow> 's \<Rightarrow> bool) \<Rightarrow> 's \<Rightarrow> bool" where
  "wp m Q s = (case run_state m s of (x, s') \<Rightarrow> Q x s')"

lemma wp_return [wp_simps]: "wp (State_Monad.return x) Q s = Q x s"
  by (simp add: wp_def)

lemma wp_bind [wp_simps]: "wp (State_Monad.bind m f) Q s = wp m (\<lambda>x. wp (f x) Q) s"
  by (simp add: wp_def split: prod.splits)

lemma wp_get [wp_simps]: "wp State_Monad.get Q s = Q s s"
  by (simp add: wp_def)

lemma wp_set [wp_simps]: "wp (State_Monad.set s') Q s = Q () s'"
  by (simp add: wp_def)

lemma wp_update [wp_simps]: "wp (State_Monad.update f) Q s = Q () (f s)"
  by (simp add: wp_def State_Monad.update_def)

lemma wp_if [wp_simps]:
  "wp (if b then m else n) Q s \<longleftrightarrow> (b \<longrightarrow> wp m Q s) \<and> (\<not> b \<longrightarrow> wp n Q s)"
  by simp

lemma wp_case_option [wp_simps]:
  "wp (case x of None \<Rightarrow> m | Some y \<Rightarrow> f y) Q s \<longleftrightarrow>
     (x = None \<longrightarrow> wp m Q s) \<and> (\<forall>y. x = Some y \<longrightarrow> wp (f y) Q s)"
  by (cases x) simp_all

lemma wp_case_sum [wp_simps]:
  "wp (case x of Inl a \<Rightarrow> f a | Inr b \<Rightarrow> g b) Q s \<longleftrightarrow>
     (\<forall>a. x = Inl a \<longrightarrow> wp (f a) Q s) \<and> (\<forall>b. x = Inr b \<longrightarrow> wp (g b) Q s)"
  by (cases x) simp_all

lemma wp_case_prod [wp_simps]:
  "wp (case x of (a, b) \<Rightarrow> f a b) Q s = wp (f (fst x) (snd x)) Q s"
  by (cases x) simp

lemma wp_mono: "wp m Q s \<Longrightarrow> (\<And>x t. Q x t \<Longrightarrow> R x t) \<Longrightarrow> wp m R s"
  by (auto simp: wp_def split: prod.splits)

lemma wp_conj: "wp m Q s \<Longrightarrow> wp m R s \<Longrightarrow> wp m (\<lambda>x t. Q x t \<and> R x t) s"
  by (auto simp: wp_def split: prod.splits)

lemma wpD: "wp m Q s \<Longrightarrow> run_state m s = (x, t) \<Longrightarrow> Q x t"
  by (simp add: wp_def)

lemma wpI: "(\<And>x t. run_state m s = (x, t) \<Longrightarrow> Q x t) \<Longrightarrow> wp m Q s"
  by (auto simp: wp_def split: prod.splits)

text \<open>An operation of a component of the state, run inside the whole state.\<close>

definition zoom :: "('s \<Rightarrow> 'w) \<Rightarrow> ('w \<Rightarrow> 's \<Rightarrow> 's) \<Rightarrow> ('w, 'a) state \<Rightarrow> ('s, 'a) state" where
  "zoom get_w put_w m =
     State (\<lambda>s. case run_state m (get_w s) of (x, w) \<Rightarrow> (x, put_w w s))"

lemma run_state_zoom [simp]:
  "run_state (zoom g p m) s = (case run_state m (g s) of (x, w) \<Rightarrow> (x, p w s))"
  by (simp add: zoom_def)

lemma wp_zoom [wp_simps]: "wp (zoom g p m) Q s = wp m (\<lambda>x w. Q x (p w s)) (g s)"
  by (simp add: wp_def split: prod.splits)

text \<open>A state predicate that an operation keeps whatever it returns.\<close>

definition preserves :: "('s \<Rightarrow> bool) \<Rightarrow> ('s, 'a) state \<Rightarrow> bool" where
  "preserves P m \<longleftrightarrow> (\<forall>s. P s \<longrightarrow> wp m (\<lambda>_. P) s)"

lemma preservesD: "preserves P m \<Longrightarrow> P s \<Longrightarrow> run_state m s = (x, t) \<Longrightarrow> P t"
  by (auto simp: preserves_def wp_def)

lemma pres_return [pres_intros]: "preserves P (State_Monad.return x)"
  by (simp add: preserves_def wp_simps)

lemma pres_get [pres_intros]: "preserves P State_Monad.get"
  by (simp add: preserves_def wp_simps)

lemma pres_bind [pres_intros]:
  "preserves P m \<Longrightarrow> (\<And>x. preserves P (f x)) \<Longrightarrow> preserves P (State_Monad.bind m f)"
  by (fastforce simp: preserves_def wp_simps elim: wp_mono)

lemma pres_update [pres_intros]: "(\<And>s. P s \<Longrightarrow> P (f s)) \<Longrightarrow> preserves P (State_Monad.update f)"
  by (simp add: preserves_def wp_simps)

lemma pres_if [pres_intros]:
  "preserves P m \<Longrightarrow> preserves P n \<Longrightarrow> preserves P (if b then m else n)"
  by simp

lemma pres_option [pres_intros]:
  "preserves P m \<Longrightarrow> (\<And>y. preserves P (f y)) \<Longrightarrow> preserves P (case x of None \<Rightarrow> m | Some y \<Rightarrow> f y)"
  by (cases x) simp_all

lemma pres_prod [pres_intros]: "(\<And>a b. preserves P (f a b)) \<Longrightarrow> preserves P (case x of (a, b) \<Rightarrow> f a b)"
  by (cases x) simp

lemma pres_zoom:
  assumes "preserves P m" and "\<And>s. Q s \<longleftrightarrow> P (g s)" and "\<And>w s. g (p w s) = w"
  shows "preserves Q (zoom g p m)"
  using assms by (auto simp: preserves_def wp_zoom)

section \<open>Lists\<close>

lemma map_of_filter_key:
  "map_of (filter (\<lambda>(k, v). P k) xs) k = (if P k then map_of xs k else None)"
  by (induction xs) auto

lemma list_all2_keys: "list_all2 P xs ys \<Longrightarrow> (\<And>x y. P x y \<Longrightarrow> g y = f x) \<Longrightarrow> map g ys = map f xs"
  by (induction rule: list_all2_induct) auto

end
