(* ===== verification/GoTime.thy ===== *)
theory GoTime
  imports Prelude
begin

text \<open>
  The part of Go's package \<^verbatim>\<open>time\<close> the program uses. A wall-clock instant is the number of
  nanoseconds since \<^verbatim>\<open>0001-01-01T00:00:00Z\<close>, the zero value of \<^verbatim>\<open>time.Time\<close>; a \<^verbatim>\<open>time.Duration\<close> is a
  number of nanoseconds. \<^verbatim>\<open>Sub\<close> saturates at the bounds of \<open>int64\<close>, as Go's does. The text form is
  \<^verbatim>\<open>RFC3339Nano\<close> in UTC; the proleptic Gregorian calendar is computed with the 400-year cycle.
\<close>

section \<open>Instants and durations\<close>

type_synonym gotime = int
type_synonym duration = int

abbreviation nano_per_second :: int where "nano_per_second \<equiv> 1000000000"

definition seconds :: "int \<Rightarrow> duration" where
  "seconds n = n * nano_per_second"

definition minutes :: "int \<Rightarrow> duration" where
  "minutes n = n * 60 * nano_per_second"

definition milliseconds :: "int \<Rightarrow> duration" where
  "milliseconds n = n * 1000000"

lemmas duration_defs = seconds_def minutes_def milliseconds_def

definition IsZero :: "gotime \<Rightarrow> bool" where
  "IsZero t \<longleftrightarrow> t = 0"

definition MinDuration :: duration where "MinDuration = - (2 ^ 63)"
definition MaxDuration :: duration where "MaxDuration = 2 ^ 63 - 1"

definition Sub :: "gotime \<Rightarrow> gotime \<Rightarrow> duration" where
  "Sub t u = max MinDuration (min MaxDuration (t - u))"

lemma Sub_le_iff: "MinDuration \<le> d \<Longrightarrow> d < MaxDuration \<Longrightarrow> Sub t u \<le> d \<longleftrightarrow> t - u \<le> d"
  unfolding Sub_def MinDuration_def MaxDuration_def by auto

lemma Sub_gt_iff: "MinDuration \<le> d \<Longrightarrow> d < MaxDuration \<Longrightarrow> d < Sub t u \<longleftrightarrow> d < t - u"
  using Sub_le_iff [of d t u] by auto

section \<open>Decimal numerals\<close>

text \<open>Duration arithmetic is int64 arithmetic and wraps.\<close>

definition wrap64 :: "int \<Rightarrow> duration" where
  "wrap64 x = sint (word_of_int x :: int64)"

lemma wrap64_id: "MinDuration \<le> x \<Longrightarrow> x \<le> MaxDuration \<Longrightarrow> wrap64 x = x"
  by (simp add: wrap64_def MinDuration_def MaxDuration_def sint_sbintrunc' signed_take_bit_int_eq_self)

definition digit_char :: "nat \<Rightarrow> char" where
  "digit_char d = char_of (48 + d)"

definition digit_val :: "char \<Rightarrow> nat" where
  "digit_val c = of_char c - 48"

definition is_digit :: "char \<Rightarrow> bool" where
  "is_digit c \<longleftrightarrow> 48 \<le> (of_char c :: nat) \<and> (of_char c :: nat) \<le> 57"

lemma of_char_digit_char: "d < 10 \<Longrightarrow> (of_char (digit_char d) :: nat) = 48 + d"
  by (simp add: digit_char_def of_char_of)

lemma digit_val_char [simp]: "d < 10 \<Longrightarrow> digit_val (digit_char d) = d"
  by (simp add: digit_val_def of_char_digit_char)

lemma is_digit_char [simp]: "d < 10 \<Longrightarrow> is_digit (digit_char d)"
  by (simp add: is_digit_def of_char_digit_char)

lemma digit_char_val: "is_digit c \<Longrightarrow> digit_char (digit_val c) = c"
  by (simp add: is_digit_def digit_char_def digit_val_def)

lemma digit_val_less: "is_digit c \<Longrightarrow> digit_val c < 10"
  unfolding is_digit_def digit_val_def by linarith

text \<open>\<open>dig w n\<close> writes \<open>n\<close> with exactly \<open>w\<close> digits; \<open>show_nat n\<close> writes it without leading zeros.\<close>

fun dig :: "nat \<Rightarrow> nat \<Rightarrow> string" where
  "dig 0 n = []"
| "dig (Suc w) n = dig w (n div 10) @ [digit_char (n mod 10)]"

fun show_nat :: "nat \<Rightarrow> string" where
  "show_nat n = (if n < 10 then [digit_char n] else show_nat (n div 10) @ [digit_char (n mod 10)])"

declare show_nat.simps [simp del]

definition dec_val :: "string \<Rightarrow> nat" where
  "dec_val s = foldl (\<lambda>a c. 10 * a + digit_val c) 0 s"

definition digits :: "string \<Rightarrow> bool" where
  "digits s \<longleftrightarrow> list_all is_digit s"

lemma dec_val_snoc [simp]: "dec_val (s @ [c]) = 10 * dec_val s + digit_val c"
  by (simp add: dec_val_def)

lemma dec_val_Nil [simp]: "dec_val [] = 0"
  by (simp add: dec_val_def)

lemma digits_append [simp]: "digits (s @ t) \<longleftrightarrow> digits s \<and> digits t"
  by (simp add: digits_def)

lemma digits_Nil [simp]: "digits []"
  by (simp add: digits_def)

lemma digits_Cons [simp]: "digits (c # s) \<longleftrightarrow> is_digit c \<and> digits s"
  by (simp add: digits_def)

lemma length_dig [simp]: "length (dig w n) = w"
  by (induction w arbitrary: n) auto

lemma digits_dig [simp]: "digits (dig w n)"
  by (induction w arbitrary: n) auto

lemma dec_val_dig: "dec_val (dig w n) = n mod 10 ^ w"
proof (induction w arbitrary: n)
  case 0
  then show ?case by simp
next
  case (Suc w)
  have "n mod (10 * 10 ^ w) = 10 * (n div 10 mod 10 ^ w) + n mod 10"
    by (simp add: mod_mult2_eq)
  with Suc show ?case by simp
qed

lemma digits_show_nat [simp]: "digits (show_nat n)"
  by (induction n rule: show_nat.induct) (subst show_nat.simps, simp)

lemma dec_val_show_nat [simp]: "dec_val (show_nat n) = n"
proof (induction n rule: show_nat.induct)
  case (1 n)
  then show ?case
    by (subst show_nat.simps) (use dec_val_snoc [of "[]"] in simp)
qed

lemma show_nat_nonempty [simp]: "show_nat n \<noteq> []"
  by (subst show_nat.simps) simp

section \<open>The calendar\<close>

definition leap_year :: "int \<Rightarrow> bool" where
  "leap_year y \<longleftrightarrow> 4 dvd y \<and> (\<not> 100 dvd y \<or> 400 dvd y)"

text \<open>Days from \<^verbatim>\<open>0001-01-01\<close> to the first day of year \<open>y\<close>.\<close>

definition days_before_year :: "int \<Rightarrow> int" where
  "days_before_year y =
     365 * (y - 1) + (y - 1) div 4 - (y - 1) div 100 + (y - 1) div 400"

text \<open>Year and day of the year (counted from 0) of a day number.\<close>

definition year_yday :: "int \<Rightarrow> int \<times> int" where
  "year_yday d =
     (let n400 = d div 146097; r = d mod 146097;
          n100 = min 3 (r div 36524); r = r - 36524 * n100;
          n4 = r div 1461; r = r mod 1461;
          n1 = min 3 (r div 365); yday = r - 365 * n1
      in (400 * n400 + 100 * n100 + 4 * n4 + n1 + 1, yday))"

lemma div_pos_unique: "0 \<le> r \<Longrightarrow> r < k \<Longrightarrow> (k * q + r) div k = (q :: int)"
  by simp

lemma div_pos_bounds:
  assumes "0 < (k :: int)"
  shows "k * (x div k) \<le> x" "x < k * (x div k) + k"
proof -
  have "x = k * (x div k) + x mod k" by simp
  moreover have "0 \<le> x mod k" "x mod k < k" using assms by simp_all
  ultimately show "k * (x div k) \<le> x" "x < k * (x div k) + k" by linarith+
qed

lemma year_yday_correct:
  assumes "year_yday d = (y, yd)"
  shows "days_before_year y + yd = d"
    and "0 \<le> yd" and "yd < (if leap_year y then 366 else 365)"
proof -
  define a r0 where "a = d div 146097" and "r0 = d mod 146097"
  define b where "b = min 3 (r0 div 36524)"
  define r1 where "r1 = r0 - 36524 * b"
  define c r2 where "c = r1 div 1461" and "r2 = r1 mod 1461"
  define e where "e = min 3 (r2 div 365)"
  have "(400 * a + 100 * b + 4 * c + e + 1, r2 - 365 * e) = (y, yd)"
    unfolding a_def r0_def b_def r1_def c_def r2_def e_def
    by (rule assms [unfolded year_yday_def Let_def])
  then have y: "y = 400 * a + 100 * b + 4 * c + e + 1" and yd: "yd = r2 - 365 * e"
    by (simp_all only: prod.inject)
  have r0: "0 \<le> r0" "r0 < 146097" and d: "d = 146097 * a + r0"
    by (simp_all add: a_def r0_def)
  have q: "36524 * (r0 div 36524) \<le> r0" "r0 < 36524 * (r0 div 36524) + 36524"
    using div_pos_bounds [of 36524 r0] by simp_all
  have b: "0 \<le> b" "b \<le> 3" "0 \<le> r1" "r1 \<le> 36524" "b < 3 \<longrightarrow> r1 < 36524"
    using r0 q unfolding r1_def b_def min_def by (auto split: if_splits)
  have c': "0 \<le> r2" "r2 < 1461" "r1 = 1461 * c + r2"
    by (simp_all add: c_def r2_def)
  then have c: "0 \<le> c" "c \<le> 24" and c24: "c = 24 \<longrightarrow> b < 3 \<longrightarrow> r2 < 1460"
    using b by linarith+
  have q': "365 * (r2 div 365) \<le> r2" "r2 < 365 * (r2 div 365) + 365"
    using div_pos_bounds [of 365 r2] by simp_all
  have e: "0 \<le> e" "e \<le> 3" "0 \<le> yd" "yd \<le> 365" "e < 3 \<longrightarrow> yd < 365" "r2 = 365 * e + yd"
    using c' q' unfolding yd e_def min_def by (auto split: if_splits)
  have q4: "(y - 1) div 4 = 100 * a + 25 * b + c"
    using div_pos_unique [of e 4 "100 * a + 25 * b + c"] e y by (simp add: algebra_simps)
  have q100: "(y - 1) div 100 = 4 * a + b"
    using div_pos_unique [of "4 * c + e" 100 "4 * a + b"] e c y by (simp add: algebra_simps)
  have q400: "(y - 1) div 400 = a"
    using div_pos_unique [of "100 * b + 4 * c + e" 400 a] e c b y by (simp add: algebra_simps)
  show "days_before_year y + yd = d"
    unfolding days_before_year_def q4 q100 q400 using y d r1_def c' e by simp
  show "0 \<le> yd" by (rule e)
  show "yd < (if leap_year y then 366 else 365)"
  proof (cases "yd = 365")
    case True
    then have e3: "e = 3" using e by linarith
    have cb: "c = 24 \<longrightarrow> b = 3" using c24 e(6) True e3 b by linarith
    have y': "y = 4 * (100 * a + 25 * b + c + 1)" using y e3 by simp
    then have "4 dvd y" by simp
    moreover have "\<not> 100 dvd y \<or> 400 dvd y"
    proof (cases "c = 24")
      case True
      with cb have "y = 400 * (a + 1)" using y e3 by simp
      then show ?thesis by simp
    next
      case False
      then have "c \<le> 23" using c by linarith
      moreover have "y = 100 * (4 * a + b) + (4 * c + 4)" using y' by simp
      ultimately have "y mod 100 = 4 * c + 4"
        using c mod_mult_self4 [of 100 "4 * a + b" "4 * c + 4"] by (simp only: mod_pos_pos_trivial)
      then show ?thesis using c by (simp add: dvd_eq_mod_eq_0)
    qed
    ultimately show ?thesis using e by (simp add: leap_year_def)
  next
    case False
    then show ?thesis using e by simp
  qed
qed

lemma div_Suc_dvd:
  assumes "0 < (k :: int)"
  shows "y div k = (y - 1) div k + (if k dvd y then 1 else 0)"
proof (cases "k dvd y")
  case True
  then obtain q where q: "y = k * q" by blast
  have "(y - 1) div k = (k * (q - 1) + (k - 1)) div k" by (simp add: q algebra_simps)
  also have "\<dots> = q - 1" using assms by (intro div_pos_unique) auto
  finally show ?thesis using q assms True by simp
next
  case False
  then have "y mod k \<noteq> 0" by (simp add: dvd_eq_mod_eq_0)
  moreover have "0 \<le> y mod k" "y mod k < k" using assms by simp_all
  ultimately have r: "1 \<le> y mod k" "y mod k < k" by linarith+
  have "(y - 1) div k = (k * (y div k) + (y mod k - 1)) div k" by (simp add: algebra_simps)
  also have "\<dots> = y div k" using r by (intro div_pos_unique) auto
  finally show ?thesis using False by simp
qed

lemma days_before_year_Suc:
  "days_before_year (y + 1) = days_before_year y + (if leap_year y then 366 else 365)"
proof -
  have "(400 :: int) dvd y \<longrightarrow> 100 dvd y" "(100 :: int) dvd y \<longrightarrow> 4 dvd y"
    using dvd_trans [of 100 400 y] dvd_trans [of 4 100 y] by simp_all
  then have leap: "x + 365 + (if 4 dvd y then 1 else 0) - (if 100 dvd y then 1 else 0)
      + (if 400 dvd y then 1 else 0) = x + (if leap_year y then 366 else 365)" for x :: int
    unfolding leap_year_def
    by (cases "(4 :: int) dvd y"; cases "(100 :: int) dvd y"; cases "(400 :: int) dvd y"; simp only: simp_thms if_True if_False)
  show ?thesis
    unfolding leap [symmetric] days_before_year_def add_diff_cancel_right'
      div_Suc_dvd [of 4 y, OF zero_less_numeral] div_Suc_dvd [of 100 y, OF zero_less_numeral]
      div_Suc_dvd [of 400 y, OF zero_less_numeral]
    by (simp only: algebra_simps)
qed

lemma days_before_year_mono: "y \<le> z \<Longrightarrow> days_before_year y \<le> days_before_year z"
proof (induction z rule: int_ge_induct)
  case (step i)
  then show ?case by (simp add: days_before_year_Suc)
qed simp

lemma year_yday_unique:
  assumes "0 \<le> yd" "yd < (if leap_year y then 366 else 365)"
  shows "year_yday (days_before_year y + yd) = (y, yd)"
proof -
  obtain y' yd' where eq: "year_yday (days_before_year y + yd) = (y', yd')"
    by fastforce
  note c = year_yday_correct [OF eq]
  have b: "days_before_year y \<le> days_before_year y + yd" "days_before_year y + yd < days_before_year (y + 1)"
    using assms by (auto simp: days_before_year_Suc)
  have b': "days_before_year y' \<le> days_before_year y + yd" "days_before_year y + yd < days_before_year (y' + 1)"
    using c by (auto simp: days_before_year_Suc)
  have "y' = y"
  proof (rule ccontr)
    assume "y' \<noteq> y"
    then consider "y + 1 \<le> y'" | "y' + 1 \<le> y" by linarith
    then show False
      using b b' days_before_year_mono by cases fastforce+
  qed
  then show ?thesis using eq c by simp
qed

definition month_lengths :: "bool \<Rightarrow> int list" where
  "month_lengths leap = [31, if leap then 29 else 28, 31, 30, 31, 30, 31, 31, 30, 31, 30, 31]"

fun split_months :: "int list \<Rightarrow> nat \<Rightarrow> int \<Rightarrow> nat \<times> int" where
  "split_months [] m d = (m, d)"
| "split_months (l # ls) m d = (if d < l then (m, d) else split_months ls (Suc m) (d - l))"

definition month_day :: "bool \<Rightarrow> int \<Rightarrow> nat \<times> nat" where
  "month_day leap yd = (case split_months (month_lengths leap) 1 yd of (m, d) \<Rightarrow> (m, nat d + 1))"

definition days_before_month :: "bool \<Rightarrow> nat \<Rightarrow> int" where
  "days_before_month leap m = sum_list (take (m - 1) (month_lengths leap))"

definition days_in_month :: "bool \<Rightarrow> nat \<Rightarrow> nat" where
  "days_in_month leap m = nat (month_lengths leap ! (m - 1))"

lemma split_months_correct:
  assumes "split_months ls m d = (m', d')" "0 \<le> d" "d < sum_list ls"
  shows "m \<le> m' \<and> m' < m + length ls \<and> 0 \<le> d' \<and> d' < ls ! (m' - m) \<and>
    d = sum_list (take (m' - m) ls) + d'"
  using assms
proof (induction ls m d rule: split_months.induct)
  case (2 l ls m d)
  show ?case
  proof (cases "d < l")
    case True
    with 2 show ?thesis by simp
  next
    case False
    with 2 have "Suc m \<le> m' \<and> m' < Suc m + length ls \<and> 0 \<le> d' \<and> d' < ls ! (m' - Suc m) \<and>
        d - l = sum_list (take (m' - Suc m) ls) + d'"
      by simp
    moreover obtain k where "m' = Suc m + k"
      using calculation by (auto simp: le_iff_add)
    ultimately show ?thesis by simp
  qed
qed simp

lemma month_day_correct:
  assumes "month_day leap yd = (m, d)" "0 \<le> yd" "yd < (if leap then 366 else 365)"
  shows "1 \<le> m \<and> m \<le> 12 \<and> 1 \<le> d \<and> d \<le> days_in_month leap m \<and>
    days_before_month leap m + int d - 1 = yd"
proof -
  obtain m' d' where s: "split_months (month_lengths leap) 1 yd = (m', d')"
    by fastforce
  have "yd < sum_list (month_lengths leap)"
    using assms(3) by (simp add: month_lengths_def split: if_splits)
  from split_months_correct [OF s assms(2) this] s assms(1)
  show ?thesis
    by (auto simp: month_day_def days_in_month_def days_before_month_def month_lengths_def)
qed

lemma month_lengths_le: "1 \<le> m \<Longrightarrow> m \<le> 12 \<Longrightarrow> days_in_month leap m \<le> 31"
proof -
  assume "1 \<le> m" "m \<le> 12"
  then have "m - 1 < length (month_lengths leap)" by (simp add: month_lengths_def)
  then have "month_lengths leap ! (m - 1) \<in> set (month_lengths leap)" by (rule nth_mem)
  then show ?thesis by (auto simp: days_in_month_def month_lengths_def split: if_splits)
qed

definition day_nanos :: int where "day_nanos = 86400 * nano_per_second"

definition Year :: "gotime \<Rightarrow> int" where
  "Year t = fst (year_yday (t div day_nanos))"

text \<open>
  The year is at least \<open>y\<close> exactly from the first nanosecond of that year on. In particular the
  years 1 to 9999 the code admits are one interval of instants.
\<close>

lemma Year_ge_iff: "y \<le> Year t \<longleftrightarrow> days_before_year y * day_nanos \<le> t"
proof -
  obtain y' yd where eq: "year_yday (t div day_nanos) = (y', yd)"
    by fastforce
  note c = year_yday_correct [OF eq]
  have b: "days_before_year y' \<le> t div day_nanos" "t div day_nanos < days_before_year (y' + 1)"
    using c by (auto simp: days_before_year_Suc)
  have "y \<le> y' \<longleftrightarrow> days_before_year y \<le> t div day_nanos"
  proof
    assume "y \<le> y'"
    then show "days_before_year y \<le> t div day_nanos"
      using b days_before_year_mono order_trans by blast
  next
    assume le: "days_before_year y \<le> t div day_nanos"
    show "y \<le> y'"
    proof (rule ccontr)
      assume "\<not> y \<le> y'"
      then have "days_before_year (y' + 1) \<le> days_before_year y"
        by (intro days_before_year_mono) simp
      with b le show False by linarith
    qed
  qed
  moreover have "days_before_year y \<le> t div day_nanos \<longleftrightarrow> days_before_year y * day_nanos \<le> t"
    using div_pos_bounds [of day_nanos t] by (auto simp: day_nanos_def)
  ultimately show ?thesis
    by (simp add: Year_def eq)
qed

section \<open>The text form RFC3339Nano\<close>

text \<open>
  \<open>trim0\<close> drops trailing zeros, so that a fraction of a second is written with as few digits as it
  needs and not at all when it is zero.
\<close>

definition trim0 :: "string \<Rightarrow> string" where
  "trim0 s = rev (dropWhile (\<lambda>c. c = CHR ''0'') (rev s))"

definition fraction :: "nat \<Rightarrow> string" where
  "fraction ns = (let f = trim0 (dig 9 ns) in if f = [] then [] else CHR ''.'' # f)"

definition year_text :: "int \<Rightarrow> string" where
  "year_text y =
     (if y < 0 then CHR ''-'' # (if - y < 10000 then dig 4 (nat (- y)) else show_nat (nat (- y)))
      else if y < 10000 then dig 4 (nat y) else show_nat (nat y))"

text \<open>\<^verbatim>\<open>t.UTC().Format(time.RFC3339Nano)\<close>.\<close>

definition rfc3339nano :: "gotime \<Rightarrow> string" where
  "rfc3339nano t =
     (let (y, yd) = year_yday (t div day_nanos);
          (mo, d) = month_day (leap_year y) yd;
          sod = nat ((t mod day_nanos) div nano_per_second);
          ns = nat (t mod nano_per_second)
      in year_text y @ ''-'' @ dig 2 mo @ ''-'' @ dig 2 d @ ''T'' @
         dig 2 (sod div 3600) @ '':'' @ dig 2 (sod div 60 mod 60) @ '':'' @ dig 2 (sod mod 60) @
         fraction ns @ ''Z'')"

definition field :: "string \<Rightarrow> nat \<Rightarrow> nat \<Rightarrow> string" where
  "field s i n = take n (drop i s)"

definition fraction_ok :: "string \<Rightarrow> bool" where
  "fraction_ok f \<longleftrightarrow> f = [] \<or>
     (hd f = CHR ''.'' \<and> 2 \<le> length f \<and> length f \<le> 10 \<and> digits (tl f) \<and> last f \<noteq> CHR ''0'')"

definition fraction_val :: "string \<Rightarrow> nat" where
  "fraction_val f = dec_val (take 9 (tl f @ replicate 9 (CHR ''0'')))"

text \<open>
  \<^verbatim>\<open>time.Parse(time.RFC3339Nano, s)\<close> on the texts that \<^verbatim>\<open>Format\<close> writes. Go's parser also accepts other
  spellings (a numeric offset, trailing zeros of a fraction); every caller in the program formats
  the parsed instant again and refuses a text that differs, so that such a spelling is refused in
  either case, here already by the parser.
\<close>

definition rfc3339nano_parse :: "string \<Rightarrow> gotime option" where
  "rfc3339nano_parse s =
     (let y = dec_val (field s 0 4); mo = dec_val (field s 5 2); d = dec_val (field s 8 2);
          h = dec_val (field s 11 2); mi = dec_val (field s 14 2); se = dec_val (field s 17 2);
          f = butlast (drop 19 s); leap = leap_year (int y)
      in if 20 \<le> length s
          \<and> digits (field s 0 4) \<and> digits (field s 5 2) \<and> digits (field s 8 2)
          \<and> digits (field s 11 2) \<and> digits (field s 14 2) \<and> digits (field s 17 2)
          \<and> field s 4 1 = ''-'' \<and> field s 7 1 = ''-'' \<and> field s 10 1 = ''T''
          \<and> field s 13 1 = '':'' \<and> field s 16 1 = '':'' \<and> last s = CHR ''Z''
          \<and> 1 \<le> mo \<and> mo \<le> 12 \<and> 1 \<le> d \<and> d \<le> days_in_month leap mo
          \<and> h < 24 \<and> mi < 60 \<and> se < 60 \<and> fraction_ok f
        then Some ((days_before_year (int y) + days_before_month leap mo + int d - 1) * day_nanos
               + int ((h * 60 + mi) * 60 + se) * nano_per_second + int (fraction_val f))
        else None)"

lemma trim0_pad: "trim0 s @ replicate (length s - length (trim0 s)) (CHR ''0'') = s"
proof (induction s rule: rev_induct)
  case (snoc c s)
  have le: "length (trim0 s) \<le> length s"
    by (simp add: trim0_def) (metis length_dropWhile_le length_rev)
  show ?case
  proof (cases "c = CHR ''0''")
    case True
    then have "trim0 (s @ [c]) = trim0 s" by (simp add: trim0_def)
    moreover have "Suc (length s) - length (trim0 s) = Suc (length s - length (trim0 s))"
      using le by (rule Suc_diff_le)
    ultimately show ?thesis
      using snoc True by (simp add: replicate_append_same [symmetric] del: replicate_append_same)
  next
    case False
    then show ?thesis by (simp add: trim0_def)
  qed
qed (simp add: trim0_def)

lemma trim0_last: "trim0 s \<noteq> [] \<Longrightarrow> last (trim0 s) \<noteq> CHR ''0''"
  unfolding trim0_def using hd_dropWhile [of "\<lambda>c. c = CHR ''0''" "rev s"] by (simp add: last_rev)

lemma trim0_length: "length (trim0 s) \<le> length s"
  by (simp add: trim0_def) (metis length_dropWhile_le length_rev)

lemma digits_trim0: "digits s \<Longrightarrow> digits (trim0 s)"
  using trim0_pad [of s] by (metis digits_append)

lemma fraction_roundtrip:
  assumes "ns < 10 ^ 9"
  shows "fraction_ok (fraction ns)" "fraction_val (fraction ns) = ns"
proof -
  let ?f = "trim0 (dig 9 ns)"
  have len: "length ?f \<le> 9" using trim0_length [of "dig 9 ns"] by simp
  have pad: "?f @ replicate (9 - length ?f) (CHR ''0'') = dig 9 ns"
    using trim0_pad [of "dig 9 ns"] by simp
  have val: "dec_val (dig 9 ns) = ns" using assms by (simp add: dec_val_dig)
  show "fraction_ok (fraction ns)"
    using len trim0_last [of "dig 9 ns"] digits_trim0 [of "dig 9 ns"]
    by (auto simp: fraction_ok_def fraction_def Let_def Suc_le_eq)
  have "take 9 (?f @ replicate 9 (CHR ''0'')) = ?f @ replicate (9 - length ?f) (CHR ''0'')"
    using len by (simp add: min_def)
  then have "fraction_val (CHR ''.'' # ?f) = ns"
    unfolding fraction_val_def using pad val by simp
  moreover have "?f = [] \<Longrightarrow> fraction_val [] = ns"
    using pad val unfolding fraction_val_def by simp
  ultimately show "fraction_val (fraction ns) = ns"
    by (simp add: fraction_def Let_def)
qed

definition four_digit_year :: "gotime \<Rightarrow> bool" where
  "four_digit_year t \<longleftrightarrow> 0 \<le> Year t \<and> Year t \<le> 9999"

text \<open>The civil fields of an instant with a four-digit year, and what they add up to.\<close>

lemma civil_fields:
  assumes "four_digit_year t"
  obtains y mo d h mi se ns where
    "rfc3339nano t = dig 4 y @ ''-'' @ dig 2 mo @ ''-'' @ dig 2 d @ ''T'' @ dig 2 h @ '':'' @
       dig 2 mi @ '':'' @ dig 2 se @ fraction ns @ ''Z''"
    and "y < 10000" "1 \<le> mo" "mo \<le> 12" "1 \<le> d" "d \<le> days_in_month (leap_year (int y)) mo"
    and "h < 24" "mi < 60" "se < 60" "ns < 10 ^ 9"
    and "t = (days_before_year (int y) + days_before_month (leap_year (int y)) mo + int d - 1) * day_nanos
           + int ((h * 60 + mi) * 60 + se) * nano_per_second + int ns"
proof -
  obtain y yd where yy: "year_yday (t div day_nanos) = (y, yd)" by fastforce
  obtain mo d where md: "month_day (leap_year y) yd = (mo, d)" by fastforce
  define sod where "sod = nat ((t mod day_nanos) div nano_per_second)"
  define ns where "ns = nat (t mod nano_per_second)"
  have y: "0 \<le> y" "y < 10000" using assms yy by (simp_all add: four_digit_year_def Year_def)
  note yc = year_yday_correct [OF yy]
  note mc = month_day_correct [OF md yc(2,3)]
  have r: "0 \<le> t mod day_nanos" "t mod day_nanos < day_nanos" by (simp_all add: day_nanos_def)
  have "t mod day_nanos mod nano_per_second = t mod nano_per_second"
    by (simp add: day_nanos_def mod_mod_cancel)
  then have split: "t mod day_nanos = (t mod day_nanos) div nano_per_second * nano_per_second + t mod nano_per_second"
    using div_mult_mod_eq [of "t mod day_nanos" nano_per_second] by simp
  have sod: "int sod = (t mod day_nanos) div nano_per_second" "sod < 86400"
    using r by (auto simp: sod_def day_nanos_def pos_imp_zdiv_nonneg_iff)
  have ns: "int ns = t mod nano_per_second" "ns < 10 ^ 9" by (auto simp: ns_def nat_less_iff)
  have hms: "(sod div 3600 * 60 + sod div 60 mod 60) * 60 + sod mod 60 = sod"
    using div_mult2_eq [of sod 60 60] by simp
  have t: "t = t div day_nanos * day_nanos + int sod * nano_per_second + int ns"
    unfolding sod(1) ns(1) using split div_mult_mod_eq [of t day_nanos] by linarith
  have days: "t div day_nanos = days_before_year y + days_before_month (leap_year y) mo + int d - 1"
    using yc(1) mc by simp
  show thesis
  proof (rule that [of "nat y" mo d "sod div 3600" "sod div 60 mod 60" "sod mod 60" ns])
    show "rfc3339nano t = dig 4 (nat y) @ ''-'' @ dig 2 mo @ ''-'' @ dig 2 d @ ''T'' @
        dig 2 (sod div 3600) @ '':'' @ dig 2 (sod div 60 mod 60) @ '':'' @ dig 2 (sod mod 60) @
        fraction ns @ ''Z''"
      using yy md y by (simp add: rfc3339nano_def sod_def ns_def year_text_def Let_def)
    show "t = (days_before_year (int (nat y)) + days_before_month (leap_year (int (nat y))) mo + int d - 1) * day_nanos
        + int ((sod div 3600 * 60 + sod div 60 mod 60) * 60 + sod mod 60) * nano_per_second + int ns"
      unfolding hms using y t days by simp
  qed (use y mc sod ns in auto)
qed

lemma rfc3339nano_roundtrip:
  assumes "four_digit_year t"
  shows "rfc3339nano_parse (rfc3339nano t) = Some t"
proof -
  obtain y mo d h mi se ns where
    tx: "rfc3339nano t = dig 4 y @ ''-'' @ dig 2 mo @ ''-'' @ dig 2 d @ ''T'' @ dig 2 h @ '':'' @
       dig 2 mi @ '':'' @ dig 2 se @ fraction ns @ ''Z''"
    and b: "y < 10000" "1 \<le> mo" "mo \<le> 12" "1 \<le> d" "d \<le> days_in_month (leap_year (int y)) mo"
      "h < 24" "mi < 60" "se < 60" "ns < 10 ^ 9"
    and t: "t = (days_before_year (int y) + days_before_month (leap_year (int y)) mo + int d - 1) * day_nanos
           + int ((h * 60 + mi) * 60 + se) * nano_per_second + int ns"
    using civil_fields [OF assms] by blast
  have d31: "d \<le> 31" using b month_lengths_le order_trans by blast
  have v: "dec_val (dig 4 y) = y" "dec_val (dig 2 mo) = mo" "dec_val (dig 2 d) = d"
    "dec_val (dig 2 h) = h" "dec_val (dig 2 mi) = mi" "dec_val (dig 2 se) = se"
    using b d31 by (simp_all add: dec_val_dig)
  have f: "field (rfc3339nano t) 0 4 = dig 4 y" "field (rfc3339nano t) 5 2 = dig 2 mo"
    "field (rfc3339nano t) 8 2 = dig 2 d" "field (rfc3339nano t) 11 2 = dig 2 h"
    "field (rfc3339nano t) 14 2 = dig 2 mi" "field (rfc3339nano t) 17 2 = dig 2 se"
    "field (rfc3339nano t) 4 1 = ''-''" "field (rfc3339nano t) 7 1 = ''-''"
    "field (rfc3339nano t) 10 1 = ''T''" "field (rfc3339nano t) 13 1 = '':''"
    "field (rfc3339nano t) 16 1 = '':''"
    "butlast (drop 19 (rfc3339nano t)) = fraction ns" "last (rfc3339nano t) = CHR ''Z''"
    "20 \<le> length (rfc3339nano t)"
    unfolding tx field_def by (simp_all del: dig.simps)
  show ?thesis
    unfolding rfc3339nano_parse_def Let_def f v
    by (simp only: b f(14) fraction_roundtrip [OF b(9)] digits_dig t [symmetric] simp_thms if_True)
qed

lemma length_show_nat: "10 ^ n \<le> k \<Longrightarrow> n < length (show_nat k)"
proof (induction n arbitrary: k)
  case 0
  have "show_nat k \<noteq> []" by simp
  then show ?case by simp
next
  case (Suc n)
  then have "10 \<le> k" using order_trans [of 10 "10 * 10 ^ n" k] by simp
  moreover have "10 ^ n \<le> k div 10"
    using Suc.prems by (simp add: less_eq_div_iff_mult_less_eq mult.commute)
  ultimately show ?case
    using Suc.IH [of "k div 10"] by (subst show_nat.simps) simp
qed

text \<open>An instant outside the four-digit years has a text that does not parse.\<close>

lemma year_text_shape:
  assumes x: "x = year_text y @ ''-'' @ rest" and p: "digits (field x 0 4)" "field x 4 1 = ''-''"
  shows "0 \<le> y \<and> y \<le> 9999"
proof (rule ccontr)
  assume no: "\<not> (0 \<le> y \<and> y \<le> 9999)"
  show False
  proof (cases "y < 0")
    case True
    then obtain ys where "year_text y = CHR ''-'' # ys" by (simp only: year_text_def if_True)
    then have "field x 0 4 = CHR ''-'' # take 3 (ys @ ''-'' @ rest)" unfolding x by (simp add: field_def take_Cons')
    with p(1) show False by (simp add: is_digit_def)
  next
    case False
    with no have y: "year_text y = show_nat (nat y)" and "10 ^ 4 \<le> nat y" by (simp_all add: year_text_def)
    then have len: "4 < length (show_nat (nat y))" by (intro length_show_nat)
    then have "field x 4 1 = [show_nat (nat y) ! 4]"
      unfolding x y field_def by (simp add: take_Suc hd_drop_conv_nth nth_append)
    moreover have "is_digit (show_nat (nat y) ! 4)"
      using digits_show_nat [of "nat y"] len by (simp add: digits_def list_all_length)
    ultimately show False using p(2) by (simp add: is_digit_def)
  qed
qed

lemma rfc3339nano_parse_exact:
  assumes "rfc3339nano_parse (rfc3339nano t) = Some u"
  shows "u = t \<and> four_digit_year t"
proof -
  obtain rest where tx: "rfc3339nano t = year_text (Year t) @ ''-'' @ rest"
    by (cases "year_yday (t div day_nanos)";
        cases "month_day (leap_year (fst (year_yday (t div day_nanos)))) (snd (year_yday (t div day_nanos)))")
       (simp add: rfc3339nano_def Year_def Let_def)
  have "digits (field (rfc3339nano t) 0 4)" "field (rfc3339nano t) 4 1 = ''-''"
    using assms by (auto simp: rfc3339nano_parse_def Let_def split: if_splits)
  then have "four_digit_year t" using year_text_shape [OF tx] by (simp add: four_digit_year_def)
  with assms show ?thesis using rfc3339nano_roundtrip by simp
qed

lemma rfc3339nano_length:
  assumes "four_digit_year t"
  shows "20 \<le> length (rfc3339nano t) \<and> length (rfc3339nano t) \<le> 30"
proof -
  obtain y mo d h mi se ns where
    tx: "rfc3339nano t = dig 4 y @ ''-'' @ dig 2 mo @ ''-'' @ dig 2 d @ ''T'' @ dig 2 h @ '':'' @
       dig 2 mi @ '':'' @ dig 2 se @ fraction ns @ ''Z''"
    using civil_fields [OF assms] by metis
  have "length (fraction ns) \<le> 10"
    using trim0_length [of "dig 9 ns"] by (simp add: fraction_def Let_def del: dig.simps)
  then show ?thesis unfolding tx by (simp del: dig.simps)
qed

lemma rfc3339nano_inject:
  assumes "four_digit_year t" "four_digit_year u" "rfc3339nano t = rfc3339nano u"
  shows "t = u"
  using assms rfc3339nano_roundtrip by (metis option.inject)

lemma year_interval:
  "Year t < 1 \<longleftrightarrow> t < 0" "9999 < Year t \<longleftrightarrow> 3652059 * day_nanos \<le> t"
proof -
  have "days_before_year 1 = 0" "days_before_year 10000 = 3652059"
    by (simp_all add: days_before_year_def)
  with Year_ge_iff [of 1 t] Year_ge_iff [of 10000 t]
  show "Year t < 1 \<longleftrightarrow> t < 0" "9999 < Year t \<longleftrightarrow> 3652059 * day_nanos \<le> t"
    by (auto simp: not_le [symmetric])
qed

end
