(* ===== verification/Sha256.thy ===== *)
theory Sha256
  imports Prelude
begin

text \<open>
  The hash function of Go's package \<^verbatim>\<open>crypto/sha256\<close>, written from FIPS 180-4 on 32-bit words:
  padding, message schedule, the 64 rounds and the digest of 32 bytes. The components bind records
  to their digests with it; no property of the development assumes that it has no collisions.
\<close>

unbundle bit_operations_syntax

text \<open>
  The constants are defined as the standard derives them: the first 32 bits of the fractional parts
  of the cube roots of the first 64 primes, and of the square roots of the first eight. The integer
  roots are built bit by bit, from the highest of 35 bits.
\<close>

fun root_bits :: "(int \<Rightarrow> int) \<Rightarrow> int \<Rightarrow> int \<Rightarrow> int list \<Rightarrow> int" where
  "root_bits pow x r [] = r"
| "root_bits pow x r (b # bs) =
     (if pow (r + b) \<le> x then root_bits pow x (r + b) bs else root_bits pow x r bs)"

definition bits35 :: "int list" where
  "bits35 = map ((^) 2) (rev [0..<35])"

definition square :: "int \<Rightarrow> int" where "square r = r * r"
definition cube :: "int \<Rightarrow> int" where "cube r = r * r * r"

definition cube_root_fraction :: "int \<Rightarrow> uint32" where
  "cube_root_fraction p = word_of_int (root_bits cube (p * 2 ^ 96) 0 bits35)"

definition square_root_fraction :: "int \<Rightarrow> uint32" where
  "square_root_fraction p = word_of_int (root_bits square (p * 2 ^ 64) 0 bits35)"

definition small_primes :: "int list" where
  "small_primes =
    [2, 3, 5, 7, 11, 13, 17, 19, 23, 29, 31, 37, 41, 43, 47, 53,
     59, 61, 67, 71, 73, 79, 83, 89, 97, 101, 103, 107, 109, 113, 127, 131,
     137, 139, 149, 151, 157, 163, 167, 173, 179, 181, 191, 193, 197, 199, 211, 223,
     227, 229, 233, 239, 241, 251, 257, 263, 269, 271, 277, 281, 283, 293, 307, 311]"

definition sha256_k :: "uint32 list" where
  "sha256_k = map cube_root_fraction small_primes"

definition sha256_h0 :: "uint32 list" where
  "sha256_h0 = map square_root_fraction (take 8 small_primes)"

definition be_bytes :: "nat \<Rightarrow> 'a::len word \<Rightarrow> bytes" where
  "be_bytes n w = map (\<lambda>i. ucast (drop_bit (8 * i) w)) (rev [0..<n])"

definition be_word :: "bytes \<Rightarrow> uint32" where
  "be_word bs = foldl (\<lambda>a b. push_bit 8 a OR ucast b) 0 bs"

definition sha256_pad :: "bytes \<Rightarrow> bytes" where
  "sha256_pad m =
     m @ [0x80] @ replicate ((119 - length m mod 64) mod 64) 0
       @ be_bytes 8 (of_nat (8 * length m) :: uint64)"

definition small_sigma0 :: "uint32 \<Rightarrow> uint32" where
  "small_sigma0 x = word_rotr 7 x XOR word_rotr 18 x XOR drop_bit 3 x"

definition small_sigma1 :: "uint32 \<Rightarrow> uint32" where
  "small_sigma1 x = word_rotr 17 x XOR word_rotr 19 x XOR drop_bit 10 x"

definition big_sigma0 :: "uint32 \<Rightarrow> uint32" where
  "big_sigma0 x = word_rotr 2 x XOR word_rotr 13 x XOR word_rotr 22 x"

definition big_sigma1 :: "uint32 \<Rightarrow> uint32" where
  "big_sigma1 x = word_rotr 6 x XOR word_rotr 11 x XOR word_rotr 25 x"

text \<open>The message schedule, newest word first.\<close>

fun sha256_schedule :: "nat \<Rightarrow> uint32 list \<Rightarrow> uint32 list" where
  "sha256_schedule 0 ws = ws"
| "sha256_schedule (Suc n) ws =
     sha256_schedule n
       ((small_sigma1 (ws ! 1) + ws ! 6 + small_sigma0 (ws ! 14) + ws ! 15) # ws)"

type_synonym sha256_state =
  "uint32 \<times> uint32 \<times> uint32 \<times> uint32 \<times> uint32 \<times> uint32 \<times> uint32 \<times> uint32"

fun sha256_round :: "uint32 \<times> uint32 \<Rightarrow> sha256_state \<Rightarrow> sha256_state" where
  "sha256_round (k, w) (a, b, c, d, e, f, g, h) =
     (let t1 = h + big_sigma1 e + ((e AND f) XOR (NOT e AND g)) + k + w;
          t2 = big_sigma0 a + ((a AND b) XOR (a AND c) XOR (b AND c))
      in (t1 + t2, a, b, c, d + t1, e, f, g))"

fun sha256_words :: "nat \<Rightarrow> bytes \<Rightarrow> uint32 list" where
  "sha256_words 0 bs = []"
| "sha256_words (Suc n) bs = be_word (take 4 bs) # sha256_words n (drop 4 bs)"

fun sha256_tuple :: "uint32 list \<Rightarrow> sha256_state" where
  "sha256_tuple hs = (hs ! 0, hs ! 1, hs ! 2, hs ! 3, hs ! 4, hs ! 5, hs ! 6, hs ! 7)"

fun sha256_list :: "sha256_state \<Rightarrow> uint32 list" where
  "sha256_list (a, b, c, d, e, f, g, h) = [a, b, c, d, e, f, g, h]"

definition sha256_block :: "bytes \<Rightarrow> uint32 list \<Rightarrow> uint32 list" where
  "sha256_block blk hs =
     (let ws = rev (sha256_schedule 48 (rev (sha256_words 16 blk)))
      in map2 (+) hs (sha256_list (fold sha256_round (zip sha256_k ws) (sha256_tuple hs))))"

fun sha256_blocks :: "nat \<Rightarrow> bytes \<Rightarrow> uint32 list \<Rightarrow> uint32 list" where
  "sha256_blocks 0 bs hs = hs"
| "sha256_blocks (Suc n) bs hs = sha256_blocks n (drop 64 bs) (sha256_block (take 64 bs) hs)"

definition sha256 :: "bytes \<Rightarrow> bytes" where
  "sha256 m =
     (let p = sha256_pad m
      in concat (map (be_bytes 4) (sha256_blocks (length p div 64) p sha256_h0)))"

lemma length_be_bytes [simp]: "length (be_bytes n w) = n"
  by (simp add: be_bytes_def)

lemma length_sha256_list [simp]: "length (sha256_list s) = 8"
  by (cases s) auto

lemma length_sha256_block [simp]: "length hs = 8 \<Longrightarrow> length (sha256_block blk hs) = 8"
  by (simp add: sha256_block_def Let_def)

lemma length_sha256_blocks: "length hs = 8 \<Longrightarrow> length (sha256_blocks n bs hs) = 8"
  by (induction n bs hs rule: sha256_blocks.induct) auto

lemma length_concat_const: "(\<And>x. x \<in> set xs \<Longrightarrow> length (f x) = n) \<Longrightarrow> length (concat (map f xs)) = n * length xs"
  by (induction xs) auto

lemma length_sha256 [simp]: "length (sha256 m) = 32"
proof -
  have "length (sha256_blocks n p sha256_h0) = 8" for n p
    by (rule length_sha256_blocks) (simp add: sha256_h0_def small_primes_def)
  then show ?thesis
    by (simp add: sha256_def Let_def length_concat_const [of _ _ 4])
qed

text \<open>The first test vector of FIPS 180-4, evaluated by the kernel.\<close>

lemma sha256_abc:
  "sha256 (bytes_of ''abc'') =
    [0xba, 0x78, 0x16, 0xbf, 0x8f, 0x01, 0xcf, 0xea, 0x41, 0x41, 0x40, 0xde, 0x5d, 0xae, 0x22, 0x23,
     0xb0, 0x03, 0x61, 0xa3, 0x96, 0x17, 0x7a, 0x9c, 0xb4, 0x10, 0xff, 0x61, 0xf2, 0x00, 0x15, 0xad]"
  by code_simp

end
