(* ===== verification/UploadState.thy ===== *)
theory UploadState
  imports GoTime Sha256
begin

text \<open>
  The upload admission machine, \<^verbatim>\<open>internal/uploadstate\<close>. \<open>Step\<close> decides what one attempt does: it loads
  the durable record, retires a stale pending snapshot, reserves the next sequence number for a
  fresh one, commits that reservation and only then sends it. The collaborators (context, clock,
  source, transport, ledger) are operations on a world \<open>'w\<close>; the validators of the snapshot
  documents (\<^verbatim>\<open>remoteprojection\<close>, \<^verbatim>\<open>combinedprojection\<close>) are functions the model is given.
\<close>

section \<open>Data\<close>

datatype upload_err = ErrConfig | ErrRecovery | ErrCanceled | ErrBusy | ErrSnapshot

definition MaxAge :: duration where "MaxAge = minutes 2"
definition MaxFuture :: duration where "MaxFuture = seconds 30"

text \<open>The closed outcomes; \<open>OtherOutcome\<close> is any other string an adapter might report.\<close>

datatype outcome =
    NoOutcome | Idle | SourceUnavailable | Retry | RateLimited | Acknowledged | Expired | ClockSkew
  | CredentialRejected | Conflict | Rejected | Exhausted | OtherOutcome string

record upload_binding =
  ub_ServerID :: string
  ub_ConnectorID :: string

type_synonym profile_kind = uint8

definition NumericProfile :: profile_kind where "NumericProfile = 0"
definition RichProcessesProfile :: profile_kind where "RichProcessesProfile = 1"
definition RichProcessesDockerProfile :: profile_kind where "RichProcessesDockerProfile = 2"

lemmas profile_kind_defs = NumericProfile_def RichProcessesProfile_def RichProcessesDockerProfile_def

record profile_binding =
  pb_Kind :: profile_kind
  pb_PolicyDigest :: bytes

record pending =
  pd_Sequence :: int64
  pd_Body :: bytes
  pd_Digest :: bytes
  pd_CollectedAt :: gotime

record upload_record =
  ur_Binding :: upload_binding
  ur_Profile :: profile_binding
  ur_Watermark :: int64
  ur_HasAck :: bool
  ur_LastAck :: bytes
  ur_Pending :: "pending option"
  ur_Stopped :: outcome

record upload_request =
  rq_Binding :: upload_binding
  rq_Sequence :: int64
  rq_Body :: bytes

record upload_response =
  rs_Outcome :: outcome
  rs_ServerID :: string
  rs_Sequence :: int64

text \<open>
  What the document validators return: the collection time of an accepted body for a server, and
  the two group flags \<^verbatim>\<open>json.Unmarshal\<close> extracts from a combined body.
\<close>

record projections =
  pj_UploadCollectionTime :: "bytes \<Rightarrow> string \<Rightarrow> gotime option"
  pj_CollectionTime :: "bytes \<Rightarrow> string \<Rightarrow> gotime option"
  pj_groups :: "bytes \<Rightarrow> (bool \<times> bool) option"

text \<open>The interfaces \<^verbatim>\<open>Source\<close>, \<^verbatim>\<open>Clock\<close>, \<^verbatim>\<open>Transport\<close>, \<^verbatim>\<open>Ledger\<close> and the context; \<open>None\<close> and \<open>False\<close> are errors.\<close>

record 'w upload_deps =
  d_ctx_err :: "('w, bool) state"
  d_read :: "string \<Rightarrow> ('w, bytes option) state"
  d_now :: "('w, gotime) state"
  d_send :: "upload_request \<Rightarrow> ('w, upload_response option \<times> bool) state"
  d_load :: "('w, upload_record option) state"
  d_commit :: "upload_record \<Rightarrow> upload_record \<Rightarrow> ('w, bool) state"

record 'w machine =
  m_busy :: bool
  m_record :: "upload_record option"
  m_recovery :: bool
  m_world :: 'w

section \<open>Profiles and validation\<close>

definition zero_digest :: bytes where "zero_digest = replicate 32 0"

definition numeric_profile :: profile_binding where
  "numeric_profile = \<lparr>pb_Kind = NumericProfile, pb_PolicyDigest = zero_digest\<rparr>"

definition validProfile :: "profile_binding \<Rightarrow> bool" where
  "validProfile p =
     (if pb_Kind p = NumericProfile then pb_PolicyDigest p = zero_digest
      else if pb_Kind p = RichProcessesProfile \<or> pb_Kind p = RichProcessesDockerProfile
      then pb_PolicyDigest p \<noteq> zero_digest
      else False)"

definition maxBodyBytes :: "profile_binding \<Rightarrow> nat" where
  "maxBodyBytes p =
     (if pb_Kind p = RichProcessesProfile \<or> pb_Kind p = RichProcessesDockerProfile
      then 288 * 1024 else 16 * 1024)"

definition collectionTime :: "projections \<Rightarrow> bytes \<Rightarrow> string \<Rightarrow> profile_binding \<Rightarrow> gotime option" where
  "collectionTime pj body server p =
     (if \<not> validProfile p \<or> length body = 0 \<or> maxBodyBytes p < length body then None
      else if pb_Kind p = NumericProfile then pj_UploadCollectionTime pj body server
      else case pj_CollectionTime pj body server of
          None \<Rightarrow> None
        | Some at \<Rightarrow>
            (case pj_groups pj body of
               None \<Rightarrow> None
             | Some (processes, containers) \<Rightarrow>
                 if \<not> processes \<or> containers \<noteq> (pb_Kind p = RichProcessesDockerProfile) then None
                 else Some at))"

definition validBinding :: "upload_binding \<Rightarrow> bool" where
  "validBinding b \<longleftrightarrow>
     prefixed_hex (ub_ServerID b) ''srv_'' 32 \<and> prefixed_hex (ub_ConnectorID b) ''agent_'' 32"

definition validRecord :: "projections \<Rightarrow> upload_record \<Rightarrow> upload_binding \<Rightarrow> profile_binding \<Rightarrow> bool" where
  "validRecord pj r b p =
     (if ur_Binding r \<noteq> b \<or> sint (ur_Watermark r) < 0
         \<or> (\<not> ur_HasAck r \<and> ur_LastAck r \<noteq> zero_digest)
         \<or> (ur_HasAck r \<and> ur_Watermark r = 0) then False
      else if ur_Stopped r \<noteq> NoOutcome \<and> ur_Stopped r \<noteq> CredentialRejected \<and> ur_Stopped r \<noteq> Conflict
         \<and> ur_Stopped r \<noteq> Rejected \<and> ur_Stopped r \<noteq> Exhausted then False
      else if ur_Stopped r = Exhausted \<and> (ur_Watermark r \<noteq> MaxInt64 \<or> ur_Pending r \<noteq> None) then False
      else case ur_Pending r of
          None \<Rightarrow> True
        | Some q \<Rightarrow>
            (case collectionTime pj (pd_Body q) (ub_ServerID b) p of
               None \<Rightarrow> False
             | Some at \<Rightarrow>
                 \<not> (sint (pd_Sequence q) \<le> 0 \<or> pd_Sequence q \<noteq> ur_Watermark r
                    \<or> at \<noteq> pd_CollectedAt q \<or> sha256 (pd_Body q) \<noteq> pd_Digest q)))"

definition ValidateRecordForProfile ::
  "projections \<Rightarrow> upload_record \<Rightarrow> upload_binding \<Rightarrow> profile_binding \<Rightarrow> bool" where
  "ValidateRecordForProfile pj r b p \<longleftrightarrow>
     validBinding b \<and> validProfile p \<and> ur_Profile r = p \<and> validRecord pj r b p"

definition ValidateRecord :: "projections \<Rightarrow> upload_record \<Rightarrow> upload_binding \<Rightarrow> bool" where
  "ValidateRecord pj r b = ValidateRecordForProfile pj r b numeric_profile"

definition initial_record :: "upload_binding \<Rightarrow> profile_binding \<Rightarrow> upload_record" where
  "initial_record b p =
     \<lparr>ur_Binding = b, ur_Profile = p, ur_Watermark = 0, ur_HasAck = False,
      ur_LastAck = zero_digest, ur_Pending = None, ur_Stopped = NoOutcome\<rparr>"

section \<open>One step\<close>

definition lift_w :: "('w, 'a) state \<Rightarrow> ('w machine, 'a) state" where
  "lift_w m = zoom m_world (\<lambda>w s. s\<lparr>m_world := w\<rparr>) m"

definition NewForProfile ::
  "upload_binding \<Rightarrow> profile_binding \<Rightarrow> 'w \<Rightarrow> upload_err + 'w machine" where
  "NewForProfile b p w =
     (if \<not> validBinding b \<or> \<not> validProfile p then Inl ErrConfig
      else Inr \<lparr>m_busy = False, m_record = None, m_recovery = False, m_world = w\<rparr>)"

definition bad_now :: "gotime \<Rightarrow> bool" where
  "bad_now now \<longleftrightarrow> IsZero now \<or> Year now < 1 \<or> 9999 < Year now"

definition Machine_commit ::
  "'w upload_deps \<Rightarrow> projections \<Rightarrow> upload_binding \<Rightarrow> profile_binding \<Rightarrow> upload_record \<Rightarrow> upload_record
    \<Rightarrow> ('w machine, upload_err option) state" where
  "Machine_commit D pj b p cur nxt = do {
     canceled \<leftarrow> lift_w (d_ctx_err D);
     if canceled then ret (Some ErrCanceled)
     else if \<not> ValidateRecordForProfile pj cur b p \<or> \<not> ValidateRecordForProfile pj nxt b p then do {
       State_Monad.update (m_recovery_update (\<lambda>_. True));
       ret (Some ErrRecovery)
     } else do {
       ok \<leftarrow> lift_w (d_commit D cur nxt);
       if \<not> ok then do {
         State_Monad.update (m_recovery_update (\<lambda>_. True));
         ret (Some ErrRecovery)
       } else do {
         State_Monad.update (m_record_update (\<lambda>_. Some nxt));
         ret None
       }
     }
   }"

definition Machine_stop ::
  "'w upload_deps \<Rightarrow> projections \<Rightarrow> upload_binding \<Rightarrow> profile_binding \<Rightarrow> upload_record \<Rightarrow> outcome
    \<Rightarrow> ('w machine, upload_err + outcome) state" where
  "Machine_stop D pj b p cur reason = do {
     err \<leftarrow> Machine_commit D pj b p cur (cur\<lparr>ur_Stopped := reason\<rparr>);
     case err of Some e \<Rightarrow> ret (Inl e) | None \<Rightarrow> ret (Inr reason)
   }"

text \<open>The answer of the transport to the pending snapshot \<open>q\<close> of the record \<open>cur\<close>.\<close>

definition step_response ::
  "'w upload_deps \<Rightarrow> projections \<Rightarrow> upload_binding \<Rightarrow> profile_binding \<Rightarrow> upload_record \<Rightarrow> pending
    \<Rightarrow> upload_response \<Rightarrow> ('w machine, upload_err + outcome) state" where
  "step_response D pj b p cur q resp =
     (case rs_Outcome resp of
        Acknowledged \<Rightarrow>
          if rs_ServerID resp \<noteq> ub_ServerID b \<or> rs_Sequence resp \<noteq> pd_Sequence q then ret (Inr Retry)
          else do {
            err \<leftarrow> Machine_commit D pj b p cur
                    (cur\<lparr>ur_HasAck := True, ur_LastAck := pd_Digest q, ur_Pending := None\<rparr>);
            case err of Some e \<Rightarrow> ret (Inl e) | None \<Rightarrow> ret (Inr Acknowledged)
          }
      | CredentialRejected \<Rightarrow> Machine_stop D pj b p cur CredentialRejected
      | Conflict \<Rightarrow> Machine_stop D pj b p cur Conflict
      | Rejected \<Rightarrow> Machine_stop D pj b p cur Rejected
      | RateLimited \<Rightarrow> ret (Inr RateLimited)
      | _ \<Rightarrow> ret (Inr Retry))"

definition step_send ::
  "'w upload_deps \<Rightarrow> projections \<Rightarrow> upload_binding \<Rightarrow> profile_binding \<Rightarrow> upload_record \<Rightarrow> pending
    \<Rightarrow> ('w machine, upload_err + outcome) state" where
  "step_send D pj b p cur q = do {
     canceled \<leftarrow> lift_w (d_ctx_err D);
     if canceled then ret (Inl ErrCanceled)
     else if \<not> ValidateRecordForProfile pj cur b p then do {
       State_Monad.update (m_recovery_update (\<lambda>_. True));
       ret (Inl ErrRecovery)
     } else do {
       now \<leftarrow> lift_w (d_now D);
       if bad_now now \<or> now + MaxFuture < pd_CollectedAt q then ret (Inr ClockSkew)
       else if MaxAge < Sub now (pd_CollectedAt q) then ret (Inr Expired)
       else do {
         answer \<leftarrow> lift_w (d_send D \<lparr>rq_Binding = b, rq_Sequence = pd_Sequence q, rq_Body = pd_Body q\<rparr>);
         canceled \<leftarrow> lift_w (d_ctx_err D);
         if canceled then ret (Inl ErrCanceled)
         else case fst answer of
             None \<Rightarrow> ret (Inr Retry)
           | Some resp \<Rightarrow>
               if snd answer then ret (Inr Retry) else step_response D pj b p cur q resp
       }
     }
   }"

text \<open>With nothing pending: read the source, check the snapshot and reserve a sequence number for it.\<close>

definition step_reserve ::
  "'w upload_deps \<Rightarrow> projections \<Rightarrow> upload_binding \<Rightarrow> profile_binding \<Rightarrow> upload_record \<Rightarrow> bool
    \<Rightarrow> ('w machine, upload_err + outcome) state" where
  "step_reserve D pj b p cur retired = do {
     canceled \<leftarrow> lift_w (d_ctx_err D);
     if canceled then ret (Inl ErrCanceled)
     else do {
       snapshot \<leftarrow> lift_w (d_read D (ub_ServerID b));
       canceled \<leftarrow> lift_w (d_ctx_err D);
       if canceled then ret (Inl ErrCanceled)
       else case snapshot of
           None \<Rightarrow> ret (Inr (if retired then Expired else SourceUnavailable))
         | Some body \<Rightarrow>
             if maxBodyBytes p < length body then ret (Inl ErrSnapshot)
             else do {
               now \<leftarrow> lift_w (d_now D);
               if bad_now now then ret (Inr ClockSkew)
               else case collectionTime pj body (ub_ServerID b) p of
                   None \<Rightarrow> ret (Inl ErrSnapshot)
                 | Some at \<Rightarrow>
                     if now + MaxFuture < at then ret (Inr ClockSkew)
                     else if MaxAge < Sub now at then ret (Inr Expired)
                     else if ur_HasAck cur \<and> sha256 body = ur_LastAck cur then ret (Inr Idle)
                     else if ur_Watermark cur = MaxInt64 then Machine_stop D pj b p cur Exhausted
                     else do {
                       let q = \<lparr>pd_Sequence = ur_Watermark cur + 1, pd_Body = body,
                                pd_Digest = sha256 body, pd_CollectedAt = at\<rparr>;
                       let nxt = cur\<lparr>ur_Watermark := ur_Watermark cur + 1, ur_Pending := Some q\<rparr>;
                       err \<leftarrow> Machine_commit D pj b p cur nxt;
                       case err of
                         Some e \<Rightarrow> ret (Inl e)
                       | None \<Rightarrow> step_send D pj b p nxt q
                     }
             }
     }
   }"

text \<open>The loaded, valid record: stopped machines stay stopped, stale pending snapshots are retired.\<close>

definition step_record ::
  "'w upload_deps \<Rightarrow> projections \<Rightarrow> upload_binding \<Rightarrow> profile_binding \<Rightarrow> upload_record
    \<Rightarrow> ('w machine, upload_err + outcome) state" where
  "step_record D pj b p cur =
     (if ur_Stopped cur \<noteq> NoOutcome then ret (Inr (ur_Stopped cur))
      else do {
        now \<leftarrow> lift_w (d_now D);
        if bad_now now then ret (Inr ClockSkew)
        else case ur_Pending cur of
            None \<Rightarrow> step_reserve D pj b p cur False
          | Some q \<Rightarrow>
              if now + MaxFuture < pd_CollectedAt q then ret (Inr ClockSkew)
              else if MaxAge < Sub now (pd_CollectedAt q) then do {
                let nxt = cur\<lparr>ur_Pending := None\<rparr>;
                err \<leftarrow> Machine_commit D pj b p cur nxt;
                case err of
                  Some e \<Rightarrow> ret (Inl e)
                | None \<Rightarrow> step_reserve D pj b p nxt True
              }
              else step_send D pj b p cur q
      })"

definition Step ::
  "'w upload_deps \<Rightarrow> projections \<Rightarrow> upload_binding \<Rightarrow> profile_binding
    \<Rightarrow> ('w machine, upload_err + outcome) state" where
  "Step D pj b p = do {
     m \<leftarrow> State_Monad.get;
     if m_busy m then ret (Inl ErrBusy)
     else if m_recovery m then ret (Inl ErrRecovery)
     else do {
       canceled \<leftarrow> lift_w (d_ctx_err D);
       if canceled then ret (Inl ErrCanceled)
       else case m_record m of
           None \<Rightarrow> do {
             loaded \<leftarrow> lift_w (d_load D);
             case loaded of
               None \<Rightarrow> do {
                 State_Monad.update (m_recovery_update (\<lambda>_. True));
                 ret (Inl ErrRecovery)
               }
             | Some r \<Rightarrow>
                 if \<not> ValidateRecordForProfile pj r b p then do {
                   State_Monad.update (m_recovery_update (\<lambda>_. True));
                   ret (Inl ErrRecovery)
                 } else do {
                   State_Monad.update (m_record_update (\<lambda>_. Some r));
                   step_record D pj b p r
                 }
           }
         | Some r \<Rightarrow>
             if \<not> ValidateRecordForProfile pj r b p then do {
               State_Monad.update (m_recovery_update (\<lambda>_. True));
               ret (Inl ErrRecovery)
             } else step_record D pj b p r
     }
   }"

section \<open>The contract of the collaborators\<close>

text \<open>
  What a ledger promises: \<open>durable w\<close> is the record a later \<^verbatim>\<open>Load\<close> would return (\<open>None\<close> when the
  stored bytes cannot be read back). A commit that succeeds found the expected record; one that
  fails leaves the old record or, when the failure was reported after the write, the new one.
\<close>

locale upload_ledger =
  fixes load :: "('w, upload_record option) state"
    and commit :: "upload_record \<Rightarrow> upload_record \<Rightarrow> ('w, bool) state"
    and durable :: "'w \<Rightarrow> upload_record option"
  assumes load_durable:
    "wp load (\<lambda>x w'. durable w' = durable w \<and> (\<forall>r. x = Some r \<longrightarrow> durable w = Some r)) w"
  and commit_durable:
    "wp (commit e n) (\<lambda>ok w'.
       (ok \<longrightarrow> durable w = Some e \<and> durable w' \<in> {Some n, None}) \<and>
       (\<not> ok \<longrightarrow> durable w' = durable w \<or> (durable w = Some e \<and> durable w' \<in> {Some n, None}))) w"

text \<open>
  The whole environment of the machine. \<open>sent w\<close> are the requests handed to the transport so far,
  each with the clock reading that preceded it; only \<^verbatim>\<open>Send\<close> adds to it, and only the ledger touches
  the durable record.
\<close>

locale upload_env =
  upload_ledger "d_load D" "d_commit D" durable
  for D :: "'w upload_deps" and durable :: "'w \<Rightarrow> upload_record option" +
  fixes sent :: "'w \<Rightarrow> (upload_request \<times> gotime) list"
    and last_now :: "'w \<Rightarrow> gotime"
  assumes ctx_frame:
    "wp (d_ctx_err D) (\<lambda>_ w'. durable w' = durable w \<and> sent w' = sent w \<and> last_now w' = last_now w) w"
  and read_frame:
    "wp (d_read D x) (\<lambda>_ w'. durable w' = durable w \<and> sent w' = sent w \<and> last_now w' = last_now w) w"
  and now_frame:
    "wp (d_now D) (\<lambda>t w'. durable w' = durable w \<and> sent w' = sent w \<and> last_now w' = t) w"
  and send_frame:
    "wp (d_send D q) (\<lambda>_ w'. durable w' = durable w \<and> sent w' = sent w @ [(q, last_now w)]
       \<and> last_now w' = last_now w) w"
  and load_frame:
    "wp (d_load D) (\<lambda>_ w'. sent w' = sent w \<and> last_now w' = last_now w) w"
  and commit_frame:
    "wp (d_commit D e n) (\<lambda>_ w'. sent w' = sent w \<and> last_now w' = last_now w) w"

text \<open>A predicate on the world that every collaborator keeps is kept by a whole step.\<close>

locale upload_frame =
  fixes D :: "'w upload_deps" and P :: "'w \<Rightarrow> bool"
  assumes frame_ctx: "preserves P (d_ctx_err D)"
    and frame_read: "preserves P (d_read D x)"
    and frame_now: "preserves P (d_now D)"
    and frame_send: "preserves P (d_send D q)"
    and frame_load: "preserves P (d_load D)"
    and frame_commit: "preserves P (d_commit D e n)"
begin

lemma frame_lift: "preserves P op \<Longrightarrow> preserves (\<lambda>m. P (m_world m)) (lift_w op)"
  unfolding lift_w_def by (rule pres_zoom) simp_all

lemmas frame_ops = frame_lift [OF frame_ctx] frame_lift [OF frame_read] frame_lift [OF frame_now]
  frame_lift [OF frame_send] frame_lift [OF frame_load] frame_lift [OF frame_commit]

lemma frame_machine_commit: "preserves (\<lambda>m. P (m_world m)) (Machine_commit D pj b p c n)"
  unfolding Machine_commit_def by (intro pres_intros frame_ops) simp_all

lemma frame_stop: "preserves (\<lambda>m. P (m_world m)) (Machine_stop D pj b p c r)"
  unfolding Machine_stop_def by (intro pres_intros frame_machine_commit)

lemma frame_step_response: "preserves (\<lambda>m. P (m_world m)) (step_response D pj b p c q r)"
  unfolding step_response_def
  by (cases "rs_Outcome r") (auto intro!: pres_intros frame_machine_commit frame_stop)

lemma frame_step_send: "preserves (\<lambda>m. P (m_world m)) (step_send D pj b p c q)"
  unfolding step_send_def by (intro pres_intros frame_ops frame_step_response) simp_all

lemma frame_step_reserve: "preserves (\<lambda>m. P (m_world m)) (step_reserve D pj b p c r)"
  unfolding step_reserve_def Let_def
  by (intro pres_intros frame_ops frame_machine_commit frame_stop frame_step_send)

lemma frame_step_record: "preserves (\<lambda>m. P (m_world m)) (step_record D pj b p c)"
  unfolding step_record_def Let_def
  by (intro pres_intros frame_ops frame_machine_commit frame_step_reserve frame_step_send)

theorem frame_Step: "preserves (\<lambda>m. P (m_world m)) (Step D pj b p)"
  unfolding Step_def by (intro pres_intros frame_ops frame_step_record) simp_all

end

section \<open>Sequence numbers\<close>

text \<open>
  A record covers the requests sent so far: none has a sequence number above the watermark, and
  one with the number of the pending snapshot carried that snapshot.
\<close>

definition covers :: "upload_record \<Rightarrow> (upload_request \<times> gotime) list \<Rightarrow> bool" where
  "covers r log \<longleftrightarrow>
     (\<forall>(x, t) \<in> set log. sint (rq_Sequence x) \<le> sint (ur_Watermark r) \<and>
        (\<forall>q. ur_Pending r = Some q \<longrightarrow> rq_Sequence x = pd_Sequence q \<longrightarrow> rq_Body x = pd_Body q))"

text \<open>The requests themselves: numbers never fall, a number is never used for two bodies, and every
  body was fresh and addressed to the bound server when it was sent.\<close>

definition log_ok :: "projections \<Rightarrow> upload_binding \<Rightarrow> profile_binding \<Rightarrow> (upload_request \<times> gotime) list \<Rightarrow> bool" where
  "log_ok pj b p log \<longleftrightarrow>
     sorted (map (\<lambda>(x, t). sint (rq_Sequence x)) log) \<and>
     (\<forall>(x, t) \<in> set log. \<forall>(y, u) \<in> set log. rq_Sequence x = rq_Sequence y \<longrightarrow> rq_Body x = rq_Body y) \<and>
     (\<forall>(x, t) \<in> set log. rq_Binding x = b \<and> 0 < sint (rq_Sequence x) \<and>
        (\<exists>at. collectionTime pj (rq_Body x) (ub_ServerID b) p = Some at \<and>
              at - seconds 30 \<le> t \<and> t \<le> at + minutes 2))"

definition machine_inv ::
  "projections \<Rightarrow> upload_binding \<Rightarrow> profile_binding \<Rightarrow> ('w \<Rightarrow> upload_record option)
    \<Rightarrow> ('w \<Rightarrow> (upload_request \<times> gotime) list) \<Rightarrow> 'w machine \<Rightarrow> bool" where
  "machine_inv pj b p durable sent m \<longleftrightarrow>
     log_ok pj b p (sent (m_world m)) \<and>
     (\<forall>r. durable (m_world m) = Some r \<longrightarrow> covers r (sent (m_world m))) \<and>
     (\<not> m_recovery m \<longrightarrow> (\<forall>r. m_record m = Some r \<longrightarrow>
        covers r (sent (m_world m)) \<and> durable (m_world m) \<in> {Some r, None}))"

lemma covers_drop_pending: "covers r log \<Longrightarrow> covers (r\<lparr>ur_Pending := None\<rparr>) log"
  by (auto simp: covers_def)

lemma covers_ack:
  "covers r log \<Longrightarrow> covers (r\<lparr>ur_HasAck := a, ur_LastAck := d, ur_Pending := None\<rparr>) log"
  by (auto simp: covers_def)

lemma covers_stop: "covers r log \<Longrightarrow> covers (r\<lparr>ur_Stopped := s\<rparr>) log"
  by (auto simp: covers_def)

lemma covers_reserve:
  assumes "covers r log" and "ur_Watermark r \<noteq> MaxInt64" and "pd_Sequence q = ur_Watermark r + 1"
  shows "covers (r\<lparr>ur_Watermark := ur_Watermark r + 1, ur_Pending := Some q\<rparr>) log"
  using assms sint_int64_Suc [of "ur_Watermark r"] by (fastforce simp: covers_def)

lemma valid_pending:
  assumes "ValidateRecordForProfile pj r b p" and "ur_Pending r = Some q"
  shows "pd_Sequence q = ur_Watermark r" and "0 < sint (pd_Sequence q)"
    and "collectionTime pj (pd_Body q) (ub_ServerID b) p = Some (pd_CollectedAt q)"
    and "sha256 (pd_Body q) = pd_Digest q"
  using assms by (auto simp: ValidateRecordForProfile_def validRecord_def split: if_splits option.splits)

lemma covers_sent:
  assumes "covers r log" and "ValidateRecordForProfile pj r b p" and "ur_Pending r = Some q"
  shows "covers r (log @ [(\<lparr>rq_Binding = b, rq_Sequence = pd_Sequence q, rq_Body = pd_Body q\<rparr>, t)])"
  using assms valid_pending [OF assms(2,3)] by (auto simp: covers_def)

lemma log_ok_sent:
  assumes ok: "log_ok pj b p log" and cov: "covers r log"
    and val: "ValidateRecordForProfile pj r b p" and q: "ur_Pending r = Some q"
    and fresh: "\<not> now + MaxFuture < pd_CollectedAt q" "\<not> MaxAge < Sub now (pd_CollectedAt q)"
  shows "log_ok pj b p (log @ [(\<lparr>rq_Binding = b, rq_Sequence = pd_Sequence q, rq_Body = pd_Body q\<rparr>, now)])"
proof -
  note v = valid_pending [OF val q]
  have age: "now - pd_CollectedAt q \<le> minutes 2"
    using fresh(2) Sub_gt_iff [of "minutes 2" now "pd_CollectedAt q"]
    by (simp add: MaxAge_def minutes_def MinDuration_def MaxDuration_def)
  have upper: "\<forall>(x, t) \<in> set log. sint (rq_Sequence x) \<le> sint (pd_Sequence q)"
    using cov v(1) by (auto simp: covers_def)
  have same: "\<forall>(x, t) \<in> set log. rq_Sequence x = pd_Sequence q \<longrightarrow> rq_Body x = pd_Body q"
    using cov q by (auto simp: covers_def)
  have "sorted (map (\<lambda>(x, t). sint (rq_Sequence x)) log @ [sint (pd_Sequence q)])"
    using ok upper by (auto simp: log_ok_def sorted_append)
  moreover have "at - seconds 30 \<le> now \<and> now \<le> at + minutes 2" if "at = pd_CollectedAt q" for at
    using age fresh(1) that by (simp add: MaxFuture_def)
  ultimately show ?thesis
    using ok same v unfolding log_ok_def by (simp add: ball_Un) fastforce
qed

lemma wp_lift_w [wp_simps]:
  "wp (lift_w m) Q s = wp m (\<lambda>x w. Q x (s\<lparr>m_world := w\<rparr>)) (m_world s)"
  by (simp add: lift_w_def wp_simps)

text \<open>
  Inside the contract: \<open>inv m\<close> is the invariant of a machine, \<open>holds m r\<close> says in addition that the
  machine works on the record \<open>r\<close>.
\<close>

context upload_env
begin

abbreviation inv :: "projections \<Rightarrow> upload_binding \<Rightarrow> profile_binding \<Rightarrow> 'w machine \<Rightarrow> bool" where
  "inv pj b p m \<equiv> machine_inv pj b p durable sent m"

definition holds :: "projections \<Rightarrow> upload_binding \<Rightarrow> profile_binding \<Rightarrow> 'w machine \<Rightarrow> upload_record \<Rightarrow> bool" where
  "holds pj b p m r \<longleftrightarrow> inv pj b p m \<and> m_record m = Some r \<and> \<not> m_recovery m"

lemma wp_ctx [wp_intros]:
  "(\<And>x w'. durable w' = durable w \<Longrightarrow> sent w' = sent w \<Longrightarrow> last_now w' = last_now w \<Longrightarrow> Q x w')
    \<Longrightarrow> wp (d_ctx_err D) Q w"
  by (rule wp_mono [OF ctx_frame]) auto

lemma wp_read [wp_intros]:
  "(\<And>x w'. durable w' = durable w \<Longrightarrow> sent w' = sent w \<Longrightarrow> last_now w' = last_now w \<Longrightarrow> Q x w')
    \<Longrightarrow> wp (d_read D y) Q w"
  by (rule wp_mono [OF read_frame]) auto

lemma wp_now [wp_intros]:
  "(\<And>t w'. durable w' = durable w \<Longrightarrow> sent w' = sent w \<Longrightarrow> last_now w' = t \<Longrightarrow> Q t w')
    \<Longrightarrow> wp (d_now D) Q w"
  by (rule wp_mono [OF now_frame]) auto

lemma wp_send [wp_intros]:
  "(\<And>x w'. durable w' = durable w \<Longrightarrow> sent w' = sent w @ [(q, last_now w)] \<Longrightarrow> Q x w')
    \<Longrightarrow> wp (d_send D q) Q w"
  by (rule wp_mono [OF send_frame]) auto

lemma wp_load [wp_intros]:
  "(\<And>x w'. durable w' = durable w \<Longrightarrow> sent w' = sent w \<Longrightarrow>
      (\<And>r. x = Some r \<Longrightarrow> durable w = Some r) \<Longrightarrow> Q x w')
    \<Longrightarrow> wp (d_load D) Q w"
  by (rule wp_mono [OF wp_conj [OF load_durable load_frame]]) auto

lemma wp_commit_op [wp_intros]:
  "(\<And>ok w'. sent w' = sent w \<Longrightarrow>
      (ok \<longrightarrow> durable w = Some e \<and> durable w' \<in> {Some n, None}) \<Longrightarrow>
      (\<not> ok \<longrightarrow> durable w' = durable w \<or> (durable w = Some e \<and> durable w' \<in> {Some n, None})) \<Longrightarrow> Q ok w')
    \<Longrightarrow> wp (d_commit D e n) Q w"
  by (rule wp_mono [OF wp_conj [OF commit_durable commit_frame]]) auto

lemma holds_world:
  "holds pj b p m r \<Longrightarrow> durable w = durable (m_world m) \<Longrightarrow> sent w = sent (m_world m)
    \<Longrightarrow> holds pj b p (m\<lparr>m_world := w\<rparr>) r"
  by (simp add: holds_def machine_inv_def)

lemma holds_inv: "holds pj b p m r \<Longrightarrow> inv pj b p m"
  by (simp add: holds_def)

lemma inv_recovery: "inv pj b p m \<Longrightarrow> inv pj b p (m\<lparr>m_recovery := True\<rparr>)"
  by (simp add: machine_inv_def)

lemma holds_covers: "holds pj b p m r \<Longrightarrow> covers r (sent (m_world m))"
  by (simp add: holds_def machine_inv_def)

lemma holds_committed:
  assumes "holds pj b p m cur" and "covers nxt (sent (m_world m))"
    and "sent w = sent (m_world m)" and "durable w \<in> {Some nxt, None}"
  shows "holds pj b p (m\<lparr>m_world := w, m_record := Some nxt\<rparr>) nxt"
  using assms unfolding holds_def machine_inv_def by auto

lemma inv_uncommitted:
  assumes "holds pj b p m cur" and "covers nxt (sent (m_world m))"
    and "sent w = sent (m_world m)" and "durable w \<in> {durable (m_world m), Some nxt, None}"
  shows "inv pj b p (m\<lparr>m_world := w, m_recovery := True\<rparr>)"
  using assms unfolding holds_def machine_inv_def by auto

lemma wp_commit:
  assumes h: "holds pj b p m cur" and c: "covers nxt (sent (m_world m))"
    and Q: "\<And>e m'. inv pj b p m' \<Longrightarrow> sent (m_world m') = sent (m_world m) \<Longrightarrow>
      (e = None \<Longrightarrow> holds pj b p m' nxt) \<Longrightarrow> Q e m'"
  shows "wp (Machine_commit D pj b p cur nxt) Q m"
  unfolding Machine_commit_def
  apply (simp only: wp_simps)
  apply (rule wp_ctx)
  apply (intro conjI impI)
  subgoal for x w using holds_world [OF h, of w] by (intro Q) (auto simp: holds_inv)
  subgoal for x w using holds_world [OF h, of w] by (intro Q) (auto intro: inv_recovery holds_inv)
  subgoal for x w
    apply (rule wp_commit_op)
    subgoal for ok w'
      using holds_committed [OF h c, of w'] inv_uncommitted [OF h c, of w']
      by (auto intro!: Q dest: holds_inv)
    done
  done

lemma wp_stop:
  assumes "holds pj b p m cur"
    and "\<And>x m'. inv pj b p m' \<Longrightarrow> sent (m_world m') = sent (m_world m) \<Longrightarrow> Q x m'"
  shows "wp (Machine_stop D pj b p cur s) Q m"
  unfolding Machine_stop_def wp_simps
  using assms by (intro wp_commit [OF assms(1)] covers_stop holds_covers) (auto split: option.splits)

lemma wp_response:
  assumes h: "holds pj b p m cur"
    and Q: "\<And>x m'. inv pj b p m' \<Longrightarrow> sent (m_world m') = sent (m_world m) \<Longrightarrow>
      (x = Inr Acknowledged \<Longrightarrow> holds pj b p m' (cur\<lparr>ur_HasAck := True, ur_LastAck := pd_Digest q, ur_Pending := None\<rparr>)
         \<and> rs_Outcome resp = Acknowledged \<and> rs_ServerID resp = ub_ServerID b \<and> rs_Sequence resp = pd_Sequence q)
      \<Longrightarrow> Q x m'"
  shows "wp (step_response D pj b p cur q resp) Q m"
proof -
  have i: "inv pj b p m" using h by (rule holds_inv)
  have stop: "wp (Machine_stop D pj b p cur s) Q m" if "s \<noteq> Acknowledged" for s
  proof -
    have "wp (Machine_stop D pj b p cur s) (\<lambda>x m'. x \<noteq> Inr Acknowledged \<and> inv pj b p m' \<and> sent (m_world m') = sent (m_world m)) m"
      unfolding Machine_stop_def wp_simps
      using that by (intro wp_commit [OF h covers_stop [OF holds_covers [OF h]]]) (auto split: option.splits)
    then show ?thesis by (rule wp_mono) (auto intro: Q)
  qed
  have ack: "wp (do {
        err \<leftarrow> Machine_commit D pj b p cur
                 (cur\<lparr>ur_HasAck := True, ur_LastAck := pd_Digest q, ur_Pending := None\<rparr>);
        case err of Some e \<Rightarrow> ret (Inl e) | None \<Rightarrow> ret (Inr Acknowledged) }) Q m"
    if "rs_Outcome resp = Acknowledged" "rs_ServerID resp = ub_ServerID b" "rs_Sequence resp = pd_Sequence q"
    unfolding wp_simps
    using that by (intro wp_commit [OF h covers_ack [OF holds_covers [OF h]]]) (auto intro!: Q split: option.splits)
  show ?thesis
  proof (cases "rs_Outcome resp = Acknowledged \<and> rs_ServerID resp = ub_ServerID b \<and> rs_Sequence resp = pd_Sequence q")
    case True
    with ack show ?thesis by (simp add: step_response_def)
  next
    case False
    then show ?thesis
      unfolding step_response_def
      by (cases "rs_Outcome resp") (auto simp: wp_return i intro!: stop Q)
  qed
qed

text \<open>What one attempt may do to the log, and what an acknowledgement means.\<close>

definition step_post ::
  "projections \<Rightarrow> upload_binding \<Rightarrow> profile_binding \<Rightarrow> 'w machine \<Rightarrow> upload_err + outcome \<Rightarrow> 'w machine \<Rightarrow> bool" where
  "step_post pj b p m x m' \<longleftrightarrow> inv pj b p m' \<and>
     (\<exists>xs. length xs \<le> 1 \<and> sent (m_world m') = sent (m_world m) @ xs \<and>
        (x = Inr Acknowledged \<longrightarrow> (\<exists>y t r. xs = [(y, t)] \<and> m_record m' = Some r \<and> ur_Pending r = None
           \<and> ur_HasAck r \<and> ur_LastAck r = sha256 (rq_Body y) \<and> ur_Watermark r = rq_Sequence y
           \<and> durable (m_world m') \<in> {Some r, None})))"

lemma step_post_quiet:
  "inv pj b p m' \<Longrightarrow> sent (m_world m') = sent (m_world m) \<Longrightarrow> x \<noteq> Inr Acknowledged
    \<Longrightarrow> step_post pj b p m x m'"
  by (simp add: step_post_def exI [of _ "[]"])

lemma step_post_from:
  "step_post pj b p m1 x m' \<Longrightarrow> sent (m_world m1) = sent (m_world m) \<Longrightarrow> step_post pj b p m x m'"
  by (simp add: step_post_def)

lemma wp_step_send:
  assumes h: "holds pj b p m cur" and q: "ur_Pending cur = Some q"
  shows "wp (step_send D pj b p cur q) (step_post pj b p m) m"
  unfolding step_send_def
  apply (simp only: wp_simps)
  apply (rule wp_ctx)
  apply (intro conjI impI)
  subgoal for c w using holds_world [OF h, of w] by (auto intro!: step_post_quiet dest: holds_inv)
  subgoal for c w using holds_world [OF h, of w] by (auto intro!: step_post_quiet inv_recovery dest: holds_inv)
  apply (rule wp_now)
  apply (intro conjI impI)
  subgoal for c w t w' using holds_world [OF h, of w'] by (auto intro!: step_post_quiet dest: holds_inv)
  subgoal for c w t w' using holds_world [OF h, of w'] by (auto intro!: step_post_quiet dest: holds_inv)
  apply (rule wp_send)
  apply (rule wp_ctx)
  subgoal premises prems for c w t w1 ans w2 c' w3
  proof -
    have cur: "\<not> t + MaxFuture < pd_CollectedAt q" "\<not> MaxAge < Sub t (pd_CollectedAt q)"
      "ValidateRecordForProfile pj cur b p"
      using prems by auto
    let ?rq = "\<lparr>rq_Binding = b, rq_Sequence = pd_Sequence q, rq_Body = pd_Body q\<rparr>"
    have log: "sent w3 = sent (m_world m) @ [(?rq, t)]" and dur: "durable w3 = durable (m_world m)"
      using prems by auto
    have h': "holds pj b p (m\<lparr>m_world := w3\<rparr>) cur"
      using h log dur log_ok_sent [OF _ holds_covers [OF h] cur(3) q cur(1,2)]
        covers_sent [OF holds_covers [OF h] cur(3) q]
      by (auto simp: holds_def machine_inv_def)
    have quiet: "step_post pj b p m x (m\<lparr>m_world := w3\<rparr>)" if "x \<noteq> Inr Acknowledged" for x
      using h' log that by (auto simp: step_post_def dest: holds_inv)
    have resp: "wp (step_response D pj b p cur q r) (step_post pj b p m) (m\<lparr>m_world := w3\<rparr>)" for r
      by (rule wp_response [OF h'])
        (auto simp: step_post_def holds_def machine_inv_def log valid_pending [OF cur(3) q])
    show ?thesis
      using prems by (simp add: wp_simps quiet resp)
  qed
  done

lemma wp_step_reserve:
  assumes h: "holds pj b p m cur"
  shows "wp (step_reserve D pj b p cur retired) (step_post pj b p m) m"
  unfolding step_reserve_def
  apply (simp only: wp_simps)
  apply (rule wp_ctx)
  apply (intro conjI impI)
  subgoal for c w using holds_world [OF h, of w] by (auto intro!: step_post_quiet dest: holds_inv)
  apply (rule wp_read)
  apply (rule wp_ctx)
  apply (intro conjI impI allI)
  subgoal for c w x w1 c' w2 using holds_world [OF h, of w2] by (auto intro!: step_post_quiet dest: holds_inv)
  subgoal for c w x w1 c' w2 using holds_world [OF h, of w2] by (auto intro!: step_post_quiet dest: holds_inv)
  subgoal for c w x w1 c' w2 using holds_world [OF h, of w2] by (auto intro!: step_post_quiet dest: holds_inv)
  apply (rule wp_now)
  subgoal premises prems for c w x w1 c' w2 body t w3
  proof -
    have h': "holds pj b p (m\<lparr>m_world := w3\<rparr>) cur" and log: "sent w3 = sent (m_world m)"
      using holds_world [OF h, of w3] prems by auto
    have quiet: "step_post pj b p m x (m\<lparr>m_world := w3\<rparr>)" if "x \<noteq> Inr Acknowledged" for x
      using h' log that by (auto intro!: step_post_quiet dest: holds_inv)
    have stop: "wp (Machine_stop D pj b p cur Exhausted) (step_post pj b p m) (m\<lparr>m_world := w3\<rparr>)"
      unfolding Machine_stop_def wp_bind
      by (rule wp_commit [OF h' covers_stop [OF holds_covers [OF h']]])
        (auto simp: wp_simps log intro!: step_post_quiet)
    have reserve: "wp (Machine_commit D pj b p cur nxt)
          (\<lambda>e. wp (case e of None \<Rightarrow> step_send D pj b p nxt q | Some e' \<Rightarrow> ret (Inl e')) (step_post pj b p m))
          (m\<lparr>m_world := w3\<rparr>)"
      if "ur_Watermark cur \<noteq> MaxInt64" "pd_Sequence q = ur_Watermark cur + 1"
        "nxt = cur\<lparr>ur_Watermark := ur_Watermark cur + 1, ur_Pending := Some q\<rparr>" for q nxt
    proof (rule wp_commit [OF h'])
      show "covers nxt (sent (m_world (m\<lparr>m_world := w3\<rparr>)))"
        using that covers_reserve [OF holds_covers [OF h']] by simp
      fix e :: "upload_err option" and m' :: "'w machine"
      assume m': "inv pj b p m'" "sent (m_world m') = sent (m_world (m\<lparr>m_world := w3\<rparr>))"
        "e = None \<Longrightarrow> holds pj b p m' nxt"
      have "wp (step_send D pj b p nxt q) (step_post pj b p m) m'" if "e = None"
        using wp_step_send [OF m'(3) [OF that], of q] \<open>nxt = _\<close> m'(2) log
        by (auto intro: step_post_from elim!: wp_mono)
      then show "wp (case e of None \<Rightarrow> step_send D pj b p nxt q | Some e' \<Rightarrow> ret (Inl e')) (step_post pj b p m) m'"
        using m' log by (cases e) (auto simp: wp_return intro!: step_post_quiet)
    qed
    show ?thesis
      using prems by (auto simp: wp_return wp_bind quiet stop Let_def intro!: reserve)
  qed
  done

lemma wp_step_record:
  assumes h: "holds pj b p m cur"
  assumes "ur_Stopped cur \<noteq> Acknowledged"
  shows "wp (step_record D pj b p cur) (step_post pj b p m) m"
proof (cases "ur_Stopped cur = NoOutcome")
  case False
  then show ?thesis
    using h assms(2) by (auto simp: step_record_def wp_return intro!: step_post_quiet dest: holds_inv)
next
  case True
  then show ?thesis
    unfolding step_record_def Let_def
    apply (simp only: simp_thms if_False wp_bind wp_lift_w)
    apply (rule wp_now)
    subgoal premises w for t w
    proof -
      have h': "holds pj b p (m\<lparr>m_world := w\<rparr>) cur" using holds_world [OF h w(2,3)] .
      have quiet: "step_post pj b p m x (m\<lparr>m_world := w\<rparr>)" if "x \<noteq> Inr Acknowledged" for x
        using h' w that by (auto intro!: step_post_quiet dest: holds_inv)
      have from_w: "wp f (step_post pj b p m) m1"
        if "wp f (step_post pj b p m1) m1" "sent (m_world m1) = sent (m_world m)" for f m1
        using that by (auto elim!: wp_mono intro: step_post_from)
      have retire: "wp (Machine_commit D pj b p cur (cur\<lparr>ur_Pending := None\<rparr>))
          (\<lambda>e. wp (case e of None \<Rightarrow> step_reserve D pj b p (cur\<lparr>ur_Pending := None\<rparr>) True | Some e' \<Rightarrow> ret (Inl e'))
            (step_post pj b p m)) (m\<lparr>m_world := w\<rparr>)"
      proof (rule wp_commit [OF h' covers_drop_pending [OF holds_covers [OF h']]])
        fix e :: "upload_err option" and m' :: "'w machine"
        assume m': "inv pj b p m'" "sent (m_world m') = sent (m_world (m\<lparr>m_world := w\<rparr>))"
          "e = None \<Longrightarrow> holds pj b p m' (cur\<lparr>ur_Pending := None\<rparr>)"
        show "wp (case e of None \<Rightarrow> step_reserve D pj b p (cur\<lparr>ur_Pending := None\<rparr>) True | Some e' \<Rightarrow> ret (Inl e'))
            (step_post pj b p m) m'"
          using m' w from_w [OF wp_step_reserve] by (cases e) (auto simp: wp_return intro!: step_post_quiet)
      qed
      show ?thesis
        using w from_w [OF wp_step_reserve [OF h']] from_w [OF wp_step_send [OF h']]
        by (cases "ur_Pending cur") (auto simp: wp_return wp_bind quiet intro!: retire)
    qed
    done
qed

lemma valid_not_acknowledged:
  "ValidateRecordForProfile pj r b p \<Longrightarrow> ur_Stopped r \<noteq> Acknowledged"
  by (auto simp: ValidateRecordForProfile_def validRecord_def split: if_splits)

theorem wp_Step:
  assumes i: "inv pj b p m"
  shows "wp (Step D pj b p) (step_post pj b p m) m"
proof (cases "m_busy m \<or> m_recovery m")
  case True
  then show ?thesis
    using i by (auto simp: Step_def wp_simps intro!: step_post_quiet)
next
  case False
  then show ?thesis
    unfolding Step_def
    apply (simp only: wp_simps de_Morgan_disj simp_thms)
    apply (rule wp_ctx)
    subgoal premises w for c w
    proof -
      have i': "inv pj b p (m\<lparr>m_world := w\<rparr>)" using i w by (simp add: machine_inv_def)
      have quiet: "step_post pj b p m x (m\<lparr>m_world := w\<rparr>)" if "x \<noteq> Inr Acknowledged" for x
        using i' w that by (auto intro!: step_post_quiet)
      have run: "wp (step_record D pj b p r) (step_post pj b p m) m1"
        if "holds pj b p m1 r" "ValidateRecordForProfile pj r b p" "sent (m_world m1) = sent (m_world m)" for r m1
        using wp_step_record [OF that(1) valid_not_acknowledged [OF that(2)]] that(3)
        by (auto elim!: wp_mono intro: step_post_from)
      have loaded: "wp (d_load D) (\<lambda>x w'.
          (x = None \<longrightarrow> step_post pj b p m (Inl ErrRecovery) (m\<lparr>m_world := w', m_recovery := True\<rparr>)) \<and>
          (\<forall>r. x = Some r \<longrightarrow>
             (\<not> ValidateRecordForProfile pj r b p \<longrightarrow>
                step_post pj b p m (Inl ErrRecovery) (m\<lparr>m_world := w', m_recovery := True\<rparr>)) \<and>
             (\<not> \<not> ValidateRecordForProfile pj r b p \<longrightarrow>
                wp (step_record D pj b p r) (step_post pj b p m) (m\<lparr>m_world := w', m_record := Some r\<rparr>)))) w"
      proof (rule wp_load, intro conjI impI allI)
        fix x w' r
        assume w': "durable w' = durable w" "sent w' = sent w" "\<And>r. x = Some r \<Longrightarrow> durable w = Some r"
          and x: "x = Some r" and v: "\<not> \<not> ValidateRecordForProfile pj r b p"
        have "holds pj b p (m\<lparr>m_world := w', m_record := Some r\<rparr>) r"
          using i' w' x False by (auto simp: holds_def machine_inv_def)
        then show "wp (step_record D pj b p r) (step_post pj b p m) (m\<lparr>m_world := w', m_record := Some r\<rparr>)"
          using v w w' by (auto intro!: run)
      qed (use i' w in \<open>auto simp: machine_inv_def intro!: step_post_quiet\<close>)
      have held: "holds pj b p (m\<lparr>m_world := w\<rparr>) r" if "m_record m = Some r" for r
        using i' False that by (simp add: holds_def)
      show ?thesis
        using loaded w held
        by (auto simp: quiet intro!: run step_post_quiet inv_recovery i')
    qed
    done
qed

text \<open>Once the durable record says the machine has stopped, a step changes nothing and reports why.\<close>

lemma wp_Step_stopped:
  assumes i: "inv pj b p m" and d: "durable (m_world m) = Some r" and stop: "ur_Stopped r \<noteq> NoOutcome"
  shows "wp (Step D pj b p) (\<lambda>x m'. sent (m_world m') = sent (m_world m) \<and> durable (m_world m') = Some r \<and>
           (x = Inr (ur_Stopped r) \<or> (\<exists>e. x = Inl e))) m"
proof -
  have rec: "r' = r" if "m_record m = Some r'" "\<not> m_recovery m" for r'
    using i d that by (auto simp: machine_inv_def)
  have load: "wp (d_load D) Q w" if "durable w = Some r" "sent w = sent (m_world m)"
    "\<And>x w'. durable w' = Some r \<Longrightarrow> sent w' = sent (m_world m) \<Longrightarrow> x \<in> {None, Some r} \<Longrightarrow> Q x w'" for Q w
    using that(1,2) by (intro wp_load that(3)) (auto intro: option.exhaust)
  show ?thesis
    unfolding Step_def
    apply (simp only: wp_simps)
    apply (intro conjI impI; (simp add: d; fail)?)
    apply (rule wp_ctx)
    apply (intro conjI impI allI; (simp add: d; fail)?)
    subgoal by (rule load) (auto simp: d step_record_def stop wp_return)
    subgoal by (frule (1) rec) (simp add: d step_record_def stop wp_return)
    done
qed

end

end
