(* ===== verification/LedgerFiles.thy ===== *)
theory LedgerFiles
  imports UploadState "HOL-Library.Code_Target_Nat"
begin

text \<open>
  The file checks of the upload ledger, \<^verbatim>\<open>internal/uploadledger/files_linux.go\<close>, and the storage
  limits of \<^verbatim>\<open>profile_linux.go\<close>. What the operating system reports about a directory and its entries
  is data; the checks on it are the functions below.
\<close>

section \<open>Commits\<close>

text \<open>How a COMMIT ends. One that reports an error may or may not have become durable.\<close>

datatype commit_result = Committed | CommitLost | CommitAmbiguous

section \<open>Limits\<close>

datatype ledger_err = LErrUnsupported | LErrUnsafe | LErrBusy | LErrRecovery

definition databaseName :: string where "databaseName = ''upload.sqlite''"
definition lockName :: string where "lockName = ''.upload-lock''"
definition journalName :: string where "journalName = databaseName @ ''-journal''"
definition maxDatabaseBytes :: int where "maxDatabaseBytes = 4096 * 64"
definition maxTotalBytes :: int where "maxTotalBytes = 1024 * 1024"

record storageLimits =
  sl_pages :: int
  sl_version :: int
  sl_bodyBytes :: nat
  sl_databaseBytes :: int
  sl_totalBytes :: int

definition limits :: "profile_binding \<Rightarrow> storageLimits" where
  "limits p =
     (if pb_Kind p = RichProcessesDockerProfile then
        \<lparr>sl_pages = 128, sl_version = 3, sl_bodyBytes = 288 * 1024,
         sl_databaseBytes = 4096 * 128, sl_totalBytes = 2 * 1024 * 1024\<rparr>
      else if pb_Kind p = RichProcessesProfile then
        \<lparr>sl_pages = 128, sl_version = 2, sl_bodyBytes = 288 * 1024,
         sl_databaseBytes = 4096 * 128, sl_totalBytes = 2 * 1024 * 1024\<rparr>
      else
        \<lparr>sl_pages = 64, sl_version = 1, sl_bodyBytes = 16384,
         sl_databaseBytes = maxDatabaseBytes, sl_totalBytes = maxTotalBytes\<rparr>)"

lemma limits_bodyBytes: "sl_bodyBytes (limits p) = maxBodyBytes p"
  by (simp add: limits_def maxBodyBytes_def)

lemma limits_databaseBytes: "sl_databaseBytes (limits p) = 4096 * sl_pages (limits p)"
  by (simp add: limits_def maxDatabaseBytes_def)

lemma limits_version_kind:
  assumes "validProfile p" and "validProfile q" and "sl_version (limits p) = sl_version (limits q)"
  shows "pb_Kind p = pb_Kind q"
  using assms by (auto simp: limits_def validProfile_def profile_kind_defs split: if_splits)

section \<open>Directories and files\<close>

text \<open>\<open>fi_stat\<close> is whether the platform's \<^verbatim>\<open>Stat_t\<close> is available; \<open>fi_special\<close> are the setuid, setgid and
  sticky bits together, \<open>fi_sticky\<close> the sticky bit alone.\<close>

datatype file_type = RegularFile | Directory | Symlink | OtherFile

record file_info =
  fi_stat :: bool
  fi_type :: file_type
  fi_uid :: uint32
  fi_nlink :: nat
  fi_perm :: "9 word"
  fi_sticky :: bool
  fi_setid :: bool
  fi_size :: int

definition fi_special :: "file_info \<Rightarrow> bool" where
  "fi_special i \<longleftrightarrow> fi_sticky i \<or> fi_setid i"

text \<open>The path from the directory up to the root, as \<^verbatim>\<open>Lstat\<close> sees it (\<open>None\<close> where it fails). The
  dedicated-directory rule of \<^verbatim>\<open>ownerfs\<close> is an argument.\<close>

definition ancestor_ok :: "uint32 \<Rightarrow> file_info option \<Rightarrow> bool" where
  "ancestor_ok euid x =
     (case x of
        None \<Rightarrow> False
      | Some i \<Rightarrow>
          fi_type i = Directory \<and> fi_stat i \<and> (fi_uid i = 0 \<or> fi_uid i = euid) \<and>
          \<not> (fi_perm i AND 0b000010010 \<noteq> 0 \<and> \<not> fi_sticky i))"

definition own_directory_ok :: "uint32 \<Rightarrow> file_info option \<Rightarrow> bool" where
  "own_directory_ok euid x =
     (case x of
        None \<Rightarrow> False
      | Some i \<Rightarrow>
          fi_type i = Directory \<and> fi_stat i \<and> (fi_uid i = 0 \<or> fi_uid i = euid) \<and>
          \<not> (fi_uid i \<noteq> euid \<or> fi_perm i \<noteq> 0b111000000 \<or> fi_special i))"

fun privateDirectory :: "uint32 \<Rightarrow> bool \<Rightarrow> file_info option list \<Rightarrow> ledger_err option" where
  "privateDirectory euid dedicated [] = Some LErrUnsafe"
| "privateDirectory euid dedicated (own # parents) =
     (if \<not> dedicated \<or> \<not> own_directory_ok euid own \<or> \<not> list_all (ancestor_ok euid) parents
      then Some LErrUnsafe else None)"

definition privateFile :: "uint32 \<Rightarrow> file_info \<Rightarrow> int \<Rightarrow> bool" where
  "privateFile euid i limit \<longleftrightarrow>
     fi_stat i \<and> fi_uid i = euid \<and> fi_nlink i = 1 \<and> fi_type i = RegularFile \<and>
     fi_perm i = 0b110000000 \<and> \<not> fi_special i \<and> 0 \<le> fi_size i \<and> fi_size i \<le> limit"

text \<open>One entry of the listing: the running total and the two flags, or the error.\<close>

fun checkEntry ::
  "uint32 \<Rightarrow> storageLimits \<Rightarrow> string \<times> file_info option \<Rightarrow> int \<times> bool \<times> bool
    \<Rightarrow> (int \<times> bool \<times> bool) option" where
  "checkEntry euid budget (name, x) (tot, database, lock) =
     (if name \<notin> {databaseName, lockName, journalName} then None
      else case x of
          None \<Rightarrow> None
        | Some i \<Rightarrow>
            if \<not> privateFile euid i
                 (if name = databaseName then sl_databaseBytes budget
                  else if name = lockName then 0 else sl_totalBytes budget) then None
            else Some (tot + fi_size i, database \<or> name = databaseName, lock \<or> name = lockName))"

fun checkEntries ::
  "uint32 \<Rightarrow> storageLimits \<Rightarrow> (string \<times> file_info option) list \<Rightarrow> int \<times> bool \<times> bool
    \<Rightarrow> (int \<times> bool \<times> bool) option" where
  "checkEntries euid budget [] acc = Some acc"
| "checkEntries euid budget (e # es) acc =
     (case checkEntry euid budget e acc of None \<Rightarrow> None | Some acc' \<Rightarrow> checkEntries euid budget es acc')"

text \<open>The listing is \<open>None\<close> when the directory cannot be opened or read.\<close>

definition checkFilesForProfile ::
  "uint32 \<Rightarrow> (string \<times> file_info option) list option \<Rightarrow> bool \<Rightarrow> profile_binding \<Rightarrow> ledger_err option" where
  "checkFilesForProfile euid listing requireDatabase p =
     (case listing of
        None \<Rightarrow> Some LErrUnsafe
      | Some entries \<Rightarrow>
          if 3 < length (take 4 entries) then Some LErrUnsafe
          else case checkEntries euid (limits p) entries (0, False, False) of
              None \<Rightarrow> Some LErrUnsafe
            | Some (tot, database, lock) \<Rightarrow>
                if \<not> lock \<or> (requireDatabase \<and> \<not> database) \<or> sl_totalBytes (limits p) < tot
                then Some LErrRecovery else None)"

datatype flock_result = Locked | WouldBlock | FlockError

definition acquireLock ::
  "uint32 \<Rightarrow> bool \<Rightarrow> file_info option \<Rightarrow> flock_result \<Rightarrow> ledger_err option" where
  "acquireLock euid opened info flock =
     (if \<not> opened then Some LErrRecovery
      else if \<not> (case info of None \<Rightarrow> False | Some i \<Rightarrow> privateFile euid i 0) then Some LErrUnsafe
      else case flock of
          Locked \<Rightarrow> None
        | WouldBlock \<Rightarrow> Some LErrBusy
        | FlockError \<Rightarrow> Some LErrRecovery)"

definition be32 :: "bytes \<Rightarrow> int" where
  "be32 bs = foldl (\<lambda>a x. a * 256 + uint x) 0 bs"

definition app_id :: int where "app_id = 1213156420"

definition header_magic :: bytes where
  "header_magic = bytes_of ''SQLite format 3'' @ [0]"

text \<open>\<open>file\<close> is the open database: what \<^verbatim>\<open>Stat\<close> reports and its contents (\<open>None\<close> when it cannot be opened).\<close>

definition checkHeader ::
  "uint32 \<Rightarrow> (file_info option \<times> bytes) option \<Rightarrow> profile_binding \<Rightarrow> ledger_err option" where
  "checkHeader euid file p =
     (case file of
        None \<Rightarrow> Some LErrRecovery
      | Some (info, contents) \<Rightarrow>
          if \<not> (case info of None \<Rightarrow> False | Some i \<Rightarrow> privateFile euid i (sl_databaseBytes (limits p)))
          then Some LErrUnsafe
          else if length contents < 100 then Some LErrRecovery
          else if take 16 contents \<noteq> header_magic \<or> contents ! 16 \<noteq> 16 \<or> contents ! 17 \<noteq> 0
               \<or> contents ! 18 \<noteq> 1 \<or> contents ! 19 \<noteq> 1 then Some LErrRecovery
          else if be32 (take 4 (drop 60 contents)) \<noteq> sl_version (limits p)
               \<or> be32 (take 4 (drop 68 contents)) \<noteq> app_id then Some LErrRecovery
          else None)"

section \<open>What an accepted directory looks like\<close>

lemma checkEntries_total:
  assumes "checkEntries euid budget es (t, d, l) = Some (t', d', l')"
  shows "t' = t + (\<Sum>(n, x)\<leftarrow>es. case x of None \<Rightarrow> 0 | Some i \<Rightarrow> fi_size i) \<and>
         (d' \<longleftrightarrow> d \<or> databaseName \<in> fst ` set es) \<and> (l' \<longleftrightarrow> l \<or> lockName \<in> fst ` set es) \<and>
         (\<forall>(n, x) \<in> set es. n \<in> {databaseName, lockName, journalName} \<and>
            (\<exists>i. x = Some i \<and> privateFile euid i (if n = databaseName then sl_databaseBytes budget
                  else if n = lockName then 0 else sl_totalBytes budget)))"
  using assms
proof (induction es arbitrary: t d l)
  case (Cons e es)
  obtain n x where e: "e = (n, x)" by (cases e)
  from Cons.prems obtain i where n: "n \<in> {databaseName, lockName, journalName}" and x: "x = Some i"
    and p: "privateFile euid i (if n = databaseName then sl_databaseBytes budget
                  else if n = lockName then 0 else sl_totalBytes budget)"
    and es: "checkEntries euid budget es (t + fi_size i, d \<or> n = databaseName, l \<or> n = lockName)
      = Some (t', d', l')"
    by (auto simp: e split: if_splits option.splits)
  show ?case
    using Cons.IH [OF es] n p unfolding e x by (auto simp: add.assoc)
qed simp

lemma checkFiles_accepted:
  assumes "checkFilesForProfile euid (Some entries) db p = None"
  shows "length entries \<le> 3" and "lockName \<in> fst ` set entries" and "db \<longrightarrow> databaseName \<in> fst ` set entries"
    and "(\<Sum>(n, x)\<leftarrow>entries. case x of None \<Rightarrow> 0 | Some i \<Rightarrow> fi_size i) \<le> sl_totalBytes (limits p)"
    and "\<forall>(n, x) \<in> set entries. \<exists>i. x = Some i \<and> fi_uid i = euid \<and> fi_perm i = 0b110000000 \<and> fi_nlink i = 1"
proof -
  obtain t d l where c: "checkEntries euid (limits p) entries (0, False, False) = Some (t, d, l)"
    and f: "length entries \<le> 3" "l" "db \<longrightarrow> d" "t \<le> sl_totalBytes (limits p)"
    using assms by (auto simp: checkFilesForProfile_def split: if_splits option.splits prod.splits)
  note a = checkEntries_total [OF c]
  show "length entries \<le> 3" by (rule f)
  show "lockName \<in> fst ` set entries" using a f by simp
  show "db \<longrightarrow> databaseName \<in> fst ` set entries" using a f by simp
  show "(\<Sum>(n, x)\<leftarrow>entries. case x of None \<Rightarrow> 0 | Some i \<Rightarrow> fi_size i) \<le> sl_totalBytes (limits p)"
    using a f by simp
  show "\<forall>(n, x) \<in> set entries. \<exists>i. x = Some i \<and> fi_uid i = euid \<and> fi_perm i = 0b110000000 \<and> fi_nlink i = 1"
    using a by (fastforce simp: privateFile_def)
qed

lemma checkHeader_kind:
  assumes "validProfile p" and "validProfile q"
    and "checkHeader euid file p = None" and "checkHeader euid' file q = None"
  shows "pb_Kind p = pb_Kind q"
  using assms
  by (intro limits_version_kind) (auto simp: checkHeader_def split: option.splits prod.splits if_splits)

end
