(* ===== verification/UploadLedger.thy ===== *)
theory UploadLedger
  imports LedgerFiles
begin

text \<open>
  The durable ledger of the upload machine, \<^verbatim>\<open>internal/uploadledger\<close>: one SQLite table with one
  row. The database engine is not part of the repository: its table is a list of rows whose CHECK
  constraints are the ones the schema declares, and each statement may fail as an \<open>sql_io\<close> says.
  The theory ends with the interpretation of the machine's environment on this ledger.
\<close>

section \<open>Rows and schemas\<close>

text \<open>The columns of \<^verbatim>\<open>upload_record\<close>; \<open>None\<close> is NULL, and for the last two an absent column.\<close>

record upload_row =
  c_singleton :: int
  c_server_id :: string
  c_connector_id :: string
  c_watermark :: int64
  c_has_ack :: int
  c_last_ack :: bytes
  c_stopped :: string
  c_pending_sequence :: "int64 option"
  c_pending_body :: "bytes option"
  c_pending_digest :: "bytes option"
  c_pending_at :: "string option"
  c_profile_kind :: "int option"
  c_policy_digest :: "bytes option"

datatype upload_schema = NumericSchema | RichSchema | DockerRichSchema | OtherSchema string

definition opt_all :: "('a \<Rightarrow> bool) \<Rightarrow> 'a option \<Rightarrow> bool" where
  "opt_all P x = (case x of None \<Rightarrow> True | Some v \<Rightarrow> P v)"

lemma opt_all_simps [simp]: "opt_all P None" "opt_all P (Some v) = P v"
  by (simp_all add: opt_all_def)

text \<open>The constraints the three schemas share, with the limit of the body.\<close>

definition common_check :: "nat \<Rightarrow> upload_row \<Rightarrow> bool" where
  "common_check body_limit w \<longleftrightarrow>
     c_singleton w = 1 \<and> length (c_server_id w) = 36 \<and> length (c_connector_id w) = 38 \<and>
     0 \<le> sint (c_watermark w) \<and> c_has_ack w \<in> {0, 1} \<and> length (c_last_ack w) = 32 \<and>
     c_stopped w \<in> {'''', ''CREDENTIAL_REJECTED'', ''CONFLICT'', ''REJECTED'', ''SEQUENCE_EXHAUSTED''} \<and>
     opt_all (\<lambda>s. 0 < sint s) (c_pending_sequence w) \<and>
     opt_all (\<lambda>x. 1 \<le> length x \<and> length x \<le> body_limit) (c_pending_body w) \<and>
     opt_all (\<lambda>x. length x = 32) (c_pending_digest w) \<and>
     opt_all (\<lambda>x. 20 \<le> length x \<and> length x \<le> 30) (c_pending_at w) \<and>
     ((c_pending_sequence w = None \<and> c_pending_body w = None \<and> c_pending_digest w = None \<and> c_pending_at w = None)
      \<or> (c_pending_sequence w \<noteq> None \<and> c_pending_body w \<noteq> None \<and> c_pending_digest w \<noteq> None \<and> c_pending_at w \<noteq> None))"

definition policy_check :: "int \<Rightarrow> upload_row \<Rightarrow> bool" where
  "policy_check kind w \<longleftrightarrow>
     c_profile_kind w = Some kind \<and>
     (case c_policy_digest w of None \<Rightarrow> False | Some x \<Rightarrow> length x = 32)"

text \<open>A row a schema accepts. A foreign schema constrains nothing.\<close>

fun schema_check :: "upload_schema \<Rightarrow> upload_row \<Rightarrow> bool" where
  "schema_check NumericSchema w \<longleftrightarrow>
     common_check 16384 w \<and> c_profile_kind w = None \<and> c_policy_digest w = None"
| "schema_check RichSchema w \<longleftrightarrow> common_check 294912 w \<and> policy_check 1 w"
| "schema_check DockerRichSchema w \<longleftrightarrow> common_check 294912 w \<and> policy_check 2 w"
| "schema_check (OtherSchema s) w \<longleftrightarrow> True"

definition hasPolicyColumns :: "profile_binding \<Rightarrow> bool" where
  "hasPolicyColumns p \<longleftrightarrow> pb_Kind p = RichProcessesProfile \<or> pb_Kind p = RichProcessesDockerProfile"

definition schemaFor :: "profile_binding \<Rightarrow> upload_schema" where
  "schemaFor p =
     (if pb_Kind p = RichProcessesDockerProfile then DockerRichSchema
      else if pb_Kind p = RichProcessesProfile then RichSchema
      else NumericSchema)"

section \<open>Records as rows\<close>

fun outcome_text :: "outcome \<Rightarrow> string" where
  "outcome_text NoOutcome = ''''"
| "outcome_text Idle = ''IDLE''"
| "outcome_text SourceUnavailable = ''SOURCE_UNAVAILABLE''"
| "outcome_text Retry = ''RETRY''"
| "outcome_text RateLimited = ''RATE_LIMITED''"
| "outcome_text Acknowledged = ''ACKNOWLEDGED''"
| "outcome_text Expired = ''EXPIRED_DELIVERY_UNKNOWN''"
| "outcome_text ClockSkew = ''CLOCK_SKEW''"
| "outcome_text CredentialRejected = ''CREDENTIAL_REJECTED''"
| "outcome_text Conflict = ''CONFLICT''"
| "outcome_text Rejected = ''REJECTED''"
| "outcome_text Exhausted = ''SEQUENCE_EXHAUSTED''"
| "outcome_text (OtherOutcome s) = s"

definition known_outcomes :: "outcome list" where
  "known_outcomes =
     [NoOutcome, Idle, SourceUnavailable, Retry, RateLimited, Acknowledged, Expired, ClockSkew,
      CredentialRejected, Conflict, Rejected, Exhausted]"

definition text_outcome :: "string \<Rightarrow> outcome" where
  "text_outcome s =
     (case List.find (\<lambda>x. outcome_text x = s) known_outcomes of Some x \<Rightarrow> x | None \<Rightarrow> OtherOutcome s)"

lemma outcome_text_text [simp]: "outcome_text (text_outcome s) = s"
  by (simp add: text_outcome_def known_outcomes_def)

lemma text_outcome_text:
  "(\<forall>s. x \<noteq> OtherOutcome s) \<Longrightarrow> text_outcome (outcome_text x) = x"
  by (cases x) (simp_all add: text_outcome_def known_outcomes_def)

text \<open>\<open>recordArgs\<close> fills ten columns; \<open>argsFor\<close> adds the two policy columns when the profile has them.\<close>

definition recordArgs :: "upload_record \<Rightarrow> upload_row" where
  "recordArgs r =
     \<lparr>c_singleton = 1, c_server_id = ub_ServerID (ur_Binding r),
      c_connector_id = ub_ConnectorID (ur_Binding r), c_watermark = ur_Watermark r,
      c_has_ack = (if ur_HasAck r then 1 else 0), c_last_ack = ur_LastAck r,
      c_stopped = outcome_text (ur_Stopped r),
      c_pending_sequence = map_option pd_Sequence (ur_Pending r),
      c_pending_body = map_option pd_Body (ur_Pending r),
      c_pending_digest = map_option pd_Digest (ur_Pending r),
      c_pending_at = map_option (\<lambda>q. rfc3339nano (pd_CollectedAt q)) (ur_Pending r),
      c_profile_kind = None, c_policy_digest = None\<rparr>"

definition argsFor :: "upload_record \<Rightarrow> upload_row" where
  "argsFor r =
     (if hasPolicyColumns (ur_Profile r) then
        (recordArgs r)\<lparr>c_profile_kind := Some (uint (pb_Kind (ur_Profile r))),
                       c_policy_digest := Some (pb_PolicyDigest (ur_Profile r))\<rparr>
      else recordArgs r)"

text \<open>The bounds query of \<open>readRecord\<close>, on one row.\<close>

definition bounded_row :: "profile_binding \<Rightarrow> upload_row \<Rightarrow> bool" where
  "bounded_row p w \<longleftrightarrow>
     length (c_server_id w) = 36 \<and> length (c_connector_id w) = 38 \<and> length (c_last_ack w) = 32 \<and>
     length (c_stopped w) \<le> 32 \<and>
     opt_all (\<lambda>x. length x \<le> sl_bodyBytes (limits p)) (c_pending_body w) \<and>
     opt_all (\<lambda>x. length x = 32) (c_pending_digest w) \<and>
     opt_all (\<lambda>x. length x \<le> 30) (c_pending_at w) \<and>
     (hasPolicyColumns p \<longrightarrow>
        c_profile_kind w = Some (uint (pb_Kind p)) \<and>
        (case c_policy_digest w of None \<Rightarrow> False | Some x \<Rightarrow> length x = 32))"

text \<open>The profile read back: the two columns for a rich profile, the zero value otherwise.\<close>

definition row_profile :: "profile_binding \<Rightarrow> upload_row \<Rightarrow> profile_binding option" where
  "row_profile p w =
     (if \<not> hasPolicyColumns p then Some numeric_profile
      else case (c_profile_kind w, c_policy_digest w) of
          (Some kind, Some policy) \<Rightarrow>
            if kind \<noteq> uint (pb_Kind p) \<or> length policy \<noteq> 32 then None
            else Some \<lparr>pb_Kind = word_of_int kind, pb_PolicyDigest = policy\<rparr>
        | _ \<Rightarrow> None)"

text \<open>The pending snapshot read back: \<open>None\<close> is an error, \<open>Some None\<close> no pending snapshot.\<close>

definition row_pending :: "upload_row \<Rightarrow> pending option option" where
  "row_pending w =
     (case c_pending_sequence w of
        None \<Rightarrow>
          if c_pending_at w \<noteq> None \<or> c_pending_body w \<noteq> None \<or> c_pending_digest w \<noteq> None then None
          else Some None
      | Some s \<Rightarrow>
          (case (c_pending_at w, c_pending_digest w) of
             (Some at, Some digest) \<Rightarrow>
               (case rfc3339nano_parse at of
                  None \<Rightarrow> None
                | Some t \<Rightarrow>
                    if rfc3339nano t \<noteq> at \<or> length digest \<noteq> 32 then None
                    else Some (Some \<lparr>pd_Sequence = s, pd_Body = (case c_pending_body w of None \<Rightarrow> [] | Some x \<Rightarrow> x),
                                     pd_Digest = digest, pd_CollectedAt = t\<rparr>))
           | _ \<Rightarrow> None))"

definition row_record :: "projections \<Rightarrow> upload_binding \<Rightarrow> profile_binding \<Rightarrow> upload_row \<Rightarrow> upload_record option" where
  "row_record pj b p w =
     (if c_has_ack w \<notin> {0, 1} \<or> length (c_last_ack w) \<noteq> 32 then None
      else case (row_profile p w, row_pending w) of
          (Some profile, Some pend) \<Rightarrow>
            (let r = \<lparr>ur_Binding = \<lparr>ub_ServerID = c_server_id w, ub_ConnectorID = c_connector_id w\<rparr>,
                      ur_Profile = profile, ur_Watermark = c_watermark w, ur_HasAck = (c_has_ack w = 1),
                      ur_LastAck = c_last_ack w, ur_Pending = pend,
                      ur_Stopped = text_outcome (c_stopped w)\<rparr>
             in if \<not> ValidateRecordForProfile pj r b p then None else Some r)
        | _ \<Rightarrow> None)"

section \<open>The database and its statements\<close>

text \<open>\<open>db_tables\<close> is \<^verbatim>\<open>sqlite_schema\<close>: the name and the definition of each table.\<close>

record upload_db =
  db_app :: int
  db_version :: int
  db_tables :: "(string \<times> upload_schema) list"
  db_rows :: "upload_row list"

definition empty_db :: upload_db where
  "empty_db = \<lparr>db_app = 0, db_version = 0, db_tables = [], db_rows = []\<rparr>"

text \<open>
  How the statements of one operation fare: whether the ledger's mutex is taken, which statements
  (numbered in their order) fail, and how COMMIT ends.
\<close>

record sql_io =
  io_busy :: bool
  io_fail :: "nat \<Rightarrow> bool"
  io_commit :: commit_result

definition no_faults :: sql_io where
  "no_faults = \<lparr>io_busy = False, io_fail = (\<lambda>_. False), io_commit = Committed\<rparr>"

definition table_check :: "upload_db \<Rightarrow> upload_row \<Rightarrow> bool" where
  "table_check db w =
     (case map_of (db_tables db) ''upload_record'' of None \<Rightarrow> False | Some s \<Rightarrow> schema_check s w)"

definition sql_insert :: "upload_row \<Rightarrow> upload_db \<Rightarrow> upload_db option" where
  "sql_insert w db =
     (if \<not> table_check db w \<or> list_ex (\<lambda>x. c_singleton x = c_singleton w) (db_rows db) then None
      else Some (db\<lparr>db_rows := db_rows db @ [w]\<rparr>))"

text \<open>UPDATE of the rows with \<^verbatim>\<open>singleton=1\<close>: the number of rows affected and the new table.\<close>

definition sql_update :: "upload_row \<Rightarrow> upload_db \<Rightarrow> (nat \<times> upload_db) option" where
  "sql_update w db =
     (let hit = (\<lambda>x. c_singleton x = 1)
      in if list_ex hit (db_rows db) \<and> \<not> table_check db w then None
         else Some (length (filter hit (db_rows db)),
                    db\<lparr>db_rows := map (\<lambda>x. if hit x then w else x) (db_rows db)\<rparr>))"

definition readRecord ::
  "projections \<Rightarrow> (nat \<Rightarrow> bool) \<Rightarrow> upload_db \<Rightarrow> upload_binding \<Rightarrow> profile_binding \<Rightarrow> upload_record option" where
  "readRecord pj fail db b p =
     (if fail 0 \<or> length (db_rows db) \<noteq> 1 \<or> \<not> list_all (bounded_row p) (db_rows db) then None
      else if fail 1 then None
      else case filter (\<lambda>w. c_singleton w = 1) (db_rows db) of
          [] \<Rightarrow> None
        | w # _ \<Rightarrow> row_record pj b p w)"

definition samePending :: "pending option \<Rightarrow> pending option \<Rightarrow> bool" where
  "samePending x y =
     (case (x, y) of
        (None, None) \<Rightarrow> True
      | (Some a, Some c) \<Rightarrow>
          pd_Sequence a = pd_Sequence c \<and> pd_Digest a = pd_Digest c \<and>
          pd_CollectedAt a = pd_CollectedAt c \<and> pd_Body a = pd_Body c
      | _ \<Rightarrow> False)"

definition sameRecord :: "upload_record \<Rightarrow> upload_record \<Rightarrow> bool" where
  "sameRecord a c \<longleftrightarrow>
     ur_Binding a = ur_Binding c \<and> ur_Profile a = ur_Profile c \<and> ur_Watermark a = ur_Watermark c \<and>
     ur_HasAck a = ur_HasAck c \<and> ur_LastAck a = ur_LastAck c \<and> ur_Stopped a = ur_Stopped c \<and>
     samePending (ur_Pending a) (ur_Pending c)"

definition validChangeForProfile ::
  "projections \<Rightarrow> upload_record \<Rightarrow> upload_record \<Rightarrow> upload_binding \<Rightarrow> profile_binding \<Rightarrow> bool" where
  "validChangeForProfile pj expected nxt b p \<longleftrightarrow>
     ValidateRecordForProfile pj expected b p \<and> ValidateRecordForProfile pj nxt b p \<and>
     sint (ur_Watermark expected) \<le> sint (ur_Watermark nxt) \<and>
     (case ur_Pending nxt of
        None \<Rightarrow> True
      | Some q \<Rightarrow> sint (ur_Watermark expected) < sint (pd_Sequence q)
                 \<or> samePending (ur_Pending expected) (ur_Pending nxt))"

section \<open>The operations\<close>

record ledger =
  l_binding :: upload_binding
  l_profile :: profile_binding
  l_conn :: bool
  l_failed :: bool
  l_db :: upload_db

text \<open>BEGIN IMMEDIATE, the body on the transaction's view of the tables, COMMIT or ROLLBACK.\<close>

definition transaction ::
  "sql_io \<Rightarrow> (upload_db \<Rightarrow> upload_db option) \<Rightarrow> upload_db \<Rightarrow> bool \<times> upload_db" where
  "transaction io body db =
     (if io_fail io 0 then (False, db)
      else case body db of
          None \<Rightarrow> (False, db)
        | Some db' \<Rightarrow>
            (case io_commit io of
               Committed \<Rightarrow> (True, db')
             | CommitLost \<Rightarrow> (False, db)
             | CommitAmbiguous \<Rightarrow> (False, db')))"

definition Load :: "projections \<Rightarrow> sql_io \<Rightarrow> ledger \<Rightarrow> (ledger_err + upload_record) \<times> ledger" where
  "Load pj io l =
     (if io_busy io then (Inl LErrBusy, l)
      else if l_failed l \<or> \<not> l_conn l then (Inl LErrRecovery, l)
      else case readRecord pj (io_fail io) (l_db l) (l_binding l) (l_profile l) of
          None \<Rightarrow> (Inl LErrRecovery, l\<lparr>l_failed := True\<rparr>)
        | Some r \<Rightarrow> (Inr r, l))"

definition commit_body ::
  "projections \<Rightarrow> sql_io \<Rightarrow> ledger \<Rightarrow> upload_record \<Rightarrow> upload_record \<Rightarrow> upload_db \<Rightarrow> upload_db option" where
  "commit_body pj io l expected nxt db =
     (case readRecord pj (\<lambda>i. io_fail io (i + 1)) db (l_binding l) (l_profile l) of
        None \<Rightarrow> None
      | Some actual \<Rightarrow>
          if \<not> sameRecord actual expected then None
          else if io_fail io 3 then None
          else case sql_update (argsFor nxt) db of
              None \<Rightarrow> None
            | Some (n, db') \<Rightarrow> if io_fail io 4 \<or> n \<noteq> 1 then None else Some db')"

definition Commit ::
  "projections \<Rightarrow> sql_io \<Rightarrow> upload_record \<Rightarrow> upload_record \<Rightarrow> ledger \<Rightarrow> ledger_err option \<times> ledger" where
  "Commit pj io expected nxt l =
     (if io_busy io then (Some LErrBusy, l)
      else if l_failed l \<or> \<not> l_conn l then (Some LErrRecovery, l)
      else if \<not> validChangeForProfile pj expected nxt (l_binding l) (l_profile l)
      then (Some LErrRecovery, l\<lparr>l_failed := True\<rparr>)
      else case transaction io (commit_body pj io l expected nxt) (l_db l) of
          (ok, db') \<Rightarrow>
            if \<not> ok then (Some LErrRecovery, l\<lparr>l_db := db', l_failed := True\<rparr>)
            else (None, l\<lparr>l_db := db'\<rparr>))"

text \<open>\<open>fails\<close>: closing one of the three handles reports an error. They are dropped all the same.\<close>

definition Ledger_Close :: "bool \<Rightarrow> ledger \<Rightarrow> ledger_err option \<times> ledger" where
  "Ledger_Close fails l = (if l_conn l \<and> fails then Some LErrRecovery else None, l\<lparr>l_conn := False\<rparr>)"

section \<open>Opening\<close>

text \<open>
  What the operating system and the database driver answer while a ledger is opened. \<open>oi_entries\<close> are
  the names of the first two directory entries; \<open>oi_pragma\<close> and \<open>oi_mode\<close> are the answers of PRAGMA
  queries, \<open>None\<close> when they fail; \<open>oi_fail\<close> numbers the statements of \<open>verifySchema\<close> and \<open>readRecord\<close>.
\<close>

record open_io =
  oi_ctx_err :: bool
  oi_euid :: uint32
  oi_dedicated :: bool
  oi_path :: "file_info option list"
  oi_lock_opened :: bool
  oi_lock_info :: "file_info option"
  oi_flock :: flock_result
  oi_entries :: "string list option"
  oi_created :: bool
  oi_listing :: "(string \<times> file_info option) list option"
  oi_file :: "(file_info option \<times> bytes) option"
  oi_connected :: bool
  oi_page_size :: bool
  oi_mode :: "string option"
  oi_pragma :: "string \<Rightarrow> int option"
  oi_integrity :: "string option"
  oi_fail :: "nat \<Rightarrow> bool"
  oi_sql :: sql_io
  oi_synced :: bool

definition configure :: "open_io \<Rightarrow> profile_binding \<Rightarrow> bool" where
  "configure oi p \<longleftrightarrow>
     oi_mode oi = Some ''delete'' \<and> oi_pragma oi ''page_size'' = Some 4096 \<and>
     (case oi_pragma oi ''page_count'' of None \<Rightarrow> False | Some n \<Rightarrow> n \<le> sl_pages (limits p)) \<and>
     oi_pragma oi ''max_page_count'' = Some (sl_pages (limits p)) \<and>
     list_all (\<lambda>(name, want). oi_pragma oi name = Some want)
       [(''synchronous'', 3), (''cache_size'', sl_pages (limits p)), (''cache_spill'', 0),
        (''temp_store'', 2), (''trusted_schema'', 0), (''mmap_size'', 0), (''busy_timeout'', 250)]"

definition verifySchema :: "open_io \<Rightarrow> upload_db \<Rightarrow> profile_binding \<Rightarrow> bool" where
  "verifySchema oi db p \<longleftrightarrow>
     \<not> oi_fail oi 0 \<and> db_app db = app_id \<and> \<not> oi_fail oi 1 \<and> db_version db = sl_version (limits p) \<and>
     \<not> oi_fail oi 2 \<and> length (db_tables db) = 1 \<and>
     \<not> oi_fail oi 3 \<and> map_of (db_tables db) ''upload_record'' = Some (schemaFor p) \<and>
     oi_integrity oi = Some ''ok''"

definition provision_body :: "open_io \<Rightarrow> upload_binding \<Rightarrow> profile_binding \<Rightarrow> upload_db \<Rightarrow> upload_db option" where
  "provision_body oi b p db =
     (if io_fail (oi_sql oi) 1 \<or> map_of (db_tables db) ''upload_record'' \<noteq> None then None
      else if io_fail (oi_sql oi) 2 \<or> io_fail (oi_sql oi) 3 then None
      else if io_fail (oi_sql oi) 4 then None
      else sql_insert (argsFor (initial_record b p))
             (db\<lparr>db_tables := db_tables db @ [(''upload_record'', schemaFor p)],
                 db_app := app_id, db_version := sl_version (limits p)\<rparr>))"

definition open_files :: "open_io \<Rightarrow> profile_binding \<Rightarrow> bool \<Rightarrow> ledger_err option" where
  "open_files oi p create =
     (case privateDirectory (oi_euid oi) (oi_dedicated oi) (oi_path oi) of
        Some e \<Rightarrow> Some e
      | None \<Rightarrow>
     (case acquireLock (oi_euid oi) (oi_lock_opened oi) (oi_lock_info oi) (oi_flock oi) of
        Some e \<Rightarrow> Some e
      | None \<Rightarrow>
        if create \<and> (oi_entries oi \<noteq> Some [lockName] \<or> \<not> oi_created oi) then Some LErrRecovery
        else case checkFilesForProfile (oi_euid oi) (oi_listing oi) True p of
            Some e \<Rightarrow> Some e
          | None \<Rightarrow>
              if \<not> create \<and> checkHeader (oi_euid oi) (oi_file oi) p \<noteq> None then Some LErrRecovery
              else None))"

text \<open>The result and the database file left behind; a new file starts empty.\<close>

definition open_ledger ::
  "projections \<Rightarrow> open_io \<Rightarrow> upload_db \<Rightarrow> upload_binding \<Rightarrow> profile_binding \<Rightarrow> bool
    \<Rightarrow> (ledger_err + ledger) \<times> upload_db" where
  "open_ledger pj oi db b p create =
     (if oi_ctx_err oi \<or> \<not> ValidateRecordForProfile pj (initial_record b p) b p then (Inl LErrRecovery, db)
      else case open_files oi p create of
          Some e \<Rightarrow> (Inl e, db)
        | None \<Rightarrow>
            (let db1 = (if create then empty_db else db)
             in if \<not> oi_connected oi then (Inl LErrRecovery, db1)
                else if (if create then \<not> oi_page_size oi else \<not> verifySchema oi db1 p) then (Inl LErrRecovery, db1)
                else if \<not> configure oi p then (Inl LErrRecovery, db1)
                else let (ok, db2) = (if create then transaction (oi_sql oi) (provision_body oi b p) db1 else (True, db1))
                     in if \<not> ok \<or> (create \<and> \<not> oi_synced oi) then (Inl LErrRecovery, db2)
                        else if \<not> verifySchema oi db2 p then (Inl LErrRecovery, db2)
                        else if readRecord pj (\<lambda>i. oi_fail oi (i + 4)) db2 b p = None then (Inl LErrRecovery, db2)
                        else (Inr \<lparr>l_binding = b, l_profile = p, l_conn = True, l_failed = False, l_db = db2\<rparr>, db2)))"

definition ProvisionForProfile ::
  "projections \<Rightarrow> open_io \<Rightarrow> upload_db \<Rightarrow> upload_binding \<Rightarrow> profile_binding \<Rightarrow> (ledger_err + ledger) \<times> upload_db" where
  "ProvisionForProfile pj oi db b p = open_ledger pj oi db b p True"

definition OpenExistingForProfile ::
  "projections \<Rightarrow> open_io \<Rightarrow> upload_db \<Rightarrow> upload_binding \<Rightarrow> profile_binding \<Rightarrow> (ledger_err + ledger) \<times> upload_db" where
  "OpenExistingForProfile pj oi db b p = open_ledger pj oi db b p False"

section \<open>Reading back what was written\<close>

lemma sameRecord_eq [simp]: "sameRecord a c \<longleftrightarrow> a = c"
proof -
  have "samePending x y \<longleftrightarrow> x = y" for x y
    by (auto simp: samePending_def split: option.splits)
  then show ?thesis by (auto simp: sameRecord_def)
qed

lemma valid_stopped_text:
  assumes "ValidateRecordForProfile pj r b p"
  shows "text_outcome (outcome_text (ur_Stopped r)) = ur_Stopped r"
    and "outcome_text (ur_Stopped r) \<in> {'''', ''CREDENTIAL_REJECTED'', ''CONFLICT'', ''REJECTED'', ''SEQUENCE_EXHAUSTED''}"
proof -
  have "ur_Stopped r \<in> {NoOutcome, CredentialRejected, Conflict, Rejected, Exhausted}"
    using assms by (auto simp: ValidateRecordForProfile_def validRecord_def split: if_splits)
  then show "text_outcome (outcome_text (ur_Stopped r)) = ur_Stopped r"
    "outcome_text (ur_Stopped r) \<in> {'''', ''CREDENTIAL_REJECTED'', ''CONFLICT'', ''REJECTED'', ''SEQUENCE_EXHAUSTED''}"
    by (auto intro!: text_outcome_text)
qed

text \<open>A row written for a valid record reads back as that record or as an error, never as another one.\<close>

lemma row_pending_args:
  assumes "row_pending (argsFor r) = Some q"
  shows "q = ur_Pending r"
  using assms rfc3339nano_parse_exact
  by (auto simp: row_pending_def argsFor_def recordArgs_def split: option.splits if_splits)

lemma row_profile_args:
  assumes "ValidateRecordForProfile pj r b p" and "row_profile p (argsFor r) = Some q"
  shows "q = p"
  using assms
  by (auto simp: ValidateRecordForProfile_def validProfile_def row_profile_def argsFor_def recordArgs_def
      hasPolicyColumns_def numeric_profile_def split: if_splits)

lemma row_record_args:
  assumes v: "ValidateRecordForProfile pj r b p" and x: "row_record pj b p (argsFor r) = Some r'"
  shows "r' = r"
proof -
  have row: "c_server_id (argsFor r) = ub_ServerID (ur_Binding r)" "c_connector_id (argsFor r) = ub_ConnectorID (ur_Binding r)"
    "c_watermark (argsFor r) = ur_Watermark r" "c_has_ack (argsFor r) = (if ur_HasAck r then 1 else 0)"
    "c_last_ack (argsFor r) = ur_LastAck r" "c_stopped (argsFor r) = outcome_text (ur_Stopped r)"
    by (simp_all add: argsFor_def recordArgs_def)
  have "ur_Profile r = p" using v by (simp add: ValidateRecordForProfile_def)
  then show ?thesis
    using x row_pending_args row_profile_args [OF v] valid_stopped_text(1) [OF v]
    by (auto simp: row_record_def row Let_def split: option.splits if_splits)
qed

text \<open>
  The other direction. \<open>typed_record\<close> is what the Go types say (digests are 32-byte arrays) together
  with a collection time that RFC 3339 can write.
\<close>

definition typed_record :: "upload_record \<Rightarrow> bool" where
  "typed_record r \<longleftrightarrow>
     length (ur_LastAck r) = 32 \<and> length (pb_PolicyDigest (ur_Profile r)) = 32 \<and>
     (case ur_Pending r of None \<Rightarrow> True | Some q \<Rightarrow> four_digit_year (pd_CollectedAt q))"

lemma valid_pending_body:
  assumes "ValidateRecordForProfile pj r b p" and "ur_Pending r = Some q"
  shows "1 \<le> length (pd_Body q)" and "length (pd_Body q) \<le> maxBodyBytes p" and "length (pd_Digest q) = 32"
  using valid_pending(3,4) [OF assms] length_sha256 [of "pd_Body q"]
  by (auto simp: collectionTime_def Suc_le_eq split: if_splits)

lemma valid_binding_lengths:
  assumes "ValidateRecordForProfile pj r b p"
  shows "length (ub_ServerID (ur_Binding r)) = 36" and "length (ub_ConnectorID (ur_Binding r)) = 38"
  using assms
  by (auto simp: ValidateRecordForProfile_def validRecord_def validBinding_def dest!: prefixed_hex_length split: if_splits)

lemma args_common_check:
  assumes v: "ValidateRecordForProfile pj r b p" and t: "typed_record r"
  shows "common_check (maxBodyBytes p) (argsFor r)"
proof -
  have "0 \<le> sint (ur_Watermark r)"
    using v by (auto simp: ValidateRecordForProfile_def validRecord_def split: if_splits)
  then show ?thesis
    using valid_binding_lengths [OF v] valid_stopped_text(2) [OF v] t
      valid_pending_body [OF v] valid_pending(2) [OF v] rfc3339nano_length
    by (cases "ur_Pending r") (auto simp: common_check_def argsFor_def recordArgs_def typed_record_def)
qed

lemma args_schema_check:
  assumes v: "ValidateRecordForProfile pj r b p" and t: "typed_record r"
  shows "schema_check (schemaFor p) (argsFor r)"
proof -
  have p: "ur_Profile r = p" "pb_Kind p \<in> {0, 1, 2}"
    using v by (auto simp: ValidateRecordForProfile_def validProfile_def profile_kind_defs split: if_splits)
  then consider "pb_Kind p = 0" | "pb_Kind p = 1" | "pb_Kind p = 2" by auto
  then show ?thesis
    using args_common_check [OF v t] t p
    by cases (auto simp: schemaFor_def maxBodyBytes_def policy_check_def argsFor_def recordArgs_def
        hasPolicyColumns_def profile_kind_defs typed_record_def)
qed

lemma common_bounded:
  assumes "common_check (maxBodyBytes p) w"
    and "hasPolicyColumns p \<longrightarrow> c_profile_kind w = Some (uint (pb_Kind p)) \<and>
      (\<exists>x. c_policy_digest w = Some x \<and> length x = 32)"
  shows "bounded_row p w"
  using assms
  by (cases "c_pending_sequence w") (auto simp: bounded_row_def common_check_def limits_bodyBytes)

lemma args_row_record:
  assumes v: "ValidateRecordForProfile pj r b p" and t: "typed_record r"
  shows "row_record pj b p (argsFor r) = Some r" and "bounded_row p (argsFor r)"
proof -
  have p: "ur_Profile r = p" "ur_Binding r = b" "validProfile p"
    using v by (auto simp: ValidateRecordForProfile_def validRecord_def split: if_splits)
  have profile: "row_profile p (argsFor r) = Some p"
    using p t by (auto simp: row_profile_def argsFor_def recordArgs_def typed_record_def
        hasPolicyColumns_def validProfile_def numeric_profile_def split: if_splits)
  have pend: "row_pending (argsFor r) = Some (ur_Pending r)"
    using t valid_pending_body(3) [OF v] rfc3339nano_roundtrip
    by (cases "ur_Pending r") (auto simp: row_pending_def argsFor_def recordArgs_def typed_record_def)
  have eq: "\<lparr>ur_Binding = \<lparr>ub_ServerID = ub_ServerID (ur_Binding r), ub_ConnectorID = ub_ConnectorID (ur_Binding r)\<rparr>,
      ur_Profile = p, ur_Watermark = ur_Watermark r, ur_HasAck = h, ur_LastAck = ur_LastAck r,
      ur_Pending = ur_Pending r, ur_Stopped = ur_Stopped r\<rparr> = r" if "h = ur_HasAck r" for h
    using p that by simp
  show "row_record pj b p (argsFor r) = Some r"
    using v t valid_stopped_text(1) [OF v] unfolding row_record_def profile pend
    by (simp add: argsFor_def recordArgs_def typed_record_def Let_def eq)
  have "c_profile_kind (argsFor r) = Some (uint (pb_Kind p)) \<and> c_policy_digest (argsFor r) = Some (pb_PolicyDigest p)"
    if "hasPolicyColumns p"
    using that p by (simp add: argsFor_def)
  then show "bounded_row p (argsFor r)"
    using args_common_check [OF v t] p(1) t by (intro common_bounded) (auto simp: typed_record_def)
qed

section \<open>What the operations promise\<close>

text \<open>The record a fault-free read of the database would return.\<close>

definition stored :: "projections \<Rightarrow> ledger \<Rightarrow> upload_record option" where
  "stored pj l = readRecord pj (\<lambda>_. False) (l_db l) (l_binding l) (l_profile l)"

lemma readRecord_faults:
  "readRecord pj f db b p = Some r \<Longrightarrow> readRecord pj (\<lambda>_. False) db b p = Some r"
  by (auto simp: readRecord_def split: if_splits list.splits)

lemma readRecord_valid:
  "readRecord pj f db b p = Some r \<Longrightarrow> ValidateRecordForProfile pj r b p"
  by (auto simp: readRecord_def row_record_def Let_def split: if_splits list.splits option.splits)

lemma Load_stored:
  assumes "Load pj io l = (x, l')"
  shows "stored pj l' = stored pj l" and "x = Inr r \<Longrightarrow> stored pj l = Some r"
  using assms
  by (auto simp: Load_def stored_def split: if_splits option.splits dest: readRecord_faults)

text \<open>An update that affected one row replaced the only row of a readable table.\<close>

lemma update_single:
  assumes "readRecord pj f db b p = Some r" and "sql_update w db = Some (n, db')"
  shows "db' = db\<lparr>db_rows := [w]\<rparr>" and "n = 1"
proof -
  obtain x where x: "db_rows db = [x]" "c_singleton x = 1"
    using assms(1) by (auto simp: readRecord_def length_Suc_conv split: if_splits)
  then show "db' = db\<lparr>db_rows := [w]\<rparr>" "n = 1"
    using assms(2) by (auto simp: sql_update_def Let_def split: if_splits)
qed

lemma read_args:
  assumes v: "ValidateRecordForProfile pj n b p"
  shows "readRecord pj f (db\<lparr>db_rows := [argsFor n]\<rparr>) b p \<in> {Some n, None}"
proof -
  have "c_singleton (argsFor n) = 1" by (simp add: argsFor_def recordArgs_def)
  then show ?thesis using row_record_args [OF v] by (auto simp: readRecord_def)
qed

lemma read_args_typed:
  assumes "ValidateRecordForProfile pj n b p" and "typed_record n"
  shows "readRecord pj (\<lambda>_. False) (db\<lparr>db_rows := [argsFor n]\<rparr>) b p = Some n"
proof -
  have "c_singleton (argsFor n) = 1" by (simp add: argsFor_def recordArgs_def)
  then show ?thesis using args_row_record [OF assms] by (simp add: readRecord_def)
qed

lemma commit_body_effect:
  assumes "commit_body pj io l e n db = Some db'"
  shows "readRecord pj (\<lambda>_. False) db (l_binding l) (l_profile l) = Some e"
    and "db' = db\<lparr>db_rows := [argsFor n]\<rparr>"
proof -
  obtain k where r: "readRecord pj (\<lambda>i. io_fail io (i + 1)) db (l_binding l) (l_profile l) = Some e"
    and u: "sql_update (argsFor n) db = Some (k, db')"
    using assms by (auto simp: commit_body_def split: option.splits if_splits prod.splits)
  show "readRecord pj (\<lambda>_. False) db (l_binding l) (l_profile l) = Some e" by (rule readRecord_faults [OF r])
  show "db' = db\<lparr>db_rows := [argsFor n]\<rparr>" by (rule update_single [OF r u])
qed

lemma Commit_frame:
  assumes "Commit pj io e n l = (x, l')"
  shows "l_binding l' = l_binding l" and "l_profile l' = l_profile l" and "l_conn l' = l_conn l"
    and "db_tables (l_db l') = db_tables (l_db l)"
  using assms commit_body_effect(2) [of pj io l e n "l_db l"]
  by (auto simp: Commit_def transaction_def split: if_splits option.splits commit_result.splits)

lemma Commit_stored:
  assumes c: "Commit pj io e n l = (x, l')"
  shows "(x = None \<longrightarrow> stored pj l = Some e \<and> stored pj l' \<in> {Some n, None}) \<and>
         (x \<noteq> None \<longrightarrow> stored pj l' = stored pj l \<or> (stored pj l = Some e \<and> stored pj l' \<in> {Some n, None}))"
proof (cases "l_db l' = l_db l \<and> x \<noteq> None")
  case True
  then show ?thesis using Commit_frame [OF c] by (auto simp: stored_def)
next
  case False
  then have v: "ValidateRecordForProfile pj n (l_binding l) (l_profile l)"
    using c by (auto simp: Commit_def validChangeForProfile_def split: if_splits)
  have body: "commit_body pj io l e n (l_db l) = Some (l_db l')"
    using c False
    by (auto simp: Commit_def transaction_def split: if_splits option.splits commit_result.splits)
  show ?thesis
    using commit_body_effect [OF body] read_args [OF v, of "\<lambda>_. False" "l_db l"] Commit_frame [OF c]
    by (simp add: stored_def)
qed

text \<open>Without faults a valid change to a typed record is made, and reads back.\<close>

lemma Commit_succeeds:
  assumes conn: "l_conn l" "\<not> l_failed l" and stored: "stored pj l = Some e"
    and schema: "map_of (db_tables (l_db l)) ''upload_record'' = Some (schemaFor (l_profile l))"
    and change: "validChangeForProfile pj e n (l_binding l) (l_profile l)" and typed: "typed_record n"
  shows "Commit pj no_faults e n l = (None, l\<lparr>l_db := l_db l\<lparr>db_rows := [argsFor n]\<rparr>\<rparr>)"
    and "stored pj (l\<lparr>l_db := l_db l\<lparr>db_rows := [argsFor n]\<rparr>\<rparr>) = Some n"
proof -
  have v: "ValidateRecordForProfile pj n (l_binding l) (l_profile l)"
    using change by (simp add: validChangeForProfile_def)
  have read: "readRecord pj (\<lambda>_. False) (l_db l) (l_binding l) (l_profile l) = Some e"
    using stored by (simp add: stored_def)
  have "table_check (l_db l) (argsFor n)"
    using args_schema_check [OF v typed] schema by (simp add: table_check_def)
  then have "sql_update (argsFor n) (l_db l) \<noteq> None" by (simp add: sql_update_def)
  then obtain k db' where u: "sql_update (argsFor n) (l_db l) = Some (k, db')" by auto
  have "commit_body pj no_faults l e n (l_db l) = Some (l_db l\<lparr>db_rows := [argsFor n]\<rparr>)"
    using u update_single [OF read u] read by (simp add: commit_body_def no_faults_def)
  then show "Commit pj no_faults e n l = (None, l\<lparr>l_db := l_db l\<lparr>db_rows := [argsFor n]\<rparr>\<rparr>)"
    using conn change by (simp add: Commit_def transaction_def no_faults_def)
  show "stored pj (l\<lparr>l_db := l_db l\<lparr>db_rows := [argsFor n]\<rparr>\<rparr>) = Some n"
    using read_args_typed [OF v typed] by (simp add: stored_def)
qed

text \<open>An opened ledger reads, uses the schema of its profile, and an existing database is left as it was.\<close>

lemma open_existing:
  assumes "OpenExistingForProfile pj oi db b p = (Inr l, db')"
  shows "db' = db" and "l_db l = db" and "l_binding l = b" and "l_profile l = p" and "l_conn l" and "\<not> l_failed l"
    and "stored pj l \<noteq> None" and "map_of (db_tables db) ''upload_record'' = Some (schemaFor p)"
  using assms readRecord_faults [of pj "\<lambda>i. oi_fail oi (i + 4)" db b p]
  by (auto simp: OpenExistingForProfile_def open_ledger_def Let_def verifySchema_def stored_def
      split: if_splits option.splits)

lemma provision_fresh:
  assumes "ProvisionForProfile pj oi db b p = (Inr l, db')"
  shows "l_db l = db'" and "l_binding l = b" and "l_profile l = p" and "l_conn l" and "\<not> l_failed l"
    and "stored pj l = Some (initial_record b p)" and "map_of (db_tables db') ''upload_record'' = Some (schemaFor p)"
proof -
  obtain ok where v: "ValidateRecordForProfile pj (initial_record b p) b p"
    and tr: "transaction (oi_sql oi) (provision_body oi b p) empty_db = (ok, db')" and ok: "ok"
    and vs: "verifySchema oi db' p" and rd: "readRecord pj (\<lambda>i. oi_fail oi (i + 4)) db' b p \<noteq> None"
    and l: "l = \<lparr>l_binding = b, l_profile = p, l_conn = True, l_failed = False, l_db = db'\<rparr>"
    using assms by (auto simp: ProvisionForProfile_def open_ledger_def Let_def split: if_splits option.splits prod.splits)
  have "provision_body oi b p empty_db = Some db'"
    using tr ok by (auto simp: transaction_def split: if_splits option.splits commit_result.splits)
  then have rows: "db_rows db' = [argsFor (initial_record b p)]"
    by (auto simp: provision_body_def sql_insert_def empty_db_def split: if_splits)
  then have "db' = db'\<lparr>db_rows := [argsFor (initial_record b p)]\<rparr>" by simp
  then have "readRecord pj f db' b p \<in> {Some (initial_record b p), None}" for f
    using read_args [OF v, of f db'] by metis
  with rd have "readRecord pj (\<lambda>_. False) db' b p = Some (initial_record b p)"
    using readRecord_faults [of pj "\<lambda>i. oi_fail oi (i + 4)" db' b p] by fastforce
  then show "stored pj l = Some (initial_record b p)" by (simp add: stored_def l)
  show "map_of (db_tables db') ''upload_record'' = Some (schemaFor p)" using vs by (simp add: verifySchema_def)
qed (use assms in \<open>auto simp: ProvisionForProfile_def open_ledger_def Let_def split: if_splits option.splits prod.splits\<close>)

section \<open>The machine on the ledger\<close>

text \<open>
  The world of a running observer: the ledger, the requests handed to the transport with the clock
  reading before each, that last reading, and a counter that numbers the calls to the outside. What
  the outside answers to call \<open>n\<close> is \<open>orc\<close> at \<open>n\<close>: any context, clock, source, transport and database
  behaviour is such a function.
\<close>

record upload_oracle =
  or_ctx :: "nat \<Rightarrow> bool"
  or_now :: "nat \<Rightarrow> gotime"
  or_read :: "nat \<Rightarrow> bytes option"
  or_send :: "nat \<Rightarrow> upload_response option \<times> bool"
  or_sql :: "nat \<Rightarrow> sql_io"

record upload_world =
  uw_ledger :: ledger
  uw_sent :: "(upload_request \<times> gotime) list"
  uw_last :: gotime
  uw_calls :: nat

definition ask :: "(nat \<Rightarrow> 'a) \<Rightarrow> (upload_world, 'a) state" where
  "ask f = do {
     w \<leftarrow> State_Monad.get;
     State_Monad.set (w\<lparr>uw_calls := Suc (uw_calls w)\<rparr>);
     ret (f (uw_calls w))
   }"

definition world_now :: "upload_oracle \<Rightarrow> (upload_world, gotime) state" where
  "world_now orc = do {
     t \<leftarrow> ask (or_now orc);
     State_Monad.update (uw_last_update (\<lambda>_. t));
     ret t
   }"

definition world_send :: "upload_oracle \<Rightarrow> upload_request \<Rightarrow> (upload_world, upload_response option \<times> bool) state" where
  "world_send orc q = do {
     State_Monad.update (\<lambda>w. w\<lparr>uw_sent := uw_sent w @ [(q, uw_last w)]\<rparr>);
     ask (or_send orc)
   }"

definition world_load :: "projections \<Rightarrow> upload_oracle \<Rightarrow> (upload_world, upload_record option) state" where
  "world_load pj orc = do {
     io \<leftarrow> ask (or_sql orc);
     w \<leftarrow> State_Monad.get;
     let (x, l) = Load pj io (uw_ledger w);
     State_Monad.set (w\<lparr>uw_ledger := l\<rparr>);
     ret (case x of Inl _ \<Rightarrow> None | Inr r \<Rightarrow> Some r)
   }"

definition world_commit ::
  "projections \<Rightarrow> upload_oracle \<Rightarrow> upload_record \<Rightarrow> upload_record \<Rightarrow> (upload_world, bool) state" where
  "world_commit pj orc e n = do {
     io \<leftarrow> ask (or_sql orc);
     w \<leftarrow> State_Monad.get;
     let (x, l) = Commit pj io e n (uw_ledger w);
     State_Monad.set (w\<lparr>uw_ledger := l\<rparr>);
     ret (x = None)
   }"

definition ledger_deps :: "projections \<Rightarrow> upload_oracle \<Rightarrow> upload_world upload_deps" where
  "ledger_deps pj orc =
     \<lparr>d_ctx_err = ask (or_ctx orc), d_read = (\<lambda>_. ask (or_read orc)), d_now = world_now orc,
      d_send = world_send orc, d_load = world_load pj orc, d_commit = world_commit pj orc\<rparr>"

abbreviation uw_durable :: "projections \<Rightarrow> upload_world \<Rightarrow> upload_record option" where
  "uw_durable pj w \<equiv> stored pj (uw_ledger w)"

lemma stored_world [simp]: "uw_durable pj (w\<lparr>uw_calls := n\<rparr>) = uw_durable pj w"
  by simp

lemma wp_ask [wp_simps]: "wp (ask f) Q w = Q (f (uw_calls w)) (w\<lparr>uw_calls := Suc (uw_calls w)\<rparr>)"
  by (simp add: ask_def wp_simps)

interpretation led: upload_env "ledger_deps pj orc" "uw_durable pj" uw_sent uw_last
  for pj :: projections and orc :: upload_oracle
proof unfold_locales
  fix w
  show "wp (d_load (ledger_deps pj orc))
      (\<lambda>x w'. uw_durable pj w' = uw_durable pj w \<and> (\<forall>r. x = Some r \<longrightarrow> uw_durable pj w = Some r)) w"
    using Load_stored [of pj "or_sql orc (uw_calls w)" "uw_ledger w"]
    by (cases "Load pj (or_sql orc (uw_calls w)) (uw_ledger w)")
       (auto simp: ledger_deps_def world_load_def wp_simps split: sum.splits)
  show "wp (d_load (ledger_deps pj orc)) (\<lambda>_ w'. uw_sent w' = uw_sent w \<and> uw_last w' = uw_last w) w"
    by (cases "Load pj (or_sql orc (uw_calls w)) (uw_ledger w)")
       (simp add: ledger_deps_def world_load_def wp_simps)
  fix e n
  show "wp (d_commit (ledger_deps pj orc) e n) (\<lambda>ok w'.
       (ok \<longrightarrow> uw_durable pj w = Some e \<and> uw_durable pj w' \<in> {Some n, None}) \<and>
       (\<not> ok \<longrightarrow> uw_durable pj w' = uw_durable pj w \<or>
          (uw_durable pj w = Some e \<and> uw_durable pj w' \<in> {Some n, None}))) w"
    using Commit_stored [of pj "or_sql orc (uw_calls w)" e n "uw_ledger w"]
    by (cases "Commit pj (or_sql orc (uw_calls w)) e n (uw_ledger w)")
       (simp add: ledger_deps_def world_commit_def wp_simps)
  show "wp (d_commit (ledger_deps pj orc) e n) (\<lambda>_ w'. uw_sent w' = uw_sent w \<and> uw_last w' = uw_last w) w"
    by (cases "Commit pj (or_sql orc (uw_calls w)) e n (uw_ledger w)")
       (simp add: ledger_deps_def world_commit_def wp_simps)
qed (simp_all add: ledger_deps_def world_now_def world_send_def wp_simps)

end
