(* ===== verification/UploadRun.thy ===== *)
theory UploadRun
  imports UploadLedger
begin

text \<open>
  The upload machine over its ledger for the whole life of an installation: provisioned once, then
  any number of steps and process restarts, each step under its own arbitrary behaviour of the
  context, the clock, the source, the transport and the database. A process that dies inside a step
  is a step whose context is cancelled at that point (or whose COMMIT is ambiguous) followed by a
  restart.
\<close>

section \<open>Runs\<close>

definition fresh_world :: "ledger \<Rightarrow> upload_world" where
  "fresh_world l = \<lparr>uw_ledger = l, uw_sent = [], uw_last = 0, uw_calls = 0\<rparr>"

inductive upload_run :: "projections \<Rightarrow> upload_binding \<Rightarrow> profile_binding \<Rightarrow> upload_world machine \<Rightarrow> bool"
  for pj :: projections and b :: upload_binding and p :: profile_binding where
  run_provision:
    "\<lbrakk>ProvisionForProfile pj oi db b p = (Inr l, db'); NewForProfile b p (fresh_world l) = Inr m\<rbrakk>
      \<Longrightarrow> upload_run pj b p m"
| run_step:
    "\<lbrakk>upload_run pj b p m; run_state (Step (ledger_deps pj orc) pj b p) m = (x, m')\<rbrakk>
      \<Longrightarrow> upload_run pj b p m'"
| run_restart:
    "\<lbrakk>upload_run pj b p m; OpenExistingForProfile pj oi (l_db (uw_ledger (m_world m))) b p = (Inr l, db');
      NewForProfile b p ((m_world m)\<lparr>uw_ledger := l\<rparr>) = Inr m'\<rbrakk>
      \<Longrightarrow> upload_run pj b p m'"

section \<open>The ledger keeps its identity\<close>

definition bound_ledger :: "upload_binding \<Rightarrow> profile_binding \<Rightarrow> upload_world \<Rightarrow> bool" where
  "bound_ledger b p w \<longleftrightarrow>
     l_binding (uw_ledger w) = b \<and> l_profile (uw_ledger w) = p \<and>
     map_of (db_tables (l_db (uw_ledger w))) ''upload_record'' = Some (schemaFor p)"

lemma Load_frame:
  "Load pj io l = (x, l') \<Longrightarrow> l_binding l' = l_binding l \<and> l_profile l' = l_profile l \<and> l_db l' = l_db l"
  by (auto simp: Load_def split: if_splits option.splits)

text \<open>Worlds are changed outside the ledger only in the log, the clock reading and the call counter.\<close>

lemma ledger_frame:
  assumes load: "\<And>io l x l'. P l \<Longrightarrow> Load pj io l = (x, l') \<Longrightarrow> P l'"
    and commit: "\<And>io e n l x l'. P l \<Longrightarrow> Commit pj io e n l = (x, l') \<Longrightarrow> P l'"
  shows "upload_frame (ledger_deps pj orc) (\<lambda>w. P (uw_ledger w))"
proof unfold_locales
  show "preserves (\<lambda>w. P (uw_ledger w)) (d_load (ledger_deps pj orc))"
    using load by (auto simp: preserves_def ledger_deps_def world_load_def wp_simps)
      (metis prod.collapse)
  show "preserves (\<lambda>w. P (uw_ledger w)) (d_commit (ledger_deps pj orc) e n)" for e n
    using commit by (auto simp: preserves_def ledger_deps_def world_commit_def wp_simps)
      (metis prod.collapse)
qed (simp_all add: preserves_def ledger_deps_def world_now_def world_send_def wp_simps)

interpretation led_bound: upload_frame "ledger_deps pj orc" "bound_ledger b p"
  for pj :: projections and orc :: upload_oracle and b :: upload_binding and p :: profile_binding
  unfolding bound_ledger_def
  by (rule ledger_frame) (auto dest: Load_frame Commit_frame)

text \<open>The durable watermark never falls.\<close>

definition watermark_from :: "projections \<Rightarrow> int \<Rightarrow> upload_world \<Rightarrow> bool" where
  "watermark_from pj k w \<longleftrightarrow> (\<forall>r. uw_durable pj w = Some r \<longrightarrow> k \<le> sint (ur_Watermark r))"

lemma Commit_change:
  assumes "Commit pj io e n l = (x, l')" and "stored pj l' \<noteq> stored pj l"
  shows "validChangeForProfile pj e n (l_binding l) (l_profile l)"
  using assms by (auto simp: Commit_def stored_def split: if_splits)

lemma Commit_watermark:
  assumes c: "Commit pj io e n l = (x, l')" and k: "\<forall>r. stored pj l = Some r \<longrightarrow> k \<le> sint (ur_Watermark r)"
  shows "\<forall>r. stored pj l' = Some r \<longrightarrow> k \<le> sint (ur_Watermark r)"
proof (cases "stored pj l' = stored pj l")
  case False
  then have "sint (ur_Watermark e) \<le> sint (ur_Watermark n)"
    using Commit_change [OF c] by (simp add: validChangeForProfile_def)
  then show ?thesis using Commit_stored [OF c] k False by fastforce
qed (use k in simp)

interpretation led_watermark: upload_frame "ledger_deps pj orc" "watermark_from pj k"
  for pj :: projections and orc :: upload_oracle and k :: int
  unfolding watermark_from_def
proof (rule ledger_frame)
  show "\<forall>r. stored pj l' = Some r \<longrightarrow> k \<le> sint (ur_Watermark r)"
    if "\<forall>r. stored pj l = Some r \<longrightarrow> k \<le> sint (ur_Watermark r)" "Load pj io l = (x, l')" for io l x l'
    using that(1) by (simp add: Load_stored(1) [OF that(2)])
qed (rule Commit_watermark)

section \<open>The invariant of runs\<close>

definition run_inv :: "projections \<Rightarrow> upload_binding \<Rightarrow> profile_binding \<Rightarrow> upload_world machine \<Rightarrow> bool" where
  "run_inv pj b p m \<longleftrightarrow>
     machine_inv pj b p (uw_durable pj) uw_sent m \<and> bound_ledger b p (m_world m)"

lemma new_machine_inv:
  assumes "NewForProfile b p w = Inr m" and "log_ok pj b p (uw_sent w)"
    and "\<And>r. uw_durable pj w = Some r \<Longrightarrow> covers r (uw_sent w)" and "bound_ledger b p w"
  shows "run_inv pj b p m"
  using assms by (auto simp: NewForProfile_def run_inv_def machine_inv_def split: if_splits)

lemma run_invariant: "upload_run pj b p m \<Longrightarrow> run_inv pj b p m"
proof (induction rule: upload_run.induct)
  case (run_provision oi db l db' m)
  then show ?case
    using provision_fresh [OF run_provision(1)]
    by (intro new_machine_inv) (auto simp: fresh_world_def log_ok_def covers_def bound_ledger_def)
next
  case (run_step m orc x m')
  then show ?case
    using wpD [OF led.wp_Step] preservesD [OF led_bound.frame_Step]
    by (auto simp: run_inv_def led.step_post_def)
next
  case (run_restart m oi l db' m')
  then have m: "machine_inv pj b p (uw_durable pj) uw_sent m" "bound_ledger b p (m_world m)"
    by (simp_all add: run_inv_def)
  note l = open_existing [OF run_restart(2)]
  have "stored pj l = uw_durable pj (m_world m)"
    using l m(2) by (simp add: stored_def bound_ledger_def)
  then show ?case
    using run_restart(3) m l by (intro new_machine_inv) (auto simp: machine_inv_def bound_ledger_def)
qed

end
