(* ===== verification/UploadExample.thy ===== *)
theory UploadExample
  imports UploadRun
begin

text \<open>
  A concrete installation: provisioned, then driven through one acknowledged upload, or through one
  the server answers by rejecting the credential. It instantiates the hypotheses of the properties
  of the upload path. \<^verbatim>\<open>sha256\<close> is never unfolded in it.
\<close>

section \<open>Provisioning and reopening\<close>

definition ex_binding :: upload_binding where
  "ex_binding =
     \<lparr>ub_ServerID = ''srv_0123456789abcdef0123456789abcdef'',
      ub_ConnectorID = ''agent_0123456789abcdef0123456789abcdef''\<rparr>"

definition ex_rich :: profile_binding where
  "ex_rich = \<lparr>pb_Kind = RichProcessesProfile, pb_PolicyDigest = replicate 32 1\<rparr>"

definition ex_time :: gotime where "ex_time = 63745056000 * 1000000000"

definition ex_pj :: projections where
  "ex_pj =
     \<lparr>pj_UploadCollectionTime = (\<lambda>_ _. Some ex_time), pj_CollectionTime = (\<lambda>_ _. None), pj_groups = (\<lambda>_. None)\<rparr>"

definition ex_file :: "int \<Rightarrow> file_info" where
  "ex_file n =
     \<lparr>fi_stat = True, fi_type = RegularFile, fi_uid = 1000, fi_nlink = 1, fi_perm = 0b110000000,
      fi_sticky = False, fi_setid = False, fi_size = n\<rparr>"

definition ex_dir :: file_info where
  "ex_dir =
     \<lparr>fi_stat = True, fi_type = Directory, fi_uid = 1000, fi_nlink = 2, fi_perm = 0b111000000,
      fi_sticky = False, fi_setid = False, fi_size = 4096\<rparr>"

definition ex_header :: bytes where
  "ex_header =
     header_magic @ [16, 0, 1, 1] @ replicate 40 0 @ [0, 0, 0, 1] @ replicate 4 0 @ [72, 79, 76, 68] @ replicate 28 0"

definition ex_pragma :: "string \<Rightarrow> int option" where
  "ex_pragma =
     map_of [(''page_size'', 4096), (''page_count'', 2), (''max_page_count'', 64), (''synchronous'', 3),
       (''cache_size'', 64), (''cache_spill'', 0), (''temp_store'', 2), (''trusted_schema'', 0),
       (''mmap_size'', 0), (''busy_timeout'', 250)]"

definition ex_listing :: "(string \<times> file_info option) list" where
  "ex_listing = [(lockName, Some (ex_file 0)), (databaseName, Some (ex_file 8192))]"

definition ex_open :: open_io where
  "ex_open =
     \<lparr>oi_ctx_err = False, oi_euid = 1000, oi_dedicated = True, oi_path = [Some ex_dir],
      oi_lock_opened = True, oi_lock_info = Some (ex_file 0), oi_flock = Locked,
      oi_entries = Some [lockName], oi_created = True, oi_listing = Some ex_listing,
      oi_file = Some (Some (ex_file 8192), ex_header), oi_connected = True, oi_page_size = True,
      oi_mode = Some ''delete'', oi_pragma = ex_pragma, oi_integrity = Some ''ok'',
      oi_fail = (\<lambda>_. False), oi_sql = no_faults, oi_synced = True\<rparr>"

definition ex_init :: upload_record where
  "ex_init = initial_record ex_binding numeric_profile"

definition ex_db :: upload_db where
  "ex_db =
     \<lparr>db_app = app_id, db_version = 1, db_tables = [(''upload_record'', NumericSchema)],
      db_rows = [argsFor ex_init]\<rparr>"

definition ex_ledger :: ledger where
  "ex_ledger =
     \<lparr>l_binding = ex_binding, l_profile = numeric_profile, l_conn = True, l_failed = False, l_db = ex_db\<rparr>"

lemma ex_provision: "ProvisionForProfile ex_pj ex_open empty_db ex_binding numeric_profile = (Inr ex_ledger, ex_db)"
  by code_simp

lemma ex_reopen: "OpenExistingForProfile ex_pj ex_open ex_db ex_binding numeric_profile = (Inr ex_ledger, ex_db)"
  by code_simp

section \<open>One upload\<close>

definition ex_body :: bytes where "ex_body = [1, 2, 3]"

definition ex_now :: gotime where "ex_now = ex_time + seconds 5"

definition ex_orc :: "outcome \<Rightarrow> upload_oracle" where
  "ex_orc answer =
     \<lparr>or_ctx = (\<lambda>_. False), or_now = (\<lambda>_. ex_now), or_read = (\<lambda>_. Some ex_body),
      or_send = (\<lambda>_. (Some \<lparr>rs_Outcome = answer, rs_ServerID = ub_ServerID ex_binding, rs_Sequence = 1\<rparr>, False)),
      or_sql = (\<lambda>_. no_faults)\<rparr>"

definition ex_pending :: pending where
  "ex_pending =
     \<lparr>pd_Sequence = 1, pd_Body = ex_body, pd_Digest = sha256 ex_body, pd_CollectedAt = ex_time\<rparr>"

definition ex_reserved :: upload_record where
  "ex_reserved = ex_init\<lparr>ur_Watermark := 1, ur_Pending := Some ex_pending\<rparr>"

definition ex_acked :: upload_record where
  "ex_acked = ex_init\<lparr>ur_Watermark := 1, ur_HasAck := True, ur_LastAck := sha256 ex_body\<rparr>"

definition ex_rejected :: upload_record where
  "ex_rejected = ex_reserved\<lparr>ur_Stopped := CredentialRejected\<rparr>"

definition ex_machine :: "upload_world machine" where
  "ex_machine = \<lparr>m_busy = False, m_record = None, m_recovery = False, m_world = fresh_world ex_ledger\<rparr>"

definition ex_ledger_with :: "upload_record \<Rightarrow> ledger" where
  "ex_ledger_with r = ex_ledger\<lparr>l_db := l_db ex_ledger\<lparr>db_rows := [argsFor r]\<rparr>\<rparr>"

definition ex_request :: upload_request where
  "ex_request = \<lparr>rq_Binding = ex_binding, rq_Sequence = 1, rq_Body = ex_body\<rparr>"

definition ex_world :: "upload_record \<Rightarrow> upload_world" where
  "ex_world r =
     \<lparr>uw_ledger = ex_ledger_with r, uw_sent = [(ex_request, ex_now)], uw_last = ex_now, uw_calls = 15\<rparr>"

definition ex_after :: "upload_record \<Rightarrow> upload_world machine" where
  "ex_after r = ex_machine\<lparr>m_record := Some r, m_world := ex_world r\<rparr>"

lemma ex_new: "NewForProfile ex_binding numeric_profile (fresh_world ex_ledger) = Inr ex_machine"
  by code_simp

lemma ex_numeric:
  "validBinding ex_binding" "validProfile numeric_profile" "pb_Kind numeric_profile = NumericProfile"
  "NumericProfile \<noteq> RichProcessesProfile" "NumericProfile \<noteq> RichProcessesDockerProfile"
  "MaxInt64 \<noteq> 0"
  by code_simp+

lemma ex_times:
  "four_digit_year ex_time" "\<not> bad_now ex_now" "\<not> ex_now + MaxFuture < ex_time" "\<not> MaxAge < Sub ex_now ex_time"
  by code_simp+

lemma ex_init_sel:
  "ur_Stopped ex_init = NoOutcome" "ur_Pending ex_init = None" "\<not> ur_HasAck ex_init" "ur_Watermark ex_init = 0"
  by (simp_all add: ex_init_def initial_record_def)

lemma ex_collected: "collectionTime ex_pj ex_body s numeric_profile = Some ex_time"
  by (simp add: collectionTime_def ex_numeric maxBodyBytes_def ex_pj_def ex_body_def)

lemma ex_short: "\<not> maxBodyBytes numeric_profile < length ex_body"
  by (simp add: maxBodyBytes_def ex_numeric ex_body_def)

lemma ex_valid:
  "ValidateRecordForProfile ex_pj ex_init ex_binding numeric_profile"
  "ValidateRecordForProfile ex_pj ex_reserved ex_binding numeric_profile"
  "ValidateRecordForProfile ex_pj ex_acked ex_binding numeric_profile"
  "ValidateRecordForProfile ex_pj ex_rejected ex_binding numeric_profile"
  by (simp_all add: ValidateRecordForProfile_def validRecord_def ex_numeric ex_collected ex_init_def
      initial_record_def ex_pending_def ex_reserved_def ex_acked_def ex_rejected_def)

lemma ex_typed: "typed_record ex_reserved" "typed_record ex_acked" "typed_record ex_rejected"
  by (simp_all add: typed_record_def ex_init_def initial_record_def zero_digest_def numeric_profile_def
      ex_pending_def ex_acked_def ex_reserved_def ex_rejected_def ex_times)

lemma ex_change:
  "validChangeForProfile ex_pj ex_init ex_reserved ex_binding numeric_profile"
  "validChangeForProfile ex_pj ex_reserved ex_acked ex_binding numeric_profile"
  "validChangeForProfile ex_pj ex_reserved ex_rejected ex_binding numeric_profile"
  by (simp_all add: validChangeForProfile_def ex_valid)
     (simp_all add: ex_init_def initial_record_def ex_pending_def ex_reserved_def ex_acked_def
       ex_rejected_def samePending_def)

lemma ex_ledger_sel:
  "l_conn ex_ledger" "\<not> l_failed ex_ledger" "l_binding ex_ledger = ex_binding" "l_profile ex_ledger = numeric_profile"
  "map_of (db_tables (l_db ex_ledger)) ''upload_record'' = Some (schemaFor numeric_profile)"
  "stored ex_pj ex_ledger = Some ex_init" "Load ex_pj no_faults ex_ledger = (Inr ex_init, ex_ledger)"
  by code_simp+

lemma ex_ledger_with_sel:
  "l_conn (ex_ledger_with r)" "\<not> l_failed (ex_ledger_with r)" "l_binding (ex_ledger_with r) = ex_binding"
  "l_profile (ex_ledger_with r) = numeric_profile"
  "map_of (db_tables (l_db (ex_ledger_with r))) ''upload_record'' = Some (schemaFor numeric_profile)"
  "ex_ledger_with r\<lparr>l_db := l_db (ex_ledger_with r)\<lparr>db_rows := [argsFor r']\<rparr>\<rparr> = ex_ledger_with r'"
  by (simp_all add: ex_ledger_with_def ex_ledger_sel)

lemma ex_commit_reserve:
  "Commit ex_pj no_faults ex_init ex_reserved ex_ledger = (None, ex_ledger_with ex_reserved)"
  "stored ex_pj (ex_ledger_with ex_reserved) = Some ex_reserved"
  using Commit_succeeds [of ex_ledger ex_pj ex_init ex_reserved]
  by (simp_all add: ex_ledger_sel ex_change ex_typed flip: ex_ledger_with_def)

lemma ex_commit:
  assumes "validChangeForProfile ex_pj ex_reserved r ex_binding numeric_profile" and "typed_record r"
  shows "Commit ex_pj no_faults ex_reserved r (ex_ledger_with ex_reserved) = (None, ex_ledger_with r)"
    and "stored ex_pj (ex_ledger_with r) = Some r"
  using Commit_succeeds [of "ex_ledger_with ex_reserved" ex_pj ex_reserved r] assms
  by (simp_all add: ex_ledger_with_sel ex_commit_reserve)

lemma ex_records:
  "ex_init\<lparr>ur_Watermark := 1, ur_Pending := Some ex_pending\<rparr> = ex_reserved"
  "ex_reserved\<lparr>ur_HasAck := True, ur_LastAck := sha256 ex_body, ur_Pending := None\<rparr> = ex_acked"
  "ex_reserved\<lparr>ur_Stopped := CredentialRejected\<rparr> = ex_rejected"
  "\<lparr>pd_Sequence = 1, pd_Body = ex_body, pd_Digest = sha256 ex_body, pd_CollectedAt = ex_time\<rparr> = ex_pending"
  "\<lparr>rq_Binding = ex_binding, rq_Sequence = 1, rq_Body = ex_body\<rparr> = ex_request"
  "pd_Sequence ex_pending = 1" "pd_Body ex_pending = ex_body" "pd_Digest ex_pending = sha256 ex_body"
  "pd_CollectedAt ex_pending = ex_time"
  by (simp_all add: ex_reserved_def ex_acked_def ex_rejected_def ex_pending_def ex_request_def ex_init_def initial_record_def)

lemmas ex_run_simps = Step_def step_record_def step_reserve_def step_send_def step_response_def Machine_stop_def
  Machine_commit_def lift_w_def ledger_deps_def ask_def world_load_def world_now_def world_send_def
  world_commit_def State_Monad.update_def Let_def ex_orc_def fresh_world_def ex_machine_def ex_world_def
  ex_after_def ex_ledger_sel ex_valid ex_init_sel ex_times ex_collected ex_short ex_numeric ex_records
  ex_commit_reserve ex_commit ex_change ex_typed

lemma ex_step_acked:
  "run_state (Step (ledger_deps ex_pj (ex_orc Acknowledged)) ex_pj ex_binding numeric_profile) ex_machine
    = (Inr Acknowledged, ex_after ex_acked)"
  by (simp add: ex_run_simps)

lemma ex_step_rejected:
  "run_state (Step (ledger_deps ex_pj (ex_orc CredentialRejected)) ex_pj ex_binding numeric_profile) ex_machine
    = (Inr CredentialRejected, ex_after ex_rejected)"
  by (simp add: ex_run_simps)

lemma ex_run: "upload_run ex_pj ex_binding numeric_profile ex_machine"
  by (rule run_provision [OF ex_provision ex_new])

lemma ex_run_acked: "upload_run ex_pj ex_binding numeric_profile (ex_after ex_acked)"
  by (rule run_step [OF ex_run ex_step_acked])

lemma ex_run_rejected: "upload_run ex_pj ex_binding numeric_profile (ex_after ex_rejected)"
  by (rule run_step [OF ex_run ex_step_rejected])

end
