(* ===== verification/UploadProperties.thy ===== *)
theory UploadProperties
  imports UploadExample
begin

text \<open>
  The properties of the upload path: the machine, its ledger and the files below it, each with the
  concrete installation as its witness.
\<close>

section \<open>What is sent\<close>

text \<open>C3. Over the whole life of an installation, restarts, lost answers and ambiguous commits
  included, the sequence numbers of the requests handed to the transport never fall, and two requests
  with the same number carry the same body: a number is never reused for another snapshot.\<close>

theorem upload_sequences_not_reused:
  assumes "upload_run pj b p m"
  shows "sorted (map (\<lambda>(x, t). sint (rq_Sequence x)) (uw_sent (m_world m))) \<and>
         (\<forall>x t y u. (x, t) \<in> set (uw_sent (m_world m)) \<and> (y, u) \<in> set (uw_sent (m_world m)) \<and>
            rq_Sequence x = rq_Sequence y \<longrightarrow> rq_Body x = rq_Body y)"
  using run_invariant [OF assms] by (fastforce simp: run_inv_def machine_inv_def log_ok_def)

theorem upload_sequences_not_reused_witness:
  "sorted (map (\<lambda>(x, t). sint (rq_Sequence x)) (uw_sent (m_world (ex_after ex_acked)))) \<and>
   uw_sent (m_world (ex_after ex_acked)) = [(ex_request, ex_now)]"
  using upload_sequences_not_reused [OF ex_run_acked] by (simp add: ex_after_def ex_machine_def ex_world_def)

text \<open>C8. Every request handed to the transport is addressed with the installation's own binding, has a
  positive sequence number and a body its profile accepts, and the clock reading that preceded it lies
  between 30 seconds before and two minutes after the time the body was collected.\<close>

theorem upload_sent_fresh:
  assumes "upload_run pj b p m" and "(x, t) \<in> set (uw_sent (m_world m))"
  shows "rq_Binding x = b \<and> 0 < sint (rq_Sequence x) \<and> length (rq_Body x) \<le> maxBodyBytes p \<and>
         (\<exists>at. collectionTime pj (rq_Body x) (ub_ServerID b) p = Some at \<and>
               at - seconds 30 \<le> t \<and> t \<le> at + minutes 2)"
proof -
  have "rq_Binding x = b \<and> 0 < sint (rq_Sequence x) \<and>
        (\<exists>at. collectionTime pj (rq_Body x) (ub_ServerID b) p = Some at \<and> at - seconds 30 \<le> t \<and> t \<le> at + minutes 2)"
    using run_invariant [OF assms(1)] assms(2) by (auto simp: run_inv_def machine_inv_def log_ok_def)
  moreover have "length (rq_Body x) \<le> maxBodyBytes p"
    if "collectionTime pj (rq_Body x) (ub_ServerID b) p = Some at" for at
    using that by (auto simp: collectionTime_def split: if_splits)
  ultimately show ?thesis by blast
qed

theorem upload_sent_fresh_witness:
  "rq_Binding ex_request = ex_binding \<and> length (rq_Body ex_request) \<le> maxBodyBytes numeric_profile"
proof -
  have "(ex_request, ex_now) \<in> set (uw_sent (m_world (ex_after ex_acked)))"
    by (simp add: ex_after_def ex_machine_def ex_world_def)
  from upload_sent_fresh [OF ex_run_acked this] show ?thesis by simp
qed

text \<open>C11. Reserve before send: whatever has been sent is covered by the record the ledger would load now,
  so a restarted process continues above every number that ever left the machine, and resends a pending
  number only with the pending body.\<close>

theorem upload_reserved_before_sent:
  assumes "upload_run pj b p m" and "uw_durable pj (m_world m) = Some r"
    and "(x, t) \<in> set (uw_sent (m_world m))"
  shows "sint (rq_Sequence x) \<le> sint (ur_Watermark r) \<and>
         (\<forall>q. ur_Pending r = Some q \<longrightarrow> rq_Sequence x = pd_Sequence q \<longrightarrow> rq_Body x = pd_Body q)"
  using run_invariant [OF assms(1)] assms(2,3)
  by (fastforce simp: run_inv_def machine_inv_def covers_def)

theorem upload_reserved_before_sent_witness:
  "sint (rq_Sequence ex_request) \<le> sint (ur_Watermark ex_rejected)"
proof -
  have "(ex_request, ex_now) \<in> set (uw_sent (m_world (ex_after ex_rejected)))"
    and "uw_durable ex_pj (m_world (ex_after ex_rejected)) = Some ex_rejected"
    using ex_commit(2) [OF ex_change(3) ex_typed(3)]
    by (simp_all add: ex_after_def ex_machine_def ex_world_def)
  then show ?thesis using upload_reserved_before_sent [OF ex_run_rejected] by blast
qed

text \<open>C19. One step hands at most one request to the transport. If it reports an acknowledgement, it sent
  exactly one, and the record it holds has no pending snapshot, the digest of the body just sent as its
  last acknowledged one, and the request's number as its watermark; the ledger holds that record unless
  the stored bytes no longer read.\<close>

theorem upload_step_acknowledges_what_it_sent:
  assumes "upload_run pj b p m" and "run_state (Step (ledger_deps pj orc) pj b p) m = (x, m')"
  shows "\<exists>xs. length xs \<le> 1 \<and> uw_sent (m_world m') = uw_sent (m_world m) @ xs \<and>
    (x = Inr Acknowledged \<longrightarrow>
       (\<exists>y t r. xs = [(y, t)] \<and> m_record m' = Some r \<and> ur_Pending r = None \<and> ur_HasAck r \<and>
          ur_LastAck r = sha256 (rq_Body y) \<and> ur_Watermark r = rq_Sequence y \<and>
          uw_durable pj (m_world m') \<in> {Some r, None}))"
proof -
  have "machine_inv pj b p (uw_durable pj) uw_sent m"
    using run_invariant [OF assms(1)] by (simp add: run_inv_def)
  from wpD [OF led.wp_Step [OF this] assms(2)] show ?thesis unfolding led.step_post_def by blast
qed

theorem upload_step_acknowledges_what_it_sent_witness:
  "\<exists>y t r. uw_sent (m_world (ex_after ex_acked)) = uw_sent (m_world ex_machine) @ [(y, t)] \<and>
     m_record (ex_after ex_acked) = Some r \<and> ur_LastAck r = sha256 (rq_Body y)"
  using upload_step_acknowledges_what_it_sent [OF ex_run ex_step_acked] by auto

text \<open>C20. A stopped machine stays stopped: once the durable record carries a stop reason, every later step,
  whatever its environment does, sends nothing, leaves the durable record as it is, and returns that
  reason or an error.\<close>

theorem upload_stopped_stays_stopped:
  assumes "upload_run pj b p m" and "uw_durable pj (m_world m) = Some r" and "ur_Stopped r \<noteq> NoOutcome"
    and "run_state (Step (ledger_deps pj orc) pj b p) m = (x, m')"
  shows "uw_sent (m_world m') = uw_sent (m_world m) \<and> uw_durable pj (m_world m') = Some r \<and>
         (x = Inr (ur_Stopped r) \<or> (\<exists>e. x = Inl e))"
proof -
  have "machine_inv pj b p (uw_durable pj) uw_sent m"
    using run_invariant [OF assms(1)] by (simp add: run_inv_def)
  from wpD [OF led.wp_Step_stopped [OF this assms(2,3)] assms(4)] show ?thesis .
qed

theorem upload_stopped_stays_stopped_witness:
  "uw_sent (m_world (snd (run_state (Step (ledger_deps ex_pj (ex_orc Acknowledged)) ex_pj ex_binding
     numeric_profile) (ex_after ex_rejected)))) = [(ex_request, ex_now)]"
proof -
  have d: "uw_durable ex_pj (m_world (ex_after ex_rejected)) = Some ex_rejected"
    and s: "ur_Stopped ex_rejected \<noteq> NoOutcome" and l: "uw_sent (m_world (ex_after ex_rejected)) = [(ex_request, ex_now)]"
    using ex_commit(2) [OF ex_change(3) ex_typed(3)]
    by (simp_all add: ex_after_def ex_machine_def ex_world_def ex_rejected_def)
  show ?thesis
    using upload_stopped_stays_stopped [OF ex_run_rejected d s, of "ex_orc Acknowledged"] l
    by (metis prod.collapse)
qed

text \<open>C14. The durable watermark never falls in a step, also when the step fails or its commit is ambiguous.\<close>

theorem upload_watermark_monotone:
  assumes "run_state (Step (ledger_deps pj orc) pj b p) m = (x, m')"
    and "uw_durable pj (m_world m) = Some r" and "uw_durable pj (m_world m') = Some r'"
  shows "sint (ur_Watermark r) \<le> sint (ur_Watermark r')"
proof -
  have "watermark_from pj (sint (ur_Watermark r)) (m_world m)"
    using assms(2) by (simp add: watermark_from_def)
  from preservesD [OF led_watermark.frame_Step this assms(1)] assms(3) show ?thesis
    by (simp add: watermark_from_def)
qed

theorem upload_watermark_monotone_witness: "sint (ur_Watermark ex_init) \<le> sint (ur_Watermark ex_acked)"
proof -
  have "uw_durable ex_pj (m_world ex_machine) = Some ex_init"
    and "uw_durable ex_pj (m_world (ex_after ex_acked)) = Some ex_acked"
    using ex_commit(2) [OF ex_change(2) ex_typed(2)] ex_ledger_sel
    by (simp_all add: ex_after_def ex_machine_def ex_world_def fresh_world_def)
  then show ?thesis using upload_watermark_monotone [OF ex_step_acked] by blast
qed

section \<open>What is stored\<close>

text \<open>C15. The ledger implements the contract the machine relies on. A commit that reports success found
  exactly the expected record and left a table that reads back as the new one or not at all; one that
  reports failure left the old record, or replaced the expected one by the new one.\<close>

theorem ledger_commit_atomic:
  assumes "Commit pj io e n l = (err, l')"
  shows "(err = None \<longrightarrow> stored pj l = Some e \<and> stored pj l' \<in> {Some n, None}) \<and>
         (err \<noteq> None \<longrightarrow> stored pj l' = stored pj l \<or>
            (stored pj l = Some e \<and> stored pj l' \<in> {Some n, None}))"
  by (rule Commit_stored [OF assms])

theorem ledger_commit_atomic_witness:
  "stored ex_pj ex_ledger = Some ex_init \<and> stored ex_pj (ex_ledger_with ex_reserved) \<in> {Some ex_reserved, None}"
  using ledger_commit_atomic [OF ex_commit_reserve(1)] by simp

text \<open>C16. Every valid change to a record with 32-byte digests and a four-digit year satisfies all CHECK
  constraints of its profile's schema: without faults the commit succeeds, the row reads back as exactly
  that record, and a later load returns it.\<close>

theorem ledger_commit_roundtrip:
  assumes "l_conn l" and "\<not> l_failed l" and "stored pj l = Some e"
    and "map_of (db_tables (l_db l)) ''upload_record'' = Some (schemaFor (l_profile l))"
    and "validChangeForProfile pj e n (l_binding l) (l_profile l)" and "typed_record n"
  shows "\<exists>l'. Commit pj no_faults e n l = (None, l') \<and> Load pj no_faults l' = (Inr n, l')"
proof -
  note c = Commit_succeeds [OF assms]
  have "Load pj no_faults (l\<lparr>l_db := l_db l\<lparr>db_rows := [argsFor n]\<rparr>\<rparr>)
      = (Inr n, l\<lparr>l_db := l_db l\<lparr>db_rows := [argsFor n]\<rparr>\<rparr>)"
    using c(2) assms(1,2) by (simp add: Load_def no_faults_def stored_def)
  with c(1) show ?thesis by blast
qed

theorem ledger_commit_roundtrip_witness:
  "\<exists>l'. Commit ex_pj no_faults ex_init ex_reserved ex_ledger = (None, l') \<and>
        Load ex_pj no_faults l' = (Inr ex_reserved, l')"
  using ledger_commit_roundtrip [of ex_ledger ex_pj ex_init ex_reserved]
  by (simp add: ex_ledger_sel ex_change ex_typed)

text \<open>C26. A provisioned ledger holds the initial record under its profile's schema, and opening an existing
  ledger changes nothing in the database and succeeds only when the record reads.\<close>

theorem ledger_open:
  assumes "ProvisionForProfile pj oi db b p = (Inr l, db')" and "OpenExistingForProfile pj oi' db2 b p = (Inr l2, db2')"
  shows "l_db l = db' \<and> stored pj l = Some (initial_record b p) \<and>
         map_of (db_tables db') ''upload_record'' = Some (schemaFor p) \<and>
         db2' = db2 \<and> l_db l2 = db2 \<and> stored pj l2 \<noteq> None"
  using provision_fresh [OF assms(1)] open_existing [OF assms(2)] by simp

theorem ledger_open_witness:
  "stored ex_pj ex_ledger = Some (initial_record ex_binding numeric_profile) \<and> l_db ex_ledger = ex_db"
  using ledger_open [OF ex_provision ex_reopen] by simp

text \<open>C27. A database file whose header is accepted for one profile is refused for every profile of another
  kind, so an installation cannot be reopened under a profile it was not provisioned for.\<close>

theorem ledger_header_fences_profiles:
  assumes "validProfile p" and "validProfile q" and "checkHeader euid file p = None" and "pb_Kind p \<noteq> pb_Kind q"
  shows "checkHeader euid' file q \<noteq> None"
  using checkHeader_kind [OF assms(1-3)] assms(4) by blast

theorem ledger_header_fences_profiles_witness:
  "checkHeader 1000 (Some (Some (ex_file 8192), ex_header)) ex_rich \<noteq> None"
proof (rule ledger_header_fences_profiles)
  show "validProfile numeric_profile" "validProfile ex_rich"
    "checkHeader 1000 (Some (Some (ex_file 8192), ex_header)) numeric_profile = None"
    "pb_Kind numeric_profile \<noteq> pb_Kind ex_rich" by code_simp+
qed

text \<open>C28. An accepted ledger directory holds at most three entries, the lock and, when required, the
  database among them; every entry is a singly linked file owned by the process with mode 0600, and
  together they stay within the profile's byte budget.\<close>

theorem ledger_directory_accepted:
  assumes "checkFilesForProfile euid (Some entries) db p = None"
  shows "length entries \<le> 3 \<and> lockName \<in> fst ` set entries \<and> (db \<longrightarrow> databaseName \<in> fst ` set entries) \<and>
         (\<Sum>(n, x)\<leftarrow>entries. case x of None \<Rightarrow> 0 | Some i \<Rightarrow> fi_size i) \<le> sl_totalBytes (limits p) \<and>
         (\<forall>(n, x) \<in> set entries. \<exists>i. x = Some i \<and> fi_uid i = euid \<and> fi_perm i = 0b110000000 \<and> fi_nlink i = 1)"
  using checkFiles_accepted [OF assms] by blast

theorem ledger_directory_accepted_witness:
  "checkFilesForProfile 1000 (Some ex_listing) True numeric_profile = None \<and> lockName \<in> fst ` set ex_listing"
proof -
  have "checkFilesForProfile 1000 (Some ex_listing) True numeric_profile = None" by code_simp
  with ledger_directory_accepted [OF this] show ?thesis by simp
qed

end
