(* ===== verification/UploadLoop.thy ===== *)
theory UploadLoop
  imports UploadRun
begin

text \<open>
  The pacing loop around the upload machine, \<^verbatim>\<open>internal/uploadloop/loop.go\<close>: a startup delay, then
  steps separated by a poll delay, a jittered exponential backoff or the rate-limit delay, until a
  terminal result or cancellation. The loop may run forever; \<open>loop\<close> takes the number of iterations it
  may make and returns \<open>None\<close> when they are used up.
\<close>

section \<open>State\<close>

datatype loop_err = LoopErrConfig | LoopErrBusy | LoopErrUsed | LoopErrCanceled | LoopErrRecovery | LoopErrDependency

definition startupDelay :: duration where "startupDelay = seconds 60"
definition pollDelay :: duration where "pollDelay = seconds 15"
definition maxRetryDelay :: duration where "maxRetryDelay = seconds 60"

lemmas delay_defs = startupDelay_def pollDelay_def maxRetryDelay_def seconds_def

datatype loop_issue = NoIssue | InvalidSnapshot | RecoveryIssue | DependencyIssue

datatype loop_result =
    NoResult | ResCanceled | ResRecoveryRequired | ResDependencyFailed | ResCredentialRejected
  | ResConflict | ResRejected | ResExhausted

record loop_stats =
  ls_Running :: bool
  ls_Stopped :: bool
  ls_Attempts :: uint64
  ls_Acknowledgements :: uint64
  ls_Retries :: uint64
  ls_RateLimits :: uint64
  ls_InvalidSnapshots :: uint64
  ls_LastOutcome :: outcome
  ls_LastIssue :: loop_issue
  ls_Result :: loop_result
  ls_NextDelay :: duration

text \<open>The stepper, the context, the timer (\<open>True\<close> when waiting fails) and the jitter source.\<close>

record 'w loop_deps =
  ld_ctx_err :: "('w, bool) state"
  ld_step :: "('w, upload_err + outcome) state"
  ld_wait :: "duration \<Rightarrow> ('w, bool) state"
  ld_jitter :: "duration \<Rightarrow> ('w, duration) state"

record 'w upload_loop =
  lp_used :: bool
  lp_stats :: loop_stats
  lp_world :: 'w

type_synonym loop_answer = "loop_result \<times> loop_err option"

section \<open>The loop\<close>

definition in_world :: "('w, 'a) state \<Rightarrow> ('w upload_loop, 'a) state" where
  "in_world m = zoom lp_world (\<lambda>w s. s\<lparr>lp_world := w\<rparr>) m"

definition on_stats :: "(loop_stats \<Rightarrow> loop_stats) \<Rightarrow> ('w upload_loop, unit) state" where
  "on_stats f = State_Monad.update (lp_stats_update f)"

definition increment :: "uint64 \<Rightarrow> uint64" where
  "increment v = (if v = - 1 then v else v + 1)"

definition nextRetry :: "duration \<Rightarrow> duration" where
  "nextRetry previous =
     (if previous = 0 then seconds 1
      else if maxRetryDelay div 2 \<le> previous then maxRetryDelay
      else previous * 2)"

text \<open>The random draw \<open>r\<close> is an argument; \<^verbatim>\<open>rand.Int64N\<close> returns one below its bound.\<close>

definition jitter_low :: "duration \<Rightarrow> duration" where
  "jitter_low cap = max (seconds 1) (cap div 2)"

definition retryJitter :: "duration \<Rightarrow> int \<Rightarrow> duration" where
  "retryJitter cap r = jitter_low cap + r"

definition knownOutcome :: "outcome \<Rightarrow> bool" where
  "knownOutcome x \<longleftrightarrow>
     x \<in> {Idle, SourceUnavailable, Retry, RateLimited, Acknowledged, Expired, ClockSkew,
          CredentialRejected, Conflict, Rejected, Exhausted}"

definition finish :: "loop_result \<Rightarrow> loop_err option \<Rightarrow> ('w upload_loop, loop_answer) state" where
  "finish r e = do {
     on_stats (\<lambda>s. s\<lparr>ls_Running := False, ls_Stopped := True, ls_Result := r, ls_NextDelay := 0\<rparr>);
     ret (r, e)
   }"

definition waitFailure :: "'w loop_deps \<Rightarrow> ('w upload_loop, loop_answer) state" where
  "waitFailure D = do {
     canceled \<leftarrow> in_world (ld_ctx_err D);
     if canceled then finish ResCanceled (Some LoopErrCanceled)
     else finish ResDependencyFailed (Some LoopErrDependency)
   }"

definition pause :: "'w loop_deps \<Rightarrow> duration \<Rightarrow> ('w upload_loop, bool) state" where
  "pause D d = do {
     canceled \<leftarrow> in_world (ld_ctx_err D);
     if canceled then ret True
     else do {
       on_stats (\<lambda>s. s\<lparr>ls_NextDelay := d\<rparr>);
       err \<leftarrow> in_world (ld_wait D d);
       on_stats (\<lambda>s. s\<lparr>ls_NextDelay := 0\<rparr>);
       ret err
     }
   }"

text \<open>The statistics of one step; the context is consulted only when the step was cancelled.\<close>

definition record_outcome :: "'w loop_deps \<Rightarrow> upload_err + outcome \<Rightarrow> ('w upload_loop, unit) state" where
  "record_outcome D x =
     (case x of
        Inr y \<Rightarrow>
          if knownOutcome y then on_stats (\<lambda>s.
            let s' = s\<lparr>ls_LastOutcome := y, ls_LastIssue := NoIssue\<rparr>
            in case y of
                 Acknowledged \<Rightarrow> s'\<lparr>ls_Acknowledgements := increment (ls_Acknowledgements s')\<rparr>
               | Retry \<Rightarrow> s'\<lparr>ls_Retries := increment (ls_Retries s')\<rparr>
               | RateLimited \<Rightarrow> s'\<lparr>ls_RateLimits := increment (ls_RateLimits s')\<rparr>
               | _ \<Rightarrow> s')
          else on_stats (\<lambda>s. s\<lparr>ls_LastOutcome := NoOutcome, ls_LastIssue := DependencyIssue\<rparr>)
      | Inl e \<Rightarrow> do {
          canceled \<leftarrow> (if e = ErrCanceled then in_world (ld_ctx_err D) else ret False);
          on_stats (\<lambda>s. s\<lparr>ls_LastOutcome := NoOutcome,
            ls_LastIssue := (if canceled then NoIssue
                             else if e = ErrSnapshot then InvalidSnapshot
                             else if e = ErrRecovery then RecoveryIssue
                             else DependencyIssue)\<rparr>)
        })"

text \<open>What follows a step: the end (\<open>Inl\<close>), or the new retry cap and the delay.\<close>

definition loop_next ::
  "'w loop_deps \<Rightarrow> duration \<Rightarrow> upload_err + outcome \<Rightarrow> ('w upload_loop, loop_answer + duration \<times> duration) state" where
  "loop_next D cap x =
     (case x of
        Inl e \<Rightarrow>
          (if e = ErrRecovery then ret (Inl (ResRecoveryRequired, Some LoopErrRecovery))
           else if e = ErrSnapshot then do {
             on_stats (\<lambda>s. s\<lparr>ls_InvalidSnapshots := increment (ls_InvalidSnapshots s)\<rparr>);
             ret (Inr (0, pollDelay))
           } else ret (Inl (ResDependencyFailed, Some LoopErrDependency)))
      | Inr y \<Rightarrow>
          (if y \<in> {Acknowledged, Idle, SourceUnavailable, Expired, ClockSkew} then ret (Inr (0, pollDelay))
           else if y = Retry then do {
             let cap' = nextRetry cap;
             delay \<leftarrow> in_world (ld_jitter D cap');
             if delay < max (seconds 1) (cap' div 2) \<or> cap' < delay
             then ret (Inl (ResDependencyFailed, Some LoopErrDependency))
             else ret (Inr (cap', delay))
           }
           else if y = RateLimited then ret (Inr (maxRetryDelay, maxRetryDelay))
           else if y = CredentialRejected then ret (Inl (ResCredentialRejected, None))
           else if y = Conflict then ret (Inl (ResConflict, None))
           else if y = Rejected then ret (Inl (ResRejected, None))
           else if y = Exhausted then ret (Inl (ResExhausted, None))
           else ret (Inl (ResDependencyFailed, Some LoopErrDependency))))"

text \<open>One iteration: an answer, or the retry cap of the next iteration.\<close>

definition iteration :: "'w loop_deps \<Rightarrow> duration \<Rightarrow> ('w upload_loop, loop_answer + duration) state" where
  "iteration D cap = do {
     canceled \<leftarrow> in_world (ld_ctx_err D);
     if canceled then do { a \<leftarrow> finish ResCanceled (Some LoopErrCanceled); ret (Inl a) }
     else do {
       on_stats (\<lambda>s. s\<lparr>ls_Attempts := increment (ls_Attempts s)\<rparr>);
       x \<leftarrow> in_world (ld_step D);
       record_outcome D x;
       canceled \<leftarrow> in_world (ld_ctx_err D);
       if canceled then do { a \<leftarrow> finish ResCanceled (Some LoopErrCanceled); ret (Inl a) }
       else do {
         nxt \<leftarrow> loop_next D cap x;
         case nxt of
           Inl (r, e) \<Rightarrow> do { a \<leftarrow> finish r e; ret (Inl a) }
         | Inr (cap', delay) \<Rightarrow> do {
             failed \<leftarrow> pause D delay;
             if failed then do { a \<leftarrow> waitFailure D; ret (Inl a) } else ret (Inr cap')
           }
       }
     }
   }"

fun loop :: "'w loop_deps \<Rightarrow> nat \<Rightarrow> duration \<Rightarrow> ('w upload_loop, loop_answer option) state" where
  "loop D 0 cap = ret None"
| "loop D (Suc n) cap = do {
     x \<leftarrow> iteration D cap;
     case x of Inl a \<Rightarrow> ret (Some a) | Inr cap' \<Rightarrow> loop D n cap'
   }"

definition run_loop :: "'w loop_deps \<Rightarrow> nat \<Rightarrow> ('w upload_loop, loop_answer option) state" where
  "run_loop D n = do {
     failed \<leftarrow> pause D startupDelay;
     if failed then do { a \<leftarrow> waitFailure D; ret (Some a) } else loop D n 0
   }"

text \<open>\<open>Run\<close> itself: only an unused loop with a context starts.\<close>

definition Run :: "'w loop_deps \<Rightarrow> bool \<Rightarrow> nat \<Rightarrow> ('w upload_loop, loop_answer option) state" where
  "Run D ctx_nil n = do {
     l \<leftarrow> State_Monad.get;
     if ls_Running (lp_stats l) then ret (Some (NoResult, Some LoopErrBusy))
     else if lp_used l then ret (Some (NoResult, Some LoopErrUsed))
     else if ctx_nil then ret (Some (NoResult, Some LoopErrConfig))
     else do {
       State_Monad.update (\<lambda>l. l\<lparr>lp_used := True, lp_stats := (lp_stats l)\<lparr>ls_Running := True\<rparr>\<rparr>);
       run_loop D n
     }
   }"

definition empty_stats :: loop_stats where
  "empty_stats =
     \<lparr>ls_Running = False, ls_Stopped = False, ls_Attempts = 0, ls_Acknowledgements = 0, ls_Retries = 0,
      ls_RateLimits = 0, ls_InvalidSnapshots = 0, ls_LastOutcome = NoOutcome, ls_LastIssue = NoIssue,
      ls_Result = NoResult, ls_NextDelay = 0\<rparr>"

definition NewLoop :: "'w \<Rightarrow> 'w upload_loop" where
  "NewLoop w = \<lparr>lp_used = False, lp_stats = empty_stats, lp_world = w\<rparr>"

section \<open>Backoff\<close>

definition max_count :: nat where "max_count = 2 ^ 64 - 1"

lemma unat_max: "unat (- 1 :: uint64) = max_count"
  by (simp add: max_count_def unsigned_minus_1_eq_mask mask_eq_exp_minus_1)

lemma unat_le_max_count: "unat (v :: uint64) \<le> max_count"
proof -
  have "unat v < 2 ^ LENGTH(64)" by (rule unsigned_less)
  then show ?thesis by (simp add: max_count_def)
qed

lemma increment_unat: "unat (increment v) = min (unat v + 1) max_count"
proof (cases "v = - 1")
  case True
  then show ?thesis by (simp add: increment_def unat_max)
next
  case False
  then have "unat v \<noteq> max_count" by (metis unat_max word_unat_eq_iff)
  with unat_le_max_count [of v] have "unat v + 1 \<le> max_count" by linarith
  moreover have "unat (v + 1) = unat v + 1"
    using calculation by (simp add: unat_word_ariths(1) max_count_def)
  ultimately show ?thesis using False by (simp add: increment_def)
qed

definition retry_cap :: "duration \<Rightarrow> bool" where
  "retry_cap cap \<longleftrightarrow> cap = 0 \<or> (seconds 1 \<le> cap \<and> cap \<le> maxRetryDelay)"

lemma nextRetry_cap: "retry_cap cap \<Longrightarrow> seconds 1 \<le> nextRetry cap \<and> nextRetry cap \<le> maxRetryDelay"
  by (auto simp: retry_cap_def nextRetry_def delay_defs)

lemma retryJitter_bounds:
  assumes "seconds 1 \<le> cap" and "0 \<le> r" and "r < (cap - jitter_low cap) + 1"
  shows "max (seconds 1) (cap div 2) \<le> retryJitter cap r \<and> retryJitter cap r \<le> cap"
  using assms by (simp add: retryJitter_def jitter_low_def)

text \<open>\<open>n\<close> retries in a row wait at most 1, 2, 4, 8, 16, 32 and then 60 seconds.\<close>

lemma nextRetry_power: "n \<le> 5 \<Longrightarrow> (nextRetry ^^ Suc n) 0 = seconds (2 ^ n)"
proof (induction n)
  case (Suc n)
  then have "(2 :: int) ^ n \<le> 2 ^ 4" by (intro power_increasing) simp_all
  with Suc show ?case by (simp add: nextRetry_def delay_defs)
qed (simp add: nextRetry_def)

lemma nextRetry_limit: "5 < n \<Longrightarrow> (nextRetry ^^ Suc n) 0 = maxRetryDelay"
proof (induction n)
  case (Suc n)
  have top: "nextRetry (seconds 32) = maxRetryDelay" "nextRetry maxRetryDelay = maxRetryDelay"
    by (simp_all add: nextRetry_def delay_defs)
  show ?case
  proof (cases "n = 5")
    case True
    then have "(nextRetry ^^ Suc n) 0 = seconds 32"
      using nextRetry_power [of 5] by (simp del: funpow.simps)
    then show ?thesis using top(1) by (simp only: funpow.simps(2) [of "Suc n"] o_apply)
  next
    case False
    then have "(nextRetry ^^ Suc n) 0 = maxRetryDelay" using Suc by simp
    then show ?thesis using top(2) by simp
  qed
qed simp

section \<open>Pacing\<close>

text \<open>What the loop does to the outside, in order. The contract of its collaborators: only the stepper
  and the timer leave a trace.\<close>

datatype loop_event = Stepped "upload_err + outcome" | Waited duration

locale loop_env =
  fixes D :: "'w loop_deps" and trace :: "'w \<Rightarrow> loop_event list"
  assumes ctx_trace: "wp (ld_ctx_err D) (\<lambda>_ w'. trace w' = trace w) w"
    and jitter_trace: "wp (ld_jitter D d) (\<lambda>_ w'. trace w' = trace w) w"
    and step_trace: "wp (ld_step D) (\<lambda>x w'. trace w' = trace w @ [Stepped x]) w"
    and wait_trace: "wp (ld_wait D d) (\<lambda>_ w'. trace w' = trace w @ [Waited d]) w"

text \<open>The retry cap after a step, \<open>None\<close> when the step ends the loop, and the delay it allows.\<close>

fun next_cap :: "duration \<Rightarrow> upload_err + outcome \<Rightarrow> duration option" where
  "next_cap cap (Inl e) = (if e = ErrSnapshot then Some 0 else None)"
| "next_cap cap (Inr y) =
     (if y \<in> {Acknowledged, Idle, SourceUnavailable, Expired, ClockSkew} then Some 0
      else if y = Retry then Some (nextRetry cap)
      else if y = RateLimited then Some maxRetryDelay else None)"

definition delay_ok :: "upload_err + outcome \<Rightarrow> duration \<Rightarrow> duration \<Rightarrow> bool" where
  "delay_ok x cap d =
     (if x = Inr Retry then max (seconds 1) (cap div 2) \<le> d \<and> d \<le> cap
      else if x = Inr RateLimited then d = seconds 60
      else d = seconds 15)"

fun paced :: "duration \<Rightarrow> loop_event list \<Rightarrow> bool" where
  "paced cap [] = True"
| "paced cap [Stepped x] = True"
| "paced cap (Stepped x # Waited d # es) =
     (case next_cap cap x of None \<Rightarrow> False | Some cap' \<Rightarrow> delay_ok x cap' d \<and> paced cap' es)"
| "paced cap _ = False"

lemma paced_waits:
  "paced cap es \<Longrightarrow> retry_cap cap \<Longrightarrow> Waited d \<in> set es \<Longrightarrow> seconds 1 \<le> d \<and> d \<le> seconds 60"
proof (induction cap es rule: paced.induct)
  case (3 cap x d' es)
  from 3(2) obtain cap' where c: "next_cap cap x = Some cap'" "delay_ok x cap' d'" "paced cap' es"
    by (auto split: option.splits)
  have cap': "retry_cap cap'" "x = Inr Retry \<longrightarrow> cap' \<le> maxRetryDelay"
    using c(1) nextRetry_cap [OF 3(3)]
    by (cases x; auto simp: retry_cap_def delay_defs split: if_splits)+
  show ?case
  proof (cases "Waited d \<in> set es")
    case True
    then show ?thesis using 3(1) c cap'(1) by blast
  next
    case False
    then have "d = d'" using 3(4) by simp
    then show ?thesis using c(2) cap'(2) by (auto simp: delay_ok_def delay_defs split: if_splits)
  qed
qed auto

text \<open>Counting the steps of a kind, and the statistics that count them up to the top of the counter.\<close>

definition steps_with :: "(upload_err + outcome \<Rightarrow> bool) \<Rightarrow> loop_event list \<Rightarrow> nat" where
  "steps_with P es = length (filter (\<lambda>e. case e of Stepped x \<Rightarrow> P x | Waited _ \<Rightarrow> False) es)"

lemma steps_with_simps [simp]:
  "steps_with P [] = 0" "steps_with P (Stepped x # es) = (if P x then 1 else 0) + steps_with P es"
  "steps_with P (Waited d # es) = steps_with P es" "steps_with P (es @ es') = steps_with P es + steps_with P es'"
  by (simp_all add: steps_with_def)

definition counted :: "loop_stats \<Rightarrow> loop_event list \<Rightarrow> loop_stats \<Rightarrow> bool" where
  "counted s es s' \<longleftrightarrow>
     unat (ls_Attempts s') = min (unat (ls_Attempts s) + steps_with (\<lambda>_. True) es) max_count \<and>
     unat (ls_Acknowledgements s') =
       min (unat (ls_Acknowledgements s) + steps_with (\<lambda>x. x = Inr Acknowledged) es) max_count \<and>
     unat (ls_Retries s') = min (unat (ls_Retries s) + steps_with (\<lambda>x. x = Inr Retry) es) max_count \<and>
     unat (ls_RateLimits s') = min (unat (ls_RateLimits s) + steps_with (\<lambda>x. x = Inr RateLimited) es) max_count"

lemma min_sum: "min (min (a + m) M + n) M = min (a + (m + n)) (M :: nat)"
  by (simp add: min_def)

lemma counted_trans: "counted s es s' \<Longrightarrow> counted s' es' s'' \<Longrightarrow> counted s (es @ es') s''"
  by (simp add: counted_def min_sum)

text \<open>The step that a terminal result stands for.\<close>

fun result_step :: "loop_result \<Rightarrow> (upload_err + outcome) option" where
  "result_step ResCredentialRejected = Some (Inr CredentialRejected)"
| "result_step ResConflict = Some (Inr Conflict)"
| "result_step ResRejected = Some (Inr Rejected)"
| "result_step ResExhausted = Some (Inr Exhausted)"
| "result_step ResRecoveryRequired = Some (Inl ErrRecovery)"
| "result_step _ = None"

definition ended :: "'w upload_loop \<Rightarrow> loop_answer \<Rightarrow> loop_event list \<Rightarrow> bool" where
  "ended l a es \<longleftrightarrow>
     \<not> ls_Running (lp_stats l) \<and> ls_Stopped (lp_stats l) \<and> ls_Result (lp_stats l) = fst a \<and>
     fst a \<noteq> NoResult \<and> (\<forall>x. result_step (fst a) = Some x \<longrightarrow> es \<noteq> [] \<and> last es = Stepped x)"

definition continued :: "duration \<Rightarrow> duration \<Rightarrow> loop_event list \<Rightarrow> bool" where
  "continued cap cap' es \<longleftrightarrow>
     (\<exists>x d. es = [Stepped x, Waited d] \<and> next_cap cap x = Some cap' \<and> delay_ok x cap' d)"

lemma paced_continued: "continued cap cap' es \<Longrightarrow> paced cap' es' \<Longrightarrow> paced cap (es @ es')"
  by (auto simp: continued_def)

context loop_env
begin

lemma wp_in_ctx: "(\<And>c w'. trace w' = trace (lp_world l) \<Longrightarrow> Q c (l\<lparr>lp_world := w'\<rparr>)) \<Longrightarrow> wp (in_world (ld_ctx_err D)) Q l"
  unfolding in_world_def wp_zoom by (rule wp_mono [OF ctx_trace])

lemma wp_in_jitter: "(\<And>d w'. trace w' = trace (lp_world l) \<Longrightarrow> Q d (l\<lparr>lp_world := w'\<rparr>)) \<Longrightarrow> wp (in_world (ld_jitter D c)) Q l"
  unfolding in_world_def wp_zoom by (rule wp_mono [OF jitter_trace])

lemma wp_in_step:
  "(\<And>x w'. trace w' = trace (lp_world l) @ [Stepped x] \<Longrightarrow> Q x (l\<lparr>lp_world := w'\<rparr>)) \<Longrightarrow> wp (in_world (ld_step D)) Q l"
  unfolding in_world_def wp_zoom by (rule wp_mono [OF step_trace])

lemma wp_in_wait:
  "(\<And>x w'. trace w' = trace (lp_world l) @ [Waited d] \<Longrightarrow> Q x (l\<lparr>lp_world := w'\<rparr>)) \<Longrightarrow> wp (in_world (ld_wait D d)) Q l"
  unfolding in_world_def wp_zoom by (rule wp_mono [OF wait_trace])

lemma wp_on_stats: "wp (on_stats f) Q l = Q () (l\<lparr>lp_stats := f (lp_stats l)\<rparr>)"
  by (cases l) (simp add: on_stats_def wp_simps)

lemma wp_finish: "wp (finish r e) Q l = Q (r, e) (l\<lparr>lp_stats := (lp_stats l)\<lparr>ls_Running := False, ls_Stopped := True,
    ls_Result := r, ls_NextDelay := 0\<rparr>\<rparr>)"
  by (simp add: finish_def wp_simps wp_on_stats)

text \<open>The observable part of a loop: its trace and the counters of its statistics.\<close>

abbreviation tr :: "'w upload_loop \<Rightarrow> loop_event list" where "tr l \<equiv> trace (lp_world l)"

definition same_counts :: "loop_stats \<Rightarrow> loop_stats \<Rightarrow> bool" where
  "same_counts s s' \<longleftrightarrow>
     ls_Attempts s' = ls_Attempts s \<and> ls_Acknowledgements s' = ls_Acknowledgements s \<and>
     ls_Retries s' = ls_Retries s \<and> ls_RateLimits s' = ls_RateLimits s"

lemma wp_pause:
  assumes "\<And>failed l' es. tr l' = tr l @ es \<Longrightarrow> es \<in> (if failed then {[], [Waited d]} else {[Waited d]}) \<Longrightarrow>
      same_counts (lp_stats l) (lp_stats l') \<Longrightarrow> Q failed l'"
  shows "wp (pause D d) Q l"
  unfolding pause_def
  apply (simp only: wp_bind)
  apply (rule wp_in_ctx)
  apply (simp only: wp_simps, intro conjI impI)
  subgoal for c w' by (rule assms [where es = "[]"]) (simp_all add: same_counts_def)
  subgoal for c w'
    apply (simp only: wp_bind wp_on_stats)
    apply (rule wp_in_wait)
    apply (simp only: wp_simps wp_on_stats)
    subgoal for x w'' by (rule assms [where es = "[Waited d]"]) (simp_all add: same_counts_def)
    done
  done

lemma wp_waitFailure:
  assumes "\<And>r e l'. tr l' = tr l \<Longrightarrow> r \<in> {ResCanceled, ResDependencyFailed} \<Longrightarrow> \<not> ls_Running (lp_stats l') \<Longrightarrow>
      ls_Stopped (lp_stats l') \<Longrightarrow> ls_Result (lp_stats l') = r \<Longrightarrow> same_counts (lp_stats l) (lp_stats l') \<Longrightarrow> Q (r, e) l'"
  shows "wp (waitFailure D) Q l"
  unfolding waitFailure_def
  apply (simp only: wp_bind)
  apply (rule wp_in_ctx)
  apply (simp only: wp_simps wp_finish)
  apply (intro conjI impI; rule assms; simp add: same_counts_def)
  done

lemma wp_record:
  assumes "\<And>l'. tr l' = tr l \<Longrightarrow>
      counted ((lp_stats l)\<lparr>ls_Attempts := n\<rparr>) [Stepped x] (lp_stats l') \<Longrightarrow> Q () l'"
    and "ls_Attempts (lp_stats l) = increment n"
  shows "wp (record_outcome D x) Q l"
proof -
  have sat: "min (unat v) max_count = unat v" for v :: uint64
    using unat_le_max_count [of v] by simp
  note fin = assms(1)
  show ?thesis
  proof (cases x)
    case (Inl e)
    show ?thesis
      unfolding record_outcome_def Inl
      apply (simp only: sum.case wp_bind wp_if)
      apply (intro conjI impI)
      subgoal by (rule wp_in_ctx) (auto simp: wp_on_stats assms(2) counted_def increment_unat sat Inl intro!: fin)
      subgoal by (auto simp: wp_return wp_on_stats assms(2) counted_def increment_unat sat Inl intro!: fin)
      done
  next
    case (Inr y)
    show ?thesis
      unfolding record_outcome_def Inr
      by (cases y) (auto simp: wp_on_stats assms(2) counted_def increment_unat sat knownOutcome_def Inr intro!: fin)
  qed
qed

lemma wp_loop_next:
  assumes "\<And>y l'. tr l' = tr l \<Longrightarrow> counted (lp_stats l) [] (lp_stats l') \<Longrightarrow>
      (case y of Inl (r, e) \<Rightarrow> r \<noteq> NoResult \<and> (\<forall>z. result_step r = Some z \<longrightarrow> x = z)
       | Inr (cap', d) \<Rightarrow> next_cap cap x = Some cap' \<and> delay_ok x cap' d) \<Longrightarrow> Q y l'"
  shows "wp (loop_next D cap x) Q l"
proof -
  have sat: "min (unat v) max_count = unat v" for v :: uint64
    using unat_le_max_count [of v] by simp
  have c0: "counted (lp_stats l) [] (lp_stats l)" by (simp add: counted_def sat)
  show ?thesis
  proof (cases x)
    case (Inl e)
    show ?thesis
      unfolding loop_next_def Inl
      by (auto simp: wp_simps wp_on_stats Inl c0 counted_def sat delay_ok_def pollDelay_def intro!: assms)
  next
    case (Inr y)
    show ?thesis
    proof (cases "y = Retry")
      case True
      show ?thesis
        unfolding loop_next_def Inr True Let_def
        apply (simp add: wp_simps)
        apply (rule wp_in_jitter)
        apply (auto simp: wp_return Inr True c0 delay_ok_def intro!: assms)
        done
    next
      case False
      then show ?thesis
        unfolding loop_next_def Inr
        by (auto simp: wp_simps Inr c0 delay_ok_def pollDelay_def maxRetryDelay_def intro!: assms)
    qed
  qed
qed

lemma counted_same: "counted s es s' \<Longrightarrow> same_counts s' s'' \<Longrightarrow> counted s es s''"
  by (simp add: counted_def same_counts_def)

definition iteration_post :: "duration \<Rightarrow> 'w upload_loop \<Rightarrow> loop_answer + duration \<Rightarrow> 'w upload_loop \<Rightarrow> bool" where
  "iteration_post cap l x l' \<longleftrightarrow>
     (\<exists>es. tr l' = tr l @ es \<and> counted (lp_stats l) es (lp_stats l') \<and> paced cap es \<and>
        (case x of Inl a \<Rightarrow> ended l' a es | Inr cap' \<Rightarrow> continued cap cap' es))"

lemma wp_iteration: "wp (iteration D cap) (iteration_post cap l) l"
  unfolding iteration_def
  apply (simp only: wp_bind)
  apply (rule wp_in_ctx)
  apply (simp only: wp_simps wp_finish, intro conjI impI)
  subgoal for c w
    unfolding iteration_post_def
    by (rule exI [of _ "[]"])
       (simp add: counted_def ended_def min_absorb1 unat_le_max_count)
  subgoal for c w
    apply (simp only: wp_bind wp_on_stats)
    apply (rule wp_in_step)
    apply (simp only: wp_bind)
    apply (rule wp_record [where n = "ls_Attempts (lp_stats l)"])
    subgoal premises p for x w1 l1
    proof -
      have t1: "tr l1 = tr l @ [Stepped x]" and c1: "counted (lp_stats l) [Stepped x] (lp_stats l1)"
        using p by simp_all
      have fin: "iteration_post cap l (Inl (r, e)) (l2\<lparr>lp_stats := (lp_stats l2)\<lparr>ls_Running := False,
            ls_Stopped := True, ls_Result := r, ls_NextDelay := 0\<rparr>\<rparr>)"
        if "tr l2 = tr l1" "counted (lp_stats l1) [] (lp_stats l2)" "r \<noteq> NoResult"
          "\<And>z. result_step r = Some z \<Longrightarrow> x = z" for r e l2
        unfolding iteration_post_def
        using that t1 counted_trans [OF c1 that(2)]
        by (intro exI [of _ "[Stepped x]"]) (auto simp: ended_def counted_def)
      show ?thesis
        apply (simp only: wp_bind)
        apply (rule wp_in_ctx)
        apply (simp only: wp_simps wp_finish, intro conjI impI)
        subgoal by (rule fin) (simp_all add: counted_def min_absorb1 unat_le_max_count)
        apply (rule wp_loop_next)
        subgoal premises q for c2 w2 y l2
        proof (cases y)
          case (Inl a)
          then show ?thesis using q fin [of l2 "fst a" "snd a"]
            by (cases a) (auto simp: wp_simps wp_finish)
        next
          case (Inr z)
          obtain cap' d where z: "z = (cap', d)" by (cases z)
          have nx: "next_cap cap x = Some cap'" "delay_ok x cap' d" using q Inr z by simp_all
          have c2: "counted (lp_stats l) [Stepped x] (lp_stats l2)"
            using counted_trans [OF c1, of "[]" "lp_stats l2"] q by simp
          show ?thesis
            unfolding Inr z sum.case prod.case
            apply (simp only: wp_bind)
            apply (rule wp_pause)
            subgoal premises r for failed l3 es
            proof -
              have c3: "counted (lp_stats l) (Stepped x # es) (lp_stats l3)"
                using c2 r by (auto simp: counted_def same_counts_def split: if_splits)
              have t3: "tr l3 = tr l @ Stepped x # es" using r q t1 by simp
              have p3: "paced cap (Stepped x # es)" using r nx by (auto split: if_splits)
              have fail: "iteration_post cap l (Inl (res, e)) l4"
                if "tr l4 = tr l3" "res \<in> {ResCanceled, ResDependencyFailed}" "\<not> ls_Running (lp_stats l4)"
                  "ls_Stopped (lp_stats l4)" "ls_Result (lp_stats l4) = res"
                  "same_counts (lp_stats l3) (lp_stats l4)" for res e l4
                unfolding iteration_post_def
                using that t3 p3 counted_same [OF c3 that(6)]
                by (intro exI [of _ "Stepped x # es"]) (auto simp: ended_def)
              have "iteration_post cap l (Inr cap') l3" if "\<not> failed"
                unfolding iteration_post_def
                using that r t3 p3 c3 nx by (intro exI [of _ "Stepped x # es"]) (simp add: continued_def)
              then show ?thesis
                by (auto simp: wp_simps intro!: wp_waitFailure fail)
            qed
            done
        qed
        done
    qed
    subgoal by simp
    done
  done

definition loop_post :: "duration \<Rightarrow> 'w upload_loop \<Rightarrow> loop_answer option \<Rightarrow> 'w upload_loop \<Rightarrow> bool" where
  "loop_post cap l x l' \<longleftrightarrow>
     (\<exists>es. tr l' = tr l @ es \<and> counted (lp_stats l) es (lp_stats l') \<and> paced cap es \<and>
        (\<forall>a. x = Some a \<longrightarrow> ended l' a es))"

lemma ended_append: "ended l a es' \<Longrightarrow> ended l a (es @ es')"
  by (auto simp: ended_def)

lemma ended_Cons: "ended l a es \<Longrightarrow> ended l a (e # es)"
  using ended_append [of l a es "[e]"] by simp

theorem wp_loop: "wp (loop D n cap) (loop_post cap l) l"
proof (induction n arbitrary: cap l)
  case 0
  show ?case
    by (auto simp: wp_simps loop_post_def counted_def min_absorb1 unat_le_max_count intro!: exI [of _ "[]"])
next
  case (Suc n)
  have step: "wp (case x of Inl a \<Rightarrow> ret (Some a) | Inr cap' \<Rightarrow> loop D n cap') (loop_post cap l) l1"
    if post: "iteration_post cap l x l1" for x l1
  proof -
    obtain es where es: "tr l1 = tr l @ es" "counted (lp_stats l) es (lp_stats l1)" "paced cap es"
      "case x of Inl a \<Rightarrow> ended l1 a es | Inr cap' \<Rightarrow> continued cap cap' es"
      using post by (auto simp: iteration_post_def)
    show ?thesis
    proof (cases x)
      case (Inl a)
      then show ?thesis using es by (auto simp: wp_simps loop_post_def)
    next
      case (Inr cap')
      have "loop_post cap l y l2" if "loop_post cap' l1 y l2" for y l2
        using that es Inr unfolding loop_post_def
        by (fastforce intro: counted_trans paced_continued ended_append)
      then show ?thesis using Inr by (auto intro!: wp_mono [OF Suc.IH])
    qed
  qed
  show ?case by (auto simp: wp_bind intro!: wp_mono [OF wp_iteration] step)
qed

definition run_post :: "'w upload_loop \<Rightarrow> loop_answer option \<Rightarrow> 'w upload_loop \<Rightarrow> bool" where
  "run_post l x l' \<longleftrightarrow>
     (\<exists>es. tr l' = tr l @ es \<and> counted (lp_stats l) es (lp_stats l') \<and>
        (es = [] \<or> (\<exists>es'. es = Waited startupDelay # es' \<and> paced 0 es')) \<and>
        (\<forall>a. x = Some a \<longrightarrow> ended l' a es))"

lemma wp_run_loop: "wp (run_loop D n) (run_post l) l"
  unfolding run_loop_def
  apply (simp only: wp_bind)
  apply (rule wp_pause)
  subgoal premises r for failed l1 es
  proof -
    have c1: "counted (lp_stats l) es (lp_stats l1)"
      using r by (auto simp: counted_def same_counts_def min_absorb1 unat_le_max_count split: if_splits)
    have fail: "run_post l (Some (res, e)) l2"
      if "tr l2 = tr l1" "res \<in> {ResCanceled, ResDependencyFailed}" "\<not> ls_Running (lp_stats l2)"
        "ls_Stopped (lp_stats l2)" "ls_Result (lp_stats l2) = res" "same_counts (lp_stats l1) (lp_stats l2)" for res e l2
      unfolding run_post_def
      using that r counted_same [OF c1 that(6)] by (intro exI [of _ es]) (auto simp: ended_def split: if_splits)
    have go: "run_post l x l2" if nf: "\<not> failed" and post: "loop_post 0 l1 x l2" for x l2
    proof -
      obtain es2 where e2: "tr l2 = tr l1 @ es2" "counted (lp_stats l1) es2 (lp_stats l2)" "paced 0 es2"
        "\<forall>a. x = Some a \<longrightarrow> ended l2 a es2"
        using post by (auto simp: loop_post_def)
      have "es = [Waited startupDelay]" using r nf by simp
      then show ?thesis
        unfolding run_post_def using r e2 counted_trans [OF c1 e2(2)]
        by (intro exI [of _ "es @ es2"]) (auto intro: ended_Cons)
    qed
    show ?thesis
      using go by (auto simp: wp_simps intro!: wp_waitFailure fail wp_mono [OF wp_loop])
  qed
  done

theorem wp_Run:
  assumes "\<not> ls_Running (lp_stats l)" and "\<not> lp_used l"
  shows "wp (Run D False n) (run_post l) l"
proof -
  let ?l = "l\<lparr>lp_used := True, lp_stats := (lp_stats l)\<lparr>ls_Running := True\<rparr>\<rparr>"
  have "run_post l x l'" if "run_post ?l x l'" for x l'
    using that by (simp add: run_post_def counted_def)
  then show ?thesis
    using assms by (auto simp: Run_def wp_simps intro!: wp_mono [OF wp_run_loop])
qed

end

section \<open>The loop over the upload machine\<close>

text \<open>
  The production composition: the stepper is the upload machine over its ledger. Each step and each
  call of the loop meets its own behaviour of the outside; the jitter is \<open>retryJitter\<close> of a draw.
\<close>

record loop_oracle =
  lo_ctx :: "nat \<Rightarrow> bool"
  lo_wait :: "nat \<Rightarrow> bool"
  lo_rand :: "nat \<Rightarrow> int"
  lo_upload :: "nat \<Rightarrow> upload_oracle"

record loop_world =
  lw_machine :: "upload_world machine"
  lw_trace :: "loop_event list"
  lw_calls :: nat

definition ask_loop :: "(nat \<Rightarrow> 'a) \<Rightarrow> (loop_world, 'a) state" where
  "ask_loop f = do {
     w \<leftarrow> State_Monad.get;
     State_Monad.set (w\<lparr>lw_calls := Suc (lw_calls w)\<rparr>);
     ret (f (lw_calls w))
   }"

definition loop_step ::
  "projections \<Rightarrow> upload_binding \<Rightarrow> profile_binding \<Rightarrow> loop_oracle \<Rightarrow> (loop_world, upload_err + outcome) state" where
  "loop_step pj b p orc = do {
     up \<leftarrow> ask_loop (lo_upload orc);
     w \<leftarrow> State_Monad.get;
     let (x, m) = run_state (Step (ledger_deps pj up) pj b p) (lw_machine w);
     State_Monad.set (w\<lparr>lw_machine := m, lw_trace := lw_trace w @ [Stepped x]\<rparr>);
     ret x
   }"

definition loop_wait :: "loop_oracle \<Rightarrow> duration \<Rightarrow> (loop_world, bool) state" where
  "loop_wait orc d = do {
     failed \<leftarrow> ask_loop (lo_wait orc);
     State_Monad.update (\<lambda>w. w\<lparr>lw_trace := lw_trace w @ [Waited d]\<rparr>);
     ret failed
   }"

definition loop_jitter :: "loop_oracle \<Rightarrow> duration \<Rightarrow> (loop_world, duration) state" where
  "loop_jitter orc cap = do {
     r \<leftarrow> ask_loop (lo_rand orc);
     ret (retryJitter cap (r mod ((cap - jitter_low cap) + 1)))
   }"

definition machine_loop ::
  "projections \<Rightarrow> upload_binding \<Rightarrow> profile_binding \<Rightarrow> loop_oracle \<Rightarrow> loop_world loop_deps" where
  "machine_loop pj b p orc =
     \<lparr>ld_ctx_err = ask_loop (lo_ctx orc), ld_step = loop_step pj b p orc, ld_wait = loop_wait orc,
      ld_jitter = loop_jitter orc\<rparr>"

lemma wp_ask_loop [wp_simps]:
  "wp (ask_loop f) Q w = Q (f (lw_calls w)) (w\<lparr>lw_calls := Suc (lw_calls w)\<rparr>)"
  by (simp add: ask_loop_def wp_simps)

interpretation ml: loop_env "machine_loop pj b p orc" lw_trace
  for pj :: projections and b :: upload_binding and p :: profile_binding and orc :: loop_oracle
  by unfold_locales
     (simp_all add: machine_loop_def loop_step_def loop_wait_def loop_jitter_def wp_simps split: prod.split)

text \<open>Along the loop the machine stays in a run, and each step added at most one request to the log.\<close>

definition loop_inv :: "projections \<Rightarrow> upload_binding \<Rightarrow> profile_binding \<Rightarrow> nat \<Rightarrow> loop_world \<Rightarrow> bool" where
  "loop_inv pj b p k w \<longleftrightarrow>
     upload_run pj b p (lw_machine w) \<and>
     length (uw_sent (m_world (lw_machine w))) \<le> k + steps_with (\<lambda>_. True) (lw_trace w)"

lemma pres_loop_step: "preserves (loop_inv pj b p k) (loop_step pj b p orc)"
proof -
  have one: "upload_run pj b p m' \<and> length (uw_sent (m_world m')) \<le> length (uw_sent (m_world m)) + 1"
    if "upload_run pj b p m" "run_state (Step (ledger_deps pj up) pj b p) m = (x, m')" for m up x m'
    using that run_step wpD [OF led.wp_Step that(2)] run_invariant [OF that(1)]
    by (auto simp: run_inv_def led.step_post_def)
  show ?thesis
    unfolding preserves_def
  proof (intro allI impI)
    fix w assume i: "loop_inv pj b p k w"
    obtain x m' where "run_state (Step (ledger_deps pj (lo_upload orc (lw_calls w))) pj b p) (lw_machine w) = (x, m')"
      by (metis surj_pair)
    with one i show "wp (loop_step pj b p orc) (\<lambda>_. loop_inv pj b p k) w"
      by (fastforce simp: loop_step_def wp_simps loop_inv_def)
  qed
qed

lemma pres_in_world: "preserves P m \<Longrightarrow> preserves (\<lambda>l. P (lp_world l)) (in_world m)"
  unfolding in_world_def by (rule pres_zoom) simp_all

lemma pres_loop_ops:
  "preserves (loop_inv pj b p k) (ld_ctx_err (machine_loop pj b p orc))"
  "preserves (loop_inv pj b p k) (ld_step (machine_loop pj b p orc))"
  "preserves (loop_inv pj b p k) (ld_wait (machine_loop pj b p orc) d)"
  "preserves (loop_inv pj b p k) (ld_jitter (machine_loop pj b p orc) d)"
  using pres_loop_step
  by (simp_all add: machine_loop_def loop_wait_def loop_jitter_def preserves_def wp_simps loop_inv_def)

lemmas pres_loop = pres_loop_ops [THEN pres_in_world]

lemma pres_on_stats: "preserves (\<lambda>l. P (lp_world l)) (on_stats f)"
  by (simp add: on_stats_def preserves_def wp_simps)

lemma pres_finish: "preserves (\<lambda>l. P (lp_world l)) (finish r e)"
  unfolding finish_def by (intro pres_intros pres_on_stats)

lemma pres_iteration:
  "preserves (\<lambda>l. loop_inv pj b p k (lp_world l)) (iteration (machine_loop pj b p orc) cap)"
proof -
  have "preserves (\<lambda>l. loop_inv pj b p k (lp_world l)) (record_outcome (machine_loop pj b p orc) x)" for x
    unfolding record_outcome_def by (cases x) (auto intro!: pres_intros pres_on_stats pres_loop)
  moreover have "preserves (\<lambda>l. loop_inv pj b p k (lp_world l)) (loop_next (machine_loop pj b p orc) cap x)" for x
    unfolding loop_next_def Let_def by (cases x) (auto intro!: pres_intros pres_on_stats pres_loop)
  moreover have "preserves (\<lambda>l. loop_inv pj b p k (lp_world l)) (pause (machine_loop pj b p orc) d)" for d
    unfolding pause_def by (intro pres_intros pres_on_stats pres_loop)
  moreover have "preserves (\<lambda>l. loop_inv pj b p k (lp_world l)) (waitFailure (machine_loop pj b p orc))"
    unfolding waitFailure_def by (intro pres_intros pres_finish pres_loop)
  ultimately show ?thesis
    unfolding iteration_def
    by (intro pres_intros pres_finish pres_on_stats pres_loop) (auto split: sum.split intro!: pres_intros pres_finish)
qed

lemma pres_run_loop:
  "preserves (\<lambda>l. loop_inv pj b p k (lp_world l)) (run_loop (machine_loop pj b p orc) n)"
proof -
  have "preserves (\<lambda>l. loop_inv pj b p k (lp_world l)) (loop (machine_loop pj b p orc) n cap)" for cap
    by (induction n arbitrary: cap) (auto split: sum.split intro!: pres_intros pres_iteration)
  then show ?thesis
    unfolding run_loop_def pause_def waitFailure_def
    by (intro pres_intros pres_finish pres_on_stats pres_loop)
qed

lemma pres_Run:
  "preserves (\<lambda>l. loop_inv pj b p k (lp_world l)) (Run (machine_loop pj b p orc) c n)"
  unfolding Run_def by (intro pres_intros pres_run_loop) simp

text \<open>Waiting bounds stepping: with the startup delay, a paced trace has at most one step per second waited.\<close>

definition waited :: "loop_event list \<Rightarrow> duration" where
  "waited es = (\<Sum>e\<leftarrow>es. case e of Waited d \<Rightarrow> d | Stepped _ \<Rightarrow> 0)"

lemma paced_steps:
  "paced cap es \<Longrightarrow> retry_cap cap \<Longrightarrow> seconds (int (steps_with (\<lambda>_. True) es)) \<le> seconds 1 + waited es"
proof (induction cap es rule: paced.induct)
  case (3 cap x d es)
  from 3(2) obtain cap' where c: "next_cap cap x = Some cap'" "paced cap' es" by (auto split: option.splits)
  then have "retry_cap cap'"
    using nextRetry_cap [OF 3(3)] by (cases x) (auto simp: retry_cap_def delay_defs split: if_splits)
  moreover have "seconds 1 \<le> d" using paced_waits [OF 3(2,3), of d] by simp
  ultimately show ?case using 3(1) [OF c] by (simp add: waited_def seconds_def)
qed (simp_all add: waited_def seconds_def)

end
