(* ===== verification/UploadLoopProperties.thy ===== *)
theory UploadLoopProperties
  imports UploadLoop UploadExample
begin

text \<open>The properties of the pacing loop over the upload machine, with one concrete run.\<close>

section \<open>A concrete run\<close>

definition ex_loop_oracle :: "outcome \<Rightarrow> loop_oracle" where
  "ex_loop_oracle answer =
     \<lparr>lo_ctx = (\<lambda>_. False), lo_wait = (\<lambda>_. False), lo_rand = (\<lambda>n. int n), lo_upload = (\<lambda>_. ex_orc answer)\<rparr>"

definition ex_loop :: "loop_world upload_loop" where
  "ex_loop = NewLoop \<lparr>lw_machine = ex_machine, lw_trace = [], lw_calls = 0\<rparr>"

definition ex_loop_end :: "loop_world upload_loop" where
  "ex_loop_end =
     \<lparr>lp_used = True,
      lp_stats = empty_stats\<lparr>ls_Stopped := True, ls_Attempts := 1, ls_LastOutcome := CredentialRejected,
        ls_Result := ResCredentialRejected\<rparr>,
      lp_world = \<lparr>lw_machine = ex_after ex_rejected,
        lw_trace = [Waited (seconds 60), Stepped (Inr CredentialRejected)], lw_calls = 5\<rparr>\<rparr>"

abbreviation ex_loop_deps :: "loop_world loop_deps" where
  "ex_loop_deps \<equiv> machine_loop ex_pj ex_binding numeric_profile (ex_loop_oracle CredentialRejected)"

lemma ex_loop_run:
  "run_state (Run ex_loop_deps False (Suc 0)) ex_loop = (Some (ResCredentialRejected, None), ex_loop_end)"
  by (simp add: ex_loop_def ex_loop_end_def NewLoop_def Run_def run_loop_def pause_def iteration_def
      record_outcome_def loop_next_def finish_def in_world_def on_stats_def State_Monad.update_def
      machine_loop_def ask_loop_def loop_step_def loop_wait_def ex_loop_oracle_def ex_step_rejected
      knownOutcome_def increment_def empty_stats_def startupDelay_def)

section \<open>Pacing\<close>

text \<open>C25. The loop never hurries. Started on a fresh loop it first waits 60 seconds; afterwards steps and
  waits alternate, a wait after a retry lies between half the doubled cap (at least a second) and the
  cap, one after a rate limit is 60 seconds and every other one 15 seconds, and no step follows an
  outcome that ends the loop. The statistics count the steps and their outcomes up to the top of the
  counters, and a terminal result is the outcome of the last step.\<close>

theorem loop_paces_steps:
  assumes "run_state (Run (machine_loop pj b p orc) False n) (NewLoop w) = (x, l')"
  shows "\<exists>es. lw_trace (lp_world l') = lw_trace w @ es \<and> counted empty_stats es (lp_stats l') \<and>
           (es = [] \<or> (\<exists>es'. es = Waited (seconds 60) # es' \<and> paced 0 es')) \<and>
           (\<forall>a. x = Some a \<longrightarrow> ended l' a es)"
proof -
  have "wp (Run (machine_loop pj b p orc) False n) (ml.run_post (NewLoop w)) (NewLoop w)"
    by (rule ml.wp_Run) (simp_all add: NewLoop_def empty_stats_def)
  from wpD [OF this assms] show ?thesis
    by (simp add: ml.run_post_def NewLoop_def startupDelay_def)
qed

theorem loop_paces_steps_witness:
  "\<exists>es. lw_trace (lp_world ex_loop_end) = es \<and> counted empty_stats es (lp_stats ex_loop_end) \<and>
     ended ex_loop_end (ResCredentialRejected, None) es"
  using loop_paces_steps [OF ex_loop_run [unfolded ex_loop_def]] by auto

text \<open>C24. The loop is bounded by the time waited, whatever the server, the clock and the database do: it takes at
  most one step per second waited, whether the step sends or not, and hands at most one request per step
  to the transport. The installation stays one of the reachable ones, so all upload properties keep
  holding under the loop.\<close>

theorem loop_bounds_upload_rate:
  assumes "upload_run pj b p m"
    and "run_state (Run (machine_loop pj b p orc) False n) (NewLoop \<lparr>lw_machine = m, lw_trace = [], lw_calls = k\<rparr>) = (x, l')"
  shows "upload_run pj b p (lw_machine (lp_world l')) \<and>
         length (uw_sent (m_world (lw_machine (lp_world l')))) \<le>
           length (uw_sent (m_world m)) + steps_with (\<lambda>_. True) (lw_trace (lp_world l')) \<and>
         seconds (int (steps_with (\<lambda>_. True) (lw_trace (lp_world l')))) \<le> waited (lw_trace (lp_world l'))"
proof -
  let ?w = "\<lparr>lw_machine = m, lw_trace = [], lw_calls = k\<rparr>" and ?k = "length (uw_sent (m_world m))"
  have "loop_inv pj b p ?k (lp_world (NewLoop ?w))"
    using assms(1) by (simp add: loop_inv_def NewLoop_def)
  then have i: "loop_inv pj b p ?k (lp_world l')"
    using preservesD [OF pres_Run _ assms(2)] by simp
  have "wp (Run (machine_loop pj b p orc) False n) (ml.run_post (NewLoop ?w)) (NewLoop ?w)"
    by (rule ml.wp_Run) (simp_all add: NewLoop_def empty_stats_def)
  from wpD [OF this assms(2)]
  have "seconds (int (steps_with (\<lambda>_. True) (lw_trace (lp_world l')))) \<le> waited (lw_trace (lp_world l'))"
    using paced_steps [of 0]
    by (fastforce simp: ml.run_post_def NewLoop_def waited_def retry_cap_def seconds_def startupDelay_def)
  with i show ?thesis by (simp add: loop_inv_def)
qed

theorem loop_bounds_upload_rate_witness:
  "upload_run ex_pj ex_binding numeric_profile (lw_machine (lp_world ex_loop_end)) \<and>
   length (uw_sent (m_world (lw_machine (lp_world ex_loop_end)))) \<le> length (uw_sent (m_world ex_machine)) + 1 \<and>
   seconds 1 \<le> waited (lw_trace (lp_world ex_loop_end))"
proof -
  have "steps_with (\<lambda>_. True) (lw_trace (lp_world ex_loop_end)) = 1" by (simp add: ex_loop_end_def)
  then show ?thesis
    using loop_bounds_upload_rate [OF ex_run ex_loop_run [unfolded ex_loop_def]] by simp
qed

text \<open>C29. Backoff: the caps of consecutive retries are 1, 2, 4, 8, 16 and 32 seconds, then 60 seconds for
  good, and a jittered delay drawn below its bound never leaves the range the loop accepts.\<close>

theorem retry_backoff:
  assumes "0 \<le> r" and "r < nextRetry ((nextRetry ^^ n) 0) - jitter_low (nextRetry ((nextRetry ^^ n) 0)) + 1"
  shows "nextRetry ((nextRetry ^^ n) 0) = (if n \<le> 5 then seconds (2 ^ n) else seconds 60) \<and>
         max (seconds 1) (nextRetry ((nextRetry ^^ n) 0) div 2) \<le> retryJitter (nextRetry ((nextRetry ^^ n) 0)) r \<and>
         retryJitter (nextRetry ((nextRetry ^^ n) 0)) r \<le> nextRetry ((nextRetry ^^ n) 0)"
proof -
  have cap: "nextRetry ((nextRetry ^^ n) 0) = (if n \<le> 5 then seconds (2 ^ n) else seconds 60)"
    using nextRetry_power [of n] nextRetry_limit [of n] by (auto simp: maxRetryDelay_def)
  moreover have "seconds 1 \<le> nextRetry ((nextRetry ^^ n) 0)" unfolding cap by (simp add: seconds_def)
  ultimately show ?thesis using retryJitter_bounds [OF _ assms] by simp
qed

theorem retry_backoff_witness: "retryJitter (nextRetry ((nextRetry ^^ 3) 0)) 7 \<le> seconds 8"
proof -
  have "nextRetry ((nextRetry ^^ 3) 0) = seconds 8" by code_simp
  moreover have "7 < seconds 8 - jitter_low (seconds 8) + 1" by code_simp
  ultimately show ?thesis using retry_backoff [of 7 3] by simp
qed

end
