(* ===== verification/Json.thy ===== *)
theory Json
  imports GoTime
begin

text \<open>
  JSON as Go's \<^verbatim>\<open>encoding/json\<close> reads and writes it: values, the compact printer of \<^verbatim>\<open>Marshal\<close> and a
  parser for the grammar the decoder accepts, on texts that are lists of bytes. The parser recurses
  on a fuel that counts nested values; \<open>json_parse\<close> gives it the length of the text, which is enough
  since every value consumes a byte.
\<close>

section \<open>Values and printing\<close>

datatype json =
    JNull
  | JBool bool
  | JNum string
  | JStr string
  | JArr "json list"
  | JObj "(string \<times> json) list"

definition hex_digit :: "nat \<Rightarrow> char" where
  "hex_digit n = ''0123456789abcdef'' ! (n mod 16)"

text \<open>The escapes of \<^verbatim>\<open>Marshal\<close> on one byte: quote, backslash, control characters, and the three HTML
  characters; other bytes are copied.\<close>

definition dquote :: char where "dquote = CHR 0x22"
definition backslash :: char where "backslash = CHR 0x5C"

lemma dquote_distinct [simp]:
  "dquote \<noteq> CHR '' ''" "dquote \<noteq> CHR 0x09" "dquote \<noteq> CHR 0x0A" "dquote \<noteq> CHR 0x0D" "dquote \<noteq> backslash"
  "dquote \<noteq> CHR ''{''" "dquote \<noteq> CHR ''[''" "dquote \<noteq> CHR ''}''" "dquote \<noteq> CHR '']''"
  by (simp_all add: dquote_def backslash_def)

definition escape_char :: "char \<Rightarrow> string" where
  "escape_char c =
     (if c = dquote \<or> c = backslash then [backslash, c]
      else if c = CHR 0x08 then [backslash, CHR ''b'']
      else if c = CHR 0x0C then [backslash, CHR ''f'']
      else if c = CHR 0x0A then [backslash, CHR ''n'']
      else if c = CHR 0x0D then [backslash, CHR ''r'']
      else if c = CHR 0x09 then [backslash, CHR ''t'']
      else if of_char c < (32 :: nat) \<or> c \<in> {CHR ''<'', CHR ''>'', CHR ''&''}
      then [backslash] @ ''u00'' @ [hex_digit (of_char c div 16), hex_digit (of_char c)]
      else [c])"

definition json_string :: "string \<Rightarrow> string" where
  "json_string s = dquote # concat (map escape_char s) @ [dquote]"

fun join :: "string \<Rightarrow> string list \<Rightarrow> string" where
  "join sep [] = []"
| "join sep [x] = x"
| "join sep (x # y # xs) = x @ sep @ join sep (y # xs)"

fun json_print :: "json \<Rightarrow> string" where
  "json_print JNull = ''null''"
| "json_print (JBool b) = (if b then ''true'' else ''false'')"
| "json_print (JNum s) = s"
| "json_print (JStr s) = json_string s"
| "json_print (JArr vs) = ''['' @ join '','' (map json_print vs) @ '']''"
| "json_print (JObj ms) = ''{'' @ join '','' (map (\<lambda>(k, v). json_string k @ '':'' @ json_print v) ms) @ ''}''"

section \<open>Parsing\<close>

fun skip_ws :: "string \<Rightarrow> string" where
  "skip_ws [] = []"
| "skip_ws (c # s) = (if c \<in> {CHR '' '', CHR 0x09, CHR 0x0A, CHR 0x0D} then skip_ws s else c # s)"

definition hex_val :: "char \<Rightarrow> nat option" where
  "hex_val c =
     (if is_digit c then Some (of_char c - 48)
      else if CHR ''a'' \<le> c \<and> c \<le> CHR ''f'' then Some (of_char c - 87)
      else if CHR ''A'' \<le> c \<and> c \<le> CHR ''F'' then Some (of_char c - 55)
      else None)"

definition hex4 :: "char \<Rightarrow> char \<Rightarrow> char \<Rightarrow> char \<Rightarrow> nat option" where
  "hex4 a b c d =
     (case (hex_val a, hex_val b, hex_val c, hex_val d) of
        (Some w, Some x, Some y, Some z) \<Rightarrow> Some (((w * 16 + x) * 16 + y) * 16 + z)
      | _ \<Rightarrow> None)"

definition utf8_encode :: "nat \<Rightarrow> string" where
  "utf8_encode v =
     (if v < 0x80 then [char_of v]
      else if v < 0x800 then [char_of (0xC0 + v div 64), char_of (0x80 + v mod 64)]
      else if v < 0x10000 then
        [char_of (0xE0 + v div 4096), char_of (0x80 + v div 64 mod 64), char_of (0x80 + v mod 64)]
      else
        [char_of (0xF0 + v div 262144), char_of (0x80 + v div 4096 mod 64),
         char_of (0x80 + v div 64 mod 64), char_of (0x80 + v mod 64)])"

definition replacement_char :: string where "replacement_char = utf8_encode 0xFFFD"

definition simple_escape :: "char \<Rightarrow> char option" where
  "simple_escape c =
     (if c = dquote \<or> c = backslash \<or> c = CHR ''/'' then Some c
      else if c = CHR ''b'' then Some (CHR 0x08)
      else if c = CHR ''f'' then Some (CHR 0x0C)
      else if c = CHR ''n'' then Some (CHR 0x0A)
      else if c = CHR ''r'' then Some (CHR 0x0D)
      else if c = CHR ''t'' then Some (CHR 0x09)
      else None)"

definition high_surrogate :: "nat \<Rightarrow> bool" where "high_surrogate v \<longleftrightarrow> 0xD800 \<le> v \<and> v < 0xDC00"
definition low_surrogate :: "nat \<Rightarrow> bool" where "low_surrogate v \<longleftrightarrow> 0xDC00 \<le> v \<and> v < 0xE000"

definition prepend :: "string \<Rightarrow> (string \<times> string) option \<Rightarrow> (string \<times> string) option" where
  "prepend p x = map_option (\<lambda>(s, rest). (p @ s, rest)) x"

text \<open>The text after an escaped low surrogate, when one follows.\<close>

fun low_escape :: "string \<Rightarrow> (nat \<times> string) option" where
  "low_escape (b # u # w # x # y # z # s) =
     (if b = backslash \<and> u = CHR ''u'' then
        (case hex4 w x y z of
           None \<Rightarrow> None
         | Some v \<Rightarrow> if low_surrogate v then Some (v, s) else None)
      else None)"
| "low_escape _ = None"

lemma low_escape_shorter: "low_escape s = Some (v, s') \<Longrightarrow> length s' < length s"
  by (cases s rule: low_escape.cases) (auto split: if_splits option.splits)

text \<open>The text of a string after its opening quote, and what follows its closing quote.\<close>

function (sequential) parse_str :: "string \<Rightarrow> (string \<times> string) option" where
  "parse_str [] = None"
| "parse_str (c # s) =
     (if c = dquote then Some ([], s)
      else if c = backslash then
        (case s of
           [] \<Rightarrow> None
         | e # s1 \<Rightarrow>
             (case simple_escape e of
                Some d \<Rightarrow> prepend [d] (parse_str s1)
              | None \<Rightarrow>
                  if e \<noteq> CHR ''u'' then None
                  else (case s1 of
                      w # x # y # z # s2 \<Rightarrow>
                        (case hex4 w x y z of
                           None \<Rightarrow> None
                         | Some v \<Rightarrow>
                             if high_surrogate v then
                               (case low_escape s2 of
                                  Some (l, s3) \<Rightarrow>
                                    prepend (utf8_encode (0x10000 + (v - 0xD800) * 1024 + (l - 0xDC00))) (parse_str s3)
                                | None \<Rightarrow> prepend replacement_char (parse_str s2))
                             else if low_surrogate v then prepend replacement_char (parse_str s2)
                             else prepend (utf8_encode v) (parse_str s2))
                    | _ \<Rightarrow> None)))
      else if of_char c < (32 :: nat) then None
      else prepend [c] (parse_str s))"
  by pat_completeness auto
termination
  by (relation "measure length") (auto dest!: low_escape_shorter)

fun span_digits :: "string \<Rightarrow> string \<times> string" where
  "span_digits [] = ([], [])"
| "span_digits (c # s) =
     (if is_digit c then (case span_digits s of (d, r) \<Rightarrow> (c # d, r)) else ([], c # s))"

definition number_int :: "string \<Rightarrow> (string \<times> string) option" where
  "number_int s =
     (case s of
        [] \<Rightarrow> None
      | c # s' \<Rightarrow>
          if c = CHR ''0'' then Some ([c], s')
          else case span_digits s of (d, r) \<Rightarrow> if d = [] then None else Some (d, r))"

definition number_frac :: "string \<Rightarrow> (string \<times> string) option" where
  "number_frac s =
     (case s of
        [] \<Rightarrow> Some ([], [])
      | c # s' \<Rightarrow>
          if c \<noteq> CHR ''.'' then Some ([], s)
          else case span_digits s' of (d, r) \<Rightarrow> if d = [] then None else Some (c # d, r))"

definition number_exp :: "string \<Rightarrow> (string \<times> string) option" where
  "number_exp s =
     (case s of
        [] \<Rightarrow> Some ([], [])
      | c # s' \<Rightarrow>
          if c \<noteq> CHR ''e'' \<and> c \<noteq> CHR ''E'' then Some ([], s)
          else (case s' of
              [] \<Rightarrow> None
            | x # s'' \<Rightarrow>
                (let (sign, t) = (if x = CHR ''+'' \<or> x = CHR ''-'' then ([x], s'') else ([], s'))
                 in case span_digits t of (d, r) \<Rightarrow> if d = [] then None else Some (c # sign @ d, r))))"

definition parse_num :: "string \<Rightarrow> (string \<times> string) option" where
  "parse_num s =
     (let (sign, t) = (case s of c # s' \<Rightarrow> if c = CHR ''-'' then ([c], s') else ([], s) | [] \<Rightarrow> ([], s))
      in case number_int t of
           None \<Rightarrow> None
         | Some (i, t1) \<Rightarrow>
             (case number_frac t1 of
                None \<Rightarrow> None
              | Some (f, t2) \<Rightarrow>
                  (case number_exp t2 of
                     None \<Rightarrow> None
                   | Some (e, t3) \<Rightarrow> Some (sign @ i @ f @ e, t3))))"

definition expect :: "string \<Rightarrow> string \<Rightarrow> string option" where
  "expect lit s = (if take (length lit) s = lit then Some (drop (length lit) s) else None)"

fun parse_value :: "nat \<Rightarrow> string \<Rightarrow> (json \<times> string) option"
  and parse_elements :: "nat \<Rightarrow> string \<Rightarrow> (json list \<times> string) option"
  and parse_members :: "nat \<Rightarrow> string \<Rightarrow> ((string \<times> json) list \<times> string) option" where
  "parse_value 0 s = None"
| "parse_value (Suc n) s =
     (case skip_ws s of
        [] \<Rightarrow> None
      | c # s1 \<Rightarrow>
          if c = CHR ''{'' then
            (case skip_ws s1 of
               d # s2 \<Rightarrow>
                 if d = CHR ''}'' then Some (JObj [], s2)
                 else map_option (\<lambda>(ms, r). (JObj ms, r)) (parse_members n (d # s2))
             | [] \<Rightarrow> None)
          else if c = CHR ''['' then
            (case skip_ws s1 of
               d # s2 \<Rightarrow>
                 if d = CHR '']'' then Some (JArr [], s2)
                 else map_option (\<lambda>(vs, r). (JArr vs, r)) (parse_elements n (d # s2))
             | [] \<Rightarrow> None)
          else if c = dquote then map_option (\<lambda>(t, r). (JStr t, r)) (parse_str s1)
          else if c = CHR ''n'' then map_option (\<lambda>r. (JNull, r)) (expect ''ull'' s1)
          else if c = CHR ''t'' then map_option (\<lambda>r. (JBool True, r)) (expect ''rue'' s1)
          else if c = CHR ''f'' then map_option (\<lambda>r. (JBool False, r)) (expect ''alse'' s1)
          else map_option (\<lambda>(t, r). (JNum t, r)) (parse_num (c # s1)))"
| "parse_elements 0 s = None"
| "parse_elements (Suc n) s =
     (case parse_value n s of
        None \<Rightarrow> None
      | Some (v, r) \<Rightarrow>
          (case skip_ws r of
             [] \<Rightarrow> None
           | c # r1 \<Rightarrow>
               if c = CHR '']'' then Some ([v], r1)
               else if c = CHR '','' then map_option (\<lambda>(vs, t). (v # vs, t)) (parse_elements n r1)
               else None))"
| "parse_members 0 s = None"
| "parse_members (Suc n) s =
     (case skip_ws s of
        [] \<Rightarrow> None
      | c # s1 \<Rightarrow>
          if c \<noteq> dquote then None
          else case parse_str s1 of
              None \<Rightarrow> None
            | Some (k, s2) \<Rightarrow>
                (case skip_ws s2 of
                   [] \<Rightarrow> None
                 | d # s3 \<Rightarrow>
                     if d \<noteq> CHR '':'' then None
                     else case parse_value n s3 of
                         None \<Rightarrow> None
                       | Some (v, r) \<Rightarrow>
                           (case skip_ws r of
                              [] \<Rightarrow> None
                            | e # r1 \<Rightarrow>
                                if e = CHR ''}'' then Some ([(k, v)], r1)
                                else if e = CHR '','' then
                                  map_option (\<lambda>(ms, t). ((k, v) # ms, t)) (parse_members n r1)
                                else None)))"

text \<open>A whole text: one value and nothing but white space after it.\<close>

definition json_parse :: "string \<Rightarrow> json option" where
  "json_parse s =
     (case parse_value (length s) s of
        Some (v, r) \<Rightarrow> if skip_ws r = [] then Some v else None
      | None \<Rightarrow> None)"

section \<open>Reading back what was printed\<close>

lemma hex_val_digit: "hex_val (hex_digit k) = Some (k mod 16)"
proof -
  have "list_all (\<lambda>j. hex_val (''0123456789abcdef'' ! j) = Some j) [0..<16]"
    by (simp add: upt_conv_Cons hex_val_def is_digit_def)
  moreover have "k mod 16 \<in> set [0..<16]" by simp
  ultimately show ?thesis unfolding list_all_iff hex_digit_def by blast
qed

lemma hex4_low:
  assumes "n < 128"
  shows "hex4 (CHR ''0'') (CHR ''0'') (hex_digit (n div 16)) (hex_digit n) = Some n"
proof -
  have "hex_val (CHR ''0'') = Some 0" by (simp add: hex_val_def is_digit_def)
  moreover have "n div 16 mod 16 = n div 16" using assms by simp
  ultimately show ?thesis by (simp add: hex4_def hex_val_digit)
qed

lemma parse_escaped: "parse_str (escape_char c @ t) = prepend [c] (parse_str t)"
proof -
  have u: "parse_str ([backslash] @ ''u00'' @ [hex_digit (of_char c div 16), hex_digit (of_char c)] @ t) = prepend [c] (parse_str t)"
    if c: "of_char c < (128 :: nat)" for c
    using hex4_low [OF c] c
    by (simp add: simple_escape_def dquote_def backslash_def high_surrogate_def low_surrogate_def utf8_encode_def)
  have special: "of_char (CHR ''<'') < (128 :: nat)" "of_char (CHR ''>'') < (128 :: nat)" "of_char (CHR ''&'') < (128 :: nat)"
    by code_simp+
  show ?thesis
    using u [of c] special
    by (auto simp: escape_char_def simple_escape_def dquote_def backslash_def)
qed

lemma parse_json_string: "parse_str (concat (map escape_char s) @ dquote # r) = Some (s, r)"
  by (induction s) (simp_all add: parse_escaped prepend_def)

text \<open>Numbers as the program prints them: decimal naturals.\<close>

definition follow :: "string \<Rightarrow> bool" where
  "follow r \<longleftrightarrow> (case r of [] \<Rightarrow> True | c # _ \<Rightarrow> c \<in> {CHR '','', CHR '']'', CHR ''}''})"

lemma span_digits_append:
  "digits d \<Longrightarrow> (\<forall>c t. r = c # t \<longrightarrow> \<not> is_digit c) \<Longrightarrow> span_digits (d @ r) = (d, r)"
  by (induction d) (auto simp: digits_def split: list.splits, cases r, auto)

fun wf_json :: "json \<Rightarrow> bool" where
  "wf_json (JNum s) \<longleftrightarrow> (\<exists>n. s = show_nat n)"
| "wf_json (JArr vs) \<longleftrightarrow> (\<forall>v \<in> set vs. wf_json v)"
| "wf_json (JObj ms) \<longleftrightarrow> (\<forall>(k, v) \<in> set ms. wf_json v)"
| "wf_json _ \<longleftrightarrow> True"

lemma hd_show_nat: "hd (show_nat n) = CHR ''0'' \<Longrightarrow> n = 0"
proof (induction n rule: show_nat.induct)
  case (1 n)
  show ?case
  proof (cases "n < 10")
    case True
    then have "hd (show_nat n) = digit_char n" by (subst show_nat.simps) simp
    with 1(2) show ?thesis using digit_val_char [OF True] by (simp add: digit_val_def)
  next
    case False
    then have "hd (show_nat n) = hd (show_nat (n div 10))" by (subst show_nat.simps) simp
    with 1 False show ?thesis by simp
  qed
qed

lemma parse_show_nat:
  assumes "follow r"
  shows "parse_num (show_nat n @ r) = Some (show_nat n, r)"
proof -
  obtain c s where c: "show_nat n = c # s" by (cases "show_nat n") simp_all
  have dg: "is_digit c" using digits_show_nat [of n] by (simp add: c digits_def)
  then have minus: "c \<noteq> CHR ''-''" by (auto simp: is_digit_def)
  have nr: "\<forall>d t. r = d # t \<longrightarrow> \<not> is_digit d \<and> d \<noteq> CHR ''.'' \<and> d \<noteq> CHR ''e'' \<and> d \<noteq> CHR ''E''"
    using assms by (auto simp: follow_def is_digit_def split: list.splits)
  have "number_int (show_nat n @ r) = Some (show_nat n, r)"
  proof (cases "c = CHR ''0''")
    case True
    then have "show_nat n = ''0''" using hd_show_nat [of n] c by (simp add: show_nat.simps digit_char_def)
    then show ?thesis by (simp add: number_int_def)
  next
    case False
    then show ?thesis
      using span_digits_append [OF digits_show_nat, of r n] nr c by (simp add: number_int_def)
  qed
  moreover have "number_frac r = Some ([], r)" "number_exp r = Some ([], r)"
    using nr by (cases r; simp add: number_frac_def number_exp_def)+
  ultimately show ?thesis using c minus by (simp add: parse_num_def)
qed

text \<open>No printed value starts with white space or with the end of a list.\<close>

definition value_start :: "char \<Rightarrow> bool" where
  "value_start c \<longleftrightarrow> c \<notin> {CHR '' '', CHR 0x09, CHR 0x0A, CHR 0x0D, CHR '']'', CHR ''}''}"

lemma json_print_start:
  assumes "wf_json v"
  shows "\<exists>c s. json_print v = c # s \<and> value_start c"
proof (cases v)
  case (JNum t)
  then obtain n where n: "t = show_nat n" using assms by auto
  obtain c s where c: "show_nat n = c # s" by (cases "show_nat n") simp_all
  have "is_digit c" using digits_show_nat [of n] by (simp add: c digits_def)
  then show ?thesis using JNum n c by (auto simp: value_start_def is_digit_def)
qed (auto simp: value_start_def json_string_def dquote_def)

lemma skip_ws_start: "value_start c \<Longrightarrow> skip_ws (c # s) = c # s"
  by (simp add: value_start_def)

lemma follow_skip: "follow r \<Longrightarrow> skip_ws r = r"
  by (auto simp: follow_def split: list.splits)

fun member_text :: "string \<times> json \<Rightarrow> string" where
  "member_text (k, v) = json_string k @ '':'' @ json_print v"

lemma json_print_obj [simp]: "json_print (JObj ms) = ''{'' @ join '','' (map member_text ms) @ ''}''"
proof -
  have "member_text = (\<lambda>(k, v). json_string k @ '':'' @ json_print v)" by (auto simp: fun_eq_iff)
  then show ?thesis by simp
qed

declare json_print.simps(6) [simp del]

lemma join_Cons: "xs \<noteq> [] \<Longrightarrow> join sep (x # xs) = x @ sep @ join sep xs"
  by (cases xs) simp_all

lemma parse_elements_print:
  assumes "\<And>v n r. v \<in> set vs \<Longrightarrow> length (json_print v) \<le> n \<Longrightarrow> follow r \<Longrightarrow>
      parse_value n (json_print v @ r) = Some (v, r)"
    and "vs \<noteq> []" and "length (join '','' (map json_print vs)) < n"
  shows "parse_elements n (join '','' (map json_print vs) @ CHR '']'' # r) = Some (vs, r)"
  using assms
proof (induction vs arbitrary: n)
  case (Cons v vs)
  obtain m where n: "n = Suc m" using Cons.prems(3) by (cases n) auto
  show ?case
  proof (cases "vs = []")
    case True
    have "parse_value m (json_print v @ CHR '']'' # r) = Some (v, CHR '']'' # r)"
      using Cons.prems True n by (intro Cons.prems(1)) (simp_all add: follow_def)
    then show ?thesis using True n by simp
  next
    case False
    let ?t = "join '','' (map json_print vs) @ CHR '']'' # r"
    have len: "length (json_print v) \<le> m" "length (join '','' (map json_print vs)) < m"
      using Cons.prems(3) False n by (simp_all add: join_Cons)
    have "parse_value m (json_print v @ CHR '','' # ?t) = Some (v, CHR '','' # ?t)"
      using len by (intro Cons.prems(1)) (simp_all add: follow_def)
    moreover have "parse_elements m ?t = Some (vs, r)"
      using Cons.IH Cons.prems(1) False len by simp
    ultimately show ?thesis using False n by (simp add: join_Cons)
  qed
qed simp

lemma parse_members_print:
  assumes "\<And>k v n r. (k, v) \<in> set ms \<Longrightarrow> length (json_print v) \<le> n \<Longrightarrow> follow r \<Longrightarrow>
      parse_value n (json_print v @ r) = Some (v, r)"
    and "ms \<noteq> []" and "length (join '','' (map member_text ms)) < n"
  shows "parse_members n (join '','' (map member_text ms) @ CHR ''}'' # r) = Some (ms, r)"
  using assms
proof (induction ms arbitrary: n)
  case (Cons m ms)
  obtain k v where m: "m = (k, v)" by (cases m)
  obtain i where n: "n = Suc i" using Cons.prems(3) by (cases n) auto
  show ?case
  proof (cases "ms = []")
    case True
    have "parse_value i (json_print v @ CHR ''}'' # r) = Some (v, CHR ''}'' # r)"
      using Cons.prems(3) True n m by (intro Cons.prems(1) [of k]) (simp_all add: follow_def)
    then show ?thesis using True n m by (simp add: json_string_def parse_json_string)
  next
    case False
    let ?t = "join '','' (map member_text ms) @ CHR ''}'' # r"
    have len: "length (json_print v) \<le> i" "length (join '','' (map member_text ms)) < i"
      using Cons.prems(3) False n m by (simp_all add: join_Cons)
    have "parse_value i (json_print v @ CHR '','' # ?t) = Some (v, CHR '','' # ?t)"
      using len m by (intro Cons.prems(1) [of k]) (simp_all add: follow_def)
    moreover have "parse_members i ?t = Some (ms, r)"
      using False len by (intro Cons.IH Cons.prems(1)) auto
    ultimately show ?thesis
      using False n m by (simp add: join_Cons json_string_def parse_json_string)
  qed
qed simp

lemma join_start:
  "xs \<noteq> [] \<Longrightarrow> \<forall>x \<in> set xs. \<exists>c s. x = c # s \<and> value_start c \<Longrightarrow> \<exists>c s. join sep xs = c # s \<and> value_start c"
  by (cases xs; cases "tl xs") auto

lemma parse_print:
  "wf_json v \<Longrightarrow> length (json_print v) \<le> n \<Longrightarrow> follow r \<Longrightarrow> parse_value n (json_print v @ r) = Some (v, r)"
proof (induction v arbitrary: n r rule: json_print.induct)
  case (3 s)
  then obtain k where s: "s = show_nat k" by auto
  obtain c t where c: "show_nat k = c # t" by (cases "show_nat k") simp_all
  have "is_digit c" using digits_show_nat [of k] by (simp add: c digits_def)
  then have nc: "c \<notin> {CHR ''{'', CHR ''['', dquote, CHR ''n'', CHR ''t'', CHR ''f''}" "value_start c"
    by (auto simp: is_digit_def dquote_def value_start_def)
  obtain i where "n = Suc i" using 3(2) s c by (cases n) auto
  then show ?case using parse_show_nat [OF 3(3), of k] s c nc by (simp add: value_start_def)
next
  case (4 s)
  then obtain i where "n = Suc i" by (cases n) (auto simp: json_string_def)
  then show ?case
    by (simp add: json_string_def parse_json_string)
next
  case (5 vs)
  obtain i where n: "n = Suc i" using 5(3) by (cases n) auto
  show ?case
  proof (cases "vs = []")
    case False
    have "parse_elements i (join '','' (map json_print vs) @ CHR '']'' # r) = Some (vs, r)"
      using 5 n False by (intro parse_elements_print) auto
    moreover obtain c s where c: "join '','' (map json_print vs) = c # s" "value_start c"
      using join_start [of "map json_print vs" "'',''"] False 5(2) json_print_start by fastforce
    ultimately show ?thesis
      using n c skip_ws_start [OF c(2)] by (simp add: value_start_def)
  qed (use n in simp)
next
  case (6 ms)
  obtain i where n: "n = Suc i" using 6(3) by (cases n) auto
  show ?case
  proof (cases "ms = []")
    case False
    have "parse_members i (join '','' (map member_text ms) @ CHR ''}'' # r) = Some (ms, r)"
      using 6 n False by (intro parse_members_print) auto
    moreover obtain c s where c: "join '','' (map member_text ms) = c # s" "value_start c"
      using join_start [of "map member_text ms" "'',''"] False
      by (fastforce simp: json_string_def value_start_def dquote_def)
    ultimately show ?thesis
      using n c skip_ws_start [OF c(2)] by (simp add: value_start_def)
  qed (use n in simp)
qed (auto simp: expect_def dquote_def split: if_splits, (case_tac n; auto simp: expect_def dquote_def)+)

theorem json_roundtrip:
  assumes "wf_json v"
  shows "json_parse (json_print v) = Some v"
  using parse_print [OF assms, of "length (json_print v)" "[]"] by (simp add: json_parse_def follow_def)

end
