(* ===== verification/ActionCore.thy ===== *)
theory ActionCore
  imports Json Sha256
begin

text \<open>
  The container action worker, \<^verbatim>\<open>internal/actioncore\<close>: validation of a request against the local binding,
  the journal key with its canonical metadata, and \<open>Execute\<close>, which sequences authority checks,
  journal, engine inspection, durable intent, the engine call and the terminal record within a time
  budget. The collaborators are operations on a world; the events they leave behind are the trace
  that the specification \<open>exec_trace\<close> speaks about.
\<close>

section \<open>Data\<close>

datatype operation = Start | Stop | Restart | OtherOperation string

datatype container_state =
  Created | Exited | Running | Paused | Restarting | Removing | Dead | UnknownState | OtherState string

datatype code =
    NoCode | Started | Stopped | Restarted | AlreadyRunning | AlreadyStopped | Denied | StateConflict
  | Unavailable | BudgetExceeded | OutcomeUnknown | IdentityConflict | OtherCode string

datatype action_err = ErrIdentityConflict | ErrUnresolvedTarget

fun operation_text :: "operation \<Rightarrow> string" where
  "operation_text Start = ''CONTAINER_START''"
| "operation_text Stop = ''CONTAINER_STOP''"
| "operation_text Restart = ''CONTAINER_RESTART''"
| "operation_text (OtherOperation s) = s"

definition text_operation :: "string \<Rightarrow> operation" where
  "text_operation s =
     (if s = ''CONTAINER_START'' then Start
      else if s = ''CONTAINER_STOP'' then Stop
      else if s = ''CONTAINER_RESTART'' then Restart
      else OtherOperation s)"

record action_request =
  ar_ActionID :: string
  ar_ServerID :: string
  ar_InstallationID :: string
  ar_OwnerID :: string
  ar_ActorID :: string
  ar_TargetID :: string
  ar_Operation :: operation
  ar_GraceSeconds :: uint8
  ar_PolicyRevision :: uint64
  ar_CapabilityRevision :: uint64
  ar_CreatedAt :: gotime
  ar_ExpiresAt :: gotime

record action_binding =
  ab_ServerID :: string
  ab_InstallationID :: string
  ab_OwnerID :: string
  ab_TargetID :: string
  ab_EngineGeneration :: string
  ab_ContainerID :: string
  ab_PolicyRevision :: uint64
  ab_CapabilityRevision :: uint64
  ab_GraceSeconds :: uint8
  ab_Operations :: "operation list"

record delivery =
  dl_StartedAt :: gotime
  dl_ReceivedAt :: gotime
  dl_LeaseDeadline :: gotime

record journal_metadata =
  jm_Request :: action_request
  jm_EngineGeneration :: string
  jm_ContainerID :: string

record action_key =
  ak_ActionID :: string
  ak_TargetID :: string
  ak_Fingerprint :: bytes
  ak_Metadata :: journal_metadata

section \<open>Validation\<close>

abbreviation is_identifier :: "string \<Rightarrow> string \<Rightarrow> bool" where
  "is_identifier s prefix \<equiv> prefixed_hex s prefix 32"

definition known_operation :: "operation \<Rightarrow> bool" where
  "known_operation op \<longleftrightarrow> op = Start \<or> op = Stop \<or> op = Restart"

definition valid :: "action_request \<Rightarrow> action_binding \<Rightarrow> gotime \<Rightarrow> bool" where
  "valid r b now =
     (if \<not> is_identifier (ar_ActionID r) ''hla_'' \<or> \<not> is_identifier (ar_ServerID r) ''srv_''
         \<or> \<not> is_identifier (ar_InstallationID r) ''agent_'' \<or> \<not> is_identifier (ar_OwnerID r) ''usr_''
         \<or> \<not> is_identifier (ar_ActorID r) ''usr_'' \<or> \<not> is_identifier (ar_TargetID r) ''hlt_''
         \<or> \<not> hex_string (ab_ContainerID b) 64 \<or> \<not> hex_string (ab_EngineGeneration b) 32
         \<or> ar_PolicyRevision r = 0 \<or> ar_CapabilityRevision r = 0
         \<or> ar_ServerID r \<noteq> ab_ServerID b \<or> ar_InstallationID r \<noteq> ab_InstallationID b
         \<or> ar_OwnerID r \<noteq> ab_OwnerID b \<or> ar_TargetID r \<noteq> ab_TargetID b
         \<or> ar_PolicyRevision r \<noteq> ab_PolicyRevision b \<or> ar_CapabilityRevision r \<noteq> ab_CapabilityRevision b
         \<or> IsZero (ar_CreatedAt r) \<or> \<not> ar_CreatedAt r < ar_ExpiresAt r
         \<or> minutes 5 < Sub (ar_ExpiresAt r) (ar_CreatedAt r)
         \<or> now < ar_CreatedAt r \<or> \<not> now < ar_ExpiresAt r
         \<or> length (ab_Operations b) < 1 \<or> 3 < length (ab_Operations b) then False
      else if \<not> list_all known_operation (ab_Operations b) \<or> \<not> distinct (ab_Operations b) then False
      else if ar_Operation r \<notin> set (ab_Operations b) then False
      else if (Stop \<in> set (ab_Operations b) \<or> Restart \<in> set (ab_Operations b))
              \<and> (ab_GraceSeconds b < 1 \<or> 30 < ab_GraceSeconds b) then False
      else if ar_Operation r = Start then ar_GraceSeconds r = 0
      else 1 \<le> ar_GraceSeconds r \<and> ar_GraceSeconds r \<le> 30 \<and> ar_GraceSeconds r = ab_GraceSeconds b)"

definition classify :: "operation \<Rightarrow> container_state \<Rightarrow> code \<times> bool" where
  "classify op s =
     (if op = Start \<and> s = Running then (AlreadyRunning, False)
      else if op = Start \<and> (s = Created \<or> s = Exited) then (Started, True)
      else if op = Stop \<and> (s = Created \<or> s = Exited) then (AlreadyStopped, False)
      else if op = Stop \<and> s = Running then (Stopped, True)
      else if op = Restart \<and> s = Running then (Restarted, True)
      else (StateConflict, False))"

fun earliest :: "gotime \<Rightarrow> gotime list \<Rightarrow> gotime" where
  "earliest e [] = e"
| "earliest e (v # vs) = earliest (if v < e then v else e) vs"

definition retained :: "code \<Rightarrow> operation \<Rightarrow> bool" where
  "retained c op =
     (if c = Denied \<or> c = StateConflict \<or> c = OutcomeUnknown then True
      else if c = Started \<or> c = AlreadyRunning then op = Start
      else if c = Stopped \<or> c = AlreadyStopped then op = Stop
      else if c = Restarted then op = Restart
      else False)"

section \<open>Journal keys\<close>

definition journalRecordFor :: "action_request \<Rightarrow> string \<Rightarrow> string \<Rightarrow> json" where
  "journalRecordFor r generation container =
     JObj [(''Version'', JNum (show_nat 1)),
       (''ActionID'', JStr (ar_ActionID r)), (''ServerID'', JStr (ar_ServerID r)),
       (''InstallationID'', JStr (ar_InstallationID r)), (''OwnerID'', JStr (ar_OwnerID r)),
       (''ActorID'', JStr (ar_ActorID r)), (''TargetID'', JStr (ar_TargetID r)),
       (''EngineGeneration'', JStr generation), (''ContainerID'', JStr container),
       (''Operation'', JStr (operation_text (ar_Operation r))),
       (''Grace'', JNum (show_nat (unat (ar_GraceSeconds r)))),
       (''Policy'', JNum (show_nat (unat (ar_PolicyRevision r)))),
       (''Capability'', JNum (show_nat (unat (ar_CapabilityRevision r)))),
       (''Created'', JStr (rfc3339nano (ar_CreatedAt r))), (''Expires'', JStr (rfc3339nano (ar_ExpiresAt r)))]"

definition fingerprint :: "action_request \<Rightarrow> action_binding \<Rightarrow> bytes" where
  "fingerprint r b =
     sha256 (bytes_of (json_print (journalRecordFor r (ab_EngineGeneration b) (ab_ContainerID b))))"

definition time_text_ok :: "string \<Rightarrow> bool" where
  "time_text_ok s =
     (case rfc3339nano_parse s of
        None \<Rightarrow> False
      | Some p \<Rightarrow> \<not> (30 < length s \<or> rfc3339nano p \<noteq> s))"

definition CanonicalJournalMetadata :: "action_key \<Rightarrow> string option" where
  "CanonicalJournalMetadata k =
     (let m = ak_Metadata k; r = jm_Request m
      in if ak_ActionID k \<noteq> ar_ActionID r \<or> ak_TargetID k \<noteq> ar_TargetID r
            \<or> \<not> is_identifier (ar_ActionID r) ''hla_'' \<or> \<not> is_identifier (ar_TargetID r) ''hlt_''
            \<or> \<not> is_identifier (ar_ServerID r) ''srv_'' \<or> \<not> is_identifier (ar_InstallationID r) ''agent_''
            \<or> \<not> is_identifier (ar_OwnerID r) ''usr_'' \<or> \<not> is_identifier (ar_ActorID r) ''usr_''
            \<or> \<not> hex_string (jm_EngineGeneration m) 32 \<or> \<not> hex_string (jm_ContainerID m) 64
            \<or> ar_PolicyRevision r = 0 \<or> ar_CapabilityRevision r = 0 \<or> IsZero (ar_CreatedAt r)
            \<or> \<not> ar_CreatedAt r < ar_ExpiresAt r \<or> minutes 5 < Sub (ar_ExpiresAt r) (ar_CreatedAt r) then None
         else if (ar_Operation r = Start \<and> ar_GraceSeconds r \<noteq> 0)
            \<or> ((ar_Operation r = Stop \<or> ar_Operation r = Restart) \<and> (ar_GraceSeconds r < 1 \<or> 30 < ar_GraceSeconds r))
            \<or> \<not> known_operation (ar_Operation r) then None
         else
           let raw = json_print (journalRecordFor r (jm_EngineGeneration m) (jm_ContainerID m))
           in if \<not> list_all time_text_ok [rfc3339nano (ar_CreatedAt r), rfc3339nano (ar_ExpiresAt r)] then None
              else if 2048 < length raw \<or> sha256 (bytes_of raw) \<noteq> ak_Fingerprint k then None
              else Some raw)"

definition NewJournalKey :: "action_request \<Rightarrow> action_binding \<Rightarrow> action_key option" where
  "NewJournalKey r b =
     (if \<not> valid r b (ar_CreatedAt r) then None
      else
        let k = \<lparr>ak_ActionID = ar_ActionID r, ak_TargetID = ar_TargetID r, ak_Fingerprint = fingerprint r b,
                 ak_Metadata = \<lparr>jm_Request = r, jm_EngineGeneration = ab_EngineGeneration b,
                                jm_ContainerID = ab_ContainerID b\<rparr>\<rparr>
        in if CanonicalJournalMetadata k = None then None else Some k)"

text \<open>
  Decoding into the fixed struct: a member that is absent or \<^verbatim>\<open>null\<close> leaves the zero value. Texts that
  differ from the canonical ones only in names, order or spacing are refused by the final comparison.
\<close>

definition str_field :: "(string \<times> json) list \<Rightarrow> string \<Rightarrow> string option" where
  "str_field ms k =
     (case map_of ms k of
        None \<Rightarrow> Some []
      | Some JNull \<Rightarrow> Some []
      | Some (JStr s) \<Rightarrow> Some s
      | _ \<Rightarrow> None)"

definition nat_field :: "(string \<times> json) list \<Rightarrow> string \<Rightarrow> nat \<Rightarrow> nat option" where
  "nat_field ms k bound =
     (case map_of ms k of
        None \<Rightarrow> Some 0
      | Some JNull \<Rightarrow> Some 0
      | Some (JNum s) \<Rightarrow> if digits s \<and> s \<noteq> [] \<and> dec_val s < bound then Some (dec_val s) else None
      | _ \<Rightarrow> None)"

definition ParseJournalMetadata :: "string \<Rightarrow> action_key option" where
  "ParseJournalMetadata raw =
     (if length raw = 0 \<or> 2048 < length raw then None
      else case json_parse raw of
          Some (JObj ms) \<Rightarrow>
            (case (nat_field ms ''Version'' (2 ^ 63), str_field ms ''ActionID'', str_field ms ''ServerID'',
                   str_field ms ''InstallationID'', str_field ms ''OwnerID'', str_field ms ''ActorID'',
                   str_field ms ''TargetID'', str_field ms ''EngineGeneration'', str_field ms ''ContainerID'',
                   str_field ms ''Operation'', nat_field ms ''Grace'' (2 ^ 8), nat_field ms ''Policy'' (2 ^ 64),
                   nat_field ms ''Capability'' (2 ^ 64), str_field ms ''Created'', str_field ms ''Expires'') of
               (Some version, Some action, Some server, Some installation, Some owner, Some actor, Some target,
                Some generation, Some container, Some op, Some grace, Some policy, Some capability,
                Some created, Some expires) \<Rightarrow>
                 if version \<noteq> 1 then None
                 else (case (rfc3339nano_parse created, rfc3339nano_parse expires) of
                     (Some c, Some e) \<Rightarrow>
                       (let r = \<lparr>ar_ActionID = action, ar_ServerID = server, ar_InstallationID = installation,
                                 ar_OwnerID = owner, ar_ActorID = actor, ar_TargetID = target,
                                 ar_Operation = text_operation op, ar_GraceSeconds = of_nat grace,
                                 ar_PolicyRevision = of_nat policy, ar_CapabilityRevision = of_nat capability,
                                 ar_CreatedAt = c, ar_ExpiresAt = e\<rparr>;
                            k = \<lparr>ak_ActionID = action, ak_TargetID = target, ak_Fingerprint = sha256 (bytes_of raw),
                                 ak_Metadata = \<lparr>jm_Request = r, jm_EngineGeneration = generation,
                                                jm_ContainerID = container\<rparr>\<rparr>
                        in if CanonicalJournalMetadata k = Some raw then Some k else None)
                   | _ \<Rightarrow> None)
             | _ \<Rightarrow> None)
        | _ \<Rightarrow> None)"

section \<open>Canonical metadata reads back\<close>

lemma time_text_parse: "time_text_ok (rfc3339nano t) \<Longrightarrow> rfc3339nano_parse (rfc3339nano t) = Some t"
  using rfc3339nano_parse_exact by (auto simp: time_text_ok_def split: option.splits)

lemma text_operation_text: "known_operation op \<Longrightarrow> text_operation (operation_text op) = op"
  by (auto simp: known_operation_def text_operation_def)

lemma nat_field_word:
  assumes "map_of ms k = Some (JNum (show_nat (unat (w :: 'a::len word))))" and "n = 2 ^ LENGTH('a)"
  shows "nat_field ms k n = Some (unat w)"
  using assms unsigned_less [of w] by (simp add: nat_field_def)

lemma parse_record:
  "json_parse (json_print (journalRecordFor r g c)) = Some (journalRecordFor r g c)"
proof (rule json_roundtrip)
  show "wf_json (journalRecordFor r g c)" by (auto simp: journalRecordFor_def)
qed

lemma metadata_parse_canonical:
  assumes "CanonicalJournalMetadata k = Some raw"
  shows "ParseJournalMetadata raw = Some k"
proof -
  define m where "m = ak_Metadata k"
  define r where "r = jm_Request m"
  have raw: "raw = json_print (journalRecordFor r (jm_EngineGeneration m) (jm_ContainerID m))"
    and fp: "sha256 (bytes_of raw) = ak_Fingerprint k" and len: "length raw \<le> 2048"
    and ids: "ak_ActionID k = ar_ActionID r" "ak_TargetID k = ar_TargetID r"
    and op: "known_operation (ar_Operation r)"
    and times: "time_text_ok (rfc3339nano (ar_CreatedAt r))" "time_text_ok (rfc3339nano (ar_ExpiresAt r))"
    using assms by (auto simp: CanonicalJournalMetadata_def Let_def m_def r_def split: if_splits)
  have ne: "raw \<noteq> []" unfolding raw journalRecordFor_def by simp
  have key: "\<lparr>ak_ActionID = ar_ActionID r, ak_TargetID = ar_TargetID r, ak_Fingerprint = sha256 (bytes_of raw),
     ak_Metadata = \<lparr>jm_Request = r, jm_EngineGeneration = jm_EngineGeneration m, jm_ContainerID = jm_ContainerID m\<rparr>\<rparr> = k"
    using fp ids by (simp add: m_def r_def)
  have eta: "\<lparr>ar_ActionID = ar_ActionID r, ar_ServerID = ar_ServerID r, ar_InstallationID = ar_InstallationID r,
      ar_OwnerID = ar_OwnerID r, ar_ActorID = ar_ActorID r, ar_TargetID = ar_TargetID r, ar_Operation = ar_Operation r,
      ar_GraceSeconds = ar_GraceSeconds r, ar_PolicyRevision = ar_PolicyRevision r,
      ar_CapabilityRevision = ar_CapabilityRevision r, ar_CreatedAt = ar_CreatedAt r, ar_ExpiresAt = ar_ExpiresAt r\<rparr> = r"
    by simp
  let ?j = "journalRecordFor r (jm_EngineGeneration m) (jm_ContainerID m)"
  obtain ms where ms: "?j = JObj ms" by (simp add: journalRecordFor_def)
  have f: "nat_field ms ''Version'' (2 ^ 63) = Some 1" 
    "str_field ms ''ActionID'' = Some (ar_ActionID r)" "str_field ms ''ServerID'' = Some (ar_ServerID r)"
    "str_field ms ''InstallationID'' = Some (ar_InstallationID r)" "str_field ms ''OwnerID'' = Some (ar_OwnerID r)"
    "str_field ms ''ActorID'' = Some (ar_ActorID r)" "str_field ms ''TargetID'' = Some (ar_TargetID r)"
    "str_field ms ''EngineGeneration'' = Some (jm_EngineGeneration m)" "str_field ms ''ContainerID'' = Some (jm_ContainerID m)"
    "str_field ms ''Operation'' = Some (operation_text (ar_Operation r))"
    "nat_field ms ''Grace'' (2 ^ 8) = Some (unat (ar_GraceSeconds r))"
    "nat_field ms ''Policy'' (2 ^ 64) = Some (unat (ar_PolicyRevision r))"
    "nat_field ms ''Capability'' (2 ^ 64) = Some (unat (ar_CapabilityRevision r))"
    "str_field ms ''Created'' = Some (rfc3339nano (ar_CreatedAt r))" "str_field ms ''Expires'' = Some (rfc3339nano (ar_ExpiresAt r))"
    using ms by (auto simp: journalRecordFor_def str_field_def nat_field_def [of _ "''Version''"] intro!: nat_field_word)
  have "json_parse raw = Some (JObj ms)" using parse_record [of r "jm_EngineGeneration m" "jm_ContainerID m"] unfolding raw ms .
  then show ?thesis
    using ne len f times [THEN time_text_parse] text_operation_text [OF op] assms
    by (simp add: ParseJournalMetadata_def Let_def eta key)
qed

lemma canonical_parse_metadata:
  "ParseJournalMetadata raw = Some k \<Longrightarrow> CanonicalJournalMetadata k = Some raw"
  by (auto simp: ParseJournalMetadata_def Let_def split: if_splits option.splits json.splits)

section \<open>Execution\<close>

text \<open>The caller's context, the one bounded by the budget, and the one of the engine call.\<close>

datatype ctx = ParentCtx | BoundedCtx | CallCtx

datatype 'h acquired = AcquireConflict | AcquireUnresolved | AcquireFailed | Acquired 'h

definition acquired_handle :: "'h acquired \<Rightarrow> 'h option" where
  "acquired_handle x = (case x of Acquired h \<Rightarrow> Some h | _ \<Rightarrow> None)"

lemma acquired_handle_simps [simp]:
  "acquired_handle (Acquired h) = Some h" "acquired_handle AcquireConflict = None"
  "acquired_handle AcquireUnresolved = None" "acquired_handle AcquireFailed = None"
  by (simp_all add: acquired_handle_def)

record ('w, 'h) worker_deps =
  wd_composed :: bool
  wd_now :: "('w, gotime) state"
  wd_ctx_err :: "ctx \<Rightarrow> ('w, bool) state"
  wd_until :: "ctx \<Rightarrow> ('w, duration option) state"
  wd_with_timeout :: "ctx \<Rightarrow> duration \<Rightarrow> ('w, unit) state"
  wd_check :: "action_request \<Rightarrow> action_binding \<Rightarrow> ('w, bool) state"
  wd_acquire :: "action_key \<Rightarrow> ('w, 'h acquired) state"
  wd_existing :: "'h \<Rightarrow> ('w, code) state"
  wd_intent :: "'h \<Rightarrow> ('w, bool) state"
  wd_finish :: "'h \<Rightarrow> code \<Rightarrow> ('w, bool) state"
  wd_close :: "'h \<Rightarrow> ('w, unit) state"
  wd_inspect :: "string \<Rightarrow> ('w, container_state option) state"
  wd_call :: "operation \<Rightarrow> string \<Rightarrow> uint8 \<Rightarrow> duration \<Rightarrow> ('w, bool) state"

text \<open>\<open>wd_check\<close>, \<open>wd_intent\<close>, \<open>wd_finish\<close> and \<open>wd_call\<close> return whether they succeeded.\<close>

definition remaining :: "('w, 'h) worker_deps \<Rightarrow> ctx \<Rightarrow> gotime \<Rightarrow> gotime \<Rightarrow> ('w, duration) state" where
  "remaining D c now end = do {
     err \<leftarrow> wd_ctx_err D c;
     if err then ret 0
     else do {
       deadline \<leftarrow> wd_until D c;
       ret (case deadline of None \<Rightarrow> Sub end now | Some t \<Rightarrow> min (Sub end now) t)
     }
   }"

definition time_left :: "('w, 'h) worker_deps \<Rightarrow> ctx \<Rightarrow> gotime \<Rightarrow> ('w, duration) state" where
  "time_left D c end = do { now \<leftarrow> wd_now D; remaining D c now end }"

definition callBudget :: "('w, 'h) worker_deps \<Rightarrow> gotime \<Rightarrow> gotime \<Rightarrow> uint8 \<Rightarrow> ('w, duration) state" where
  "callBudget D now end grace = do {
     left \<leftarrow> remaining D BoundedCtx now end;
     let budget = min (seconds 45) (wrap64 (left - seconds 5));
     ret (if budget < seconds (uint grace) + seconds 5 then 0 else budget)
   }"

definition call_late :: "('w, 'h) worker_deps \<Rightarrow> gotime \<Rightarrow> duration \<Rightarrow> gotime \<Rightarrow> ('w, bool) state" where
  "call_late D started budget end = do {
     err \<leftarrow> wd_ctx_err D CallCtx;
     if err then ret True
     else do {
       now \<leftarrow> wd_now D;
       if budget \<le> Sub now started then ret True
       else do { left \<leftarrow> time_left D BoundedCtx end; ret (left \<le> seconds 5) }
     }
   }"

text \<open>From the durable intent to the answer.\<close>

definition execute_mutation ::
  "('w, 'h) worker_deps \<Rightarrow> action_request \<Rightarrow> action_binding \<Rightarrow> gotime \<Rightarrow> 'h \<Rightarrow> code \<Rightarrow> ('w, code) state" where
  "execute_mutation D r b end h c = do {
     now \<leftarrow> wd_now D;
     budget \<leftarrow> callBudget D now end (ar_GraceSeconds r);
     if budget \<le> 0 then ret BudgetExceeded
     else do {
       intended \<leftarrow> wd_intent D h;
       if \<not> intended then ret OutcomeUnknown
       else do {
         now \<leftarrow> wd_now D;
         budget \<leftarrow> callBudget D now end (ar_GraceSeconds r);
         if budget \<le> 0 then ret OutcomeUnknown
         else do {
           wd_with_timeout D CallCtx budget;
           started \<leftarrow> wd_now D;
           ok \<leftarrow> wd_call D (ar_Operation r) (ab_ContainerID b) (ar_GraceSeconds r) budget;
           late \<leftarrow> call_late D started budget end;
           if \<not> ok \<or> late then ret OutcomeUnknown
           else do {
             finished \<leftarrow> wd_finish D h c;
             if \<not> finished then ret OutcomeUnknown
             else do {
               left \<leftarrow> time_left D BoundedCtx end;
               ret (if left \<le> 0 then OutcomeUnknown else c)
             }
           }
         }
       }
     }
   }"

text \<open>The inspected state: settle without a call, or mutate.\<close>

definition execute_inspected ::
  "('w, 'h) worker_deps \<Rightarrow> action_request \<Rightarrow> action_binding \<Rightarrow> gotime \<Rightarrow> 'h \<Rightarrow> container_state \<Rightarrow> ('w, code) state" where
  "execute_inspected D r b end h s = do {
     left \<leftarrow> time_left D BoundedCtx end;
     if left \<le> 0 then ret BudgetExceeded
     else do {
       allowed \<leftarrow> wd_check D r b;
       if \<not> allowed then ret Denied
       else do {
         left \<leftarrow> time_left D BoundedCtx end;
         if left \<le> 0 then ret BudgetExceeded
         else case classify (ar_Operation r) s of (c, mutate) \<Rightarrow>
           if \<not> mutate then do {
             finished \<leftarrow> wd_finish D h c;
             if \<not> finished then ret Unavailable
             else do {
               left \<leftarrow> time_left D BoundedCtx end;
               ret (if left \<le> 0 then BudgetExceeded else c)
             }
           } else execute_mutation D r b end h c
       }
     }
   }"

definition execute_attempt ::
  "('w, 'h) worker_deps \<Rightarrow> action_request \<Rightarrow> action_binding \<Rightarrow> gotime \<Rightarrow> 'h \<Rightarrow> ('w, code) state" where
  "execute_attempt D r b end h = do {
     left \<leftarrow> time_left D BoundedCtx end;
     if left \<le> 0 then ret BudgetExceeded
     else do {
       c \<leftarrow> wd_existing D h;
       if c \<noteq> NoCode then do {
         left \<leftarrow> time_left D BoundedCtx end;
         ret (if left \<le> 0 then BudgetExceeded
              else if retained c (ar_Operation r) then c else Unavailable)
       } else do {
         left \<leftarrow> time_left D BoundedCtx end;
         if left \<le> 0 then ret BudgetExceeded
         else do {
           state \<leftarrow> wd_inspect D (ab_ContainerID b);
           case state of None \<Rightarrow> ret Unavailable | Some s \<Rightarrow> execute_inspected D r b end h s
         }
       }
     }
   }"

definition Execute ::
  "('w, 'h) worker_deps \<Rightarrow> action_request \<Rightarrow> action_binding \<Rightarrow> delivery \<Rightarrow> ('w, code) state" where
  "Execute D r b d = do {
     now \<leftarrow> wd_now D;
     if \<not> valid r b now then ret Denied
     else if \<not> wd_composed D then ret Unavailable
     else if IsZero (dl_StartedAt d) \<or> dl_ReceivedAt d < dl_StartedAt d
             \<or> seconds 30 < Sub (dl_ReceivedAt d) (dl_StartedAt d) \<or> now < dl_ReceivedAt d then ret BudgetExceeded
     else do {
       let end = earliest (ar_ExpiresAt r) [dl_StartedAt d + seconds 90, dl_ReceivedAt d + minutes 1,
                                            dl_LeaseDeadline d - seconds 30];
       budget \<leftarrow> remaining D ParentCtx now end;
       if budget \<le> 0 then ret BudgetExceeded
       else do {
         wd_with_timeout D BoundedCtx budget;
         allowed \<leftarrow> wd_check D r b;
         if \<not> allowed then ret Denied
         else do {
           left \<leftarrow> time_left D BoundedCtx end;
           if left \<le> 0 then ret BudgetExceeded
           else case NewJournalKey r b of
               None \<Rightarrow> ret Unavailable
             | Some key \<Rightarrow> do {
                 acquired \<leftarrow> wd_acquire D key;
                 case acquired of
                   AcquireConflict \<Rightarrow> ret IdentityConflict
                 | AcquireUnresolved \<Rightarrow> ret OutcomeUnknown
                 | AcquireFailed \<Rightarrow> ret Unavailable
                 | Acquired h \<Rightarrow> do {
                     c \<leftarrow> execute_attempt D r b end h;
                     wd_close D h;
                     ret c
                   }
               }
         }
       }
     }
   }"

section \<open>What an execution may do\<close>

text \<open>The observable events of an execution, with the success of each and the attempt it concerns.\<close>

datatype 'h action_event =
    EvCheck bool
  | EvAcquire action_key "'h option"
  | EvInspect string "container_state option"
  | EvIntent 'h bool
  | EvCall operation string uint8 duration bool
  | EvFinish 'h code bool
  | EvClose 'h

text \<open>
  The complete sequences of events of one execution and the codes it may return after each. An engine
  call happens only in the last two shapes: after two successful authority checks, an acquired
  attempt, an inspection whose state the operation may change, and a durable intent.
\<close>

inductive exec_trace :: "action_request \<Rightarrow> action_binding \<Rightarrow> 'h action_event list \<Rightarrow> code \<Rightarrow> bool"
  for r :: action_request and b :: action_binding where
  nothing: "c \<in> {Denied, Unavailable, BudgetExceeded} \<Longrightarrow> exec_trace r b [] c"
| unauthorised: "exec_trace r b [EvCheck False] Denied"
| checked: "c \<in> {BudgetExceeded, Unavailable} \<Longrightarrow> exec_trace r b [EvCheck True] c"
| refused: "c \<in> {IdentityConflict, OutcomeUnknown, Unavailable} \<Longrightarrow> NewJournalKey r b = Some k
    \<Longrightarrow> exec_trace r b [EvCheck True, EvAcquire k None] c"
| replayed: "c \<in> {BudgetExceeded, Unavailable} \<or> retained c (ar_Operation r) \<Longrightarrow> NewJournalKey r b = Some k
    \<Longrightarrow> exec_trace r b [EvCheck True, EvAcquire k (Some h), EvClose h] c"
| uninspected: "NewJournalKey r b = Some k
    \<Longrightarrow> exec_trace r b [EvCheck True, EvAcquire k (Some h), EvInspect (ab_ContainerID b) None, EvClose h] Unavailable"
| inspected: "NewJournalKey r b = Some k
    \<Longrightarrow> exec_trace r b [EvCheck True, EvAcquire k (Some h), EvInspect (ab_ContainerID b) (Some s), EvClose h] BudgetExceeded"
| revoked: "NewJournalKey r b = Some k
    \<Longrightarrow> exec_trace r b [EvCheck True, EvAcquire k (Some h), EvInspect (ab_ContainerID b) (Some s), EvCheck False, EvClose h] Denied"
| rechecked: "NewJournalKey r b = Some k
    \<Longrightarrow> exec_trace r b [EvCheck True, EvAcquire k (Some h), EvInspect (ab_ContainerID b) (Some s), EvCheck True, EvClose h] BudgetExceeded"
| settled: "NewJournalKey r b = Some k \<Longrightarrow> classify (ar_Operation r) s = (c, False)
    \<Longrightarrow> \<not> ok \<and> c' = Unavailable \<or> ok \<and> c' \<in> {c, BudgetExceeded}
    \<Longrightarrow> exec_trace r b [EvCheck True, EvAcquire k (Some h), EvInspect (ab_ContainerID b) (Some s), EvCheck True,
          EvFinish h c ok, EvClose h] c'"
| unresolved: "NewJournalKey r b = Some k \<Longrightarrow> classify (ar_Operation r) s = (c, True)
    \<Longrightarrow> exec_trace r b [EvCheck True, EvAcquire k (Some h), EvInspect (ab_ContainerID b) (Some s), EvCheck True,
          EvIntent h ok, EvClose h] OutcomeUnknown"
| uncertain: "NewJournalKey r b = Some k \<Longrightarrow> classify (ar_Operation r) s = (c, True)
    \<Longrightarrow> seconds (uint (ar_GraceSeconds r)) + seconds 5 \<le> budget \<Longrightarrow> budget \<le> seconds 45
    \<Longrightarrow> exec_trace r b [EvCheck True, EvAcquire k (Some h), EvInspect (ab_ContainerID b) (Some s), EvCheck True,
          EvIntent h True, EvCall (ar_Operation r) (ab_ContainerID b) (ar_GraceSeconds r) budget ok, EvClose h] OutcomeUnknown"
| completed: "NewJournalKey r b = Some k \<Longrightarrow> classify (ar_Operation r) s = (c, True)
    \<Longrightarrow> seconds (uint (ar_GraceSeconds r)) + seconds 5 \<le> budget \<Longrightarrow> budget \<le> seconds 45
    \<Longrightarrow> c' = OutcomeUnknown \<or> ok \<and> c' = c
    \<Longrightarrow> exec_trace r b [EvCheck True, EvAcquire k (Some h), EvInspect (ab_ContainerID b) (Some s), EvCheck True,
          EvIntent h True, EvCall (ar_Operation r) (ab_ContainerID b) (ar_GraceSeconds r) budget True,
          EvFinish h c ok, EvClose h] c'"

inductive_cases exec_traceE: "exec_trace r b es c"

text \<open>The contract of the collaborators: what each of them leaves in the trace.\<close>

locale worker_env =
  fixes D :: "('w, 'h) worker_deps" and trace :: "'w \<Rightarrow> 'h action_event list"
  assumes tr_now: "wp (wd_now D) (\<lambda>_ w'. trace w' = trace w) w"
    and tr_ctx_err: "wp (wd_ctx_err D c) (\<lambda>_ w'. trace w' = trace w) w"
    and tr_until: "wp (wd_until D c) (\<lambda>_ w'. trace w' = trace w) w"
    and tr_with_timeout: "wp (wd_with_timeout D c t) (\<lambda>_ w'. trace w' = trace w) w"
    and tr_check: "wp (wd_check D r b) (\<lambda>ok w'. trace w' = trace w @ [EvCheck ok]) w"
    and tr_acquire: "wp (wd_acquire D k) (\<lambda>x w'. trace w' = trace w @ [EvAcquire k (acquired_handle x)]) w"
    and tr_existing: "wp (wd_existing D h) (\<lambda>_ w'. trace w' = trace w) w"
    and tr_intent: "wp (wd_intent D h) (\<lambda>ok w'. trace w' = trace w @ [EvIntent h ok]) w"
    and tr_finish: "wp (wd_finish D h c') (\<lambda>ok w'. trace w' = trace w @ [EvFinish h c' ok]) w"
    and tr_close: "wp (wd_close D h) (\<lambda>_ w'. trace w' = trace w @ [EvClose h]) w"
    and tr_inspect: "wp (wd_inspect D s) (\<lambda>x w'. trace w' = trace w @ [EvInspect s x]) w"
    and tr_call: "wp (wd_call D op s g t) (\<lambda>ok w'. trace w' = trace w @ [EvCall op s g t ok]) w"
begin

text \<open>\<open>emits m w Q\<close>: whatever \<open>m\<close> returns, the events it appended satisfy \<open>Q\<close>.\<close>

definition emits :: "('w, 'a) state \<Rightarrow> ('a \<Rightarrow> 'h action_event list \<Rightarrow> bool) \<Rightarrow> bool" where
  "emits m Q \<longleftrightarrow> (\<forall>w. wp m (\<lambda>x w'. \<exists>es. trace w' = trace w @ es \<and> Q x es) w)"

lemma emits_ret: "Q x [] \<Longrightarrow> emits (ret x) Q"
  by (simp add: emits_def wp_simps)

lemma emits_bind:
  assumes "emits m P" and "\<And>x es. P x es \<Longrightarrow> emits (f x) (\<lambda>y es'. Q y (es @ es'))"
  shows "emits (State_Monad.bind m f) Q"
  unfolding emits_def wp_bind
proof
  fix w
  show "wp m (\<lambda>x. wp (f x) (\<lambda>y w'. \<exists>es. trace w' = trace w @ es \<and> Q y es)) w"
  proof (rule wp_mono [OF assms(1) [unfolded emits_def, THEN spec [of _ w]]])
    fix x w1
    assume "\<exists>es. trace w1 = trace w @ es \<and> P x es"
    then obtain es where es: "trace w1 = trace w @ es" "P x es" by blast
    show "wp (f x) (\<lambda>y w'. \<exists>es. trace w' = trace w @ es \<and> Q y es) w1"
      by (rule wp_mono [OF assms(2) [OF es(2), unfolded emits_def, THEN spec [of _ w1]]]) (use es(1) in auto)
  qed
qed

lemma emits_op:
  assumes "\<And>w. wp m (\<lambda>x w'. trace w' = trace w @ g x) w"
    and "\<And>x. emits (f x) (\<lambda>y es. Q y (g x @ es))"
  shows "emits (State_Monad.bind m f) Q"
proof (rule emits_bind)
  show "emits m (\<lambda>x es. es = g x)" unfolding emits_def by (intro allI wp_mono [OF assms(1)]) simp
qed (use assms(2) in simp)

lemma emits_if: "(c \<Longrightarrow> emits m Q) \<Longrightarrow> (\<not> c \<Longrightarrow> emits n Q) \<Longrightarrow> emits (if c then m else n) Q"
  by simp

lemma emits_now: "(\<And>x. emits (f x) Q) \<Longrightarrow> emits (State_Monad.bind (wd_now D) f) Q"
  by (rule emits_op [where g = "\<lambda>_. []"]) (simp_all add: tr_now)

lemma emits_ctx_err: "(\<And>x. emits (f x) Q) \<Longrightarrow> emits (State_Monad.bind (wd_ctx_err D c) f) Q"
  by (rule emits_op [where g = "\<lambda>_. []"]) (simp_all add: tr_ctx_err)

lemma emits_until: "(\<And>x. emits (f x) Q) \<Longrightarrow> emits (State_Monad.bind (wd_until D c) f) Q"
  by (rule emits_op [where g = "\<lambda>_. []"]) (simp_all add: tr_until)

lemma emits_with_timeout: "(\<And>x. emits (f x) Q) \<Longrightarrow> emits (State_Monad.bind (wd_with_timeout D c t) f) Q"
  by (rule emits_op [where g = "\<lambda>_. []"]) (simp_all add: tr_with_timeout)

lemma emits_existing: "(\<And>x. emits (f x) Q) \<Longrightarrow> emits (State_Monad.bind (wd_existing D h) f) Q"
  by (rule emits_op [where g = "\<lambda>_. []"]) (simp_all add: tr_existing)

lemma emits_check: "(\<And>x. emits (f x) (\<lambda>y es. Q y (EvCheck x # es))) \<Longrightarrow> emits (State_Monad.bind (wd_check D r b) f) Q"
  by (rule emits_op [where g = "\<lambda>x. [EvCheck x]"]) (simp_all add: tr_check)

lemma emits_acquire: "(\<And>x. emits (f x) (\<lambda>y es. Q y (EvAcquire k (acquired_handle x) # es))) \<Longrightarrow> emits (State_Monad.bind (wd_acquire D k) f) Q"
  by (rule emits_op [where g = "\<lambda>x. [EvAcquire k (acquired_handle x)]"]) (simp_all add: tr_acquire)

lemma emits_intent: "(\<And>x. emits (f x) (\<lambda>y es. Q y (EvIntent h x # es))) \<Longrightarrow> emits (State_Monad.bind (wd_intent D h) f) Q"
  by (rule emits_op [where g = "\<lambda>x. [EvIntent h x]"]) (simp_all add: tr_intent)

lemma emits_finish: "(\<And>x. emits (f x) (\<lambda>y es. Q y (EvFinish h c x # es))) \<Longrightarrow> emits (State_Monad.bind (wd_finish D h c) f) Q"
  by (rule emits_op [where g = "\<lambda>x. [EvFinish h c x]"]) (simp_all add: tr_finish)

lemma emits_close: "(\<And>x. emits (f x) (\<lambda>y es. Q y (EvClose h # es))) \<Longrightarrow> emits (State_Monad.bind (wd_close D h) f) Q"
  by (rule emits_op [where g = "\<lambda>x. [EvClose h]"]) (simp_all add: tr_close)

lemma emits_inspect: "(\<And>x. emits (f x) (\<lambda>y es. Q y (EvInspect s x # es))) \<Longrightarrow> emits (State_Monad.bind (wd_inspect D s) f) Q"
  by (rule emits_op [where g = "\<lambda>x. [EvInspect s x]"]) (simp_all add: tr_inspect)

lemma emits_call: "(\<And>x. emits (f x) (\<lambda>y es. Q y (EvCall op s g t x # es))) \<Longrightarrow> emits (State_Monad.bind (wd_call D op s g t) f) Q"
  by (rule emits_op [where g = "\<lambda>x. [EvCall op s g t x]"]) (simp_all add: tr_call)

lemmas emits_intros = emits_ret emits_if emits_now emits_ctx_err emits_until emits_with_timeout emits_existing emits_check emits_acquire emits_intent emits_finish emits_close emits_inspect emits_call

lemma emits_remaining: "(\<And>x. emits (f x) Q) \<Longrightarrow> emits (State_Monad.bind (remaining D c now end) f) Q"
  by (rule emits_bind [where P = "\<lambda>_ es. es = []"]) (auto simp: remaining_def intro!: emits_intros)

lemma emits_time_left: "(\<And>x. emits (f x) Q) \<Longrightarrow> emits (State_Monad.bind (time_left D c end) f) Q"
  by (rule emits_bind [where P = "\<lambda>_ es. es = []"])
     (auto simp: time_left_def remaining_def intro!: emits_intros)

lemma emits_call_late: "(\<And>x. emits (f x) Q) \<Longrightarrow> emits (State_Monad.bind (call_late D started budget end) f) Q"
  by (rule emits_bind [where P = "\<lambda>_ es. es = []"])
     (auto simp: call_late_def intro!: emits_intros emits_time_left)

text \<open>A positive call budget leaves room for the grace period and is at most 45 seconds.\<close>

lemma emits_callBudget:
  assumes "\<And>x. x \<le> 0 \<or> (seconds (uint g) + seconds 5 \<le> x \<and> x \<le> seconds 45) \<Longrightarrow> emits (f x) Q"
  shows "emits (State_Monad.bind (callBudget D now end g) f) Q"
proof (rule emits_bind)
  show "emits (callBudget D now end g)
      (\<lambda>x es. es = [] \<and> (x \<le> 0 \<or> (seconds (uint g) + seconds 5 \<le> x \<and> x \<le> seconds 45)))"
    unfolding callBudget_def Let_def by (auto intro!: emits_remaining emits_intros)
qed (use assms in auto)

lemma emits_execute_mutation:
  assumes k: "NewJournalKey r b = Some k" and c: "classify (ar_Operation r) s = (c, True)"
  shows "emits (execute_mutation D r b end h c) (\<lambda>c' es.
    exec_trace r b ([EvCheck True, EvAcquire k (Some h), EvInspect (ab_ContainerID b) (Some s), EvCheck True] @ es @ [EvClose h]) c')"
  unfolding execute_mutation_def
  by (intro emits_intros emits_callBudget emits_time_left emits_call_late)
     (auto intro: exec_trace.rechecked [OF k] exec_trace.unresolved [OF k c] exec_trace.uncertain [OF k c]
       exec_trace.completed [OF k c])

lemma emits_execute_inspected:
  assumes k: "NewJournalKey r b = Some k"
  shows "emits (execute_inspected D r b end h s) (\<lambda>c es.
    exec_trace r b ([EvCheck True, EvAcquire k (Some h), EvInspect (ab_ContainerID b) (Some s)] @ es @ [EvClose h]) c)"
proof (cases "classify (ar_Operation r) s")
  case (Pair c m)
  show ?thesis
  proof (cases m)
    case True
    show ?thesis
      unfolding execute_inspected_def Pair
      using emits_execute_mutation [OF k, of s c] Pair True
      by (simp, intro emits_intros emits_time_left)
         (auto intro: exec_trace.inspected [OF k] exec_trace.revoked [OF k] exec_trace.rechecked [OF k])
  next
    case False
    show ?thesis
      unfolding execute_inspected_def Pair
      using Pair False
      by (simp, intro emits_intros emits_time_left)
         (auto intro!: emits_finish emits_time_left emits_ret emits_if exec_trace.settled [OF k]
           intro: exec_trace.inspected [OF k] exec_trace.revoked [OF k] exec_trace.rechecked [OF k]
           split: if_splits)
  qed
qed

lemma emits_execute_attempt:
  assumes k: "NewJournalKey r b = Some k"
  shows "emits (execute_attempt D r b end h) (\<lambda>c es. exec_trace r b ([EvCheck True, EvAcquire k (Some h)] @ es @ [EvClose h]) c)"
proof -
  have "emits (case x of None \<Rightarrow> ret Unavailable | Some s \<Rightarrow> execute_inspected D r b end h s)
     (\<lambda>c es. exec_trace r b ([EvCheck True, EvAcquire k (Some h)] @ (EvInspect (ab_ContainerID b) x # es) @ [EvClose h]) c)" for x
    using emits_execute_inspected [OF k]
    by (cases x) (auto intro!: emits_ret intro: exec_trace.uninspected [OF k])
  then show ?thesis
    unfolding execute_attempt_def
    by (intro emits_intros emits_time_left) (auto intro: exec_trace.replayed [OF _ k])
qed

theorem emits_Execute: "emits (Execute D r b d) (\<lambda>c es. exec_trace r b es c)"
proof -
  have acq: "emits (case x of AcquireConflict \<Rightarrow> ret IdentityConflict | AcquireUnresolved \<Rightarrow> ret OutcomeUnknown
        | AcquireFailed \<Rightarrow> ret Unavailable
        | Acquired h \<Rightarrow> State_Monad.bind (execute_attempt D r b end h)
            (\<lambda>c. State_Monad.bind (wd_close D h) (\<lambda>_. ret c)))
      (\<lambda>c es. exec_trace r b (EvCheck True # EvAcquire k (acquired_handle x) # es) c)"
    if k: "NewJournalKey r b = Some k" for x k "end"
  proof (cases x)
    case (Acquired h)
    show ?thesis
      unfolding Acquired
      by (simp, rule emits_bind [OF emits_execute_attempt [OF k]]) (auto intro!: emits_close emits_ret)
  qed (auto intro!: emits_ret intro: exec_trace.refused [OF _ k])
  have key: "emits (case NewJournalKey r b of None \<Rightarrow> ret Unavailable
        | Some key \<Rightarrow> State_Monad.bind (wd_acquire D key) (g key)) (\<lambda>c es. exec_trace r b (EvCheck True # es) c)"
    if "\<And>k x. NewJournalKey r b = Some k \<Longrightarrow>
        emits (g k x) (\<lambda>c es. exec_trace r b (EvCheck True # EvAcquire k (acquired_handle x) # es) c)" for g
    using that by (cases "NewJournalKey r b") (auto intro!: emits_ret emits_acquire exec_trace.checked)
  show ?thesis
    unfolding Execute_def Let_def
    apply (intro emits_intros emits_remaining emits_time_left)
    apply (auto intro: exec_trace.intros)
    apply (rule key, rule acq)
    apply assumption
    done
qed

end

section \<open>What the collaborators keep, an execution keeps\<close>

locale worker_keeps =
  fixes D :: "('w, 'h) worker_deps" and P :: "'w \<Rightarrow> bool"
  assumes keeps_now: "preserves P (wd_now D)"
    and keeps_ctx: "preserves P (wd_ctx_err D x)" "preserves P (wd_until D x)" "preserves P (wd_with_timeout D x t)"
    and keeps_check: "preserves P (wd_check D r b)"
    and keeps_acquire: "preserves P (wd_acquire D k)"
    and keeps_existing: "preserves P (wd_existing D h)"
    and keeps_intent: "preserves P (wd_intent D h)"
    and keeps_finish: "preserves P (wd_finish D h c)"
    and keeps_close: "preserves P (wd_close D h)"
    and keeps_engine: "preserves P (wd_inspect D s)" "preserves P (wd_call D op s g t)"
begin

lemmas keeps = keeps_now keeps_ctx keeps_check keeps_acquire keeps_existing keeps_intent keeps_finish keeps_close keeps_engine

lemma keeps_remaining: "preserves P (remaining D x now u)"
  unfolding remaining_def by (intro pres_intros keeps)

lemma keeps_time_left: "preserves P (time_left D x u)"
  unfolding time_left_def by (intro pres_intros keeps keeps_remaining)

lemma keeps_mutation: "preserves P (execute_mutation D r b u h c)"
  unfolding execute_mutation_def callBudget_def call_late_def Let_def
  by (intro pres_intros keeps keeps_remaining keeps_time_left)

lemma keeps_inspected: "preserves P (execute_inspected D r b u h s)"
  unfolding execute_inspected_def by (intro pres_intros keeps keeps_time_left keeps_mutation)

lemma keeps_attempt: "preserves P (execute_attempt D r b u h)"
  unfolding execute_attempt_def by (intro pres_intros keeps keeps_time_left keeps_inspected)

theorem keeps_Execute: "preserves P (Execute D r b d)"
proof -
  have "preserves P (case x of AcquireConflict \<Rightarrow> ret IdentityConflict | AcquireUnresolved \<Rightarrow> ret OutcomeUnknown
        | AcquireFailed \<Rightarrow> ret Unavailable
        | Acquired h \<Rightarrow> State_Monad.bind (execute_attempt D r b u h)
            (\<lambda>c. State_Monad.bind (wd_close D h) (\<lambda>_. ret c)))" for x u
    by (cases x) (auto intro!: pres_intros keeps keeps_attempt)
  then show ?thesis
    unfolding Execute_def Let_def by (intro pres_intros keeps keeps_remaining keeps_time_left)
qed

end

end
