(* ===== verification/JournalFiles.thy ===== *)
theory JournalFiles
  imports LedgerFiles
begin

text \<open>
  The file checks of the action journal, \<^verbatim>\<open>internal/actionjournal/files_linux.go\<close>, with the limits of
  \<^verbatim>\<open>journal.go\<close>. The operating system's answers are data, as in the checks of the upload ledger; the
  journal has its own error values, its own limits and an additional check of the rollback journal.
\<close>

section \<open>Limits\<close>

datatype journal_err =
  JErrUnsupported | JErrUnsafe | JErrBusy | JErrFull | JErrRecovery | JErrIdentityConflict | JErrUnresolvedTarget

definition action_databaseName :: string where "action_databaseName = ''action.sqlite''"
definition action_lockName :: string where "action_lockName = ''.action-lock''"
definition action_journalName :: string where "action_journalName = ''action.sqlite-journal''"
definition databaseBytes :: int where "databaseBytes = 12 * 1024 * 1024"
definition journalBytes :: int where "journalBytes = (databaseBytes div 4096) * (4096 + 8) + 2 * 65536"
definition totalBytes :: int where "totalBytes = 32 * 1024 * 1024"
definition maxRecords :: nat where "maxRecords = 1000"

lemmas journal_limits = databaseBytes_def journalBytes_def totalBytes_def

section \<open>The checks\<close>

fun action_privateDirectory :: "uint32 \<Rightarrow> bool \<Rightarrow> file_info option list \<Rightarrow> journal_err option" where
  "action_privateDirectory euid dedicated [] = Some JErrUnsafe"
| "action_privateDirectory euid dedicated (own # parents) =
     (if \<not> dedicated \<or> \<not> own_directory_ok euid own \<or> \<not> list_all (ancestor_ok euid) parents
      then Some JErrUnsafe else None)"

text \<open>One entry of the listing: the running total and the two flags, or the error.\<close>

fun action_checkEntry ::
  "uint32 \<Rightarrow> string \<times> file_info option \<Rightarrow> int \<times> bool \<times> bool \<Rightarrow> (int \<times> bool \<times> bool) option" where
  "action_checkEntry euid (name, x) (tot, db, lock) =
     (if name \<notin> {action_databaseName, action_lockName, action_journalName} then None
      else case x of
          None \<Rightarrow> None
        | Some i \<Rightarrow>
            if \<not> privateFile euid i
                 (if name = action_databaseName then databaseBytes
                  else if name = action_lockName then 0 else journalBytes) then None
            else Some (tot + fi_size i, db \<or> name = action_databaseName, lock \<or> name = action_lockName))"

fun action_checkEntries ::
  "uint32 \<Rightarrow> (string \<times> file_info option) list \<Rightarrow> int \<times> bool \<times> bool \<Rightarrow> (int \<times> bool \<times> bool) option" where
  "action_checkEntries euid [] acc = Some acc"
| "action_checkEntries euid (e # es) acc =
     (case action_checkEntry euid e acc of None \<Rightarrow> None | Some acc' \<Rightarrow> action_checkEntries euid es acc')"

definition action_checkFiles ::
  "uint32 \<Rightarrow> (string \<times> file_info option) list option \<Rightarrow> bool \<Rightarrow> journal_err option" where
  "action_checkFiles euid listing dbRequired =
     (case listing of
        None \<Rightarrow> Some JErrUnsafe
      | Some entries \<Rightarrow>
          if 3 < length (take 4 entries) then Some JErrUnsafe
          else case action_checkEntries euid entries (0, False, False) of
              None \<Rightarrow> Some JErrUnsafe
            | Some (tot, db, lock) \<Rightarrow>
                if \<not> lock \<or> (dbRequired \<and> \<not> db) \<or> totalBytes < tot then Some JErrRecovery else None)"

definition action_acquireLock ::
  "uint32 \<Rightarrow> bool \<Rightarrow> file_info option \<Rightarrow> flock_result \<Rightarrow> journal_err option" where
  "action_acquireLock euid opened info flock =
     (if \<not> opened then Some JErrRecovery
      else if \<not> (case info of None \<Rightarrow> False | Some i \<Rightarrow> privateFile euid i 0) then Some JErrUnsafe
      else case flock of
          Locked \<Rightarrow> None
        | WouldBlock \<Rightarrow> Some JErrBusy
        | FlockError \<Rightarrow> Some JErrRecovery)"

definition action_app_id :: int where "action_app_id = 0x484C414A"

definition action_checkHeader :: "uint32 \<Rightarrow> (file_info option \<times> bytes) option \<Rightarrow> journal_err option" where
  "action_checkHeader euid file =
     (case file of
        None \<Rightarrow> Some JErrRecovery
      | Some (info, h) \<Rightarrow>
          if \<not> (case info of None \<Rightarrow> False | Some i \<Rightarrow> privateFile euid i databaseBytes) then Some JErrUnsafe
          else if length h < 100 \<or> take 16 h \<noteq> header_magic \<or> h ! 16 \<noteq> 16 \<or> h ! 17 \<noteq> 0
               \<or> h ! 18 \<noteq> 1 \<or> h ! 19 \<noteq> 1 \<or> be32 (take 4 (drop 60 h)) \<noteq> 1
               \<or> be32 (take 4 (drop 68 h)) \<noteq> action_app_id then Some JErrRecovery
          else None)"

section \<open>The rollback journal\<close>

text \<open>
  What \<^verbatim>\<open>OpenFile\<close> and \<^verbatim>\<open>Stat\<close> report about the rollback journal, and its contents. \<open>UnreadableFile\<close> is any
  error but absence; reads that fail for another reason than the end of the file are marked in the last field.
\<close>

datatype side_file = AbsentFile | UnreadableFile | OpenedFile "file_info option" bytes bool

definition journal_magic :: bytes where
  "journal_magic = [0xd9, 0xd5, 0x05, 0xf9, 0x20, 0xa1, 0x63, 0xd7]"

definition zeros :: "bytes \<Rightarrow> bool" where
  "zeros h \<longleftrightarrow> h = replicate (length h) 0"

definition checkJournalPages :: "bool \<Rightarrow> int \<Rightarrow> bytes \<Rightarrow> bool" where
  "checkJournalPages hot fsize h =
     (let count = be32 (take 4 (drop 8 h)); pages = be32 (take 4 (drop 16 h));
          sector = be32 (take 4 (drop 20 h)); page = be32 (take 4 (drop 24 h))
      in if pages < 1 \<or> 3072 < pages \<or> sector < 512 \<or> 65536 < sector \<or> sector AND (sector - 1) \<noteq> 0
            \<or> page \<noteq> 4096 \<or> fsize < sector then False
         else if count = 2 ^ 32 - 1 then \<not> 3072 < (fsize - sector) div (4096 + 8)
         else \<not> (pages < count \<or> 3072 < count \<or> (hot \<and> fsize < sector + count * (4096 + 8))))"

definition checkJournalHeader :: "uint32 \<Rightarrow> side_file \<Rightarrow> journal_err option" where
  "checkJournalHeader euid file =
     (case file of
        AbsentFile \<Rightarrow> None
      | UnreadableFile \<Rightarrow> Some JErrRecovery
      | OpenedFile info contents broken \<Rightarrow>
          (case info of
             None \<Rightarrow> Some JErrUnsafe
           | Some i \<Rightarrow>
               if \<not> privateFile euid i journalBytes then Some JErrUnsafe
               else if fi_size i = 0 then None
               else if broken then Some JErrRecovery
               else
                 let h = take 28 contents; cold = zeros (take 8 h); hot = (take 8 h = journal_magic)
                 in if length h < 28 then (if zeros h then None else Some JErrRecovery)
                    else if \<not> cold \<and> \<not> hot then Some JErrRecovery
                    else if cold \<and> zeros h then None
                    else if checkJournalPages hot (fi_size i) h then None else Some JErrRecovery))"

section \<open>What the checks guarantee\<close>

lemma action_checkEntries_accepted:
  assumes "action_checkEntries euid es (t, d, l) = Some (t', d', l')"
  shows "t' = t + (\<Sum>(n, x)\<leftarrow>es. case x of None \<Rightarrow> 0 | Some i \<Rightarrow> fi_size i) \<and>
         (d' \<longleftrightarrow> d \<or> action_databaseName \<in> fst ` set es) \<and> (l' \<longleftrightarrow> l \<or> action_lockName \<in> fst ` set es) \<and>
         (\<forall>(n, x) \<in> set es. \<exists>i. x = Some i \<and> privateFile euid i databaseBytes \<or> n = action_journalName \<and> x = Some i \<and> privateFile euid i journalBytes)"
  using assms
proof (induction es arbitrary: t d l)
  case (Cons e es)
  obtain n x where e: "e = (n, x)" by (cases e)
  from Cons.prems obtain i where n: "n \<in> {action_databaseName, action_lockName, action_journalName}" and x: "x = Some i"
    and p: "privateFile euid i (if n = action_databaseName then databaseBytes
                  else if n = action_lockName then 0 else journalBytes)"
    and es: "action_checkEntries euid es (t + fi_size i, d \<or> n = action_databaseName, l \<or> n = action_lockName)
      = Some (t', d', l')"
    by (auto simp: e split: if_splits option.splits)
  show ?case
    using Cons.IH [OF es] n p unfolding e x
    by (auto simp: add.assoc privateFile_def databaseBytes_def split: if_splits)
qed simp

text \<open>
  An accepted hot journal is complete as far as its first header promises: it holds the page records
  it counts, never more than the database may have pages, and fits the byte limit.
\<close>

lemma checkJournalPages_hot:
  assumes "checkJournalPages True fsize h"
  shows "let count = be32 (take 4 (drop 8 h)); sector = be32 (take 4 (drop 20 h))
         in 512 \<le> sector \<and> sector \<le> fsize \<and>
            (count \<noteq> 2 ^ 32 - 1 \<longrightarrow> count \<le> 3072 \<and> sector + count * 4104 \<le> fsize)"
  using assms by (auto simp: checkJournalPages_def Let_def split: if_splits)

end
