(* ===== verification/ActionJournal.thy ===== *)
theory ActionJournal
  imports ActionCore JournalFiles "HOL-Library.List_Lexorder" "HOL-Library.Product_Lexorder"
begin

text \<open>
  The durable action journal, \<^verbatim>\<open>internal/actionjournal\<close>: the three tables of \<^verbatim>\<open>schema_linux.go\<close> as lists of
  rows with their CHECK, PRIMARY KEY and REFERENCES constraints, the loader of \<^verbatim>\<open>load_linux.go\<close> that
  validates every row it reads, and the operations of \<^verbatim>\<open>journal_linux.go\<close>, \<^verbatim>\<open>attempt_linux.go\<close>,
  \<^verbatim>\<open>prune_linux.go\<close>, \<^verbatim>\<open>snapshot_linux.go\<close> and \<^verbatim>\<open>execution_linux.go\<close>.

  A journal holds its database, the attempts it has handed out (an attempt is addressed by its
  position) and the map of active ones. The database driver, the clock and the execution guard
  answer through \<open>journal_io\<close>, one value per call of an operation; a statement may fail at any point
  and a commit may be lost or be durable without being confirmed.
\<close>

section \<open>Texts\<close>

definition validID :: "string \<Rightarrow> string \<Rightarrow> bool" where
  "validID s prefix \<longleftrightarrow>
     \<not> (length s \<noteq> length prefix + 32 \<or> take (length prefix) s \<noteq> prefix) \<and> list_all lower_hex (drop (length prefix) s)"

record journal_binding =
  jb_ServerID :: string
  jb_InstallationID :: string
  jb_OwnerID :: string

definition validJournalBinding :: "journal_binding \<Rightarrow> bool" where
  "validJournalBinding b \<longleftrightarrow>
     validID (jb_ServerID b) ''srv_'' \<and> validID (jb_InstallationID b) ''agent_'' \<and> validID (jb_OwnerID b) ''usr_''"

definition stamp :: "gotime \<Rightarrow> string" where
  "stamp t = rfc3339nano t"

definition parseTime :: "string \<Rightarrow> gotime option" where
  "parseTime s =
     (case rfc3339nano_parse s of
        None \<Rightarrow> None
      | Some t \<Rightarrow> if 30 < length s \<or> stamp t \<noteq> s then None else Some t)"

fun code_text :: "code \<Rightarrow> string" where
  "code_text NoCode = ''''"
| "code_text Started = ''STARTED''"
| "code_text Stopped = ''STOPPED''"
| "code_text Restarted = ''RESTARTED''"
| "code_text AlreadyRunning = ''ALREADY_RUNNING''"
| "code_text AlreadyStopped = ''ALREADY_STOPPED''"
| "code_text Denied = ''DENIED''"
| "code_text StateConflict = ''TARGET_STATE_CONFLICT''"
| "code_text Unavailable = ''UNAVAILABLE''"
| "code_text BudgetExceeded = ''BUDGET_EXCEEDED''"
| "code_text OutcomeUnknown = ''OUTCOME_UNKNOWN''"
| "code_text IdentityConflict = ''IDEMPOTENCY_CONFLICT''"
| "code_text (OtherCode s) = s"

definition known_codes :: "code list" where
  "known_codes = [NoCode, Started, Stopped, Restarted, AlreadyRunning, AlreadyStopped, Denied, StateConflict,
     Unavailable, BudgetExceeded, OutcomeUnknown, IdentityConflict]"

definition text_code :: "string \<Rightarrow> code" where
  "text_code s = (case find (\<lambda>c. code_text c = s) known_codes of None \<Rightarrow> OtherCode s | Some c \<Rightarrow> c)"

definition expired_reason :: string where "expired_reason = ''EXPIRED_UNDISPATCHED''"

definition terminalAllowed :: "operation \<Rightarrow> bool \<Rightarrow> code \<Rightarrow> string \<Rightarrow> bool" where
  "terminalAllowed op intent c reason =
     (if \<not> intent \<and> c = Denied then reason = expired_reason
      else if reason \<noteq> '''' then False
      else if intent then op = Start \<and> c = Started \<or> op = Stop \<and> c = Stopped \<or> op = Restart \<and> c = Restarted
      else c = StateConflict \<or> op = Start \<and> c = AlreadyRunning \<or> op = Stop \<and> c = AlreadyStopped)"

section \<open>Tables\<close>

record action_row =
  aw_id :: string
  aw_target :: string
  aw_generation :: string
  aw_container :: string
  aw_metadata :: string
  aw_digest :: bytes
  aw_admitted :: string

record event_row =
  ew_id :: string
  ew_ordinal :: int
  ew_at :: string
  ew_code :: string
  ew_reason :: string

record meta_row =
  mw_singleton :: int
  mw_server :: string
  mw_installation :: string
  mw_owner :: string
  mw_floor :: string

datatype journal_def = MetaSchema | ActionSchema | EventSchema | TargetIndex | PhysicalIndex | OtherDef string

record journal_db =
  jd_app :: int
  jd_version :: int
  jd_defs :: "(string \<times> journal_def) list"
  jd_meta :: "meta_row list"
  jd_actions :: "action_row list"
  jd_events :: "event_row list"

definition time_length :: "string \<Rightarrow> bool" where
  "time_length s \<longleftrightarrow> 20 \<le> length s \<and> length s \<le> 30"

definition action_check :: "action_row \<Rightarrow> bool" where
  "action_check w \<longleftrightarrow>
     length (aw_id w) = 36 \<and> length (aw_target w) = 36 \<and> length (aw_generation w) = 32 \<and>
     length (aw_container w) = 64 \<and> 1 \<le> length (aw_metadata w) \<and> length (aw_metadata w) \<le> 2048 \<and>
     length (aw_digest w) = 32 \<and> time_length (aw_admitted w)"

definition event_check :: "event_row \<Rightarrow> bool" where
  "event_check e \<longleftrightarrow>
     (ew_ordinal e = 1 \<or> ew_ordinal e = 2) \<and> time_length (ew_at e) \<and>
     ew_code e \<in> set [''INTENT'', ''STARTED'', ''STOPPED'', ''RESTARTED'', ''ALREADY_RUNNING'', ''ALREADY_STOPPED'',
                      ''TARGET_STATE_CONFLICT'', ''DENIED''] \<and>
     ew_reason e \<in> set ['''', expired_reason] \<and>
     (ew_ordinal e = 1 \<and> ew_code e = ''INTENT'' \<and> ew_reason e = '''' \<or> ew_ordinal e = 2 \<and> ew_code e \<noteq> ''INTENT'') \<and>
     (ew_code e = ''DENIED'' \<and> ew_reason e = expired_reason \<or> ew_code e \<noteq> ''DENIED'' \<and> ew_reason e = '''')"

definition meta_check :: "meta_row \<Rightarrow> bool" where
  "meta_check m \<longleftrightarrow>
     mw_singleton m = 1 \<and> length (mw_server m) = 36 \<and> length (mw_installation m) = 38 \<and> length (mw_owner m) = 36 \<and>
     time_length (mw_floor m)"

definition sql_insert_action :: "action_row \<Rightarrow> journal_db \<Rightarrow> journal_db option" where
  "sql_insert_action w db =
     (if action_check w \<and> aw_id w \<notin> aw_id ` set (jd_actions db)
      then Some (db\<lparr>jd_actions := jd_actions db @ [w]\<rparr>) else None)"

definition event_key :: "event_row \<Rightarrow> string \<times> int" where
  "event_key e = (ew_id e, ew_ordinal e)"

definition sql_insert_event :: "event_row \<Rightarrow> journal_db \<Rightarrow> journal_db option" where
  "sql_insert_event e db =
     (if event_check e \<and> event_key e \<notin> event_key ` set (jd_events db) \<and> ew_id e \<in> aw_id ` set (jd_actions db)
      then Some (db\<lparr>jd_events := jd_events db @ [e]\<rparr>) else None)"

definition sql_delete_events :: "string \<Rightarrow> journal_db \<Rightarrow> journal_db" where
  "sql_delete_events aid db = db\<lparr>jd_events := filter (\<lambda>e. ew_id e \<noteq> aid) (jd_events db)\<rparr>"

definition sql_delete_action :: "string \<Rightarrow> journal_db \<Rightarrow> journal_db option" where
  "sql_delete_action aid db =
     (if aid \<in> ew_id ` set (jd_events db) then None
      else Some (db\<lparr>jd_actions := filter (\<lambda>w. aw_id w \<noteq> aid) (jd_actions db)\<rparr>))"

definition sql_insert_meta :: "meta_row \<Rightarrow> journal_db \<Rightarrow> journal_db option" where
  "sql_insert_meta m db =
     (if meta_check m \<and> mw_singleton m \<notin> mw_singleton ` set (jd_meta db)
      then Some (db\<lparr>jd_meta := jd_meta db @ [m]\<rparr>) else None)"

definition sql_set_floor :: "string \<Rightarrow> journal_db \<Rightarrow> journal_db option" where
  "sql_set_floor s db =
     (let ms = map (\<lambda>m. if mw_singleton m = 1 then m\<lparr>mw_floor := s\<rparr> else m) (jd_meta db)
      in if list_all meta_check ms then Some (db\<lparr>jd_meta := ms\<rparr>) else None)"

text \<open>\<^verbatim>\<open>SELECT count(*) FROM events i WHERE i.ordinal=1 AND NOT EXISTS (... t.ordinal=2)\<close>.\<close>

definition unknown_count :: "journal_db \<Rightarrow> nat" where
  "unknown_count db =
     length (filter (\<lambda>i. ew_ordinal i = 1 \<and> (ew_id i, 2) \<notin> event_key ` set (jd_events db)) (jd_events db))"

section \<open>Loading and validating\<close>

record jrecord =
  jr_key :: action_key
  jr_raw :: string
  jr_admitted :: gotime
  jr_intent :: gotime
  jr_terminal :: gotime
  jr_code :: code
  jr_reason :: string

abbreviation jr_id :: "jrecord \<Rightarrow> string" where
  "jr_id r \<equiv> ak_ActionID (jr_key r)"

abbreviation key_request :: "action_key \<Rightarrow> action_request" where
  "key_request k \<equiv> jm_Request (ak_Metadata k)"

abbreviation jr_request :: "jrecord \<Rightarrow> action_request" where
  "jr_request r \<equiv> key_request (jr_key r)"

datatype recordScope = AllRecords | OneRecord string | RelatedRecords string string string

fun in_scope :: "recordScope \<Rightarrow> action_row \<Rightarrow> bool" where
  "in_scope AllRecords w \<longleftrightarrow> True"
| "in_scope (OneRecord aid) w \<longleftrightarrow> aw_id w = aid"
| "in_scope (RelatedRecords target generation container) w \<longleftrightarrow>
     aw_target w = target \<or> aw_generation w = generation \<and> aw_container w = container"

fun event_in_scope :: "journal_db \<Rightarrow> recordScope \<Rightarrow> event_row \<Rightarrow> bool" where
  "event_in_scope db AllRecords e \<longleftrightarrow> True"
| "event_in_scope db (OneRecord aid) e \<longleftrightarrow> ew_id e = aid"
| "event_in_scope db (RelatedRecords target generation container) e \<longleftrightarrow>
     (\<exists>w \<in> set (jd_actions db). aw_id w = ew_id e \<and> in_scope (RelatedRecords target generation container) w)"

text \<open>The columns of \<^verbatim>\<open>SELECT\<close>: a value outside its bounds becomes NULL and fails to scan.\<close>

definition bounded_action :: "action_row \<Rightarrow> bool" where
  "bounded_action w \<longleftrightarrow>
     length (aw_id w) = 36 \<and> length (aw_target w) = 36 \<and> length (aw_generation w) = 32 \<and>
     length (aw_container w) = 64 \<and> 1 \<le> length (aw_metadata w) \<and> length (aw_metadata w) \<le> 2048 \<and>
     length (aw_digest w) = 32 \<and> time_length (aw_admitted w)"

definition bounded_event :: "event_row \<Rightarrow> bool" where
  "bounded_event e \<longleftrightarrow>
     length (ew_id e) = 36 \<and> time_length (ew_at e) \<and> 1 \<le> length (ew_code e) \<and> length (ew_code e) \<le> 21 \<and>
     length (ew_reason e) \<le> 20"

definition validateAction :: "journal_binding \<Rightarrow> action_row \<Rightarrow> jrecord option" where
  "validateAction b w =
     (case ParseJournalMetadata (aw_metadata w) of
        None \<Rightarrow> None
      | Some k \<Rightarrow>
          if ak_ActionID k \<noteq> aw_id w \<or> ak_TargetID k \<noteq> aw_target w
             \<or> jm_EngineGeneration (ak_Metadata k) \<noteq> aw_generation w
             \<or> jm_ContainerID (ak_Metadata k) \<noteq> aw_container w \<or> aw_digest w \<noteq> ak_Fingerprint k then None
          else if ar_ServerID (key_request k) \<noteq> jb_ServerID b \<or> ar_InstallationID (key_request k) \<noteq> jb_InstallationID b
             \<or> ar_OwnerID (key_request k) \<noteq> jb_OwnerID b then None
          else case parseTime (aw_admitted w) of
              None \<Rightarrow> None
            | Some admitted \<Rightarrow>
                if admitted < ar_CreatedAt (key_request k) \<or> \<not> admitted < ar_ExpiresAt (key_request k) then None
                else Some \<lparr>jr_key = k, jr_raw = aw_metadata w, jr_admitted = admitted, jr_intent = 0,
                           jr_terminal = 0, jr_code = NoCode, jr_reason = ''''\<rparr>)"

definition validateEvent :: "jrecord \<Rightarrow> event_row \<Rightarrow> jrecord option" where
  "validateEvent r e =
     (case parseTime (ew_at e) of
        None \<Rightarrow> None
      | Some at \<Rightarrow>
          if at < jr_admitted r then None
          else if ew_ordinal e = 1 then
            if ew_code e \<noteq> ''INTENT'' \<or> ew_reason e \<noteq> '''' \<or> \<not> IsZero (jr_intent r) \<or> \<not> IsZero (jr_terminal r)
               \<or> \<not> at < ar_ExpiresAt (jr_request r) then None
            else Some (r\<lparr>jr_intent := at\<rparr>)
          else if ew_ordinal e = 2 then
            if \<not> IsZero (jr_terminal r) \<or> (\<not> IsZero (jr_intent r) \<and> at < jr_intent r)
               \<or> \<not> terminalAllowed (ar_Operation (jr_request r)) (\<not> IsZero (jr_intent r)) (text_code (ew_code e)) (ew_reason e)
            then None
            else if ew_code e = code_text Denied \<and> at < ar_ExpiresAt (jr_request r) then None
            else Some (r\<lparr>jr_terminal := at, jr_code := text_code (ew_code e), jr_reason := ew_reason e\<rparr>)
          else None)"

fun loadActions :: "journal_binding \<Rightarrow> action_row list \<Rightarrow> jrecord list \<Rightarrow> jrecord list option" where
  "loadActions b [] rs = Some rs"
| "loadActions b (w # ws) rs =
     (if maxRecords \<le> length rs \<or> \<not> bounded_action w then None
      else case validateAction b w of
          None \<Rightarrow> None
        | Some r \<Rightarrow> if aw_id w \<in> jr_id ` set rs then None else loadActions b ws (rs @ [r]))"

fun loadEvents :: "nat \<Rightarrow> event_row list \<Rightarrow> jrecord list \<Rightarrow> jrecord list option" where
  "loadEvents n [] rs = Some rs"
| "loadEvents n (e # es) rs =
     (if 2 * maxRecords \<le> n \<or> \<not> bounded_event e then None
      else case find (\<lambda>r. jr_id r = ew_id e) rs of
          None \<Rightarrow> None
        | Some r \<Rightarrow>
            (case validateEvent r e of
               None \<Rightarrow> None
             | Some r' \<Rightarrow> loadEvents (Suc n) es (map (\<lambda>x. if jr_id x = ew_id e then r' else x) rs)))"

text \<open>\<open>fault n\<close>: the \<open>n\<close>-th statement of the operation fails.\<close>

definition load ::
  "journal_binding \<Rightarrow> (nat \<Rightarrow> bool) \<Rightarrow> journal_db \<Rightarrow> recordScope \<Rightarrow> jrecord list option" where
  "load b fault db scope =
     (if fault 0 then None
      else case loadActions b (sort_key aw_id (filter (in_scope scope) (jd_actions db))) [] of
          None \<Rightarrow> None
        | Some rs \<Rightarrow>
            if fault 1 then None
            else loadEvents 0 (sort_key event_key (filter (event_in_scope db scope) (jd_events db))) rs)"

definition all_records :: "journal_binding \<Rightarrow> (nat \<Rightarrow> bool) \<Rightarrow> journal_db \<Rightarrow> jrecord list option" where
  "all_records b fault db = load b fault db AllRecords"

definition related :: "journal_binding \<Rightarrow> (nat \<Rightarrow> bool) \<Rightarrow> journal_db \<Rightarrow> action_key \<Rightarrow> jrecord list option" where
  "related b fault db k =
     load b fault db (RelatedRecords (ak_TargetID k) (jm_EngineGeneration (ak_Metadata k)) (jm_ContainerID (ak_Metadata k)))"

text \<open>\<open>Some None\<close> is \<^verbatim>\<open>sql.ErrNoRows\<close>.\<close>

definition read_record :: "journal_binding \<Rightarrow> (nat \<Rightarrow> bool) \<Rightarrow> journal_db \<Rightarrow> string \<Rightarrow> jrecord option option" where
  "read_record b fault db aid =
     (case load b fault db (OneRecord aid) of
        None \<Rightarrow> None
      | Some [] \<Rightarrow> Some None
      | Some [r] \<Rightarrow> Some (Some r)
      | Some _ \<Rightarrow> None)"

definition floor_time :: "journal_binding \<Rightarrow> (nat \<Rightarrow> bool) \<Rightarrow> journal_db \<Rightarrow> gotime option" where
  "floor_time b fault db =
     (if fault 0 \<or> length (jd_meta db) \<noteq> 1 then None
      else case find (\<lambda>m. mw_singleton m = 1) (jd_meta db) of
          None \<Rightarrow> None
        | Some m \<Rightarrow>
            if fault 1 \<or> mw_server m \<noteq> jb_ServerID b \<or> mw_installation m \<noteq> jb_InstallationID b \<or> mw_owner m \<noteq> jb_OwnerID b
            then None else parseTime (mw_floor m))"

section \<open>The journal and its transactions\<close>

record execution_commit =
  ec_action :: string
  ec_digest :: bytes

record attempt =
  at_record :: jrecord
  at_closed :: bool
  at_mutable :: bool
  at_execution :: "execution_commit option"

record journal =
  j_binding :: journal_binding
  j_conn :: bool
  j_failed :: bool
  j_active :: "(string \<times> nat) list"
  j_attempts :: "attempt list"
  j_db :: journal_db

text \<open>
  The answers of the outside during one call: whether the mutex is taken, the clock, which statement
  fails, what the commit does, and the answers of the execution guard (\<^verbatim>\<open>actionbudget.CheckExecution\<close>)
  each time it is asked.
\<close>

record journal_io =
  ji_busy :: bool
  ji_now :: gotime
  ji_fault :: "nat \<Rightarrow> bool"
  ji_begin_fails :: bool
  ji_commit :: commit_result
  ji_rollback_fails :: bool
  ji_check :: "nat \<Rightarrow> execution_commit \<Rightarrow> bool"

definition guard_ok :: "journal_io \<Rightarrow> nat \<Rightarrow> execution_commit option \<Rightarrow> bool" where
  "guard_ok io n g = (case g of None \<Rightarrow> True | Some ec \<Rightarrow> ji_check io n ec)"

definition usable :: "journal \<Rightarrow> bool" where
  "usable j \<longleftrightarrow> \<not> j_failed j \<and> j_conn j"

text \<open>The end of a transaction that does not commit.\<close>

definition rolled_back :: "journal_io \<Rightarrow> journal_err \<Rightarrow> journal \<Rightarrow> (journal_err + 'a) \<times> journal" where
  "rolled_back io e j =
     (if e \<notin> {JErrBusy, JErrFull, JErrIdentityConflict, JErrUnresolvedTarget} \<or> ji_rollback_fails io
      then (Inl JErrRecovery, j\<lparr>j_failed := True\<rparr>) else (Inl e, j))"

definition transactionGuarded ::
  "journal_io \<Rightarrow> execution_commit option \<Rightarrow> (journal_db \<Rightarrow> journal_err + (journal_db \<times> 'a)) \<Rightarrow> journal
    \<Rightarrow> (journal_err + 'a) \<times> journal" where
  "transactionGuarded io g body j =
     (if \<not> guard_ok io 1 g then (Inl JErrRecovery, j)
      else if ji_begin_fails io then (Inl JErrRecovery, j\<lparr>j_failed := True\<rparr>)
      else case body (j_db j) of
          Inl e \<Rightarrow> rolled_back io e j
        | Inr (db', x) \<Rightarrow>
            if \<not> guard_ok io 2 g then rolled_back io JErrRecovery j
            else (case ji_commit io of
                Committed \<Rightarrow>
                  if guard_ok io 3 g then (Inr x, j\<lparr>j_db := db'\<rparr>)
                  else (Inl JErrRecovery, j\<lparr>j_db := db', j_failed := True\<rparr>)
              | CommitLost \<Rightarrow> (Inl JErrRecovery, j\<lparr>j_failed := True\<rparr>)
              | CommitAmbiguous \<Rightarrow> (Inl JErrRecovery, j\<lparr>j_db := db', j_failed := True\<rparr>)))"

definition journal_transaction ::
  "journal_io \<Rightarrow> (journal_db \<Rightarrow> journal_err + (journal_db \<times> 'a)) \<Rightarrow> journal \<Rightarrow> (journal_err + 'a) \<times> journal" where
  "journal_transaction io body j = transactionGuarded io None body j"

section \<open>Acquiring an attempt\<close>

definition same_physical :: "action_key \<Rightarrow> action_key \<Rightarrow> bool" where
  "same_physical k l \<longleftrightarrow>
     jm_EngineGeneration (ak_Metadata k) = jm_EngineGeneration (ak_Metadata l) \<and>
     jm_ContainerID (ak_Metadata k) = jm_ContainerID (ak_Metadata l)"

fun related_block :: "gotime \<Rightarrow> jrecord list \<Rightarrow> journal_err option" where
  "related_block now [] = None"
| "related_block now (other # rs) =
     (if \<not> IsZero (jr_intent other) \<and> IsZero (jr_terminal other) then Some JErrUnresolvedTarget
      else if (jr_code other = Started \<or> jr_code other = Stopped \<or> jr_code other = Restarted)
              \<and> now < jr_terminal other + seconds 30 then Some JErrBusy
      else related_block now rs)"

text \<open>The records of the active attempts.\<close>

definition active_records :: "journal \<Rightarrow> jrecord list" where
  "active_records j = map (\<lambda>(aid, h). at_record (j_attempts j ! h)) (j_active j)"

definition permits :: "journal \<Rightarrow> nat" where
  "permits j = length (filter (\<lambda>r. IsZero (jr_terminal r) \<and> IsZero (jr_intent r)) (active_records j))"

definition action_row_for :: "action_key \<Rightarrow> string \<Rightarrow> gotime \<Rightarrow> action_row" where
  "action_row_for k raw now =
     \<lparr>aw_id = ak_ActionID k, aw_target = ak_TargetID k, aw_generation = jm_EngineGeneration (ak_Metadata k),
      aw_container = jm_ContainerID (ak_Metadata k), aw_metadata = raw, aw_digest = ak_Fingerprint k,
      aw_admitted = stamp now\<rparr>"

definition fresh_record :: "action_key \<Rightarrow> string \<Rightarrow> gotime \<Rightarrow> jrecord" where
  "fresh_record k raw now =
     \<lparr>jr_key = k, jr_raw = raw, jr_admitted = now, jr_intent = 0, jr_terminal = 0, jr_code = NoCode, jr_reason = ''''\<rparr>"

definition new_attempt :: "jrecord \<Rightarrow> bool \<Rightarrow> execution_commit option \<Rightarrow> attempt" where
  "new_attempt r mutable g = \<lparr>at_record = r, at_closed = False, at_mutable = mutable, at_execution = g\<rparr>"

text \<open>From the pruning floor to the inserted row.\<close>

definition acquire_admit ::
  "journal_io \<Rightarrow> journal \<Rightarrow> execution_commit option \<Rightarrow> action_key \<Rightarrow> string \<Rightarrow> gotime \<Rightarrow> jrecord option \<Rightarrow> journal_db
    \<Rightarrow> journal_err + (journal_db \<times> attempt)" where
  "acquire_admit io j g k raw now existing db =
     (case floor_time (j_binding j) (\<lambda>i. ji_fault io (i + 3)) db of
        None \<Rightarrow> Inl JErrRecovery
      | Some fl \<Rightarrow>
     (if existing = None \<and> \<not> fl < ar_ExpiresAt (key_request k) then Inl JErrIdentityConflict
      else case related (j_binding j) (\<lambda>i. ji_fault io (i + 5)) db k of
        None \<Rightarrow> Inl JErrRecovery
      | Some rs \<Rightarrow>
     (case related_block now rs of
        Some e \<Rightarrow> Inl e
      | None \<Rightarrow>
      if \<exists>r \<in> set (active_records j). ak_TargetID (jr_key r) = ak_TargetID k \<or> same_physical (jr_key r) k
      then Inl JErrBusy
      else if ji_fault io 7 \<or> 2 < unknown_count db then Inl JErrRecovery
      else if 2 \<le> permits j + unknown_count db then Inl JErrBusy
      else (case existing of
          Some r \<Rightarrow> Inr (db, new_attempt r True g)
        | None \<Rightarrow>
            if ji_fault io 8 \<or> maxRecords < length (jd_actions db) then Inl JErrRecovery
            else if length (jd_actions db) = maxRecords then Inl JErrFull
            else if ji_fault io 9 then Inl JErrRecovery
            else (case sql_insert_action (action_row_for k raw now) db of
                None \<Rightarrow> Inl JErrRecovery
              | Some db' \<Rightarrow> Inr (db', new_attempt (fresh_record k raw now) True g))))))"

definition denied_event :: "string \<Rightarrow> gotime \<Rightarrow> event_row" where
  "denied_event aid now =
     \<lparr>ew_id = aid, ew_ordinal = 2, ew_at = stamp now, ew_code = ''DENIED'', ew_reason = expired_reason\<rparr>"

definition acquire_body ::
  "journal_io \<Rightarrow> journal \<Rightarrow> execution_commit option \<Rightarrow> action_key \<Rightarrow> string \<Rightarrow> journal_db
    \<Rightarrow> journal_err + (journal_db \<times> attempt)" where
  "acquire_body io j g k raw db =
     (case read_record (j_binding j) (ji_fault io) db (ak_ActionID k) of
        None \<Rightarrow> Inl JErrRecovery
      | Some existing \<Rightarrow>
          if (case existing of Some r \<Rightarrow> jr_raw r \<noteq> raw | None \<Rightarrow> False) then Inl JErrIdentityConflict
          else if (case existing of Some r \<Rightarrow> \<not> IsZero (jr_terminal r) \<or> \<not> IsZero (jr_intent r) | None \<Rightarrow> False)
          then Inr (db, new_attempt (the existing) False g)
          else if map_of (j_active j) (ak_ActionID k) \<noteq> None then Inl JErrBusy
          else
            let now = ji_now io
            in if now < ar_CreatedAt (key_request k) then Inl JErrIdentityConflict
               else if \<not> now < ar_ExpiresAt (key_request k) then
                 (case existing of
                    None \<Rightarrow> Inl JErrIdentityConflict
                  | Some r \<Rightarrow>
                      if ji_fault io 2 then Inl JErrRecovery
                      else (case sql_insert_event (denied_event (ak_ActionID k) now) db of
                          None \<Rightarrow> Inl JErrRecovery
                        | Some db' \<Rightarrow>
                            Inr (db', new_attempt (r\<lparr>jr_terminal := now, jr_code := Denied, jr_reason := expired_reason\<rparr>) False g)))
               else acquire_admit io j g k raw now existing db)"

text \<open>The result is the position of the new attempt.\<close>

definition acquire ::
  "journal_io \<Rightarrow> action_key \<Rightarrow> execution_commit option \<Rightarrow> journal \<Rightarrow> (journal_err + nat) \<times> journal" where
  "acquire io k g j =
     (if \<not> guard_ok io 0 g then (Inl JErrRecovery, j)
      else case CanonicalJournalMetadata k of
          None \<Rightarrow> (Inl JErrIdentityConflict, j)
        | Some raw \<Rightarrow>
            let req = key_request k
            in if ar_ServerID req \<noteq> jb_ServerID (j_binding j) \<or> ar_InstallationID req \<noteq> jb_InstallationID (j_binding j)
                  \<or> ar_OwnerID req \<noteq> jb_OwnerID (j_binding j) then (Inl JErrIdentityConflict, j)
               else if ji_busy io then (Inl JErrBusy, j)
               else if \<not> usable j then (Inl JErrRecovery, j)
               else (case transactionGuarded io g (acquire_body io j g k raw) j of
                   (Inl e, j') \<Rightarrow> (Inl e, j')
                 | (Inr a, j') \<Rightarrow>
                     let h = length (j_attempts j')
                     in (Inr h, j'\<lparr>j_attempts := j_attempts j' @ [a],
                                   j_active := (if at_mutable a then (ak_ActionID k, h) # j_active j' else j_active j')\<rparr>)))"

definition Acquire :: "journal_io \<Rightarrow> action_key \<Rightarrow> journal \<Rightarrow> (journal_err + nat) \<times> journal" where
  "Acquire io k j = acquire io k None j"

text \<open>An execution bound to one live receipt (\<^verbatim>\<open>execution_linux.go\<close>).\<close>

record bound_execution =
  be_key :: action_key
  be_guard :: execution_commit

definition BindExecution :: "action_key \<Rightarrow> bytes \<Rightarrow> journal \<Rightarrow> bound_execution option" where
  "BindExecution k digest j =
     (let r = key_request k
      in if ar_OwnerID r \<noteq> ar_ActorID r \<or> MaxInt64 < ar_PolicyRevision r \<or> MaxInt64 < ar_CapabilityRevision r
            \<or> Sub (ar_ExpiresAt r) (ar_CreatedAt r) \<noteq> seconds 300
            \<or> ar_CreatedAt r mod nano_per_second mod 1000 \<noteq> 0 \<or> ar_ExpiresAt r mod nano_per_second mod 1000 \<noteq> 0
            \<or> \<lparr>jb_ServerID = ar_ServerID r, jb_InstallationID = ar_InstallationID r, jb_OwnerID = ar_OwnerID r\<rparr> \<noteq> j_binding j
         then None
         else if CanonicalJournalMetadata k = None then None
         else Some \<lparr>be_key = k, be_guard = \<lparr>ec_action = ak_ActionID k, ec_digest = digest\<rparr>\<rparr>)"

definition bound_Acquire :: "journal_io \<Rightarrow> bound_execution \<Rightarrow> action_key \<Rightarrow> journal \<Rightarrow> (journal_err + nat) \<times> journal" where
  "bound_Acquire io be k j =
     (if CanonicalJournalMetadata (be_key be) = None \<or> CanonicalJournalMetadata k = None
         \<or> CanonicalJournalMetadata (be_key be) \<noteq> CanonicalJournalMetadata k then (Inl JErrIdentityConflict, j)
      else acquire io k (Some (be_guard be)) j)"

section \<open>Attempts\<close>

text \<open>An attempt that was never handed out behaves like one of a journal that is no longer usable.\<close>

definition attempt_at :: "journal \<Rightarrow> nat \<Rightarrow> attempt option" where
  "attempt_at j h = (if h < length (j_attempts j) then Some (j_attempts j ! h) else None)"

definition Existing :: "nat \<Rightarrow> journal \<Rightarrow> code" where
  "Existing h j =
     (case attempt_at j h of
        None \<Rightarrow> Unavailable
      | Some a \<Rightarrow>
          if at_closed a \<or> \<not> usable j then Unavailable
          else if \<not> IsZero (jr_terminal (at_record a)) then jr_code (at_record a)
          else if \<not> IsZero (jr_intent (at_record a)) then OutcomeUnknown
          else NoCode)"

definition transition_body ::
  "journal_io \<Rightarrow> journal \<Rightarrow> attempt \<Rightarrow> code \<Rightarrow> bool \<Rightarrow> gotime \<Rightarrow> journal_db \<Rightarrow> journal_err + (journal_db \<times> unit)" where
  "transition_body io j a c intent now db =
     (case read_record (j_binding j) (ji_fault io) db (jr_id (at_record a)) of
        Some (Some actual) \<Rightarrow>
          if jr_raw actual \<noteq> jr_raw (at_record a) \<or> stamp (jr_admitted actual) \<noteq> stamp (jr_admitted (at_record a))
             \<or> stamp (jr_intent actual) \<noteq> stamp (jr_intent (at_record a)) \<or> \<not> IsZero (jr_terminal actual)
             \<or> now < jr_admitted actual \<or> (\<not> IsZero (jr_intent actual) \<and> now < jr_intent actual) then Inl JErrRecovery
          else if intent \<and> \<not> now < ar_ExpiresAt (jr_request (at_record a)) then Inl JErrRecovery
          else if ji_fault io 2 then Inl JErrRecovery
          else (case sql_insert_event
                  \<lparr>ew_id = jr_id (at_record a), ew_ordinal = (if intent then 1 else 2), ew_at = stamp now,
                   ew_code = (if intent then ''INTENT'' else code_text c), ew_reason = ''''\<rparr> db of
              None \<Rightarrow> Inl JErrRecovery
            | Some db' \<Rightarrow> Inr (db', ()))
      | _ \<Rightarrow> Inl JErrRecovery)"

definition transition :: "journal_io \<Rightarrow> nat \<Rightarrow> code \<Rightarrow> bool \<Rightarrow> journal \<Rightarrow> journal_err option \<times> journal" where
  "transition io h c intent j =
     (case attempt_at j h of
        None \<Rightarrow> (Some JErrRecovery, j)
      | Some a \<Rightarrow>
          if \<not> guard_ok io 0 (at_execution a) then (Some JErrRecovery, j)
          else if ji_busy io then (Some JErrBusy, j)
          else if \<not> usable j \<or> \<not> at_mutable a \<or> at_closed a \<or> map_of (j_active j) (jr_id (at_record a)) \<noteq> Some h
                  \<or> \<not> IsZero (jr_terminal (at_record a)) \<or> (intent \<and> \<not> IsZero (jr_intent (at_record a)))
                  \<or> (\<not> intent \<and> \<not> terminalAllowed (ar_Operation (jr_request (at_record a)))
                                       (\<not> IsZero (jr_intent (at_record a))) c '''') then (Some JErrRecovery, j)
          else (case transactionGuarded io (at_execution a) (transition_body io j a c intent (ji_now io)) j of
              (Inl e, j') \<Rightarrow> (Some e, j')
            | (Inr _, j') \<Rightarrow>
                let r = at_record a;
                    r' = (if intent then r\<lparr>jr_intent := ji_now io\<rparr>
                          else r\<lparr>jr_terminal := ji_now io, jr_code := c\<rparr>)
                in (None, j'\<lparr>j_attempts := (j_attempts j')[h := a\<lparr>at_record := r'\<rparr>]\<rparr>)))"

definition Intent :: "journal_io \<Rightarrow> nat \<Rightarrow> journal \<Rightarrow> journal_err option \<times> journal" where
  "Intent io h j = transition io h NoCode True j"

definition Finish :: "journal_io \<Rightarrow> nat \<Rightarrow> code \<Rightarrow> journal \<Rightarrow> journal_err option \<times> journal" where
  "Finish io h c j = transition io h c False j"

definition attempt_Close :: "nat \<Rightarrow> journal \<Rightarrow> journal" where
  "attempt_Close h j =
     (case attempt_at j h of
        None \<Rightarrow> j
      | Some a \<Rightarrow>
          if at_closed a then j
          else j\<lparr>j_attempts := (j_attempts j)[h := a\<lparr>at_closed := True\<rparr>],
                 j_active := (if map_of (j_active j) (jr_id (at_record a)) = Some h
                              then filter (\<lambda>(aid, _). aid \<noteq> jr_id (at_record a)) (j_active j) else j_active j)\<rparr>)"

section \<open>Pruning\<close>

definition prune_cutoff :: "gotime \<Rightarrow> gotime" where
  "prune_cutoff now = now - 30 * 24 * 60 * minutes 1"

text \<open>The loop over the records; \<open>changed\<close> counts the changes, at most 50 in one call.\<close>

fun prune_records ::
  "journal_io \<Rightarrow> journal \<Rightarrow> gotime \<Rightarrow> nat \<Rightarrow> jrecord list \<Rightarrow> journal_db \<Rightarrow> journal_db option" where
  "prune_records io j now changed [] db = Some db"
| "prune_records io j now changed (r # rs) db =
     (if changed = 50 then Some db
      else if map_of (j_active j) (jr_id r) \<noteq> None then prune_records io j now changed rs db
      else if IsZero (jr_intent r) \<and> IsZero (jr_terminal r) \<and> \<not> now < ar_ExpiresAt (jr_request r) then
        (if ji_fault io (2 * changed + 4) then None
         else case sql_insert_event (denied_event (jr_id r) now) db of
             None \<Rightarrow> None
           | Some db' \<Rightarrow> prune_records io j now (Suc changed) rs db')
      else if \<not> IsZero (jr_terminal r) \<and> \<not> prune_cutoff now < jr_terminal r
              \<and> \<not> prune_cutoff now < ar_ExpiresAt (jr_request r) then
        (if ji_fault io (2 * changed + 4) \<or> ji_fault io (2 * changed + 5) then None
         else case sql_delete_action (jr_id r) (sql_delete_events (jr_id r) db) of
             None \<Rightarrow> None
           | Some db' \<Rightarrow> prune_records io j now (Suc changed) rs db')
      else prune_records io j now changed rs db)"

definition prune_body :: "journal_io \<Rightarrow> journal \<Rightarrow> journal_db \<Rightarrow> journal_err + (journal_db \<times> unit)" where
  "prune_body io j db =
     (case floor_time (j_binding j) (ji_fault io) db of
        None \<Rightarrow> Inl JErrRecovery
      | Some fl \<Rightarrow>
          let cutoff = prune_cutoff (ji_now io); persistedFloor = (if cutoff < fl then fl else cutoff)
          in case all_records (j_binding j) (\<lambda>i. ji_fault io (i + 2)) db of
              None \<Rightarrow> Inl JErrRecovery
            | Some rs \<Rightarrow>
                (case prune_records io j (ji_now io) 0 rs db of
                   None \<Rightarrow> Inl JErrRecovery
                 | Some db' \<Rightarrow>
                     if ji_fault io 104 then Inl JErrRecovery
                     else (case sql_set_floor (stamp persistedFloor) db' of
                         None \<Rightarrow> Inl JErrRecovery
                       | Some db'' \<Rightarrow> Inr (db'', ()))))"

definition Prune :: "journal_io \<Rightarrow> journal \<Rightarrow> journal_err option \<times> journal" where
  "Prune io j =
     (if ji_busy io then (Some JErrBusy, j)
      else if \<not> usable j then (Some JErrRecovery, j)
      else case journal_transaction io (prune_body io j) j of
          (Inl e, j') \<Rightarrow> (Some e, j')
        | (Inr _, j') \<Rightarrow> (None, j'))"

section \<open>Snapshots\<close>

record admission_record =
  am_Key :: action_key
  am_HasIntent :: bool
  am_Code :: code
  am_TerminalAt :: gotime
  am_Active :: bool

record admission_snapshot =
  as_Binding :: journal_binding
  as_ObservedAt :: gotime
  as_Records :: "admission_record list"

definition admission_record_of :: "journal \<Rightarrow> jrecord \<Rightarrow> admission_record" where
  "admission_record_of j r =
     \<lparr>am_Key = jr_key r, am_HasIntent = (\<not> IsZero (jr_intent r)),
      am_Code = (if \<not> IsZero (jr_intent r) \<and> IsZero (jr_terminal r) then OutcomeUnknown else jr_code r),
      am_TerminalAt = jr_terminal r, am_Active = (map_of (j_active j) (jr_id r) \<noteq> None)\<rparr>"

text \<open>\<open>ctx_err n\<close> is the answer of the context the \<open>n\<close>-th time it is asked.\<close>

definition AdmissionSnapshot ::
  "journal_io \<Rightarrow> (nat \<Rightarrow> bool) \<Rightarrow> journal \<Rightarrow> journal_err + admission_snapshot" where
  "AdmissionSnapshot io ctx_err j =
     (if ctx_err 0 then Inl JErrRecovery
      else if ji_busy io then Inl JErrBusy
      else if \<not> usable j then Inl JErrRecovery
      else case all_records (j_binding j) (ji_fault io) (j_db j) of
          None \<Rightarrow> Inl JErrRecovery
        | Some rs \<Rightarrow>
            if ctx_err 1 \<or> ctx_err 2 then Inl JErrRecovery
            else Inr \<lparr>as_Binding = j_binding j, as_ObservedAt = ji_now io,
                      as_Records = map (admission_record_of j) rs\<rparr>)"

section \<open>Opening and closing\<close>

definition journal_definitions :: "(string \<times> journal_def) list" where
  "journal_definitions =
     [(''metadata'', MetaSchema), (''actions'', ActionSchema), (''events'', EventSchema),
      (''actions_target'', TargetIndex), (''actions_physical'', PhysicalIndex)]"

text \<open>The answers of the system while a journal is opened; \<open>jo_entries\<close> is \<open>None\<close> when
  the directory cannot be opened and \<open>Some []\<close> when it cannot be read.\<close>

record journal_open_io =
  jo_ctx_err :: bool
  jo_euid :: uint32
  jo_dedicated :: bool
  jo_path :: "file_info option list"
  jo_lock_opened :: bool
  jo_lock_info :: "file_info option"
  jo_flock :: flock_result
  jo_entries :: "string list option"
  jo_created :: bool
  jo_listing :: "(string \<times> file_info option) list option"
  jo_file :: "(file_info option \<times> bytes) option"
  jo_side :: side_file
  jo_connected :: bool
  jo_page_size :: bool
  jo_mode :: "string option"
  jo_pragma :: "string \<Rightarrow> int option"
  jo_integrity :: "string option"
  jo_fault :: "nat \<Rightarrow> bool"
  jo_sql :: journal_io
  jo_synced :: bool

definition journal_configure :: "journal_open_io \<Rightarrow> bool" where
  "journal_configure oi \<longleftrightarrow>
     jo_mode oi = Some ''delete'' \<and>
     list_all (\<lambda>(name, want). jo_pragma oi name = Some want)
       [(''page_size'', 4096), (''synchronous'', 3), (''cache_size'', 3072), (''cache_spill'', 0), (''temp_store'', 2),
        (''trusted_schema'', 0), (''foreign_keys'', 1), (''mmap_size'', 0), (''busy_timeout'', 250)] \<and>
     (case jo_pragma oi ''page_count'' of None \<Rightarrow> False | Some n \<Rightarrow> n \<le> 3072) \<and>
     jo_pragma oi ''max_page_count'' = Some 3072"

text \<open>The loop over the unresolved records: \<open>None\<close> when two share a target or a container.\<close>

fun verify_unknown :: "jrecord list \<Rightarrow> string list \<Rightarrow> (string \<times> string) list \<Rightarrow> nat \<Rightarrow> nat option" where
  "verify_unknown [] targets physical unknown = Some unknown"
| "verify_unknown (r # rs) targets physical unknown =
     (if \<not> IsZero (jr_intent r) \<and> IsZero (jr_terminal r) then
        let pair = (jm_EngineGeneration (ak_Metadata (jr_key r)), jm_ContainerID (ak_Metadata (jr_key r)))
        in if ak_TargetID (jr_key r) \<in> set targets \<or> pair \<in> set physical then None
           else verify_unknown rs (ak_TargetID (jr_key r) # targets) (pair # physical) (Suc unknown)
      else verify_unknown rs targets physical unknown)"

definition orphans :: "journal_db \<Rightarrow> nat" where
  "orphans db = length (filter (\<lambda>e. ew_id e \<notin> aw_id ` set (jd_actions db)) (jd_events db))"

definition verify :: "journal_open_io \<Rightarrow> journal_binding \<Rightarrow> journal_db \<Rightarrow> bool" where
  "verify oi b db =
     (if jo_fault oi 0 \<or> jd_app db \<noteq> action_app_id \<or> jo_fault oi 1 \<or> jd_version db \<noteq> 1 then False
      else if jo_fault oi 2 \<or> \<not> list_all (\<lambda>(name, d). map_of journal_definitions name = Some d) (jd_defs db)
              \<or> length (jd_defs db) \<noteq> length journal_definitions then False
      else if jo_integrity oi \<noteq> Some ''ok'' then False
      else if floor_time b (\<lambda>i. jo_fault oi (i + 3)) db = None then False
      else case all_records b (\<lambda>i. jo_fault oi (i + 5)) db of
          None \<Rightarrow> False
        | Some rs \<Rightarrow>
            (case verify_unknown rs [] [] 0 of
               None \<Rightarrow> False
             | Some unknown \<Rightarrow> \<not> (2 < unknown \<or> jo_fault oi 7 \<or> orphans db \<noteq> 0)))"

definition journal_provision_body :: "journal_open_io \<Rightarrow> journal_binding \<Rightarrow> journal_db \<Rightarrow> journal_err + (journal_db \<times> unit)" where
  "journal_provision_body oi b db =
     (if list_ex (ji_fault (jo_sql oi)) [0, 1, 2, 3, 4, 5] then Inl JErrRecovery
      else if jd_defs db \<noteq> [] then Inl JErrRecovery
      else if ji_fault (jo_sql oi) 6 then Inl JErrRecovery
      else case sql_insert_meta
             \<lparr>mw_singleton = 1, mw_server = jb_ServerID b, mw_installation = jb_InstallationID b, mw_owner = jb_OwnerID b,
              mw_floor = stamp 0\<rparr>
             (db\<lparr>jd_defs := journal_definitions, jd_app := action_app_id, jd_version := 1\<rparr>) of
          None \<Rightarrow> Inl JErrRecovery
        | Some db' \<Rightarrow> Inr (db', ()))"

definition empty_journal_db :: journal_db where
  "empty_journal_db = \<lparr>jd_app = 0, jd_version = 0, jd_defs = [], jd_meta = [], jd_actions = [], jd_events = []\<rparr>"

definition open_journal_files :: "journal_open_io \<Rightarrow> bool \<Rightarrow> journal_err option" where
  "open_journal_files oi create =
     (case action_privateDirectory (jo_euid oi) (jo_dedicated oi) (jo_path oi) of
        Some e \<Rightarrow> Some e
      | None \<Rightarrow>
     (case action_acquireLock (jo_euid oi) (jo_lock_opened oi) (jo_lock_info oi) (jo_flock oi) of
        Some e \<Rightarrow> Some e
      | None \<Rightarrow>
        if create \<and> jo_entries oi = None then Some JErrUnsafe
        else if create \<and> (jo_entries oi \<noteq> Some [action_lockName] \<or> \<not> jo_created oi) then Some JErrRecovery
        else case action_checkFiles (jo_euid oi) (jo_listing oi) True of
            Some e \<Rightarrow> Some e
          | None \<Rightarrow>
              if \<not> create \<and> action_checkHeader (jo_euid oi) (jo_file oi) \<noteq> None then Some JErrRecovery
              else if \<not> create \<and> checkJournalHeader (jo_euid oi) (jo_side oi) \<noteq> None then Some JErrRecovery
              else None))"

text \<open>The result and the database left behind; a new file starts empty.\<close>

definition open_journal ::
  "journal_open_io \<Rightarrow> journal_db \<Rightarrow> journal_binding \<Rightarrow> bool \<Rightarrow> (journal_err + journal) \<times> journal_db" where
  "open_journal oi db b create =
     (if jo_ctx_err oi \<or> \<not> validJournalBinding b then (Inl JErrRecovery, db)
      else case open_journal_files oi create of
          Some e \<Rightarrow> (Inl e, db)
        | None \<Rightarrow>
            (let j0 = \<lparr>j_binding = b, j_conn = True, j_failed = False, j_active = [], j_attempts = [],
                       j_db = (if create then empty_journal_db else db)\<rparr>
             in if \<not> jo_connected oi \<or> (create \<and> \<not> jo_page_size oi) \<or> \<not> journal_configure oi then (Inl JErrRecovery, j_db j0)
                else let (x, j) = (if create then journal_transaction (jo_sql oi) (journal_provision_body oi b) j0
                                   else (Inr (), j0))
                     in if isl x \<or> (create \<and> \<not> jo_synced oi) then (Inl JErrRecovery, j_db j)
                        else if \<not> verify oi b (j_db j) then (Inl JErrRecovery, j_db j)
                        else (Inr j, j_db j)))"

definition Provision :: "journal_open_io \<Rightarrow> journal_db \<Rightarrow> journal_binding \<Rightarrow> (journal_err + journal) \<times> journal_db" where
  "Provision oi db b = open_journal oi db b True"

definition OpenExisting :: "journal_open_io \<Rightarrow> journal_db \<Rightarrow> journal_binding \<Rightarrow> (journal_err + journal) \<times> journal_db" where
  "OpenExisting oi db b = open_journal oi db b False"

text \<open>\<open>fails\<close>: closing one of the handles reports an error.\<close>

definition Journal_Close :: "bool \<Rightarrow> journal \<Rightarrow> journal_err option \<times> journal" where
  "Journal_Close fails j =
     (if j_conn j \<and> fails then Some JErrRecovery else None,
      j\<lparr>j_failed := True, j_conn := False, j_active := [],
        j_attempts := map (\<lambda>(h, a). if h \<in> snd ` set (j_active j) then a\<lparr>at_closed := True\<rparr> else a)
                        (enumerate 0 (j_attempts j))\<rparr>)"

end
