(* ===== verification/JournalRun.thy ===== *)
theory JournalRun
  imports ActionJournal
begin

text \<open>
  Executions of the action journal: any interleaving of acquisitions, intents, results, closings,
  prunings and restarts, with arbitrary answers of the database, the clock and the execution guard.
  The invariants proved here by rule induction are those the journal exists for: an action is
  dispatched at most once, and never while the outcome of another action on its target is unknown.
\<close>

section \<open>What the loader returns\<close>

definition has_event :: "journal_db \<Rightarrow> string \<Rightarrow> int \<Rightarrow> bool" where
  "has_event db aid n \<longleftrightarrow> (aid, n) \<in> event_key ` set (jd_events db)"

definition row_key :: "action_row \<Rightarrow> action_key \<Rightarrow> bool" where
  "row_key w k \<longleftrightarrow>
     CanonicalJournalMetadata k = Some (aw_metadata w) \<and> ak_ActionID k = aw_id w \<and> ak_TargetID k = aw_target w \<and>
     jm_EngineGeneration (ak_Metadata k) = aw_generation w \<and> jm_ContainerID (ak_Metadata k) = aw_container w"

text \<open>The tables as the journal keeps them.\<close>

definition db_ok :: "journal_db \<Rightarrow> bool" where
  "db_ok db \<longleftrightarrow>
     distinct (map aw_id (jd_actions db)) \<and>
     (\<forall>w \<in> set (jd_actions db). (\<exists>k. row_key w k) \<and> (\<exists>t > 0. aw_admitted w = stamp t)) \<and>
     distinct (map event_key (jd_events db)) \<and>
     (\<forall>e \<in> set (jd_events db). ew_id e \<in> aw_id ` set (jd_actions db))"

text \<open>A record loaded from a row, and what its times say about the event table.\<close>

definition reads_row :: "action_row \<Rightarrow> jrecord \<Rightarrow> bool" where
  "reads_row w r \<longleftrightarrow> row_key w (jr_key r) \<and> jr_raw r = aw_metadata w \<and> 0 < jr_admitted r"

definition marks :: "(string \<times> int) set \<Rightarrow> jrecord \<Rightarrow> bool" where
  "marks P r \<longleftrightarrow> (IsZero (jr_intent r) \<longleftrightarrow> (jr_id r, 1) \<notin> P) \<and> (IsZero (jr_terminal r) \<longleftrightarrow> (jr_id r, 2) \<notin> P)"

lemma row_key_unique: "row_key w k \<Longrightarrow> row_key w l \<Longrightarrow> k = l"
  using metadata_parse_canonical [of k "aw_metadata w"] metadata_parse_canonical [of l "aw_metadata w"]
  by (simp add: row_key_def)

lemma row_unique: "db_ok db \<Longrightarrow> w \<in> set (jd_actions db) \<Longrightarrow> v \<in> set (jd_actions db) \<Longrightarrow> aw_id w = aw_id v \<Longrightarrow> w = v"
  by (auto simp: db_ok_def distinct_map dest: inj_onD)

lemma parseTime_stamp: "parseTime (stamp t) = Some u \<Longrightarrow> u = t"
  using rfc3339nano_parse_exact by (auto simp: parseTime_def stamp_def split: option.splits if_splits)

lemma validateAction_reads:
  assumes "validateAction b w = Some r" and "aw_admitted w = stamp t" and "0 < t"
  shows "reads_row w r \<and> marks {} r"
  using assms
  by (auto simp: validateAction_def reads_row_def row_key_def marks_def IsZero_def canonical_parse_metadata
      dest: parseTime_stamp split: option.splits if_splits)

lemma loadActions_reads:
  assumes "loadActions b ws rs = Some rs'" and "\<forall>w \<in> set ws. \<exists>t > 0. aw_admitted w = stamp t"
  shows "\<exists>xs. rs' = rs @ xs \<and> list_all2 (\<lambda>w r. reads_row w r \<and> marks {} r) ws xs"
  using assms
proof (induction ws arbitrary: rs)
  case (Cons w ws)
  then obtain r where r: "validateAction b w = Some r" and l: "loadActions b ws (rs @ [r]) = Some rs'"
    by (auto split: if_splits option.splits)
  obtain xs where "rs' = (rs @ [r]) @ xs" "list_all2 (\<lambda>w r. reads_row w r \<and> marks {} r) ws xs"
    using Cons.IH [OF l] Cons.prems(2) by auto
  then show ?case
    using validateAction_reads [OF r] Cons.prems(2) by (intro exI [of _ "r # xs"]) auto
qed simp

lemma validateEvent_marks:
  assumes "validateEvent r e = Some r'" and "reads_row w r" and "marks P r" and "jr_id r = ew_id e"
  shows "reads_row w r' \<and> marks (insert (event_key e) P) r' \<and> jr_id r' = jr_id r"
  using assms
  by (auto simp: validateEvent_def reads_row_def marks_def IsZero_def event_key_def split: option.splits if_splits)

lemma marks_other: "marks P r \<Longrightarrow> jr_id r \<noteq> ew_id e \<Longrightarrow> marks (insert (event_key e) P) r"
  by (auto simp: marks_def event_key_def)

lemma loadEvents_marks:
  assumes "loadEvents n es rs = Some rs'" and "list_all2 (\<lambda>w r. reads_row w r \<and> marks P r) ws rs"
    and "distinct (map aw_id ws)"
  shows "list_all2 (\<lambda>w r. reads_row w r \<and> marks (P \<union> event_key ` set es) r) ws rs'"
  using assms
proof (induction es arbitrary: n rs P)
  case (Cons e es)
  let ?ok = "\<lambda>P w r. reads_row w r \<and> marks P r"
  from Cons.prems(1) obtain r r' where f: "find (\<lambda>r. jr_id r = ew_id e) rs = Some r" and v: "validateEvent r e = Some r'"
    and l: "loadEvents (Suc n) es (map (\<lambda>x. if jr_id x = ew_id e then r' else x) rs) = Some rs'"
    by (auto split: if_splits option.splits)
  have r: "r \<in> set rs" "jr_id r = ew_id e" using f by (auto simp: find_Some_iff)
  have "list_all2 (?ok (insert (event_key e) P)) ws (map (\<lambda>x. if jr_id x = ew_id e then r' else x) rs)"
  proof (rule list_all2_all_nthI)
    show len: "length ws = length (map (\<lambda>x. if jr_id x = ew_id e then r' else x) rs)"
      using Cons.prems(2) by (simp add: list_all2_lengthD)
    fix i assume i: "i < length ws"
    have ok: "?ok P (ws ! i) (rs ! i)" using Cons.prems(2) i by (simp add: list_all2_conv_all_nth)
    obtain m where m: "m < length rs" "rs ! m = r" using r(1) by (auto simp: in_set_conv_nth)
    then have okm: "?ok P (ws ! m) r" using Cons.prems(2) by (auto simp: list_all2_conv_all_nth)
    have "i = m" if "jr_id (rs ! i) = ew_id e"
      using ok okm that r(2) i m Cons.prems(3) len by (auto simp: reads_row_def row_key_def distinct_conv_nth)
    then show "?ok (insert (event_key e) P) (ws ! i) (map (\<lambda>x. if jr_id x = ew_id e then r' else x) rs ! i)"
      using ok validateEvent_marks [OF v] okm r(2) marks_other i len m by auto
  qed
  from Cons.IH [OF l this Cons.prems(3)] show ?case by simp
qed simp

text \<open>
  A successful load returns exactly the rows in scope, in the order of their identifiers, each with
  its intent and terminal time set when the event table has the event.
\<close>

lemma load_reads:
  assumes "load b f db scope = Some rs" and ok: "db_ok db"
  shows "list_all2 (\<lambda>w r. reads_row w r \<and> marks (event_key ` set (jd_events db)) r)
           (sort_key aw_id (filter (in_scope scope) (jd_actions db))) rs"
proof -
  let ?ws = "sort_key aw_id (filter (in_scope scope) (jd_actions db))"
  let ?es = "sort_key event_key (filter (event_in_scope db scope) (jd_events db))"
  obtain rs0 where a: "loadActions b ?ws [] = Some rs0" and e: "loadEvents 0 ?es rs0 = Some rs"
    using assms(1) by (auto simp: load_def split: if_splits option.splits)
  have d: "distinct (map aw_id ?ws)"
  proof -
    have "inj_on aw_id (set (jd_actions db))" and "distinct (jd_actions db)"
      using ok by (auto simp: db_ok_def distinct_map)
    then show ?thesis by (auto simp: distinct_map intro: inj_on_subset)
  qed
  have "list_all2 (\<lambda>w r. reads_row w r \<and> marks {} r) ?ws rs0"
    using loadActions_reads [OF a] ok by (auto simp: db_ok_def)
  from loadEvents_marks [OF e this d]
  have m: "list_all2 (\<lambda>w r. reads_row w r \<and> marks (event_key ` set ?es) r) ?ws rs" by simp
  have scope: "event_in_scope db scope x \<longleftrightarrow> in_scope scope w"
    if "x \<in> set (jd_events db)" "w \<in> set (jd_actions db)" "aw_id w = ew_id x" for x w
  proof (cases scope)
    case (RelatedRecords t g c)
    have "v = w" if "v \<in> set (jd_actions db)" "aw_id v = ew_id x" for v
      using that \<open>w \<in> _\<close> \<open>aw_id w = _\<close> row_unique [OF ok] by simp
    then show ?thesis using that unfolding RelatedRecords event_in_scope.simps by blast
  qed (use that in auto)
  show ?thesis
  proof (rule list_all2_mono [OF _ _, of "\<lambda>w r. w \<in> set ?ws \<and> reads_row w r \<and> marks (event_key ` set ?es) r"])
    show "list_all2 (\<lambda>w r. w \<in> set ?ws \<and> reads_row w r \<and> marks (event_key ` set ?es) r) ?ws rs"
      using m nth_mem [of _ ?ws] unfolding list_all2_conv_all_nth by blast
  next
    fix w r assume w: "w \<in> set ?ws \<and> reads_row w r \<and> marks (event_key ` set ?es) r"
    have "(jr_id r, n) \<in> event_key ` set ?es \<longleftrightarrow> (jr_id r, n) \<in> event_key ` set (jd_events db)" for n
      using w scope by (fastforce simp: event_key_def reads_row_def row_key_def)
    then show "reads_row w r \<and> marks (event_key ` set (jd_events db)) r" using w by (simp add: marks_def)
  qed
qed

abbreviation reads :: "journal_db \<Rightarrow> action_row \<Rightarrow> jrecord \<Rightarrow> bool" where
  "reads db w r \<equiv> reads_row w r \<and> marks (event_key ` set (jd_events db)) r"

lemma load_record:
  assumes "load b f db scope = Some rs" and "db_ok db" and "r \<in> set rs"
  obtains w where "w \<in> set (jd_actions db)" and "in_scope scope w" and "reads db w r"
  using load_reads [OF assms(1,2)] assms(3) that
  by (auto simp: list_all2_conv_all_nth in_set_conv_nth [of r])
     (metis (no_types, lifting) length_sort length_filter_le mem_Collect_eq nth_mem set_filter set_sort)

lemma load_row:
  assumes "load b f db scope = Some rs" and "db_ok db" and "w \<in> set (jd_actions db)" and "in_scope scope w"
  obtains r where "r \<in> set rs" and "reads db w r"
proof -
  have "w \<in> set (sort_key aw_id (filter (in_scope scope) (jd_actions db)))" using assms(3,4) by simp
  then obtain i where "i < length (sort_key aw_id (filter (in_scope scope) (jd_actions db)))"
    "sort_key aw_id (filter (in_scope scope) (jd_actions db)) ! i = w"
    unfolding in_set_conv_nth by blast
  then show thesis
    using load_reads [OF assms(1,2)] that [of "rs ! i"] by (auto simp: list_all2_conv_all_nth)
qed

lemma read_record_Some:
  assumes "read_record b f db aid = Some (Some r)" and "db_ok db"
  obtains w where "w \<in> set (jd_actions db)" and "aw_id w = aid" and "reads db w r"
proof -
  have l: "load b f db (OneRecord aid) = Some [r]"
    using assms(1) by (auto simp: read_record_def split: option.splits list.splits)
  show thesis by (rule load_record [OF l assms(2), of r]) (use that in auto)
qed

lemma read_record_None:
  assumes "read_record b f db aid = Some None" and "db_ok db"
  shows "aid \<notin> aw_id ` set (jd_actions db)"
proof
  assume "aid \<in> aw_id ` set (jd_actions db)"
  then obtain w where w: "w \<in> set (jd_actions db)" "in_scope (OneRecord aid) w" by auto
  have l: "load b f db (OneRecord aid) = Some []"
    using assms(1) by (auto simp: read_record_def split: option.splits list.splits)
  show False by (rule load_row [OF l assms(2) w]) simp
qed

lemma marks_has_event:
  "marks (event_key ` set (jd_events db)) r \<longleftrightarrow>
     (IsZero (jr_intent r) \<longleftrightarrow> \<not> has_event db (jr_id r) 1) \<and> (IsZero (jr_terminal r) \<longleftrightarrow> \<not> has_event db (jr_id r) 2)"
  by (simp add: marks_def has_event_def)

section \<open>The tables stay well formed\<close>

lemma db_ok_insert_action:
  assumes "sql_insert_action (action_row_for k raw now) db = Some db'" and "db_ok db"
    and "CanonicalJournalMetadata k = Some raw" and "0 < now"
  shows "db_ok db'"
proof -
  have "row_key (action_row_for k raw now) k" using assms(3) by (simp add: row_key_def action_row_for_def)
  moreover have "aw_admitted (action_row_for k raw now) = stamp now" by (simp add: action_row_for_def)
  ultimately show ?thesis
    using assms(1,2,4) by (auto simp: sql_insert_action_def db_ok_def split: if_splits)
qed

lemma db_ok_insert_event: "sql_insert_event e db = Some db' \<Longrightarrow> db_ok db \<Longrightarrow> db_ok db'"
  by (auto simp: sql_insert_event_def db_ok_def split: if_splits)

lemma has_event_insert:
  "sql_insert_event e db = Some db' \<Longrightarrow> has_event db' aid n \<longleftrightarrow> has_event db aid n \<or> (aid, n) = event_key e"
  by (auto simp: sql_insert_event_def has_event_def split: if_splits)

lemma sql_insert_event_frame:
  "sql_insert_event e db = Some db' \<Longrightarrow> jd_actions db' = jd_actions db \<and> jd_meta db' = jd_meta db"
  by (auto simp: sql_insert_event_def split: if_splits)

definition delete_both :: "string \<Rightarrow> journal_db \<Rightarrow> journal_db" where
  "delete_both aid db =
     db\<lparr>jd_events := filter (\<lambda>e. ew_id e \<noteq> aid) (jd_events db), jd_actions := filter (\<lambda>w. aw_id w \<noteq> aid) (jd_actions db)\<rparr>"

lemma sql_delete_both:
  "sql_delete_action aid (sql_delete_events aid db) = Some (delete_both aid db)"
  by (auto simp: sql_delete_action_def sql_delete_events_def delete_both_def)

lemma db_ok_delete: "db_ok db \<Longrightarrow> db_ok (delete_both aid db)"
  by (auto simp: db_ok_def delete_both_def distinct_map intro: inj_on_subset)

lemma has_event_delete: "has_event (delete_both aid db) x n \<longleftrightarrow> has_event db x n \<and> x \<noteq> aid"
  by (auto simp: has_event_def delete_both_def event_key_def)

lemma db_ok_set_floor: "sql_set_floor s db = Some db' \<Longrightarrow> db_ok db \<Longrightarrow> db_ok db'"
  by (auto simp: sql_set_floor_def db_ok_def Let_def split: if_splits)

section \<open>The invariants\<close>

text \<open>\<open>spent_by db raw c\<close>: the intent of the action with metadata \<open>raw\<close> is on record, or the action expired by \<open>c\<close>.\<close>

definition intended :: "journal_db \<Rightarrow> string \<Rightarrow> bool" where
  "intended db raw \<longleftrightarrow> (\<forall>w \<in> set (jd_actions db). aw_metadata w = raw \<longrightarrow> has_event db (aw_id w) 1)"

definition spent_by :: "journal_db \<Rightarrow> string \<Rightarrow> gotime \<Rightarrow> bool" where
  "spent_by db raw c \<longleftrightarrow> intended db raw \<and>
     (raw \<notin> aw_metadata ` set (jd_actions db) \<longrightarrow>
       (\<exists>k. CanonicalJournalMetadata k = Some raw \<and> ar_ExpiresAt (key_request k) \<le> c))"

definition spent :: "journal_db \<Rightarrow> string \<Rightarrow> bool" where
  "spent db raw \<longleftrightarrow> intended db raw \<and> (\<forall>b f fl. floor_time b f db = Some fl \<longrightarrow> spent_by db raw fl)"

definition unresolved :: "journal_db \<Rightarrow> string set" where
  "unresolved db = {aid. has_event db aid 1 \<and> \<not> has_event db aid 2}"

definition active_ids :: "journal \<Rightarrow> string set" where
  "active_ids j = fst ` set (j_active j)"

definition permit_ids :: "journal \<Rightarrow> string set" where
  "permit_ids j = {aid. \<exists>h. (aid, h) \<in> set (j_active j) \<and> IsZero (jr_intent (at_record (j_attempts j ! h)))
                        \<and> IsZero (jr_terminal (at_record (j_attempts j ! h)))}"

text \<open>The fence: no two of the actions share a target or a container.\<close>

definition fenced :: "journal_db \<Rightarrow> string set \<Rightarrow> bool" where
  "fenced db S \<longleftrightarrow>
     (\<forall>w \<in> set (jd_actions db). \<forall>v \<in> set (jd_actions db). aw_id w \<in> S \<longrightarrow> aw_id v \<in> S \<longrightarrow> w \<noteq> v \<longrightarrow>
        aw_target w \<noteq> aw_target v \<and> (aw_generation w, aw_container w) \<noteq> (aw_generation v, aw_container v))"

definition active_ok :: "journal \<Rightarrow> bool" where
  "active_ok j \<longleftrightarrow>
     distinct (map fst (j_active j)) \<and>
     (\<forall>(aid, h) \<in> set (j_active j). h < length (j_attempts j) \<and>
        (\<exists>w \<in> set (jd_actions (j_db j)). aw_id w = aid \<and> row_key w (jr_key (at_record (j_attempts j ! h))) \<and>
           jr_raw (at_record (j_attempts j ! h)) = aw_metadata w))"

definition journal_inv :: "journal \<Rightarrow> string list \<Rightarrow> bool" where
  "journal_inv j I \<longleftrightarrow>
     db_ok (j_db j) \<and> active_ok j \<and> distinct I \<and> (\<forall>raw \<in> set I. spent (j_db j) raw) \<and>
     card (unresolved (j_db j) \<union> permit_ids j) \<le> 2 \<and> fenced (j_db j) (unresolved (j_db j) \<union> active_ids j)"

lemma finite_unresolved [simp]: "finite (unresolved db)"
proof -
  have "aid \<in> fst ` event_key ` set (jd_events db)" if "aid \<in> unresolved db" for aid
    using that imageI [of "(aid, 1)" "event_key ` set (jd_events db)" fst]
    by (simp add: unresolved_def has_event_def)
  then have "unresolved db \<subseteq> fst ` event_key ` set (jd_events db)" by blast
  then show ?thesis by (rule finite_subset) simp
qed

lemma finite_permit_ids [simp]: "finite (permit_ids j)"
proof -
  have "permit_ids j \<subseteq> active_ids j" by (auto simp: permit_ids_def active_ids_def image_iff Bex_def)
  then show ?thesis by (rule finite_subset) (simp add: active_ids_def)
qed

lemma fenced_mono:
  "fenced db S \<Longrightarrow> set (jd_actions db') \<subseteq> set (jd_actions db) \<Longrightarrow> S' \<subseteq> S \<Longrightarrow> fenced db' S'"
  unfolding fenced_def by blast

lemma card_mono2: "card (A :: string set) \<le> 2 \<Longrightarrow> finite A \<Longrightarrow> B \<subseteq> A \<Longrightarrow> card B \<le> 2"
  using card_mono le_trans by blast

text \<open>\<^verbatim>\<open>SELECT count(*)\<close> of the unresolved events counts the unresolved actions.\<close>

lemma unknown_count_card:
  assumes "db_ok db"
  shows "unknown_count db = card (unresolved db)"
proof -
  let ?es = "filter (\<lambda>i. ew_ordinal i = 1 \<and> (ew_id i, 2) \<notin> event_key ` set (jd_events db)) (jd_events db)"
  have d: "distinct (map event_key (jd_events db))" using assms by (simp add: db_ok_def)
  have "inj_on event_key (set (jd_events db))" using d by (simp add: distinct_map)
  then have "inj_on ew_id (set ?es)" by (simp add: inj_on_def event_key_def)
  moreover have "distinct ?es" using d by (simp add: distinct_map)
  moreover have "ew_id ` set ?es = unresolved db"
    unfolding unresolved_def has_event_def event_key_def image_iff by auto
  ultimately show ?thesis
    unfolding unknown_count_def using card_image [of ew_id "set ?es"] distinct_card [of ?es] by simp
qed

lemma permits_card:
  assumes "active_ok j"
  shows "card (permit_ids j) \<le> permits j"
proof -
  let ?as = "filter (\<lambda>(aid, h). IsZero (jr_terminal (at_record (j_attempts j ! h))) \<and>
     IsZero (jr_intent (at_record (j_attempts j ! h)))) (j_active j)"
  have "permit_ids j = fst ` set ?as" by (auto simp: permit_ids_def image_iff Bex_def)
  then have "card (permit_ids j) \<le> length ?as" 
    using card_image_le [of "set ?as" fst] card_length [of ?as] by simp
  also have "length ?as = permits j"
    by (simp add: permits_def active_records_def filter_map comp_def case_prod_unfold)
  finally show ?thesis .
qed

lemma transactionGuarded_cases:
  assumes "transactionGuarded io g body j = (x, j')"
  obtains e fl where "x = Inl e" and "j' = j\<lparr>j_failed := fl\<rparr>"
  | db' a fl where "body (j_db j) = Inr (db', a)" and "j' = j\<lparr>j_db := db', j_failed := fl\<rparr>"
      and "x = Inr a \<and> fl = j_failed j \<or> x = Inl JErrRecovery"
proof -
  have "j = j\<lparr>j_failed := j_failed j\<rparr>" "\<And>db'. j\<lparr>j_db := db'\<rparr> = j\<lparr>j_db := db', j_failed := j_failed j\<rparr>" by simp_all
  then have "(\<exists>e. x = Inl e) \<and> (j' = j\<lparr>j_failed := j_failed j\<rparr> \<or> j' = j\<lparr>j_failed := True\<rparr>)
      \<or> (\<exists>db' a. body (j_db j) = Inr (db', a) \<and> (j' = j\<lparr>j_db := db', j_failed := j_failed j\<rparr> \<and> x = Inr a
            \<or> j' = j\<lparr>j_db := db', j_failed := True\<rparr> \<and> x = Inl JErrRecovery))"
    using assms unfolding transactionGuarded_def rolled_back_def
    by (auto split: if_splits commit_result.splits sum.splits prod.splits)
  then show thesis using that by blast
qed

section \<open>Changes of the tables\<close>

lemma spent_by_mono: "spent_by db raw c \<Longrightarrow> c \<le> d \<Longrightarrow> spent_by db raw d"
  unfolding spent_by_def by (meson order_trans)

lemma floor_time_meta: "jd_meta db' = jd_meta db \<Longrightarrow> floor_time b f db' = floor_time b f db"
  by (simp add: floor_time_def)

lemma spent_by_insert_event: "sql_insert_event e db = Some db' \<Longrightarrow> spent_by db raw c \<Longrightarrow> spent_by db' raw c"
  using sql_insert_event_frame [of e db db'] has_event_insert [of e db db']
  by (simp add: spent_by_def intended_def)

lemma spent_insert_event: "sql_insert_event e db = Some db' \<Longrightarrow> spent db raw \<Longrightarrow> spent db' raw"
  using sql_insert_event_frame [of e db db'] has_event_insert [of e db db'] spent_by_insert_event
    floor_time_meta [of db' db]
  by (simp add: spent_def intended_def)

lemma unresolved_insert_event:
  assumes "sql_insert_event e db = Some db'" and "ew_ordinal e = 1 \<Longrightarrow> ew_id e \<in> S"
  shows "unresolved db' \<subseteq> unresolved db \<union> S"
  using has_event_insert [OF assms(1)] assms(2) by (auto simp: unresolved_def event_key_def)

lemma row_metadata_key:
  assumes "db_ok db" and "w \<in> set (jd_actions db)" and "CanonicalJournalMetadata k = Some (aw_metadata w)"
  shows "row_key w k"
proof -
  obtain l where "row_key w l" using assms(1,2) by (auto simp: db_ok_def)
  moreover have "l = k"
    using metadata_parse_canonical [of k "aw_metadata w"] metadata_parse_canonical [of l "aw_metadata w"] assms(3) \<open>row_key w l\<close>
    by (simp add: row_key_def)
  ultimately show ?thesis by simp
qed

lemma spent_insert_action:
  assumes i: "sql_insert_action (action_row_for k raw now) db = Some db'" and ok: "db_ok db"
    and k: "CanonicalJournalMetadata k = Some raw" and fl: "floor_time b f db = Some fl" "fl < ar_ExpiresAt (key_request k)"
    and s: "spent db raw'"
  shows "spent db' raw'"
proof -
  have db': "jd_actions db' = jd_actions db @ [action_row_for k raw now]" "jd_events db' = jd_events db"
    "jd_meta db' = jd_meta db" and new: "ak_ActionID k \<notin> aw_id ` set (jd_actions db)"
    using i by (auto simp: sql_insert_action_def action_row_for_def split: if_splits)
  have "raw' \<noteq> raw"
  proof
    assume eq: "raw' = raw"
    have "raw \<notin> aw_metadata ` set (jd_actions db)"
      using row_metadata_key [OF ok _, of _ k] k new by (fastforce simp: row_key_def)
    then obtain l where "CanonicalJournalMetadata l = Some raw" "ar_ExpiresAt (key_request l) \<le> fl"
      using s fl(1) unfolding spent_def spent_by_def eq by blast
    then show False
      using metadata_parse_canonical [of k raw] metadata_parse_canonical [of l raw] k fl(2) by simp
  qed
  then show ?thesis
    using s floor_time_meta [OF db'(3)]
    by (auto simp: spent_def spent_by_def intended_def has_event_def db' action_row_for_def)
qed

lemma spent_intent:
  assumes ok: "db_ok db" and w: "w \<in> set (jd_actions db)" and i: "sql_insert_event e db = Some db'"
    and e: "event_key e = (aw_id w, 1)"
  shows "\<not> spent db (aw_metadata w)" and "spent db' (aw_metadata w)"
proof -
  have "\<not> has_event db (aw_id w) 1" using i e by (auto simp: sql_insert_event_def has_event_def split: if_splits)
  then show "\<not> spent db (aw_metadata w)" using w by (auto simp: spent_def intended_def)
  obtain k where k: "row_key w k" using ok w by (auto simp: db_ok_def)
  have "aw_id v = aw_id w" if "v \<in> set (jd_actions db)" "aw_metadata v = aw_metadata w" for v
    using row_metadata_key [OF ok that(1), of k] k that(2) by (simp add: row_key_def)
  then have "intended db' (aw_metadata w)"
    using sql_insert_event_frame [OF i] has_event_insert [OF i] e by (auto simp: intended_def)
  then show "spent db' (aw_metadata w)"
    using w sql_insert_event_frame [OF i] by (auto simp: spent_def spent_by_def)
qed

section \<open>Changes of the journal\<close>

lemma active_ok_rows:
  assumes "active_ok j" and "\<And>w. w \<in> set (jd_actions (j_db j)) \<Longrightarrow> aw_id w \<in> active_ids j \<Longrightarrow> w \<in> set (jd_actions db')"
  shows "active_ok (j\<lparr>j_db := db', j_failed := fl\<rparr>)"
proof -
  have "\<exists>w \<in> set (jd_actions db'). aw_id w = aid \<and> row_key w (jr_key (at_record (j_attempts j ! h))) \<and>
           jr_raw (at_record (j_attempts j ! h)) = aw_metadata w" if "(aid, h) \<in> set (j_active j)" for aid h
  proof -
    have "aid \<in> active_ids j" using that by (force simp: active_ids_def)
    then show ?thesis using assms that by (fastforce simp: active_ok_def)
  qed
  then show ?thesis using assms(1) by (auto simp: active_ok_def)
qed

lemma permit_subset: "permit_ids j \<subseteq> active_ids j"
  by (auto simp: permit_ids_def active_ids_def image_iff Bex_def)

lemma permit_active_frame [simp]:
  "permit_ids (j\<lparr>j_db := db'\<rparr>) = permit_ids j" "active_ids (j\<lparr>j_db := db'\<rparr>) = active_ids j"
  "permit_ids (j\<lparr>j_failed := fl\<rparr>) = permit_ids j" "active_ids (j\<lparr>j_failed := fl\<rparr>) = active_ids j"
  by (simp_all add: permit_ids_def active_ids_def)

lemma inv_failed: "journal_inv j I \<Longrightarrow> journal_inv (j\<lparr>j_failed := fl\<rparr>) I"
  using active_ok_rows [of j "j_db j" fl] by (simp add: journal_inv_def)

lemma inv_event:
  assumes inv: "journal_inv j I" and i: "sql_insert_event e (j_db j) = Some db'"
    and p: "ew_ordinal e = 1 \<Longrightarrow> ew_id e \<in> permit_ids j"
  shows "journal_inv (j\<lparr>j_db := db', j_failed := fl\<rparr>) I"
proof -
  have u: "unresolved db' \<subseteq> unresolved (j_db j) \<union> permit_ids j"
    by (rule unresolved_insert_event [OF i]) (rule p)
  have "card (unresolved db' \<union> permit_ids j) \<le> 2"
    by (rule card_mono2 [of "unresolved (j_db j) \<union> permit_ids j"]) (use inv u in \<open>auto simp: journal_inv_def\<close>)
  moreover have "fenced db' (unresolved db' \<union> active_ids j)"
    by (rule fenced_mono [of "j_db j" "unresolved (j_db j) \<union> active_ids j"])
       (use inv u permit_subset [of j] sql_insert_event_frame [OF i] in \<open>auto simp: journal_inv_def\<close>)
  moreover have "active_ok (j\<lparr>j_db := db', j_failed := fl\<rparr>)"
    by (rule active_ok_rows) (use inv sql_insert_event_frame [OF i] in \<open>auto simp: journal_inv_def\<close>)
  ultimately show ?thesis
    using inv db_ok_insert_event [OF i] spent_insert_event [OF i] by (simp add: journal_inv_def)
qed

text \<open>An attempt of which only the closing flag, the times and the result differ.\<close>

definition same_attempt :: "attempt \<Rightarrow> attempt \<Rightarrow> bool" where
  "same_attempt a b \<longleftrightarrow> jr_key (at_record b) = jr_key (at_record a) \<and> jr_raw (at_record b) = jr_raw (at_record a) \<and>
     (IsZero (jr_intent (at_record b)) \<and> IsZero (jr_terminal (at_record b)) \<longrightarrow>
      IsZero (jr_intent (at_record a)) \<and> IsZero (jr_terminal (at_record a)))"

lemma inv_shrink:
  assumes inv: "journal_inv j I" and act: "set act \<subseteq> set (j_active j)" "distinct (map fst act)"
    and atts: "\<And>aid h. (aid, h) \<in> set act \<Longrightarrow> h < length as \<and> same_attempt (j_attempts j ! h) (as ! h)"
  shows "journal_inv (j\<lparr>j_attempts := as, j_active := act\<rparr>) I"
proof -
  let ?j = "j\<lparr>j_attempts := as, j_active := act\<rparr>"
  have p: "permit_ids ?j \<subseteq> permit_ids j" "active_ids ?j \<subseteq> active_ids j"
    using act(1) atts by (force simp: permit_ids_def active_ids_def same_attempt_def)+
  have "active_ok ?j"
    using inv act atts by (fastforce simp: active_ok_def journal_inv_def same_attempt_def)
  moreover have "card (unresolved (j_db j) \<union> permit_ids ?j) \<le> 2"
    by (rule card_mono2 [of "unresolved (j_db j) \<union> permit_ids j"]) (use inv p in \<open>auto simp: journal_inv_def\<close>)
  moreover have "fenced (j_db j) (unresolved (j_db j) \<union> active_ids ?j)"
    by (rule fenced_mono [of "j_db j" "unresolved (j_db j) \<union> active_ids j"]) (use inv p in \<open>auto simp: journal_inv_def\<close>)
  ultimately show ?thesis using inv by (simp add: journal_inv_def)
qed

lemma inv_update:
  assumes inv: "journal_inv j I" and same: "same_attempt (j_attempts j ! h) a"
    and act: "set act \<subseteq> set (j_active j)" "distinct (map fst act)"
  shows "journal_inv (j\<lparr>j_attempts := (j_attempts j)[h := a], j_active := act\<rparr>) I"
proof (rule inv_shrink [OF inv act])
  fix aid i assume "(aid, i) \<in> set act"
  then have "i < length (j_attempts j)" using inv act(1) by (auto simp: journal_inv_def active_ok_def)
  then show "i < length ((j_attempts j)[h := a]) \<and> same_attempt (j_attempts j ! i) ((j_attempts j)[h := a] ! i)"
    using same by (cases "i = h") (auto simp: same_attempt_def)
qed

lemma nth_append_old: "h < length xs \<Longrightarrow> (xs @ ys) ! h = xs ! h"
  by (simp add: nth_append)

lemma inv_append: "journal_inv j I \<Longrightarrow> journal_inv (j\<lparr>j_attempts := j_attempts j @ [a]\<rparr>) I"
  using inv_shrink [of j I "j_active j" "j_attempts j @ [a]"]
  by (fastforce simp: journal_inv_def active_ok_def same_attempt_def nth_append_old)

text \<open>A new active attempt: its row is there, nothing related is unresolved or active, and a permit is free.\<close>

lemma inv_activate:
  assumes inv: "journal_inv j I" and new: "aw_id w \<notin> active_ids j"
    and w: "w \<in> set (jd_actions (j_db j))" "row_key w (jr_key (at_record a))" "jr_raw (at_record a) = aw_metadata w"
    and free: "card (unresolved (j_db j) \<union> permit_ids j) < 2"
    and fence: "\<And>v. v \<in> set (jd_actions (j_db j)) \<Longrightarrow> aw_id v \<in> unresolved (j_db j) \<union> active_ids j \<Longrightarrow>
        aw_target v \<noteq> aw_target w \<and> (aw_generation v, aw_container v) \<noteq> (aw_generation w, aw_container w)"
  shows "journal_inv (j\<lparr>j_attempts := j_attempts j @ [a], j_active := (aw_id w, length (j_attempts j)) # j_active j\<rparr>) I"
proof -
  let ?j = "j\<lparr>j_attempts := j_attempts j @ [a], j_active := (aw_id w, length (j_attempts j)) # j_active j\<rparr>"
  have act: "active_ok j" using inv by (simp add: journal_inv_def)
  then have len: "h < length (j_attempts j)" if "(aid, h) \<in> set (j_active j)" for aid h
    using that by (auto simp: active_ok_def)
  have p: "permit_ids ?j \<subseteq> insert (aw_id w) (permit_ids j)" "active_ids ?j = insert (aw_id w) (active_ids j)"
    using len by (auto simp: permit_ids_def active_ids_def nth_append_old)
  have "active_ok ?j"
    using act w new len by (fastforce simp: active_ok_def active_ids_def nth_append_old)
  moreover have "card (unresolved (j_db j) \<union> permit_ids ?j) \<le> 2"
  proof -
    have "card (unresolved (j_db j) \<union> permit_ids ?j) \<le> card (insert (aw_id w) (unresolved (j_db j) \<union> permit_ids j))"
      by (rule card_mono) (use p in auto)
    also have "\<dots> \<le> 2" using free by (simp add: card_insert_if)
    finally show ?thesis .
  qed
  moreover have "fenced (j_db j) (unresolved (j_db j) \<union> active_ids ?j)"
  proof -
    have "aw_id v \<noteq> aw_id w" if "v \<in> set (jd_actions (j_db j))" "v \<noteq> w" for v
      using that row_unique [of "j_db j" v w] w(1) inv by (auto simp: journal_inv_def)
    then show ?thesis
      using inv fence unfolding p(2) journal_inv_def fenced_def by (metis UnE UnI1 UnI2 insertE)
  qed
  ultimately show ?thesis using inv by (simp add: journal_inv_def)
qed

section \<open>Acquiring keeps the invariants\<close>

lemma related_block_None: "related_block now rs = None \<Longrightarrow> r \<in> set rs \<Longrightarrow> IsZero (jr_intent r) \<or> \<not> IsZero (jr_terminal r)"
  by (induction rs) (auto split: if_splits)

lemma in_scope_related:
  "in_scope (RelatedRecords (aw_target w) (aw_generation w) (aw_container w)) v \<longleftrightarrow>
     aw_target v = aw_target w \<or> (aw_generation v, aw_container v) = (aw_generation w, aw_container w)"
  by auto

text \<open>What an admission has checked: no related action is unresolved or active, and a permit is free.\<close>

lemma acquire_admit_checks:
  assumes "acquire_admit io j g k raw now existing (j_db j) = Inr (db', a)" and inv: "journal_inv j I"
    and w: "row_key w k"
  shows "card (unresolved (j_db j) \<union> permit_ids j) < 2"
    and "v \<in> set (jd_actions (j_db j)) \<Longrightarrow> aw_id v \<in> unresolved (j_db j) \<union> active_ids j \<Longrightarrow>
        aw_target v \<noteq> aw_target w \<and> (aw_generation v, aw_container v) \<noteq> (aw_generation w, aw_container w)"
proof -
  have ok: "db_ok (j_db j)" "active_ok j" using inv by (auto simp: journal_inv_def)
  obtain rs where rel: "related (j_binding j) (\<lambda>i. ji_fault io (i + 5)) (j_db j) k = Some rs"
    and block: "related_block now rs = None"
    and act: "\<forall>r \<in> set (active_records j). ak_TargetID (jr_key r) \<noteq> ak_TargetID k \<and> \<not> same_physical (jr_key r) k"
    and permit: "permits j + unknown_count (j_db j) < 2"
    using assms(1) by (auto simp: acquire_admit_def split: option.splits if_splits)
  show "card (unresolved (j_db j) \<union> permit_ids j) < 2"
    using permit permits_card [OF ok(2)] unknown_count_card [OF ok(1)] card_Un_le [of "unresolved (j_db j)" "permit_ids j"]
    by simp
  assume v: "v \<in> set (jd_actions (j_db j))" "aw_id v \<in> unresolved (j_db j) \<union> active_ids j"
  show "aw_target v \<noteq> aw_target w \<and> (aw_generation v, aw_container v) \<noteq> (aw_generation w, aw_container w)"
  proof (cases "aw_id v \<in> active_ids j")
    case True
    then obtain h where h: "(aw_id v, h) \<in> set (j_active j)" by (auto simp: active_ids_def)
    obtain u where u: "u \<in> set (jd_actions (j_db j))" "aw_id u = aw_id v" "row_key u (jr_key (at_record (j_attempts j ! h)))"
      using h ok(2) by (fastforce simp: active_ok_def)
    then have "u = v" using row_unique [OF ok(1)] v(1) by blast
    moreover have "at_record (j_attempts j ! h) \<in> set (active_records j)"
      using h by (force simp: active_records_def)
    ultimately show ?thesis using act u(3) w by (auto simp: row_key_def same_physical_def)
  next
    case False
    show ?thesis
    proof (rule ccontr)
      assume "\<not> ?thesis"
      then have "in_scope (RelatedRecords (ak_TargetID k) (jm_EngineGeneration (ak_Metadata k)) (jm_ContainerID (ak_Metadata k))) v"
        using w by (auto simp: row_key_def)
      from load_row [OF rel [unfolded related_def] ok(1) v(1) this] obtain r
        where "r \<in> set rs" "reads (j_db j) v r" by blast
      then show False
        using related_block_None [OF block] v(2) False
        by (auto simp: marks_has_event reads_row_def row_key_def unresolved_def)
    qed
  qed
qed

lemma acquire_admit_inv:
  assumes a: "acquire_admit io j g k raw now existing (j_db j) = Inr (db', a)" and inv: "journal_inv j I"
    and rd: "read_record (j_binding j) f (j_db j) (ak_ActionID k) = Some existing"
    and ex: "\<And>r. existing = Some r \<Longrightarrow> jr_raw r = raw"
    and k: "CanonicalJournalMetadata k = Some raw" and t: "0 < now" and new: "ak_ActionID k \<notin> active_ids j"
  shows "journal_inv (j\<lparr>j_db := db', j_failed := fl\<rparr>) I" and "at_mutable a"
    and "journal_inv (j\<lparr>j_db := db', j_failed := fl, j_attempts := j_attempts j @ [a],
           j_active := (ak_ActionID k, length (j_attempts j)) # j_active j\<rparr>) I"
proof -
  have ok: "db_ok (j_db j)" "active_ok j" using inv by (auto simp: journal_inv_def)
  have "at_mutable a \<and> journal_inv (j\<lparr>j_db := db', j_failed := fl\<rparr>) I \<and>
    (\<exists>w \<in> set (jd_actions db'). aw_id w = ak_ActionID k \<and> row_key w k \<and> row_key w (jr_key (at_record a)) \<and>
       jr_raw (at_record a) = aw_metadata w) \<and> unresolved db' = unresolved (j_db j) \<and>
    (\<forall>v \<in> set (jd_actions db'). aw_id v \<in> unresolved (j_db j) \<union> active_ids j \<longrightarrow> v \<in> set (jd_actions (j_db j)))"
  proof (cases existing)
    case (Some r)
    then obtain w where w: "w \<in> set (jd_actions (j_db j))" "aw_id w = ak_ActionID k" "reads (j_db j) w r"
      using read_record_Some [OF _ ok(1)] rd by metis
    have "db' = j_db j" "a = new_attempt r True g"
      using a Some by (auto simp: acquire_admit_def split: option.splits if_splits)
    moreover have "row_key w k"
      using row_metadata_key [OF ok(1) w(1), of k] k w(3) ex [OF Some] by (auto simp: reads_row_def)
    ultimately show ?thesis
      using w inv_failed [OF inv] by (auto simp: new_attempt_def reads_row_def intro!: bexI [of _ w])
  next
    case None
    let ?w = "action_row_for k raw now"
    obtain fl0 where i: "sql_insert_action ?w (j_db j) = Some db'" and ra: "at_record a = fresh_record k raw now" "at_mutable a"
      and f: "floor_time (j_binding j) (\<lambda>i. ji_fault io (i + 3)) (j_db j) = Some fl0" "fl0 < ar_ExpiresAt (key_request k)"
      using a None by (auto simp: acquire_admit_def new_attempt_def split: option.splits if_splits)
    have db': "jd_actions db' = jd_actions (j_db j) @ [?w]" "jd_events db' = jd_events (j_db j)"
      using i by (auto simp: sql_insert_action_def split: if_splits)
    have id: "aw_id ?w = ak_ActionID k" "row_key ?w k" "aw_metadata ?w = raw"
      using k by (simp_all add: row_key_def action_row_for_def)
    have fresh: "ak_ActionID k \<notin> aw_id ` set (jd_actions (j_db j))"
      using read_record_None [OF _ ok(1)] rd None by metis
    then have "ak_ActionID k \<notin> unresolved (j_db j)"
      using ok(1) by (auto simp: unresolved_def has_event_def event_key_def db_ok_def)
    moreover have u: "unresolved db' = unresolved (j_db j)" by (simp add: unresolved_def has_event_def db')
    moreover have "fenced db' (unresolved (j_db j) \<union> active_ids j)"
      using inv id(1) new calculation(1) by (auto simp: journal_inv_def fenced_def db')
    moreover have "active_ok (j\<lparr>j_db := db', j_failed := fl\<rparr>)" by (rule active_ok_rows [OF ok(2)]) (simp add: db')
    ultimately show ?thesis
      using inv db_ok_insert_action [OF i ok(1) k t] spent_insert_action [OF i ok(1) k f] ra id new
      by (auto simp: journal_inv_def db' fresh_record_def)
  qed
  then obtain w where m: "at_mutable a" and i': "journal_inv (j\<lparr>j_db := db', j_failed := fl\<rparr>) I"
    and w: "w \<in> set (jd_actions db')" "aw_id w = ak_ActionID k" "row_key w k" "row_key w (jr_key (at_record a))"
       "jr_raw (at_record a) = aw_metadata w" and u: "unresolved db' = unresolved (j_db j)"
    and old: "\<forall>v \<in> set (jd_actions db'). aw_id v \<in> unresolved (j_db j) \<union> active_ids j \<longrightarrow> v \<in> set (jd_actions (j_db j))"
    by blast
  show "journal_inv (j\<lparr>j_db := db', j_failed := fl\<rparr>) I" "at_mutable a" by fact+
  show "journal_inv (j\<lparr>j_db := db', j_failed := fl, j_attempts := j_attempts j @ [a],
           j_active := (ak_ActionID k, length (j_attempts j)) # j_active j\<rparr>) I"
  proof -
    have "aw_target v \<noteq> aw_target w \<and> (aw_generation v, aw_container v) \<noteq> (aw_generation w, aw_container w)"
      if "v \<in> set (jd_actions db')" "aw_id v \<in> unresolved (j_db j) \<union> active_ids j" for v
      using acquire_admit_checks(2) [OF a inv w(3), of v] old that by blast
    then show ?thesis
      using inv_activate [OF i', of w a] acquire_admit_checks(1) [OF a inv w(3)] new w u by auto
  qed
qed

lemma not_active: "map_of (j_active j) aid = None \<Longrightarrow> aid \<notin> active_ids j"
  by (simp add: active_ids_def map_of_eq_None_iff)

text \<open>The body of an acquisition: it settles what is already there, denies what has expired, or admits.\<close>

lemma acquire_body_inv:
  assumes a: "acquire_body io j g k raw (j_db j) = Inr (db', a)" and inv: "journal_inv j I"
    and k: "CanonicalJournalMetadata k = Some raw" and t: "0 < ji_now io"
  shows "journal_inv (j\<lparr>j_db := db', j_failed := fl\<rparr>) I"
    and "journal_inv (j\<lparr>j_db := db', j_failed := fl, j_attempts := j_attempts j @ [a],
           j_active := (if at_mutable a then (ak_ActionID k, length (j_attempts j)) # j_active j else j_active j)\<rparr>) I"
proof -
  have *: "journal_inv (j\<lparr>j_db := db', j_failed := fl, j_attempts := j_attempts j @ [a], j_active := j_active j\<rparr>) I"
    if "journal_inv (j\<lparr>j_db := db', j_failed := fl\<rparr>) I" for db' using inv_append [OF that, of a] by simp
  obtain existing where rd: "read_record (j_binding j) (ji_fault io) (j_db j) (ak_ActionID k) = Some existing"
    using a by (auto simp: acquire_body_def split: option.splits)
  consider (settled) "db' = j_db j" "\<not> at_mutable a"
    | (denied) "sql_insert_event (denied_event (ak_ActionID k) (ji_now io)) (j_db j) = Some db'" "\<not> at_mutable a"
    | (admitted) "acquire_admit io j g k raw (ji_now io) existing (j_db j) = Inr (db', a)"
        "map_of (j_active j) (ak_ActionID k) = None" "\<And>r. existing = Some r \<Longrightarrow> jr_raw r = raw"
    using a rd by (auto simp: acquire_body_def new_attempt_def Let_def split: option.splits if_splits)
  then have "journal_inv (j\<lparr>j_db := db', j_failed := fl\<rparr>) I \<and>
      journal_inv (j\<lparr>j_db := db', j_failed := fl, j_attempts := j_attempts j @ [a],
           j_active := (if at_mutable a then (ak_ActionID k, length (j_attempts j)) # j_active j else j_active j)\<rparr>) I"
  proof cases
    case settled
    then show ?thesis using inv_failed [OF inv] * [of "j_db j"] by simp
  next
    case denied
    then show ?thesis using inv_event [OF inv denied(1)] * [of db'] by (simp add: denied_event_def)
  next
    case admitted
    then show ?thesis
      using acquire_admit_inv [OF admitted(1) inv rd admitted(3) k t not_active [OF admitted(2)]] by simp
  qed
  then show "journal_inv (j\<lparr>j_db := db', j_failed := fl\<rparr>) I"
    "journal_inv (j\<lparr>j_db := db', j_failed := fl, j_attempts := j_attempts j @ [a],
           j_active := (if at_mutable a then (ak_ActionID k, length (j_attempts j)) # j_active j else j_active j)\<rparr>) I"
    by blast+
qed

lemma acquire_inv:
  assumes "acquire io k g j = (x, j')" and inv: "journal_inv j I" and t: "0 < ji_now io"
  shows "journal_inv j' I"
proof (cases "j' = j")
  case False
  then obtain raw y j1 where k: "CanonicalJournalMetadata k = Some raw"
    and tr: "transactionGuarded io g (acquire_body io j g k raw) j = (y, j1)"
    and j': "j' = (case y of Inl _ \<Rightarrow> j1
      | Inr a \<Rightarrow> j1\<lparr>j_attempts := j_attempts j1 @ [a],
            j_active := (if at_mutable a then (ak_ActionID k, length (j_attempts j1)) # j_active j1 else j_active j1)\<rparr>)"
    using assms(1) by (auto simp: acquire_def Let_def split: if_splits option.splits prod.splits sum.splits)
  from tr show ?thesis
  proof (cases rule: transactionGuarded_cases)
    case (1 e fl)
    then show ?thesis using inv_failed [OF inv] j' by simp
  next
    case (2 db' a fl)
    show ?thesis using 2 j' acquire_body_inv [OF 2(1) inv k t, of fl] by auto
  qed
qed (use inv in simp)

section \<open>Transitions keep the invariants\<close>

lemma map_of_active: "active_ok j \<Longrightarrow> map_of (j_active j) aid = Some h \<longleftrightarrow> (aid, h) \<in> set (j_active j)"
  by (simp add: active_ok_def)

lemma transition_body_event:
  assumes "transition_body io j a c intent now db = Inr (db', ())" and "db_ok db"
  obtains w e where "w \<in> set (jd_actions db)" and "aw_metadata w = jr_raw (at_record a)"
    and "sql_insert_event e db = Some db'" and "event_key e = (aw_id w, if intent then 1 else 2)"
    and "aw_id w = jr_id (at_record a)" and "intent \<longrightarrow> now < ar_ExpiresAt (jr_request (at_record a))"
proof -
  obtain actual where rd: "read_record (j_binding j) (ji_fault io) db (jr_id (at_record a)) = Some (Some actual)"
    and eq: "jr_raw actual = jr_raw (at_record a)" and ex: "intent \<longrightarrow> now < ar_ExpiresAt (jr_request (at_record a))"
    and i: "sql_insert_event \<lparr>ew_id = jr_id (at_record a), ew_ordinal = (if intent then 1 else 2), ew_at = stamp now,
                   ew_code = (if intent then ''INTENT'' else code_text c), ew_reason = ''''\<rparr> db = Some db'"
    using assms(1) by (auto simp: transition_body_def split: option.splits if_splits)
  from rd assms(2) obtain w where "w \<in> set (jd_actions db)" "aw_id w = jr_id (at_record a)" "reads db w actual"
    by (rule read_record_Some)
  then show thesis using that [OF _ _ i] eq ex by (simp add: reads_row_def event_key_def)
qed

text \<open>
  A transition that reaches its transaction: the attempt is the active one of its action, and an
  intent holds a permit. Success appends the attempt's action to the dispatched ones.
\<close>

definition dispatched :: "journal \<Rightarrow> nat \<Rightarrow> bool \<Rightarrow> journal_err option \<Rightarrow> string list" where
  "dispatched j h intent x = (if intent \<and> x = None then [jr_raw (at_record (j_attempts j ! h))] else [])"

lemma transition_inv:
  assumes tr: "transition io h c intent j = (x, j')" and inv: "journal_inv j I" and t: "0 < ji_now io"
  shows "journal_inv j' (I @ dispatched j h intent x)"
proof (cases "j' = j \<and> x \<noteq> None")
  case False
  have ok: "db_ok (j_db j)" "active_ok j" using inv by (auto simp: journal_inv_def)
  let ?a = "j_attempts j ! h"
  let ?r = "at_record ?a"
  let ?r' = "if intent then ?r\<lparr>jr_intent := ji_now io\<rparr> else ?r\<lparr>jr_terminal := ji_now io, jr_code := c\<rparr>"
  obtain y j1 where h: "h < length (j_attempts j)" "map_of (j_active j) (jr_id ?r) = Some h"
    and z: "IsZero (jr_terminal ?r)" "intent \<longrightarrow> IsZero (jr_intent ?r)"
    and g: "transactionGuarded io (at_execution ?a) (transition_body io j ?a c intent (ji_now io)) j = (y, j1)"
    and res: "(\<exists>e. y = Inl e \<and> x = Some e \<and> j' = j1) \<or>
       y = Inr () \<and> x = None \<and> j' = j1\<lparr>j_attempts := (j_attempts j1)[h := ?a\<lparr>at_record := ?r'\<rparr>]\<rparr>"
    using tr False
    by (auto simp: transition_def attempt_at_def Let_def split: if_splits option.splits prod.splits sum.splits)
  have hact: "(jr_id ?r, h) \<in> set (j_active j)" using h(2) map_of_active [OF ok(2)] by simp
  from g show ?thesis
  proof (cases rule: transactionGuarded_cases)
    case (1 e fl)
    then show ?thesis using inv_failed [OF inv] res by (auto simp: dispatched_def)
  next
    case (2 db' u fl)
    have b: "transition_body io j ?a c intent (ji_now io) (j_db j) = Inr (db', ())" using 2 by simp
    obtain w e where w: "w \<in> set (jd_actions (j_db j))" "aw_metadata w = jr_raw ?r" "aw_id w = jr_id ?r"
      and e: "sql_insert_event e (j_db j) = Some db'" "event_key e = (aw_id w, if intent then 1 else 2)"
      by (rule transition_body_event [OF b ok(1)])
    have "jr_id ?r \<in> permit_ids j" if intent using hact z that by (auto simp: permit_ids_def)
    then have inv1: "journal_inv (j\<lparr>j_db := db', j_failed := fl\<rparr>) I"
      using e(2) w(3) by (intro inv_event [OF inv e(1)]) (auto simp: event_key_def split: if_splits)
    show ?thesis
    proof (cases x)
      case None
      have "jr_raw ?r \<notin> set I" "spent db' (jr_raw ?r)" if intent
        using spent_intent [OF ok(1) w(1) e(1)] e(2) w(2) inv that by (auto simp: journal_inv_def)
      then have inv2: "journal_inv (j\<lparr>j_db := db', j_failed := fl\<rparr>) (I @ dispatched j h intent x)"
        using inv1 None by (auto simp: journal_inv_def dispatched_def)
      have "same_attempt ?a (?a\<lparr>at_record := ?r'\<rparr>)" using t z by (auto simp: same_attempt_def IsZero_def)
      then show ?thesis
        using inv_update [OF inv2, of h "?a\<lparr>at_record := ?r'\<rparr>" "j_active j"] res None 2 ok(2)
        by (simp add: active_ok_def split del: if_split)
    next
      case (Some e)
      then show ?thesis using inv1 2 res by (auto simp: dispatched_def)
    qed
  qed
qed (use inv in \<open>auto simp: dispatched_def\<close>)

section \<open>Closing and restarting keep the invariants\<close>

lemma attempt_Close_inv:
  assumes inv: "journal_inv j I"
  shows "journal_inv (attempt_Close h j) I"
proof -
  have d: "distinct (map fst (j_active j))" using inv by (simp add: journal_inv_def active_ok_def)
  have same: "same_attempt (j_attempts j ! h) ((j_attempts j ! h)\<lparr>at_closed := True\<rparr>)" by (simp add: same_attempt_def)
  show ?thesis
    using inv d inv_update [OF inv same, of "filter (\<lambda>(aid, _). aid \<noteq> jr_id (at_record (j_attempts j ! h))) (j_active j)"]
      inv_update [OF inv same, of "j_active j"]
    unfolding attempt_Close_def attempt_at_def by (simp add: distinct_map_filter)
qed

lemma inv_restart:
  assumes "journal_inv j I" and "j_db j' = j_db j" and "j_active j' = []"
  shows "journal_inv j' I"
proof -
  have "unresolved (j_db j) \<union> permit_ids j' \<subseteq> unresolved (j_db j) \<union> permit_ids j"
    using assms(3) by (auto simp: permit_ids_def)
  then have "card (unresolved (j_db j) \<union> permit_ids j') \<le> 2"
    using assms(1) card_mono2 [of "unresolved (j_db j) \<union> permit_ids j"] by (simp add: journal_inv_def)
  moreover have "fenced (j_db j) (unresolved (j_db j) \<union> active_ids j')"
    by (rule fenced_mono [of "j_db j" "unresolved (j_db j) \<union> active_ids j"])
       (use assms in \<open>auto simp: journal_inv_def active_ids_def\<close>)
  ultimately show ?thesis using assms by (simp add: journal_inv_def active_ok_def)
qed

section \<open>Pruning keeps the invariants\<close>

text \<open>What holds after the loop when every denial and every deletion keeps it.\<close>

lemma prune_records_induct:
  assumes "prune_records io j now n rs db = Some db'" and "Q db"
    and "\<And>r db db'. r \<in> set rs \<Longrightarrow> Q db \<Longrightarrow> jr_id r \<notin> active_ids j \<Longrightarrow> IsZero (jr_intent r) \<Longrightarrow>
           sql_insert_event (denied_event (jr_id r) now) db = Some db' \<Longrightarrow> Q db'"
    and "\<And>r db. r \<in> set rs \<Longrightarrow> Q db \<Longrightarrow> jr_id r \<notin> active_ids j \<Longrightarrow> \<not> IsZero (jr_terminal r) \<Longrightarrow>
           jr_terminal r \<le> prune_cutoff now \<Longrightarrow> ar_ExpiresAt (jr_request r) \<le> prune_cutoff now \<Longrightarrow>
           Q (delete_both (jr_id r) db)"
  shows "Q db'"
  using assms
proof (induction rs arbitrary: n db)
  case (Cons r rs)
  note step = Cons.prems(3,4)
  have IH: "prune_records io j now m rs d = Some db' \<Longrightarrow> Q d \<Longrightarrow> Q db'" for m d
    using Cons.IH [of m d] step by (metis list.set_intros(2))
  show ?case
  proof (cases "n = 50 \<or> map_of (j_active j) (jr_id r) \<noteq> None")
    case True
    then show ?thesis using Cons.prems(1,2) IH [of n db] by (auto split: if_splits)
  next
    case False
    then have live: "jr_id r \<notin> active_ids j" by (simp add: not_active)
    let ?deny = "IsZero (jr_intent r) \<and> IsZero (jr_terminal r) \<and> \<not> now < ar_ExpiresAt (jr_request r)"
    let ?drop = "\<not> IsZero (jr_terminal r) \<and> \<not> prune_cutoff now < jr_terminal r \<and> \<not> prune_cutoff now < ar_ExpiresAt (jr_request r)"
    consider ?deny | "\<not> ?deny" ?drop | "\<not> ?deny" "\<not> ?drop" by blast
    then show ?thesis
    proof cases
      case 1
      then obtain d where "sql_insert_event (denied_event (jr_id r) now) db = Some d" "prune_records io j now (Suc n) rs d = Some db'"
        using Cons.prems(1) False by (simp split: if_splits option.splits)
      then show ?thesis using IH step(1) [of r db d] Cons.prems(2) live 1 by simp
    next
      case 2
      then have "prune_records io j now (Suc n) rs (delete_both (jr_id r) db) = Some db'"
        using Cons.prems(1) False by (simp add: sql_delete_both split: if_splits)
      then show ?thesis using IH step(2) [of r db] Cons.prems(2) live 2 by simp
    next
      case 3
      then have "prune_records io j now n rs db = Some db'" using Cons.prems(1) False by (simp split: if_splits)
      then show ?thesis using IH Cons.prems(2) by simp
    qed
  qed
qed simp

lemma spent_by_delete:
  assumes s: "spent_by db raw c" and ok: "db_ok db" and k: "CanonicalJournalMetadata k = Some m"
    and rows: "\<And>w. w \<in> set (jd_actions db) \<Longrightarrow> aw_id w = aid \<Longrightarrow> aw_metadata w = m" and e: "ar_ExpiresAt (key_request k) \<le> c"
  shows "spent_by (delete_both aid db) raw c"
proof -
  have acts: "set (jd_actions (delete_both aid db)) = {w \<in> set (jd_actions db). aw_id w \<noteq> aid}"
    by (auto simp: delete_both_def)
  have "intended (delete_both aid db) raw"
    using s by (auto simp: spent_by_def intended_def acts has_event_delete)
  moreover have "\<exists>k. CanonicalJournalMetadata k = Some raw \<and> ar_ExpiresAt (key_request k) \<le> c"
    if "raw \<notin> aw_metadata ` set (jd_actions (delete_both aid db))"
  proof (cases "raw \<in> aw_metadata ` set (jd_actions db)")
    case True
    then have "raw = m" using that rows by (auto simp: acts)
    then show ?thesis using k e by blast
  next
    case False
    then show ?thesis using s by (simp add: spent_by_def)
  qed
  ultimately show ?thesis by (simp add: spent_by_def)
qed

lemma floor_set_floor:
  assumes "sql_set_floor (stamp t) db = Some db'" and "floor_time b f db' = Some fl"
  shows "fl = t"
  using assms parseTime_stamp [of t fl]
  by (auto simp: sql_set_floor_def floor_time_def Let_def length_Suc_conv split: if_splits option.splits)

lemma set_floor_frame:
  "sql_set_floor s db = Some db' \<Longrightarrow> jd_actions db' = jd_actions db \<and> jd_events db' = jd_events db"
  by (auto simp: sql_set_floor_def Let_def split: if_splits)

text \<open>
  The state of the tables while a pruning pass is under way: rows only disappear, active rows stay,
  nothing becomes unresolved, and whatever was dispatched stays on record or expired by the new floor.
\<close>

definition pruning :: "journal \<Rightarrow> string list \<Rightarrow> gotime \<Rightarrow> journal_db \<Rightarrow> bool" where
  "pruning j I c db \<longleftrightarrow>
     db_ok db \<and> set (jd_actions db) \<subseteq> set (jd_actions (j_db j)) \<and> unresolved db \<subseteq> unresolved (j_db j) \<and>
     (\<forall>w \<in> set (jd_actions (j_db j)). aw_id w \<in> active_ids j \<longrightarrow> w \<in> set (jd_actions db)) \<and>
     (\<forall>raw \<in> set I. spent_by db raw c)"

lemma pruning_deny:
  assumes "pruning j I c db" and "sql_insert_event (denied_event aid now) db = Some db'"
  shows "pruning j I c db'"
proof -
  have "unresolved db' \<subseteq> unresolved db \<union> {}"
    by (rule unresolved_insert_event [OF assms(2)]) (simp add: denied_event_def)
  then show ?thesis
    using assms sql_insert_event_frame [OF assms(2)] db_ok_insert_event [OF assms(2)] spent_by_insert_event [OF assms(2)]
    by (auto simp: pruning_def)
qed

lemma pruning_delete:
  assumes p: "pruning j I c db" and inv: "db_ok (j_db j)" and r: "w \<in> set (jd_actions (j_db j))" "reads_row w r"
    and a: "jr_id r \<notin> active_ids j" and e: "ar_ExpiresAt (jr_request r) \<le> c"
  shows "pruning j I c (delete_both (jr_id r) db)"
proof -
  have ok: "db_ok db" "set (jd_actions db) \<subseteq> set (jd_actions (j_db j))" using p by (auto simp: pruning_def)
  have id: "aw_id w = jr_id r" "CanonicalJournalMetadata (jr_key r) = Some (aw_metadata w)"
    using r(2) by (auto simp: reads_row_def row_key_def)
  have rows: "aw_metadata v = aw_metadata w" if "v \<in> set (jd_actions db)" "aw_id v = jr_id r" for v
    using row_unique [OF inv _ r(1), of v] that ok(2) id(1) by auto
  have "spent_by (delete_both (jr_id r) db) raw c" if "raw \<in> set I" for raw
    by (rule spent_by_delete [OF _ ok(1) id(2) rows e]) (use p that in \<open>auto simp: pruning_def\<close>)
  moreover have "unresolved (delete_both (jr_id r) db) \<subseteq> unresolved db"
    by (auto simp: unresolved_def has_event_delete)
  ultimately show ?thesis
    using p a db_ok_delete [OF ok(1)] by (auto simp: pruning_def delete_both_def)
qed

lemma prune_body_pruning:
  assumes "prune_body io j (j_db j) = Inr (db', ())" and inv: "journal_inv j I"
  obtains c db1 where "pruning j I c db1" and "sql_set_floor (stamp c) db1 = Some db'"
proof -
  let ?cut = "prune_cutoff (ji_now io)"
  have ok: "db_ok (j_db j)" using inv by (auto simp: journal_inv_def)
  obtain f0 rs db1 where f: "floor_time (j_binding j) (ji_fault io) (j_db j) = Some f0"
    and rs: "all_records (j_binding j) (\<lambda>i. ji_fault io (i + 2)) (j_db j) = Some rs"
    and pr: "prune_records io j (ji_now io) 0 rs (j_db j) = Some db1"
    and sf: "sql_set_floor (stamp (if ?cut < f0 then f0 else ?cut)) db1 = Some db'"
    using assms(1) by (auto simp: prune_body_def Let_def split: option.splits if_splits)
  define c where "c = (if ?cut < f0 then f0 else ?cut)"
  have c: "f0 \<le> c" "?cut \<le> c" by (auto simp: c_def)
  have "pruning j I c (j_db j)"
    using inv f spent_by_mono [OF _ c(1)] by (auto simp: pruning_def journal_inv_def spent_def)
  then have "pruning j I c db1"
  proof (rule prune_records_induct [OF pr])
    fix r db assume r: "r \<in> set rs" "pruning j I c db" "jr_id r \<notin> active_ids j" "ar_ExpiresAt (jr_request r) \<le> ?cut"
    from load_record [OF rs [unfolded all_records_def] ok r(1)] obtain w
      where "w \<in> set (jd_actions (j_db j))" "reads_row w r" by blast
    then show "pruning j I c (delete_both (jr_id r) db)"
      using pruning_delete [OF r(2) ok _ _ r(3)] r(4) c(2) by auto
  qed (rule pruning_deny)
  then show thesis using that sf by (simp add: c_def)
qed

lemma set_floor_same:
  assumes "sql_set_floor s db = Some db'"
  shows "has_event db' = has_event db" and "unresolved db' = unresolved db" and "spent_by db' raw d = spent_by db raw d"
    and "intended db' raw = intended db raw"
  using set_floor_frame [OF assms] by (auto simp: has_event_def fun_eq_iff unresolved_def spent_by_def intended_def)

lemma prune_body_resolves:
  assumes "prune_body io j (j_db j) = Inr (db', ())" and "journal_inv j I"
  shows "unresolved db' \<subseteq> unresolved (j_db j)"
  using assms by (rule prune_body_pruning) (simp add: pruning_def set_floor_same)

lemma prune_body_inv:
  assumes "prune_body io j (j_db j) = Inr (db', ())" and inv: "journal_inv j I"
  shows "journal_inv (j\<lparr>j_db := db', j_failed := fl\<rparr>) I"
proof -
  obtain c db1 where p: "pruning j I c db1" and sf: "sql_set_floor (stamp c) db1 = Some db'"
    by (rule prune_body_pruning [OF assms])
  note fr = set_floor_frame [OF sf] and same = set_floor_same [OF sf]
  have "spent db' raw" if "raw \<in> set I" for raw
    using p that floor_set_floor [OF sf] unfolding spent_def same by (auto simp: pruning_def spent_by_def)
  moreover have "active_ok (j\<lparr>j_db := db', j_failed := fl\<rparr>)"
    by (rule active_ok_rows) (use inv p fr in \<open>auto simp: pruning_def journal_inv_def\<close>)
  moreover have "card (unresolved db' \<union> permit_ids j) \<le> 2"
    by (rule card_mono2 [of "unresolved (j_db j) \<union> permit_ids j"])
       (use inv p same(2) in \<open>auto simp: journal_inv_def pruning_def\<close>)
  moreover have "fenced db' (unresolved db' \<union> active_ids j)"
    by (rule fenced_mono [of "j_db j" "unresolved (j_db j) \<union> active_ids j"])
       (use inv p same(2) fr in \<open>auto simp: journal_inv_def pruning_def\<close>)
  ultimately show ?thesis
    using inv p db_ok_set_floor [OF sf] by (simp add: journal_inv_def pruning_def)
qed

lemma Prune_inv:
  assumes "Prune io j = (x, j')" and inv: "journal_inv j I"
  shows "journal_inv j' I"
proof (cases "j' = j")
  case False
  then obtain y where tr: "transactionGuarded io None (prune_body io j) j = (y, j')"
    using assms(1) by (auto simp: Prune_def journal_transaction_def split: if_splits prod.splits sum.splits)
  then show ?thesis
    by (cases rule: transactionGuarded_cases) (use inv_failed [OF inv] prune_body_inv [OF _ inv] in auto)
qed (use inv in simp)

section \<open>Runs\<close>

text \<open>
  One step of the journal and of the list of dispatched actions, by any of its users. A restart
  may happen at any moment; attempts handed out before it are dead. The clock is after year 1.
\<close>

definition close_all :: "attempt list \<Rightarrow> attempt list" where
  "close_all as = map (\<lambda>a. a\<lparr>at_closed := True\<rparr>) as"

inductive journal_step :: "journal_binding \<Rightarrow> journal \<times> string list \<Rightarrow> journal \<times> string list \<Rightarrow> bool"
  for b :: journal_binding where
  acquire: "acquire io k g j = (x, j') \<Longrightarrow> 0 < ji_now io \<Longrightarrow> journal_step b (j, I) (j', I)"
| intent: "Intent io h j = (x, j') \<Longrightarrow> 0 < ji_now io \<Longrightarrow> journal_step b (j, I) (j', I @ dispatched j h True x)"
| finish: "Finish io h c j = (x, j') \<Longrightarrow> 0 < ji_now io \<Longrightarrow> journal_step b (j, I) (j', I)"
| close: "journal_step b (j, I) (attempt_Close h j, I)"
| prune: "Prune io j = (x, j') \<Longrightarrow> journal_step b (j, I) (j', I)"
| shutdown: "Journal_Close fails j = (x, j') \<Longrightarrow> journal_step b (j, I) (j', I)"
| restart: "OpenExisting oi (j_db j) b = (Inr j', db') \<Longrightarrow>
    journal_step b (j, I) (j'\<lparr>j_attempts := close_all (j_attempts j)\<rparr>, I)"

inductive_cases journal_stepE: "journal_step b s t"

inductive journal_run :: "journal_binding \<Rightarrow> journal \<times> string list \<Rightarrow> bool" for b :: journal_binding where
  provision: "Provision oi db b = (Inr j, db') \<Longrightarrow> journal_run b (j, [])"
| step: "journal_run b s \<Longrightarrow> journal_step b s t \<Longrightarrow> journal_run b t"

lemma journal_run_steps: "(journal_step b)\<^sup>*\<^sup>* s t \<Longrightarrow> journal_run b s \<Longrightarrow> journal_run b t"
  by (induction rule: rtranclp_induct) (auto intro: journal_run.step)

lemma open_journal_Inr:
  assumes "open_journal oi db b create = (Inr j, db')"
  shows "j_active j = []" and "\<not> create \<Longrightarrow> j_db j = db" and "j_attempts j = []" and "j_binding j = b" and "usable j"
    and "create \<Longrightarrow> jd_actions (j_db j) = [] \<and> jd_events (j_db j) = []" and "verify oi b (j_db j)"
  using assms
  by (auto simp: open_journal_def journal_transaction_def journal_provision_body_def sql_insert_meta_def
      empty_journal_db_def usable_def Let_def
      elim!: transactionGuarded_cases split: if_splits option.splits prod.splits)

lemma journal_step_inv:
  assumes "journal_step b (j, I) (j', I')" and "journal_inv j I"
  shows "journal_inv j' I'"
  using assms(1)
proof cases
  case (acquire io k g x)
  then show ?thesis using acquire_inv assms(2) by blast
next
  case (intent io h x)
  then show ?thesis using transition_inv [OF _ assms(2)] by (simp add: Intent_def)
next
  case (finish io h c x)
  then show ?thesis using transition_inv [OF _ assms(2), of io h c False x j'] by (simp add: Finish_def dispatched_def)
next
  case (close h)
  then show ?thesis using attempt_Close_inv assms(2) by blast
next
  case (prune io x)
  then show ?thesis using Prune_inv assms(2) by blast
next
  case (shutdown fails x)
  then show ?thesis using inv_restart [OF assms(2), of j'] by (auto simp: Journal_Close_def)
next
  case (restart oi j1 db')
  then show ?thesis
    using inv_restart [OF assms(2), of j'] open_journal_Inr [of oi "j_db j" b False j1 db'] by (simp add: OpenExisting_def)
qed

lemma journal_run_inv: "journal_run b s \<Longrightarrow> journal_inv (fst s) (snd s)"
proof (induction rule: journal_run.induct)
  case (provision oi db j db')
  have "j_active j = []" "jd_actions (j_db j) = []" "jd_events (j_db j) = []"
    using open_journal_Inr [of oi db b True j db'] provision by (simp_all add: Provision_def)
  then show ?case
    by (simp add: journal_inv_def db_ok_def active_ok_def unresolved_def has_event_def permit_ids_def fenced_def)
next
  case (step s t)
  then show ?case using journal_step_inv [of b "fst s" "snd s" "fst t" "snd t"] by simp
qed

section \<open>Handles\<close>

text \<open>The metadata of an attempt never changes, whoever uses the journal.\<close>

definition handle_raw :: "journal \<Rightarrow> nat \<Rightarrow> string" where
  "handle_raw j h = jr_raw (at_record (j_attempts j ! h))"

lemma transactionGuarded_frame:
  assumes "transactionGuarded io g body j = (x, j')"
  shows "j_attempts j' = j_attempts j" and "j_active j' = j_active j" and "j_binding j' = j_binding j"
  using assms by (auto elim!: transactionGuarded_cases)

lemma acquire_body_raw: "acquire_body io j g k raw db = Inr (db', a) \<Longrightarrow> jr_raw (at_record a) = raw"
  by (auto simp: acquire_body_def acquire_admit_def new_attempt_def fresh_record_def Let_def split: option.splits if_splits)

lemma acquire_attempts:
  assumes "acquire io k g j = (x, j')"
  shows "case x of Inl e \<Rightarrow> j_attempts j' = j_attempts j
    | Inr h \<Rightarrow> h = length (j_attempts j) \<and>
        (\<exists>a. j_attempts j' = j_attempts j @ [a] \<and> CanonicalJournalMetadata k = Some (jr_raw (at_record a)))"
  using assms
  by (auto simp: acquire_def Let_def acquire_body_raw elim!: transactionGuarded_cases
      split: if_splits option.splits prod.splits sum.splits)

definition handles_kept :: "journal \<Rightarrow> journal \<Rightarrow> bool" where
  "handles_kept j j' \<longleftrightarrow> length (j_attempts j) \<le> length (j_attempts j') \<and>
     (\<forall>h < length (j_attempts j). handle_raw j' h = handle_raw j h)"

lemma handles_kept_refl [simp]: "handles_kept j j"
  by (simp add: handles_kept_def)

lemma handles_kept_trans: "handles_kept j j' \<Longrightarrow> handles_kept j' j'' \<Longrightarrow> handles_kept j j''"
  by (simp add: handles_kept_def)

lemma handles_kept_update:
  assumes "j_attempts j' = (j_attempts j)[h := a]" and "jr_raw (at_record a) = handle_raw j h"
  shows "handles_kept j j'"
proof -
  have "handle_raw j' i = handle_raw j i" if "i < length (j_attempts j)" for i
    using assms that by (cases "i = h") (auto simp: handle_raw_def)
  then show ?thesis using assms(1) by (simp add: handles_kept_def)
qed

lemma transition_handles:
  assumes "transition io h c intent j = (x, j')"
  shows "handles_kept j j'"
proof (cases "x = None")
  case True
  show ?thesis
    by (rule handles_kept_update [where h = h and a = "j_attempts j' ! h"])
       (use assms True in \<open>auto simp: transition_def attempt_at_def handle_raw_def Let_def
          elim!: transactionGuarded_cases split: if_splits option.splits prod.splits sum.splits\<close>)
next
  case False
  then have "j_attempts j' = j_attempts j"
    using assms by (auto simp: transition_def Let_def elim!: transactionGuarded_cases
        split: if_splits option.splits prod.splits sum.splits)
  then show ?thesis by (simp add: handles_kept_def handle_raw_def)
qed

lemma acquire_handles: "acquire io k g j = (x, j') \<Longrightarrow> handles_kept j j'"
  using acquire_attempts [of io k g j x j'] by (auto simp: handles_kept_def handle_raw_def nth_append split: sum.splits)

lemma journal_step_handles:
  assumes "journal_step b (j, I) (j', I')"
  shows "handles_kept j j'" and "\<exists>new. I' = I @ new"
proof -
  from assms have "handles_kept j j' \<and> (\<exists>new. I' = I @ new)"
  proof cases
    case (acquire io k g x)
    then show ?thesis using acquire_handles by simp
  next
    case (intent io h x)
    then show ?thesis using transition_handles by (simp add: Intent_def)
  next
    case (finish io h c x)
    then show ?thesis using transition_handles by (simp add: Finish_def)
  next
    case (close h)
    then show ?thesis
      using handles_kept_update [of j' j h "(j_attempts j ! h)\<lparr>at_closed := True\<rparr>"]
      by (auto simp: attempt_Close_def attempt_at_def handle_raw_def)
  next
    case (prune io x)
    then have "j_attempts j' = j_attempts j"
      by (auto simp: Prune_def journal_transaction_def elim!: transactionGuarded_cases split: if_splits prod.splits sum.splits)
    then show ?thesis using prune by (simp add: handles_kept_def handle_raw_def)
  next
    case (shutdown fails x)
    then show ?thesis
      by (auto simp: Journal_Close_def handles_kept_def handle_raw_def nth_enumerate_eq)
  next
    case (restart oi j1 db')
    then show ?thesis by (simp add: handles_kept_def handle_raw_def close_all_def)
  qed
  then show "handles_kept j j'" "\<exists>new. I' = I @ new" by simp_all
qed

lemma journal_steps_handles:
  assumes "(journal_step b)\<^sup>*\<^sup>* s t"
  shows "handles_kept (fst s) (fst t) \<and> (\<exists>new. snd t = snd s @ new)"
  using assms
proof (induction rule: rtranclp_induct)
  case (step t u)
  then show ?case
    using journal_step_handles [of b "fst t" "snd t" "fst u" "snd u"] handles_kept_trans by auto
qed simp

section \<open>Recorded results\<close>

text \<open>A loaded record with a terminal time carries one of the results an action can end with.\<close>

definition coded :: "jrecord \<Rightarrow> bool" where
  "coded r \<longleftrightarrow> jr_code r \<noteq> OutcomeUnknown \<and>
     (\<not> IsZero (jr_terminal r) \<longrightarrow> jr_code r \<notin> {NoCode, Unavailable, BudgetExceeded, IdentityConflict})"

lemma validateEvent_coded: "validateEvent r e = Some r' \<Longrightarrow> coded r \<Longrightarrow> coded r'"
  by (auto simp: validateEvent_def coded_def terminalAllowed_def split: option.splits if_splits)

lemma loadEvents_coded: "loadEvents n es rs = Some rs' \<Longrightarrow> \<forall>r \<in> set rs. coded r \<Longrightarrow> \<forall>r \<in> set rs'. coded r"
proof (induction es arbitrary: n rs)
  case (Cons e es)
  from Cons.prems(1) obtain r r' where f: "find (\<lambda>r. jr_id r = ew_id e) rs = Some r" and v: "validateEvent r e = Some r'"
    and l: "loadEvents (Suc n) es (map (\<lambda>x. if jr_id x = ew_id e then r' else x) rs) = Some rs'"
    by (auto split: if_splits option.splits)
  have "coded r'" using validateEvent_coded [OF v] Cons.prems(2) f by (auto simp: find_Some_iff)
  then have "\<forall>r \<in> set (map (\<lambda>x. if jr_id x = ew_id e then r' else x) rs). coded r" using Cons.prems(2) by auto
  then show ?case by (rule Cons.IH [OF l])
qed simp

lemma loadActions_coded: "loadActions b ws rs = Some rs' \<Longrightarrow> \<forall>r \<in> set rs. coded r \<Longrightarrow> \<forall>r \<in> set rs'. coded r"
proof (induction ws arbitrary: rs)
  case (Cons w ws)
  from Cons.prems(1) obtain r where r: "validateAction b w = Some r" and l: "loadActions b ws (rs @ [r]) = Some rs'"
    by (auto split: if_splits option.splits)
  have "coded r" using r by (auto simp: validateAction_def coded_def IsZero_def split: option.splits if_splits)
  then have "\<forall>r \<in> set (rs @ [r]). coded r" using Cons.prems(2) by simp
  then show ?case by (rule Cons.IH [OF l])
qed simp

lemma load_coded: "load b f db scope = Some rs \<Longrightarrow> r \<in> set rs \<Longrightarrow> coded r"
proof -
  assume "load b f db scope = Some rs" and r: "r \<in> set rs"
  then obtain rs0 where a: "loadActions b (sort_key aw_id (filter (in_scope scope) (jd_actions db))) [] = Some rs0"
    and e: "loadEvents 0 (sort_key event_key (filter (event_in_scope db scope) (jd_events db))) rs0 = Some rs"
    by (auto simp: load_def split: if_splits option.splits)
  show "coded r" using loadEvents_coded [OF e] loadActions_coded [OF a] r by simp
qed

lemma read_coded: "read_record b f db aid = Some (Some r) \<Longrightarrow> coded r"
  using load_coded [of b f db "OneRecord aid" "[r]" r] by (auto simp: read_record_def split: option.splits list.splits)

text \<open>
  A loaded record carries the time and the code of its terminal event; without one it has neither.
\<close>

definition carries :: "event_row set \<Rightarrow> jrecord \<Rightarrow> bool" where
  "carries E r \<longleftrightarrow>
     (\<forall>e \<in> E. event_key e = (jr_id r, 2) \<longrightarrow> parseTime (ew_at e) = Some (jr_terminal r) \<and> jr_code r = text_code (ew_code e)) \<and>
     ((jr_id r, 2) \<notin> event_key ` E \<longrightarrow> jr_terminal r = 0 \<and> jr_code r = NoCode)"

lemma carries_empty: "validateAction b w = Some r \<Longrightarrow> carries {} r"
  by (auto simp: validateAction_def carries_def split: option.splits if_splits)

lemma validateEvent_carries:
  assumes "validateEvent r e = Some r'" "carries E r" "jr_id r = ew_id e" "event_key e \<notin> event_key ` E"
  shows "carries (insert e E) r'"
  using assms
  by (auto simp: validateEvent_def carries_def event_key_def image_iff split: option.splits if_splits)

lemma carries_other: "carries E r \<Longrightarrow> jr_id r \<noteq> ew_id e \<Longrightarrow> carries (insert e E) r"
  by (auto simp: carries_def event_key_def)

lemma carries_cong: "(\<And>x. event_key x = (jr_id r, 2) \<Longrightarrow> x \<in> E \<longleftrightarrow> x \<in> F) \<Longrightarrow> carries E r \<longleftrightarrow> carries F r"
  unfolding carries_def image_iff Bex_def Ball_def by metis

lemma loadActions_carries: "loadActions b ws rs = Some rs' \<Longrightarrow> \<forall>r \<in> set rs. carries {} r \<Longrightarrow> \<forall>r \<in> set rs'. carries {} r"
proof (induction ws arbitrary: rs)
  case (Cons w ws)
  from Cons.prems(1) obtain r where r: "validateAction b w = Some r" and l: "loadActions b ws (rs @ [r]) = Some rs'"
    by (auto split: if_splits option.splits)
  show ?case by (rule Cons.IH [OF l]) (use carries_empty [OF r] Cons.prems(2) in simp)
qed simp

lemma loadEvents_carries:
  assumes "loadEvents n es rs = Some rs'" "\<forall>r \<in> set rs. carries E r" "distinct (map event_key es)" "event_key ` E \<inter> event_key ` set es = {}"
  shows "\<forall>r \<in> set rs'. carries (E \<union> set es) r"
  using assms
proof (induction es arbitrary: n rs E)
  case (Cons e es)
  from Cons.prems(1) obtain r r' where f: "find (\<lambda>r. jr_id r = ew_id e) rs = Some r" and v: "validateEvent r e = Some r'"
    and l: "loadEvents (Suc n) es (map (\<lambda>x. if jr_id x = ew_id e then r' else x) rs) = Some rs'"
    by (auto split: if_splits option.splits)
  have "r \<in> set rs" "jr_id r = ew_id e" using f by (auto simp: find_Some_iff)
  then have "carries (insert e E) r'" using validateEvent_carries [OF v] Cons.prems(2,4) by auto
  then have "\<forall>x \<in> set (map (\<lambda>x. if jr_id x = ew_id e then r' else x) rs). carries (insert e E) x"
    using Cons.prems(2) carries_other by auto
  from Cons.IH [OF l this] show ?case using Cons.prems(3,4) by auto
qed simp

lemma load_carries:
  assumes "load b f db scope = Some rs" and ok: "db_ok db" and r: "r \<in> set rs"
  shows "carries (set (jd_events db)) r"
proof -
  let ?es = "sort_key event_key (filter (event_in_scope db scope) (jd_events db))"
  obtain rs0 where a: "loadActions b (sort_key aw_id (filter (in_scope scope) (jd_actions db))) [] = Some rs0"
    and e: "loadEvents 0 ?es rs0 = Some rs"
    using assms(1) by (auto simp: load_def split: if_splits option.splits)
  have "distinct (map event_key (jd_events db))" using ok by (simp add: db_ok_def)
  then have "distinct (map event_key ?es)" by (auto simp: distinct_map intro: inj_on_subset)
  from loadEvents_carries [OF e _ this, of "{}"] loadActions_carries [OF a] r have c: "carries (set ?es) r" by simp
  obtain w where w: "w \<in> set (jd_actions db)" "in_scope scope w" "jr_id r = aw_id w"
    using load_record [OF assms] by (metis reads_row_def row_key_def)
  have "event_in_scope db scope x" if "x \<in> set (jd_events db)" "ew_id x = jr_id r" for x
    using that w by (cases scope) auto
  then have "x \<in> set ?es \<longleftrightarrow> x \<in> set (jd_events db)" if "event_key x = (jr_id r, 2)" for x
    using that by (auto simp: event_key_def)
  from carries_cong [OF this] show ?thesis using c by simp
qed

lemma read_carries:
  assumes "read_record b f db aid = Some (Some r)" "db_ok db"
  shows "carries (set (jd_events db)) r"
  using load_carries [of b f db "OneRecord aid" "[r]" r] assms by (auto simp: read_record_def split: option.splits list.splits)

section \<open>Pruning and unresolved actions\<close>

lemma prune_records_unresolved:
  assumes "prune_records io j now n rs (j_db j) = Some db'" and ok: "db_ok (j_db j)"
    and rs: "\<And>r. r \<in> set rs \<Longrightarrow> \<exists>w \<in> set (jd_actions (j_db j)). reads (j_db j) w r"
  shows "unresolved (j_db j) \<subseteq> unresolved db' \<and> (\<forall>w \<in> set (jd_actions (j_db j)). aw_id w \<in> unresolved (j_db j) \<longrightarrow> w \<in> set (jd_actions db'))"
  using assms(1)
proof (rule prune_records_induct)
  fix r db db'
  assume r: "r \<in> set rs" "IsZero (jr_intent r)" and i: "sql_insert_event (denied_event (jr_id r) now) db = Some db'"
    and IH: "unresolved (j_db j) \<subseteq> unresolved db \<and>
      (\<forall>w \<in> set (jd_actions (j_db j)). aw_id w \<in> unresolved (j_db j) \<longrightarrow> w \<in> set (jd_actions db))"
  have "jr_id r \<notin> unresolved (j_db j)" using rs [OF r(1)] r(2) by (auto simp: marks_has_event unresolved_def)
  then show "unresolved (j_db j) \<subseteq> unresolved db' \<and>
      (\<forall>w \<in> set (jd_actions (j_db j)). aw_id w \<in> unresolved (j_db j) \<longrightarrow> w \<in> set (jd_actions db'))"
    using IH has_event_insert [OF i] sql_insert_event_frame [OF i]
    by (auto simp: unresolved_def denied_event_def event_key_def)
next
  fix r db
  assume r: "r \<in> set rs" "\<not> IsZero (jr_terminal r)"
    and IH: "unresolved (j_db j) \<subseteq> unresolved db \<and>
      (\<forall>w \<in> set (jd_actions (j_db j)). aw_id w \<in> unresolved (j_db j) \<longrightarrow> w \<in> set (jd_actions db))"
  have "jr_id r \<notin> unresolved (j_db j)" using rs [OF r(1)] r(2) by (auto simp: marks_has_event unresolved_def)
  then show "unresolved (j_db j) \<subseteq> unresolved (delete_both (jr_id r) db) \<and>
      (\<forall>w \<in> set (jd_actions (j_db j)). aw_id w \<in> unresolved (j_db j) \<longrightarrow> w \<in> set (jd_actions (delete_both (jr_id r) db)))"
    using IH by (auto simp: unresolved_def has_event_delete) (auto simp: delete_both_def)
qed simp

lemma prune_body_unresolved:
  assumes "prune_body io j (j_db j) = Inr (db', ())" and ok: "db_ok (j_db j)"
  shows "unresolved (j_db j) \<subseteq> unresolved db' \<and> (\<forall>w \<in> set (jd_actions (j_db j)). aw_id w \<in> unresolved (j_db j) \<longrightarrow> w \<in> set (jd_actions db'))"
proof -
  obtain f0 rs db1 c where rs: "all_records (j_binding j) (\<lambda>i. ji_fault io (i + 2)) (j_db j) = Some rs"
    and pr: "prune_records io j (ji_now io) 0 rs (j_db j) = Some db1" and sf: "sql_set_floor (stamp c) db1 = Some db'"
    using assms(1) by (auto simp: prune_body_def Let_def split: option.splits if_splits)
  have "\<exists>w \<in> set (jd_actions (j_db j)). reads (j_db j) w r" if "r \<in> set rs" for r
    using load_record [OF rs [unfolded all_records_def] ok that] by metis
  from prune_records_unresolved [OF pr ok this] show ?thesis
    using set_floor_frame [OF sf] by (auto simp: unresolved_def has_event_def)
qed

end
