(* ===== verification/ActionWorld.thy ===== *)
theory ActionWorld
  imports JournalRun
begin

text \<open>
  The action worker of \<^verbatim>\<open>internal/actioncore\<close> on the action journal of \<^verbatim>\<open>internal/actionjournal\<close>. Authority,
  engine, clock and contexts answer from an oracle, numbered by the calls made so far. Before every
  call the other users of the journal (further workers, the pruning, the shutdown) may take any number
  of steps: executions of several workers interleave at the granularity of the worker's calls.
\<close>

section \<open>The world of a worker\<close>

record action_oracle =
  ao_composed :: bool
  ao_now :: "nat \<Rightarrow> gotime"
  ao_ctx_err :: "nat \<Rightarrow> ctx \<Rightarrow> bool"
  ao_until :: "nat \<Rightarrow> ctx \<Rightarrow> duration option"
  ao_check :: "nat \<Rightarrow> action_request \<Rightarrow> action_binding \<Rightarrow> bool"
  ao_inspect :: "nat \<Rightarrow> string \<Rightarrow> container_state option"
  ao_call :: "nat \<Rightarrow> operation \<Rightarrow> string \<Rightarrow> uint8 \<Rightarrow> duration \<Rightarrow> bool"
  ao_journal :: "nat \<Rightarrow> journal_io"
  ao_others :: "nat \<Rightarrow> journal \<times> string list \<Rightarrow> journal \<times> string list"

record action_world =
  wo_journal :: journal
  wo_log :: "string list"
  wo_trace :: "nat action_event list"
  wo_ticks :: nat

definition others_step :: "action_oracle \<Rightarrow> action_world \<Rightarrow> action_world" where
  "others_step orc w =
     (case ao_others orc (wo_ticks w) (wo_journal w, wo_log w) of
        (j, I) \<Rightarrow> w\<lparr>wo_journal := j, wo_log := I, wo_ticks := Suc (wo_ticks w)\<rparr>)"

text \<open>The number of the call, after the others have moved.\<close>

definition tick :: "action_oracle \<Rightarrow> (action_world, nat) state" where
  "tick orc = do { w \<leftarrow> State_Monad.get; State_Monad.set (others_step orc w); ret (wo_ticks w) }"

definition observe :: "nat action_event \<Rightarrow> (action_world, unit) state" where
  "observe e = State_Monad.update (\<lambda>w. w\<lparr>wo_trace := wo_trace w @ [e]\<rparr>)"

text \<open>A call that returns an answer of the oracle and leaves an event.\<close>

definition answer :: "action_oracle \<Rightarrow> (nat \<Rightarrow> 'a) \<Rightarrow> (action_world, 'a) state" where
  "answer orc f = do { n \<leftarrow> tick orc; ret (f n) }"

definition observed :: "action_oracle \<Rightarrow> (nat \<Rightarrow> 'a) \<Rightarrow> ('a \<Rightarrow> nat action_event) \<Rightarrow> (action_world, 'a) state" where
  "observed orc f ev = do { n \<leftarrow> tick orc; observe (ev (f n)); ret (f n) }"

definition acquired_of :: "journal_err + nat \<Rightarrow> nat acquired" where
  "acquired_of x =
     (case x of
        Inr h \<Rightarrow> Acquired h
      | Inl e \<Rightarrow> if e = JErrIdentityConflict then AcquireConflict
                 else if e = JErrUnresolvedTarget then AcquireUnresolved else AcquireFailed)"

text \<open>The journal directly, or bound to the live receipt of one action.\<close>

definition world_acquire ::
  "action_oracle \<Rightarrow> bound_execution option \<Rightarrow> action_key \<Rightarrow> (action_world, nat acquired) state" where
  "world_acquire orc bound k = do {
     n \<leftarrow> tick orc;
     w \<leftarrow> State_Monad.get;
     let (x, j') = (case bound of None \<Rightarrow> Acquire (ao_journal orc n) k (wo_journal w)
                                | Some be \<Rightarrow> bound_Acquire (ao_journal orc n) be k (wo_journal w));
     State_Monad.set (w\<lparr>wo_journal := j'\<rparr>);
     observe (EvAcquire k (acquired_handle (acquired_of x)));
     ret (acquired_of x)
   }"

definition world_intent :: "action_oracle \<Rightarrow> nat \<Rightarrow> (action_world, bool) state" where
  "world_intent orc h = do {
     n \<leftarrow> tick orc;
     w \<leftarrow> State_Monad.get;
     let (x, j') = Intent (ao_journal orc n) h (wo_journal w);
     State_Monad.set (w\<lparr>wo_journal := j', wo_log := wo_log w @ dispatched (wo_journal w) h True x\<rparr>);
     observe (EvIntent h (x = None));
     ret (x = None)
   }"

definition world_finish :: "action_oracle \<Rightarrow> nat \<Rightarrow> code \<Rightarrow> (action_world, bool) state" where
  "world_finish orc h c = do {
     n \<leftarrow> tick orc;
     w \<leftarrow> State_Monad.get;
     let (x, j') = Finish (ao_journal orc n) h c (wo_journal w);
     State_Monad.set (w\<lparr>wo_journal := j'\<rparr>);
     observe (EvFinish h c (x = None));
     ret (x = None)
   }"

definition world_existing :: "action_oracle \<Rightarrow> nat \<Rightarrow> (action_world, code) state" where
  "world_existing orc h = do { n \<leftarrow> tick orc; w \<leftarrow> State_Monad.get; ret (Existing h (wo_journal w)) }"

definition world_close :: "action_oracle \<Rightarrow> nat \<Rightarrow> (action_world, unit) state" where
  "world_close orc h = do {
     n \<leftarrow> tick orc;
     State_Monad.update (\<lambda>w. w\<lparr>wo_journal := attempt_Close h (wo_journal w)\<rparr>);
     observe (EvClose h)
   }"

definition action_deps :: "action_oracle \<Rightarrow> bound_execution option \<Rightarrow> (action_world, nat) worker_deps" where
  "action_deps orc bound =
     \<lparr>wd_composed = ao_composed orc,
      wd_now = answer orc (ao_now orc),
      wd_ctx_err = (\<lambda>c. answer orc (\<lambda>n. ao_ctx_err orc n c)),
      wd_until = (\<lambda>c. answer orc (\<lambda>n. ao_until orc n c)),
      wd_with_timeout = (\<lambda>c t. answer orc (\<lambda>n. ())),
      wd_check = (\<lambda>r b. observed orc (\<lambda>n. ao_check orc n r b) EvCheck),
      wd_acquire = world_acquire orc bound,
      wd_existing = world_existing orc,
      wd_intent = world_intent orc,
      wd_finish = world_finish orc,
      wd_close = world_close orc,
      wd_inspect = (\<lambda>s. observed orc (\<lambda>n. ao_inspect orc n s) (EvInspect s)),
      wd_call = (\<lambda>op s g t. observed orc (\<lambda>n. ao_call orc n op s g t) (EvCall op s g t))\<rparr>"

lemma wp_tick [wp_simps]: "wp (tick orc) Q w = Q (wo_ticks w) (others_step orc w)"
  by (simp add: tick_def wp_simps)

lemma wp_observe [wp_simps]: "wp (observe e) Q w = Q () (w\<lparr>wo_trace := wo_trace w @ [e]\<rparr>)"
  by (simp add: observe_def wp_simps)

lemma others_step_trace [simp]: "wo_trace (others_step orc w) = wo_trace w"
  by (simp add: others_step_def split: prod.splits)

lemmas world_ops = answer_def observed_def world_acquire_def world_intent_def world_finish_def world_existing_def world_close_def

interpretation act: worker_env "action_deps orc bound" wo_trace for orc bound
  by unfold_locales (auto simp: action_deps_def world_ops wp_simps Let_def split: prod.splits)

section \<open>What an execution leaves in the journal\<close>

text \<open>The other users take steps of the journal, and the clock is after year 1.\<close>

definition oracle_ok :: "journal_binding \<Rightarrow> action_oracle \<Rightarrow> bool" where
  "oracle_ok b orc \<longleftrightarrow>
     (\<forall>n s. (journal_step b)\<^sup>*\<^sup>* s (ao_others orc n s)) \<and> (\<forall>n. 0 < ji_now (ao_journal orc n))"

text \<open>
  Since the world had trace \<open>t0\<close> and log \<open>l0\<close>: the journal has run, every acquired attempt still
  carries the metadata of its key, and every successful intent is in the new part of the log.
\<close>

definition world_inv :: "journal_binding \<Rightarrow> nat action_event list \<Rightarrow> string list \<Rightarrow> action_world \<Rightarrow> bool" where
  "world_inv b t0 l0 w \<longleftrightarrow>
     journal_run b (wo_journal w, wo_log w) \<and>
     (\<exists>es new. wo_trace w = t0 @ es \<and> wo_log w = l0 @ new \<and>
        (\<forall>k h. EvAcquire k (Some h) \<in> set es \<longrightarrow> h < length (j_attempts (wo_journal w)) \<and>
           CanonicalJournalMetadata k = Some (handle_raw (wo_journal w) h)) \<and>
        (\<forall>h. EvIntent h True \<in> set es \<longrightarrow> h < length (j_attempts (wo_journal w)) \<and>
           handle_raw (wo_journal w) h \<in> set new))"

lemma world_inv_steps:
  assumes "world_inv b t0 l0 w" and s: "(journal_step b)\<^sup>*\<^sup>* (wo_journal w, wo_log w) (j', I')"
  shows "world_inv b t0 l0 (w\<lparr>wo_journal := j', wo_log := I', wo_ticks := n\<rparr>)"
proof -
  obtain new where k: "handles_kept (wo_journal w) j'" "I' = wo_log w @ new"
    using journal_steps_handles [OF s] by auto
  show ?thesis
    using assms(1) journal_run_steps [OF s] k by (fastforce simp: world_inv_def handles_kept_def)
qed

lemma world_inv_step:
  "world_inv b t0 l0 w \<Longrightarrow> journal_step b (wo_journal w, wo_log w) (j', I') \<Longrightarrow>
     world_inv b t0 l0 (w\<lparr>wo_journal := j', wo_log := I'\<rparr>)"
  using world_inv_steps [of b t0 l0 w j' I' "wo_ticks w"] by auto

lemma world_inv_event:
  assumes "world_inv b t0 l0 w"
    and "\<And>k h. e = EvAcquire k (Some h) \<Longrightarrow> h < length (j_attempts (wo_journal w)) \<and>
           CanonicalJournalMetadata k = Some (handle_raw (wo_journal w) h)"
    and "\<And>h. e = EvIntent h True \<Longrightarrow> h < length (j_attempts (wo_journal w)) \<and>
           handle_raw (wo_journal w) h \<in> set (drop (length l0) (wo_log w))"
  shows "world_inv b t0 l0 (w\<lparr>wo_trace := wo_trace w @ [e]\<rparr>)"
  using assms by (fastforce simp: world_inv_def)

lemma world_inv_others: "oracle_ok b orc \<Longrightarrow> world_inv b t0 l0 w \<Longrightarrow> world_inv b t0 l0 (others_step orc w)"
  using world_inv_steps [of b t0 l0 w _ _ "Suc (wo_ticks w)"]
  by (auto simp: others_step_def oracle_ok_def split: prod.splits) metis

lemma acquire_world:
  assumes inv: "world_inv b t0 l0 w" and a: "acquire io k g (wo_journal w) = (x, j')" and t: "0 < ji_now io"
  shows "world_inv b t0 l0 (w\<lparr>wo_journal := j', wo_trace := wo_trace w @ [EvAcquire k (acquired_handle (acquired_of x))]\<rparr>)"
proof -
  have "world_inv b t0 l0 (w\<lparr>wo_journal := j'\<rparr>)"
    using world_inv_step [OF inv journal_step.acquire [OF a t]] by simp
  from world_inv_event [OF this, of "EvAcquire k (acquired_handle (acquired_of x))"] show ?thesis
    using acquire_attempts [OF a]
    by (auto simp: acquired_of_def handle_raw_def split: sum.splits if_splits)
qed

lemma intent_world:
  assumes inv: "world_inv b t0 l0 w" and i: "Intent io h (wo_journal w) = (x, j')" and t: "0 < ji_now io"
  shows "world_inv b t0 l0 (w\<lparr>wo_journal := j', wo_log := wo_log w @ dispatched (wo_journal w) h True x,
     wo_trace := wo_trace w @ [EvIntent h (x = None)]\<rparr>)"
proof -
  have inv': "world_inv b t0 l0 (w\<lparr>wo_journal := j', wo_log := wo_log w @ dispatched (wo_journal w) h True x\<rparr>)"
    by (rule world_inv_step [OF inv journal_step.intent [OF i t]])
  have "h < length (j_attempts j') \<and> handle_raw j' h \<in> set (dispatched (wo_journal w) h True x)" if "x = None"
  proof -
    have "h < length (j_attempts (wo_journal w))"
      using i that by (auto simp: Intent_def transition_def attempt_at_def split: option.splits if_splits)
    then show ?thesis
      using transition_handles i that by (fastforce simp: Intent_def handles_kept_def dispatched_def handle_raw_def)
  qed
  moreover obtain new where "wo_log w = l0 @ new" using inv by (auto simp: world_inv_def)
  ultimately show ?thesis using world_inv_event [OF inv', of "EvIntent h (x = None)"] by simp
qed

lemma bound_Acquire_world:
  assumes "world_inv b t0 l0 w" and "bound_Acquire io be k (wo_journal w) = (x, j')" and "0 < ji_now io"
  shows "world_inv b t0 l0 (w\<lparr>wo_journal := j', wo_trace := wo_trace w @ [EvAcquire k (acquired_handle (acquired_of x))]\<rparr>)"
proof (cases "acquire io k (Some (be_guard be)) (wo_journal w) = (x, j')")
  case True
  then show ?thesis using acquire_world assms by blast
next
  case False
  then have "j' = wo_journal w" "x = Inl JErrIdentityConflict"
    using assms(2) by (auto simp: bound_Acquire_def split: if_splits)
  then show ?thesis using world_inv_event [OF assms(1), of "EvAcquire k None"] by (simp add: acquired_of_def)
qed

lemma finish_world:
  assumes inv: "world_inv b t0 l0 w" and i: "Finish io h c (wo_journal w) = (x, j')" and t: "0 < ji_now io"
  shows "world_inv b t0 l0 (w\<lparr>wo_journal := j', wo_trace := wo_trace w @ [EvFinish h c (x = None)]\<rparr>)"
  using world_inv_event [OF world_inv_step [OF inv journal_step.finish [OF i t]], of "EvFinish h c (x = None)"] by simp

lemma close_world:
  assumes inv: "world_inv b t0 l0 w"
  shows "world_inv b t0 l0 (w\<lparr>wo_journal := attempt_Close h (wo_journal w), wo_trace := wo_trace w @ [EvClose h]\<rparr>)"
  using world_inv_event [OF world_inv_step [OF inv journal_step.close], of "EvClose h" h] by simp

lemma pres_answer: "oracle_ok b orc \<Longrightarrow> preserves (world_inv b t0 l0) (answer orc f)"
  by (simp add: preserves_def answer_def wp_simps world_inv_others)

lemma pres_observed:
  assumes "oracle_ok b orc" and "\<And>x h k. ev x \<noteq> EvAcquire k (Some h)" and "\<And>x h. ev x \<noteq> EvIntent h True"
  shows "preserves (world_inv b t0 l0) (observed orc f ev)"
proof -
  have "world_inv b t0 l0 (others_step orc w\<lparr>wo_trace := wo_trace w @ [ev (f (wo_ticks w))]\<rparr>)" if "world_inv b t0 l0 w" for w
    using world_inv_event [OF world_inv_others [OF assms(1) that], of "ev (f (wo_ticks w))"] assms(2,3) by simp
  then show ?thesis by (simp add: preserves_def observed_def wp_simps)
qed

interpretation act: worker_keeps "action_deps orc bound" "\<lambda>w. oracle_ok b orc \<longrightarrow> world_inv b t0 l0 w" for orc bound b t0 l0
proof -
  let ?P = "\<lambda>w. oracle_ok b orc \<longrightarrow> world_inv b t0 l0 w"
  have imp: "preserves ?P m" if "oracle_ok b orc \<Longrightarrow> preserves (world_inv b t0 l0) m" for m :: "(action_world, 'x) state"
    using that by (cases "oracle_ok b orc") (auto simp: preserves_def wp_def split: prod.splits)
  have now: "0 < ji_now (ao_journal orc n)" if "oracle_ok b orc" for n using that by (simp add: oracle_ok_def)
  have acq: "preserves (world_inv b t0 l0) (world_acquire orc bound k)" if o: "oracle_ok b orc" for k
    using acquire_world [OF world_inv_others [OF o] _ now [OF o]] bound_Acquire_world [OF world_inv_others [OF o] _ now [OF o]]
    by (cases bound) (auto simp: preserves_def world_acquire_def Acquire_def wp_simps Let_def split: prod.splits)
  have int: "preserves (world_inv b t0 l0) (world_intent orc h)" if o: "oracle_ok b orc" for h
    using intent_world [OF world_inv_others [OF o] _ now [OF o]]
    by (auto simp: preserves_def world_intent_def wp_simps Let_def split: prod.splits)
  have fin: "preserves (world_inv b t0 l0) (world_finish orc h c)" if o: "oracle_ok b orc" for h c
    using finish_world [OF world_inv_others [OF o] _ now [OF o]]
    by (auto simp: preserves_def world_finish_def wp_simps Let_def split: prod.splits)
  have rest: "preserves (world_inv b t0 l0) (world_existing orc h)" "preserves (world_inv b t0 l0) (world_close orc h)"
    if o: "oracle_ok b orc" for h
    using world_inv_others [OF o] close_world [OF world_inv_others [OF o]]
    by (auto simp: preserves_def world_existing_def world_close_def wp_simps)
  show "worker_keeps (action_deps orc bound) ?P"
    by unfold_locales
       (auto simp: action_deps_def intro!: imp pres_answer pres_observed acq int fin rest)
qed

text \<open>One execution: its events, the journal afterwards, and the actions dispatched meanwhile.\<close>

lemma execute_world:
  assumes run: "journal_run b (wo_journal w, wo_log w)" and o: "oracle_ok b orc"
    and x: "run_state (Execute (action_deps orc bound) r bnd d) w = (c, w')"
  obtains es new where "wo_trace w' = wo_trace w @ es" and "exec_trace r bnd es c"
    and "journal_run b (wo_journal w', wo_log w')" and "wo_log w' = wo_log w @ new" and "distinct (wo_log w @ new)"
    and "\<And>k h. EvAcquire k (Some h) \<in> set es \<Longrightarrow> CanonicalJournalMetadata k = Some (handle_raw (wo_journal w') h)"
    and "\<And>h. EvIntent h True \<in> set es \<Longrightarrow> handle_raw (wo_journal w') h \<in> set new"
proof -
  have "world_inv b (wo_trace w) (wo_log w) w" using run by (simp add: world_inv_def)
  then have inv: "world_inv b (wo_trace w) (wo_log w) w'"
    using preservesD [OF act.keeps_Execute [of b orc "wo_trace w" "wo_log w" bound r bnd d] _ x] o by simp
  then obtain es new where w': "wo_trace w' = wo_trace w @ es" "wo_log w' = wo_log w @ new"
    "\<forall>k h. EvAcquire k (Some h) \<in> set es \<longrightarrow> CanonicalJournalMetadata k = Some (handle_raw (wo_journal w') h)"
    "\<forall>h. EvIntent h True \<in> set es \<longrightarrow> handle_raw (wo_journal w') h \<in> set new"
    and run': "journal_run b (wo_journal w', wo_log w')"
    by (auto simp: world_inv_def)
  have "wp (Execute (action_deps orc bound) r bnd d) (\<lambda>c w'. \<exists>es. wo_trace w' = wo_trace w @ es \<and> exec_trace r bnd es c) w"
    using act.emits_Execute [of orc bound r bnd d] unfolding act.emits_def by blast
  from wpD [OF this x] have "exec_trace r bnd es c" using w'(1) by auto
  moreover have "distinct (wo_log w @ new)" using journal_run_inv [OF run'] w'(2) by (simp add: journal_inv_def)
  ultimately show thesis using that w' run' by blast
qed

end
