(* ===== verification/ActionExample.thy ===== *)
theory ActionExample
  imports ActionWorld
begin

text \<open>
  A concrete journal: provisioned, then driven through the admission and the intent of one restart of
  a container. It instantiates the hypotheses of the properties of the action path. \<^verbatim>\<open>sha256\<close> is never
  unfolded in it.
\<close>

section \<open>Provisioning\<close>

definition ex_jbinding :: journal_binding where
  "ex_jbinding =
     \<lparr>jb_ServerID = ''srv_0123456789abcdef0123456789abcdef'',
      jb_InstallationID = ''agent_0123456789abcdef0123456789abcdef'',
      jb_OwnerID = ''usr_0123456789abcdef0123456789abcdef''\<rparr>"

definition ex_created :: gotime where "ex_created = 63745056000 * 1000000000"

definition ex_jfile :: "int \<Rightarrow> file_info" where
  "ex_jfile n =
     \<lparr>fi_stat = True, fi_type = RegularFile, fi_uid = 1000, fi_nlink = 1, fi_perm = 0b110000000,
      fi_sticky = False, fi_setid = False, fi_size = n\<rparr>"

definition ex_jdir :: file_info where
  "ex_jdir =
     \<lparr>fi_stat = True, fi_type = Directory, fi_uid = 1000, fi_nlink = 2, fi_perm = 0b111000000,
      fi_sticky = False, fi_setid = False, fi_size = 4096\<rparr>"

definition ex_jheader :: bytes where
  "ex_jheader =
     header_magic @ [16, 0, 1, 1] @ replicate 40 0 @ [0, 0, 0, 1] @ replicate 4 0 @ [0x48, 0x4C, 0x41, 0x4A] @ replicate 28 0"

definition ex_jpragma :: "string \<Rightarrow> int option" where
  "ex_jpragma =
     map_of [(''page_size'', 4096), (''page_count'', 7), (''max_page_count'', 3072), (''synchronous'', 3),
       (''cache_size'', 3072), (''cache_spill'', 0), (''temp_store'', 2), (''trusted_schema'', 0), (''foreign_keys'', 1),
       (''mmap_size'', 0), (''busy_timeout'', 250)]"

definition ex_jio :: "gotime \<Rightarrow> journal_io" where
  "ex_jio now =
     \<lparr>ji_busy = False, ji_now = now, ji_fault = (\<lambda>_. False), ji_begin_fails = False, ji_commit = Committed,
      ji_rollback_fails = False, ji_check = (\<lambda>_ _. True)\<rparr>"

definition ex_jopen :: journal_open_io where
  "ex_jopen =
     \<lparr>jo_ctx_err = False, jo_euid = 1000, jo_dedicated = True, jo_path = [Some ex_jdir],
      jo_lock_opened = True, jo_lock_info = Some (ex_jfile 0), jo_flock = Locked,
      jo_entries = Some [action_lockName], jo_created = True,
      jo_listing = Some [(action_lockName, Some (ex_jfile 0)), (action_databaseName, Some (ex_jfile 28672))],
      jo_file = Some (Some (ex_jfile 28672), ex_jheader), jo_side = AbsentFile, jo_connected = True, jo_page_size = True,
      jo_mode = Some ''delete'', jo_pragma = ex_jpragma, jo_integrity = Some ''ok'',
      jo_fault = (\<lambda>_. False), jo_sql = ex_jio ex_created, jo_synced = True\<rparr>"

definition ex_jdb :: journal_db where
  "ex_jdb =
     \<lparr>jd_app = action_app_id, jd_version = 1, jd_defs = journal_definitions,
      jd_meta = [\<lparr>mw_singleton = 1, mw_server = jb_ServerID ex_jbinding, mw_installation = jb_InstallationID ex_jbinding,
                  mw_owner = jb_OwnerID ex_jbinding, mw_floor = ''0001-01-01T00:00:00Z''\<rparr>],
      jd_actions = [], jd_events = []\<rparr>"

definition ex_journal :: journal where
  "ex_journal =
     \<lparr>j_binding = ex_jbinding, j_conn = True, j_failed = False, j_active = [], j_attempts = [], j_db = ex_jdb\<rparr>"

lemma ex_jdb_sel [simp]: "jd_actions ex_jdb = []" "jd_events ex_jdb = []"
  by (simp_all add: ex_jdb_def)

lemma ex_journal_provision: "Provision ex_jopen empty_journal_db ex_jbinding = (Inr ex_journal, ex_jdb)"
  by code_simp

lemma ex_journal_reopen: "OpenExisting ex_jopen ex_jdb ex_jbinding = (Inr ex_journal, ex_jdb)"
  by code_simp

section \<open>An action\<close>

definition ex_arequest :: action_request where
  "ex_arequest =
     \<lparr>ar_ActionID = ''hla_0123456789abcdef0123456789abcdef'', ar_ServerID = jb_ServerID ex_jbinding,
      ar_InstallationID = jb_InstallationID ex_jbinding, ar_OwnerID = jb_OwnerID ex_jbinding,
      ar_ActorID = jb_OwnerID ex_jbinding, ar_TargetID = ''hlt_0123456789abcdef0123456789abcdef'',
      ar_Operation = Restart, ar_GraceSeconds = 10, ar_PolicyRevision = 3, ar_CapabilityRevision = 4,
      ar_CreatedAt = ex_created, ar_ExpiresAt = ex_created + minutes 5\<rparr>"

definition ex_abinding :: action_binding where
  "ex_abinding =
     \<lparr>ab_ServerID = jb_ServerID ex_jbinding, ab_InstallationID = jb_InstallationID ex_jbinding,
      ab_OwnerID = jb_OwnerID ex_jbinding, ab_TargetID = ''hlt_0123456789abcdef0123456789abcdef'',
      ab_EngineGeneration = ''0123456789abcdef0123456789abcdef'',
      ab_ContainerID = ''0123456789abcdef0123456789abcdef0123456789abcdef0123456789abcdef'',
      ab_PolicyRevision = 3, ab_CapabilityRevision = 4, ab_GraceSeconds = 10, ab_Operations = [Start, Restart]\<rparr>"

definition ex_raw :: string where
  "ex_raw = json_print (journalRecordFor ex_arequest (ab_EngineGeneration ex_abinding) (ab_ContainerID ex_abinding))"

definition ex_key :: action_key where
  "ex_key =
     \<lparr>ak_ActionID = ar_ActionID ex_arequest, ak_TargetID = ar_TargetID ex_arequest, ak_Fingerprint = sha256 (bytes_of ex_raw),
      ak_Metadata = \<lparr>jm_Request = ex_arequest, jm_EngineGeneration = ab_EngineGeneration ex_abinding,
                     jm_ContainerID = ab_ContainerID ex_abinding\<rparr>\<rparr>"

lemma ex_valid_request: "valid ex_arequest ex_abinding ex_created"
  by code_simp

lemma ex_raw_length: "length ex_raw \<le> 2048" "ex_raw \<noteq> []"
  by code_simp+

lemma ex_time_text: "time_text_ok (rfc3339nano ex_created)" "time_text_ok (rfc3339nano (ex_created + minutes 5))"
  by code_simp+

lemma ex_canonical: "CanonicalJournalMetadata ex_key = Some ex_raw"
proof -
  have times: "list_all time_text_ok [rfc3339nano (ar_CreatedAt ex_arequest), rfc3339nano (ar_ExpiresAt ex_arequest)]"
    using ex_time_text by (simp add: ex_arequest_def)
  have "is_identifier (ar_ActionID ex_arequest) ''hla_''" "is_identifier (ar_TargetID ex_arequest) ''hlt_''"
    "is_identifier (ar_ServerID ex_arequest) ''srv_''" "is_identifier (ar_InstallationID ex_arequest) ''agent_''"
    "is_identifier (ar_OwnerID ex_arequest) ''usr_''" "is_identifier (ar_ActorID ex_arequest) ''usr_''"
    "hex_string (ab_EngineGeneration ex_abinding) 32" "hex_string (ab_ContainerID ex_abinding) 64"
    "\<not> IsZero (ar_CreatedAt ex_arequest)" "ar_CreatedAt ex_arequest < ar_ExpiresAt ex_arequest"
    "\<not> minutes 5 < Sub (ar_ExpiresAt ex_arequest) (ar_CreatedAt ex_arequest)"
    "ar_PolicyRevision ex_arequest \<noteq> 0" "ar_CapabilityRevision ex_arequest \<noteq> 0"
    by code_simp+
  moreover have "ar_Operation ex_arequest = Restart" "ar_GraceSeconds ex_arequest = 10" by (simp_all add: ex_arequest_def)
  ultimately show ?thesis
    using times ex_raw_length
    by (simp add: CanonicalJournalMetadata_def ex_key_def Let_def known_operation_def ex_raw_def [symmetric])
qed

lemma ex_new_key: "NewJournalKey ex_arequest ex_abinding = Some ex_key"
proof -
  have "valid ex_arequest ex_abinding (ar_CreatedAt ex_arequest)" using ex_valid_request by (simp add: ex_arequest_def)
  then show ?thesis
    using ex_canonical
    by (simp add: NewJournalKey_def Let_def fingerprint_def ex_raw_def [symmetric] ex_key_def [symmetric])
qed

section \<open>Its admission and its intent\<close>

definition ex_anow :: gotime where "ex_anow = ex_created + seconds 2"

definition ex_arow :: action_row where
  "ex_arow = action_row_for ex_key ex_raw ex_anow"

definition ex_fresh :: jrecord where
  "ex_fresh = fresh_record ex_key ex_raw ex_anow"

definition ex_admitted :: journal where
  "ex_admitted =
     ex_journal\<lparr>j_db := ex_jdb\<lparr>jd_actions := [ex_arow]\<rparr>, j_attempts := [new_attempt ex_fresh True None],
       j_active := [(ak_ActionID ex_key, 0)]\<rparr>"

definition ex_intent_row :: event_row where
  "ex_intent_row =
     \<lparr>ew_id = ak_ActionID ex_key, ew_ordinal = 1, ew_at = stamp ex_anow, ew_code = ''INTENT'', ew_reason = ''''\<rparr>"

definition ex_dispatched :: journal where
  "ex_dispatched =
     ex_admitted\<lparr>j_db := ex_jdb\<lparr>jd_actions := [ex_arow], jd_events := [ex_intent_row]\<rparr>,
       j_attempts := [new_attempt (ex_fresh\<lparr>jr_intent := ex_anow\<rparr>) True None]\<rparr>"

lemma ex_key_sel [simp]:
  "key_request ex_key = ex_arequest" "ak_ActionID ex_key = ar_ActionID ex_arequest" "ak_TargetID ex_key = ar_TargetID ex_arequest"
  "jm_EngineGeneration (ak_Metadata ex_key) = ab_EngineGeneration ex_abinding"
  "jm_ContainerID (ak_Metadata ex_key) = ab_ContainerID ex_abinding" "length (ak_Fingerprint ex_key) = 32"
  "ar_ServerID ex_arequest = jb_ServerID ex_jbinding" "ar_InstallationID ex_arequest = jb_InstallationID ex_jbinding"
  "ar_OwnerID ex_arequest = jb_OwnerID ex_jbinding" "ar_CreatedAt ex_arequest = ex_created"
  "ar_ExpiresAt ex_arequest = ex_created + minutes 5" "ar_Operation ex_arequest = Restart"
  by (simp_all add: ex_key_def ex_arequest_def)

lemma ex_lengths:
  "length (ar_ActionID ex_arequest) = 36" "length (ar_TargetID ex_arequest) = 36"
  "length (ab_EngineGeneration ex_abinding) = 32" "length (ab_ContainerID ex_abinding) = 64"
  "time_length (stamp ex_anow)" "1 \<le> length ex_raw" "parseTime (stamp ex_anow) = Some ex_anow"
  by code_simp+

lemma ex_times_ordered:
  "\<not> ex_anow < ex_created" "ex_anow < ex_created + minutes 5" "0 < ex_anow" "ex_anow \<noteq> 0" "0 < ex_created + minutes 5"
  by (simp_all add: ex_anow_def ex_created_def duration_defs)

lemma ex_row_check: "action_check ex_arow" "bounded_action ex_arow"
  using ex_lengths ex_raw_length by (simp_all add: action_check_def bounded_action_def ex_arow_def action_row_for_def)

lemma ex_acquire: "acquire (ex_jio ex_anow) ex_key None ex_journal = (Inr 0, ex_admitted)"
proof -
  have rd: "read_record ex_jbinding (\<lambda>_. False) ex_jdb (ar_ActionID ex_arequest) = Some None" by code_simp
  have fl: "floor_time ex_jbinding (\<lambda>_. False) ex_jdb = Some 0" by code_simp
  have rel: "related ex_jbinding (\<lambda>_. False) ex_jdb ex_key = Some []"
    by (simp add: related_def load_def ex_jdb_def)
  show ?thesis
    using rd fl rel ex_times_ordered ex_row_check ex_canonical
    by (simp add: acquire_def guard_ok_def Let_def ex_jio_def ex_journal_def usable_def transactionGuarded_def acquire_body_def
        acquire_admit_def active_records_def unknown_count_def permits_def sql_insert_action_def ex_jdb_def [symmetric]
        ex_admitted_def ex_fresh_def ex_arow_def [symmetric] new_attempt_def maxRecords_def)
qed

lemma ex_validate: "validateAction ex_jbinding ex_arow = Some ex_fresh"
  using metadata_parse_canonical [OF ex_canonical] ex_lengths(7) ex_times_ordered
  by (simp add: validateAction_def ex_arow_def action_row_for_def ex_fresh_def fresh_record_def)

lemma ex_read: "read_record ex_jbinding (\<lambda>_. False) (ex_jdb\<lparr>jd_actions := [ex_arow]\<rparr>) (ar_ActionID ex_arequest) = Some (Some ex_fresh)"
proof -
  have "in_scope (OneRecord (ar_ActionID ex_arequest)) ex_arow" by (simp add: ex_arow_def action_row_for_def)
  then show ?thesis
    using ex_validate ex_row_check by (simp add: read_record_def load_def maxRecords_def)
qed

lemma ex_intent_check: "event_check ex_intent_row"
  using ex_lengths(5) by (simp add: event_check_def ex_intent_row_def)

lemma ex_fresh_sel [simp]:
  "jr_key ex_fresh = ex_key" "jr_raw ex_fresh = ex_raw" "jr_intent ex_fresh = 0" "jr_terminal ex_fresh = 0" "jr_admitted ex_fresh = ex_anow"
  by (simp_all add: ex_fresh_def fresh_record_def)

lemma ex_intent: "Intent (ex_jio ex_anow) 0 ex_admitted = (None, ex_dispatched)"
  using ex_read ex_times_ordered ex_intent_check
  by (simp add: Intent_def transition_def attempt_at_def ex_admitted_def new_attempt_def guard_ok_def ex_jio_def usable_def
      ex_journal_def IsZero_def transactionGuarded_def transition_body_def sql_insert_event_def ex_arow_def action_row_for_def
      ex_intent_row_def ex_dispatched_def)

lemma ex_runs:
  "journal_run ex_jbinding (ex_journal, [])" "journal_run ex_jbinding (ex_admitted, [])"
  "journal_run ex_jbinding (ex_dispatched, [ex_raw])"
proof -
  have now: "0 < ji_now (ex_jio ex_anow)" using ex_times_ordered by (simp add: ex_jio_def)
  show 1: "journal_run ex_jbinding (ex_journal, [])" by (rule journal_run.provision [OF ex_journal_provision])
  show 2: "journal_run ex_jbinding (ex_admitted, [])"
    by (rule journal_run.step [OF 1 journal_step.acquire [OF ex_acquire now]])
  have "dispatched ex_admitted 0 True None = [ex_raw]" by (simp add: dispatched_def ex_admitted_def new_attempt_def)
  then show "journal_run ex_jbinding (ex_dispatched, [ex_raw])"
    using journal_run.step [OF 2 journal_step.intent [OF ex_intent now]] by simp
qed

section \<open>Its result\<close>

definition ex_result_row :: event_row where
  "ex_result_row =
     \<lparr>ew_id = ak_ActionID ex_key, ew_ordinal = 2, ew_at = stamp ex_anow, ew_code = ''RESTARTED'', ew_reason = ''''\<rparr>"

definition ex_done :: journal where
  "ex_done =
     ex_dispatched\<lparr>j_db := ex_jdb\<lparr>jd_actions := [ex_arow], jd_events := [ex_intent_row, ex_result_row]\<rparr>,
       j_attempts := [new_attempt (ex_fresh\<lparr>jr_intent := ex_anow, jr_terminal := ex_anow, jr_code := Restarted\<rparr>) True None]\<rparr>"

lemma ex_validate_event: "validateEvent ex_fresh ex_intent_row = Some (ex_fresh\<lparr>jr_intent := ex_anow\<rparr>)"
  using ex_lengths(7) ex_times_ordered by (simp add: validateEvent_def ex_intent_row_def IsZero_def)

lemma ex_read_intent:
  "read_record ex_jbinding (\<lambda>_. False) (ex_jdb\<lparr>jd_actions := [ex_arow], jd_events := [ex_intent_row]\<rparr>) (ar_ActionID ex_arequest)
     = Some (Some (ex_fresh\<lparr>jr_intent := ex_anow\<rparr>))"
proof -
  have "in_scope (OneRecord (ar_ActionID ex_arequest)) ex_arow" by (simp add: ex_arow_def action_row_for_def)
  moreover have "bounded_event ex_intent_row" "ew_id ex_intent_row = ar_ActionID ex_arequest"
    using ex_lengths by (simp_all add: bounded_event_def ex_intent_row_def)
  ultimately show ?thesis
    using ex_validate ex_row_check ex_validate_event by (simp add: read_record_def load_def maxRecords_def)
qed

lemma ex_finish: "Finish (ex_jio ex_anow) 0 Restarted ex_dispatched = (None, ex_done)"
proof -
  have "event_check ex_result_row" using ex_lengths(5) by (simp add: event_check_def ex_result_row_def)
  then show ?thesis
    using ex_read_intent ex_times_ordered
    by (simp add: Finish_def transition_def attempt_at_def ex_dispatched_def ex_admitted_def new_attempt_def guard_ok_def ex_jio_def
        usable_def ex_journal_def IsZero_def terminalAllowed_def transactionGuarded_def transition_body_def sql_insert_event_def
        event_key_def ex_arow_def action_row_for_def ex_intent_row_def ex_result_row_def ex_done_def)
qed

text \<open>The journal after the result, read again.\<close>

definition ex_settled :: jrecord where
  "ex_settled = ex_fresh\<lparr>jr_intent := ex_anow, jr_terminal := ex_anow, jr_code := Restarted\<rparr>"

lemma ex_validate_result: "validateEvent (ex_fresh\<lparr>jr_intent := ex_anow\<rparr>) ex_result_row = Some ex_settled"
proof -
  have "text_code ''RESTARTED'' = Restarted" by code_simp
  then show ?thesis
    using ex_lengths(7) ex_times_ordered
    by (simp add: validateEvent_def ex_result_row_def IsZero_def terminalAllowed_def ex_settled_def ex_fresh_def fresh_record_def)
qed

lemma ex_load_done:
  assumes "in_scope scope ex_arow" "\<And>e. ew_id e = ar_ActionID ex_arequest \<Longrightarrow> event_in_scope (j_db ex_done) scope e"
  shows "load ex_jbinding (\<lambda>_. False) (j_db ex_done) scope = Some [ex_settled]"
proof -
  have rows: "jd_actions (j_db ex_done) = [ex_arow]" "jd_events (j_db ex_done) = [ex_intent_row, ex_result_row]"
    by (simp_all add: ex_done_def)
  have ids: "ew_id ex_intent_row = ar_ActionID ex_arequest" "ew_id ex_result_row = ar_ActionID ex_arequest"
    by (simp_all add: ex_intent_row_def ex_result_row_def)
  have "sort_key event_key [ex_intent_row, ex_result_row] = [ex_intent_row, ex_result_row]"
    by (simp add: event_key_def ex_intent_row_def ex_result_row_def)
  moreover have "bounded_event ex_intent_row" "bounded_event ex_result_row"
    using ex_lengths by (simp_all add: bounded_event_def ex_intent_row_def ex_result_row_def)
  ultimately show ?thesis
    using assms(1) assms(2) [OF ids(1)] assms(2) [OF ids(2)] ex_validate ex_row_check ex_validate_event ex_validate_result
    by (simp add: load_def rows ids maxRecords_def)
qed

lemma ex_done_run: "journal_run ex_jbinding (ex_done, [ex_raw])"
proof -
  have now: "0 < ji_now (ex_jio ex_anow)" using ex_times_ordered by (simp add: ex_jio_def)
  show ?thesis by (rule journal_run.step [OF ex_runs(3) journal_step.finish [OF ex_finish now]])
qed

lemma ex_done_events:
  "has_event (j_db ex_done) (ak_ActionID ex_key) 1" "has_event (j_db ex_done) (ak_ActionID ex_key) 2"
  by (simp_all add: has_event_def event_key_def ex_done_def ex_intent_row_def ex_result_row_def)

lemma ex_result_code: "text_code (ew_code ex_result_row) = Restarted"
  by (simp add: ex_result_row_def) code_simp

lemma ex_done_acquire: "\<exists>h j'. acquire (ex_jio ex_anow) ex_key None ex_done = (Inr h, j')"
proof -
  have "in_scope (OneRecord (ar_ActionID ex_arequest)) ex_arow" by (simp add: ex_arow_def action_row_for_def)
  then have "load ex_jbinding (\<lambda>_. False) (j_db ex_done) (OneRecord (ar_ActionID ex_arequest)) = Some [ex_settled]"
    by (rule ex_load_done) simp
  then have "read_record ex_jbinding (\<lambda>_. False) (j_db ex_done) (ar_ActionID ex_arequest) = Some (Some ex_settled)"
    by (simp add: read_record_def)
  moreover have "j_binding ex_done = ex_jbinding" "usable ex_done"
    by (simp_all add: ex_done_def ex_dispatched_def ex_admitted_def ex_journal_def usable_def)
  moreover have "\<not> IsZero (jr_terminal ex_settled)" "jr_raw ex_settled = ex_raw"
    using ex_times_ordered by (simp_all add: ex_settled_def IsZero_def)
  ultimately show ?thesis
    using ex_canonical by (simp add: acquire_def guard_ok_def ex_jio_def Let_def transactionGuarded_def acquire_body_def)
qed

section \<open>An execution\<close>

definition ex_delivery :: delivery where
  "ex_delivery = \<lparr>dl_StartedAt = ex_created + seconds 1, dl_ReceivedAt = ex_created + seconds 1, dl_LeaseDeadline = ex_created + seconds 600\<rparr>"

definition ex_aorc :: action_oracle where
  "ex_aorc =
     \<lparr>ao_composed = True, ao_now = (\<lambda>_. ex_anow), ao_ctx_err = (\<lambda>_ _. False), ao_until = (\<lambda>_ _. None),
      ao_check = (\<lambda>_ _ _. True), ao_inspect = (\<lambda>_ _. Some Running), ao_call = (\<lambda>_ _ _ _ _. True),
      ao_journal = (\<lambda>_. ex_jio ex_anow), ao_others = (\<lambda>_ s. s)\<rparr>"

definition ex_aworld :: "journal \<Rightarrow> string list \<Rightarrow> action_world" where
  "ex_aworld j I = \<lparr>wo_journal = j, wo_log = I, wo_trace = [], wo_ticks = 0\<rparr>"

lemma ex_oracle_ok: "oracle_ok b ex_aorc"
  using ex_times_ordered by (simp add: oracle_ok_def ex_aorc_def ex_jio_def)

definition ex_events :: "nat action_event list" where
  "ex_events =
     [EvCheck True, EvAcquire ex_key (Some 0), EvInspect (ab_ContainerID ex_abinding) (Some Running), EvCheck True, EvIntent 0 True,
      EvCall Restart (ab_ContainerID ex_abinding) 10 (seconds 45) True, EvFinish 0 Restarted True, EvClose 0]"

definition ex_finished :: "action_world" where
  "ex_finished = snd (run_state (Execute (action_deps ex_aorc None) ex_arequest ex_abinding ex_delivery) (ex_aworld ex_journal []))"

lemma ex_others [simp]: "others_step ex_aorc w = w\<lparr>wo_ticks := Suc (wo_ticks w)\<rparr>"
  by (simp add: others_step_def ex_aorc_def)

text \<open>The calls of the example, with their answers filled in.\<close>

lemma ex_calls:
  "wp (wd_now (action_deps ex_aorc None)) Q w = Q ex_anow (w\<lparr>wo_ticks := Suc (wo_ticks w)\<rparr>)"
  "wp (wd_ctx_err (action_deps ex_aorc None) x) P w = P False (w\<lparr>wo_ticks := Suc (wo_ticks w)\<rparr>)"
  "wp (wd_until (action_deps ex_aorc None) x) T w = T None (w\<lparr>wo_ticks := Suc (wo_ticks w)\<rparr>)"
  "wp (wd_with_timeout (action_deps ex_aorc None) x t) U w = U () (w\<lparr>wo_ticks := Suc (wo_ticks w)\<rparr>)"
  "wp (wd_check (action_deps ex_aorc None) r b) P w = P True (w\<lparr>wo_ticks := Suc (wo_ticks w), wo_trace := wo_trace w @ [EvCheck True]\<rparr>)"
  "wp (wd_inspect (action_deps ex_aorc None) s) S w =
     S (Some Running) (w\<lparr>wo_ticks := Suc (wo_ticks w), wo_trace := wo_trace w @ [EvInspect s (Some Running)]\<rparr>)"
  "wp (wd_call (action_deps ex_aorc None) op s g t) P w =
     P True (w\<lparr>wo_ticks := Suc (wo_ticks w), wo_trace := wo_trace w @ [EvCall op s g t True]\<rparr>)"
  by (simp_all add: action_deps_def world_ops wp_simps) (simp_all add: ex_aorc_def)

lemma ex_journal_answers:
  "ao_journal ex_aorc n = ex_jio ex_anow" "Existing 0 ex_admitted = NoCode" "dispatched ex_admitted 0 True None = [ex_raw]"
  by (simp_all add: ex_aorc_def Existing_def attempt_at_def dispatched_def ex_admitted_def new_attempt_def usable_def
      ex_journal_def IsZero_def)

lemma ex_journal_calls:
  "wo_journal w = ex_journal \<Longrightarrow> wp (wd_acquire (action_deps ex_aorc None) ex_key) A w =
     A (Acquired 0) (w\<lparr>wo_ticks := Suc (wo_ticks w), wo_journal := ex_admitted, wo_trace := wo_trace w @ [EvAcquire ex_key (Some 0)]\<rparr>)"
  "wo_journal w = ex_admitted \<Longrightarrow> wp (wd_existing (action_deps ex_aorc None) 0) C w = C NoCode (w\<lparr>wo_ticks := Suc (wo_ticks w)\<rparr>)"
  "wo_journal w = ex_admitted \<Longrightarrow> wp (wd_intent (action_deps ex_aorc None) 0) P w =
     P True (w\<lparr>wo_ticks := Suc (wo_ticks w), wo_journal := ex_dispatched, wo_log := wo_log w @ [ex_raw], wo_trace := wo_trace w @ [EvIntent 0 True]\<rparr>)"
  "wo_journal w = ex_dispatched \<Longrightarrow> wp (wd_finish (action_deps ex_aorc None) 0 Restarted) P w =
     P True (w\<lparr>wo_ticks := Suc (wo_ticks w), wo_journal := ex_done, wo_trace := wo_trace w @ [EvFinish 0 Restarted True]\<rparr>)"
  "wp (wd_close (action_deps ex_aorc None) 0) U w =
     U () (w\<lparr>wo_ticks := Suc (wo_ticks w), wo_journal := attempt_Close 0 (wo_journal w), wo_trace := wo_trace w @ [EvClose 0]\<rparr>)"
  using ex_acquire ex_intent ex_finish
  by (simp_all add: action_deps_def world_ops wp_simps ex_journal_answers Acquire_def acquired_of_def Let_def)

lemma ex_left: "Sub (ex_created + seconds 61) ex_anow = seconds 59"
  by (simp add: Sub_def ex_anow_def seconds_def MaxDuration_def MinDuration_def)

lemma ex_remaining:
  "wp (remaining (action_deps ex_aorc None) x ex_anow (ex_created + seconds 61)) Q w = Q (seconds 59) (w\<lparr>wo_ticks := wo_ticks w + 2\<rparr>)"
  by (simp add: remaining_def wp_simps ex_calls ex_left)

lemma ex_time_left:
  "wp (time_left (action_deps ex_aorc None) x (ex_created + seconds 61)) Q w = Q (seconds 59) (w\<lparr>wo_ticks := Suc (wo_ticks w + 2)\<rparr>)"
  by (simp add: time_left_def wp_simps ex_calls ex_remaining)

lemma ex_callBudget:
  "wp (callBudget (action_deps ex_aorc None) ex_anow (ex_created + seconds 61) 10) Q w = Q (seconds 45) (w\<lparr>wo_ticks := wo_ticks w + 2\<rparr>)"
proof -
  have "wrap64 (seconds 59 - seconds 5) = seconds 54"
    by (subst wrap64_id) (simp_all add: seconds_def MinDuration_def MaxDuration_def)
  moreover have "min (seconds 45) (seconds 54) = seconds 45" "\<not> seconds 45 < seconds (uint (10 :: uint8)) + seconds 5"
    by (simp_all add: seconds_def)
  ultimately show ?thesis by (simp add: callBudget_def wp_simps ex_remaining Let_def)
qed

lemma ex_end: "earliest (ex_created + minutes 5) [dl_StartedAt ex_delivery + seconds 90, dl_ReceivedAt ex_delivery + minutes 1,
    dl_LeaseDeadline ex_delivery - seconds 30] = ex_created + seconds 61"
  by (simp add: ex_delivery_def duration_defs)

lemma ex_execute_wp:
  "wp (Execute (action_deps ex_aorc None) ex_arequest ex_abinding ex_delivery)
     (\<lambda>c w. c = Restarted \<and> wo_trace w = ex_events) (ex_aworld ex_journal [])"
proof -
  let ?D = "action_deps ex_aorc None"
  have pos: "\<not> seconds 59 \<le> 0" "\<not> seconds 45 \<le> 0" "\<not> seconds 59 \<le> seconds 5" "\<not> seconds 45 \<le> Sub ex_anow ex_anow"
    by (simp_all add: seconds_def Sub_def MaxDuration_def MinDuration_def)
  have sel: "ar_GraceSeconds ex_arequest = 10" "wd_composed ?D" by (simp_all add: ex_arequest_def action_deps_def ex_aorc_def)
  have valid: "valid ex_arequest ex_abinding ex_anow" by code_simp
  have fresh: "\<not> IsZero (dl_StartedAt ex_delivery)" "\<not> dl_ReceivedAt ex_delivery < dl_StartedAt ex_delivery"
    "\<not> seconds 30 < Sub (dl_ReceivedAt ex_delivery) (dl_StartedAt ex_delivery)" "\<not> ex_anow < dl_ReceivedAt ex_delivery"
    by code_simp+
  have cls: "classify Restart Running = (Restarted, True)" by (simp add: classify_def)
  show ?thesis
    by (simp add: Execute_def execute_attempt_def execute_inspected_def execute_mutation_def call_late_def wp_simps ex_calls
        valid fresh ex_end pos sel Let_def ex_remaining ex_time_left ex_callBudget ex_new_key ex_journal_calls cls ex_aworld_def
        ex_events_def del: earliest.simps)
qed

lemma ex_execute:
  "run_state (Execute (action_deps ex_aorc None) ex_arequest ex_abinding ex_delivery) (ex_aworld ex_journal []) = (Restarted, ex_finished)"
  and ex_finished_trace: "wo_trace ex_finished = ex_events"
  using ex_execute_wp by (auto simp: wp_def ex_finished_def split: prod.splits)

end
