(* ===== verification/ActionProperties.thy ===== *)
theory ActionProperties
  imports ActionExample
begin

text \<open>
  What the action path guarantees: the worker of \<^verbatim>\<open>internal/actioncore\<close> together with the journal of
  \<^verbatim>\<open>internal/actionjournal\<close>, for any interleaving of their users and any answer of the outside.
\<close>

section \<open>Dispatching\<close>

text \<open>C1. An action is dispatched at most once. Over any interleaving of acquisitions, intents, results,
  closings, prunings, shutdowns and restarts of a provisioned journal, whatever statements fail and
  however commits end, no two successful intents are for the same action.\<close>

theorem actions_dispatched_once:
  assumes "journal_run b (j, I)"
  shows "distinct I"
  using journal_run_inv [OF assms] by (simp add: journal_inv_def)

theorem actions_dispatched_once_witness: "distinct [ex_raw]"
  using actions_dispatched_once [OF ex_runs(3)] .

text \<open>C2. The worker calls the engine at most once per action. While other users move the journal between
  any two of its calls, an execution that calls the engine has dispatched its action itself: the
  action was not dispatched before, it is in the log afterwards, and the log has no repetition.\<close>

theorem execution_dispatches_once:
  assumes "journal_run b (wo_journal w, wo_log w)" and "oracle_ok b orc"
    and "run_state (Execute (action_deps orc bound) r bnd d) w = (c, w')"
    and "EvCall op s g t ok \<in> set (drop (length (wo_trace w)) (wo_trace w'))"
  shows "\<exists>k raw. NewJournalKey r bnd = Some k \<and> CanonicalJournalMetadata k = Some raw \<and>
           raw \<notin> set (wo_log w) \<and> raw \<in> set (wo_log w') \<and> distinct (wo_log w') \<and>
           journal_run b (wo_journal w', wo_log w')"
proof (rule execute_world [OF assms(1-3)])
  fix es new
  assume w': "wo_trace w' = wo_trace w @ es" "exec_trace r bnd es c"
    "journal_run b (wo_journal w', wo_log w')" "wo_log w' = wo_log w @ new" "distinct (wo_log w @ new)"
    and acq: "\<And>k h. EvAcquire k (Some h) \<in> set es \<Longrightarrow> CanonicalJournalMetadata k = Some (handle_raw (wo_journal w') h)"
    and int: "\<And>h. EvIntent h True \<in> set es \<Longrightarrow> handle_raw (wo_journal w') h \<in> set new"
  have "EvCall op s g t ok \<in> set es" using assms(4) w'(1) by simp
  with w'(2) obtain k h where k: "NewJournalKey r bnd = Some k" and e: "EvAcquire k (Some h) \<in> set es" "EvIntent h True \<in> set es"
    by (cases rule: exec_traceE) auto
  show ?thesis using k acq [OF e(1)] int [OF e(2)] w'(3-5) by auto
qed

theorem execution_dispatches_once_witness:
  "\<exists>k raw. NewJournalKey ex_arequest ex_abinding = Some k \<and> CanonicalJournalMetadata k = Some raw \<and> raw \<in> set (wo_log ex_finished)"
proof -
  have "EvCall Restart (ab_ContainerID ex_abinding) 10 (seconds 45) True
      \<in> set (drop (length (wo_trace (ex_aworld ex_journal []))) (wo_trace ex_finished))"
    by (simp add: ex_finished_trace ex_events_def ex_aworld_def)
  from execution_dispatches_once [OF _ ex_oracle_ok ex_execute this, of ex_jbinding] ex_runs(1)
  show ?thesis by (auto simp: ex_aworld_def)
qed

text \<open>C5. The engine is called only under guard: at most once, for the requested operation on the bound
  container with the requested grace period, with a time budget between the grace period plus five
  seconds and 45 seconds, for a state the operation may change, and only after two successful authority
  checks, the inspection and the durable intent.\<close>

theorem execution_calls_guarded:
  assumes "journal_run b (wo_journal w, wo_log w)" and "oracle_ok b orc"
    and "run_state (Execute (action_deps orc bound) r bnd d) w = (c, w')"
    and "EvCall op s g t ok \<in> set (drop (length (wo_trace w)) (wo_trace w'))"
  shows "op = ar_Operation r \<and> s = ab_ContainerID bnd \<and> g = ar_GraceSeconds r \<and>
         seconds (uint g) + seconds 5 \<le> t \<and> t \<le> seconds 45 \<and>
         (\<exists>k h st c' rest. classify op st = (c', True) \<and> NewJournalKey r bnd = Some k \<and>
            drop (length (wo_trace w)) (wo_trace w') =
              [EvCheck True, EvAcquire k (Some h), EvInspect s (Some st), EvCheck True, EvIntent h True, EvCall op s g t ok] @ rest \<and>
            (\<forall>op' s' g' t' ok'. EvCall op' s' g' t' ok' \<notin> set rest))"
proof -
  from assms(1-3) obtain es where w': "wo_trace w' = wo_trace w @ es" "exec_trace r bnd es c"
    by (rule execute_world)
  have "EvCall op s g t ok \<in> set es" using assms(4) w'(1) by simp
  with w'(2) show ?thesis unfolding w'(1) by (cases rule: exec_traceE) auto
qed

theorem execution_calls_guarded_witness:
  "seconds 15 \<le> seconds 45 \<and> drop 0 (wo_trace ex_finished) = ex_events \<and>
   (\<exists>st c'. classify Restart st = (c', True))"
proof -
  have e: "EvCall Restart (ab_ContainerID ex_abinding) 10 (seconds 45) True
      \<in> set (drop (length (wo_trace (ex_aworld ex_journal []))) (wo_trace ex_finished))"
    by (simp add: ex_finished_trace ex_events_def ex_aworld_def)
  show ?thesis
    using execution_calls_guarded [OF _ ex_oracle_ok ex_execute e, of ex_jbinding] ex_runs(1)
    by (auto simp: ex_aworld_def ex_finished_trace seconds_def)
qed

text \<open>C12. The answer is honest. A refusal (denied, unavailable, out of budget, identity conflict, state
  conflict, already running or stopped) means the engine was not called in this execution, and a
  success code of an execution that called it means that the call succeeded within its budget and that
  the result is durably recorded in the journal.\<close>

theorem execution_answer_honest:
  assumes "journal_run b (wo_journal w, wo_log w)" and "oracle_ok b orc"
    and "run_state (Execute (action_deps orc bound) r bnd d) w = (c, w')"
    and "EvCall op s g t ok \<in> set (drop (length (wo_trace w)) (wo_trace w'))"
  shows "c = OutcomeUnknown \<or>
         (c \<in> {Started, Stopped, Restarted} \<and> ok \<and> (\<exists>st. classify op st = (c, True)) \<and>
          (\<exists>h. EvFinish h c True \<in> set (drop (length (wo_trace w)) (wo_trace w'))))"
proof -
  from assms(1-3) obtain es where w': "wo_trace w' = wo_trace w @ es" "exec_trace r bnd es c"
    by (rule execute_world)
  have succ: "c' \<in> {Started, Stopped, Restarted}" if "classify op st = (c', True)" for op st c'
    using that by (auto simp: classify_def split: if_splits)
  have "EvCall op s g t ok \<in> set es" using assms(4) w'(1) by simp
  with w'(2) have "c = OutcomeUnknown \<or>
      (ok \<and> (\<exists>st. classify op st = (c, True)) \<and> (\<exists>h. EvFinish h c True \<in> set es))"
    by (cases rule: exec_traceE) auto
  then show ?thesis unfolding w'(1) using succ by auto
qed

theorem execution_answer_honest_witness: "\<exists>h. EvFinish h Restarted True \<in> set (wo_trace ex_finished)"
proof -
  have e: "EvCall Restart (ab_ContainerID ex_abinding) 10 (seconds 45) True
      \<in> set (drop (length (wo_trace (ex_aworld ex_journal []))) (wo_trace ex_finished))"
    by (simp add: ex_finished_trace ex_events_def ex_aworld_def)
  show ?thesis
    using execution_answer_honest [OF _ ex_oracle_ok ex_execute e, of ex_jbinding] ex_runs(1)
    by (auto simp: ex_aworld_def)
qed

section \<open>The journal\<close>

text \<open>C6. Uncertainty is bounded and fenced. In every state a journal can reach, at most two actions have an
  intent without a result or hold a permit for one, and no two actions that are unresolved or active
  concern the same target or the same container of the same engine.\<close>

theorem journal_fences_uncertainty:
  assumes "journal_run b (j, I)"
  shows "card (unresolved (j_db j) \<union> permit_ids j) \<le> 2 \<and>
         (\<forall>v \<in> set (jd_actions (j_db j)). \<forall>w \<in> set (jd_actions (j_db j)).
            {aw_id v, aw_id w} \<subseteq> unresolved (j_db j) \<union> active_ids j \<longrightarrow> aw_id v \<noteq> aw_id w \<longrightarrow>
            aw_target v \<noteq> aw_target w \<and> (aw_generation v, aw_container v) \<noteq> (aw_generation w, aw_container w))"
proof -
  have inv: "journal_inv j I" using journal_run_inv [OF assms] by simp
  then have "fenced (j_db j) (unresolved (j_db j) \<union> active_ids j)" by (simp add: journal_inv_def)
  then show ?thesis using inv unfolding fenced_def journal_inv_def by (metis insert_subset)
qed

theorem journal_fences_uncertainty_witness: "card (unresolved (j_db ex_dispatched) \<union> permit_ids ex_dispatched) \<le> 2"
  using journal_fences_uncertainty [OF ex_runs(3)] by blast

text \<open>C17. Pruning forgets no uncertainty: whatever it deletes or denies, and whether or not it succeeds,
  exactly the same actions are unresolved afterwards and their rows are still there.\<close>

theorem prune_keeps_unresolved:
  assumes "journal_run b (j, I)" and "Prune io j = (x, j')"
  shows "unresolved (j_db j') = unresolved (j_db j) \<and>
         (\<forall>w \<in> set (jd_actions (j_db j)). aw_id w \<in> unresolved (j_db j) \<longrightarrow> w \<in> set (jd_actions (j_db j')))"
proof (cases "j_db j' = j_db j")
  case False
  have inv: "journal_inv j I" and ok: "db_ok (j_db j)" using journal_run_inv [OF assms(1)] by (auto simp: journal_inv_def)
  obtain y where "transactionGuarded io None (prune_body io j) j = (y, j')"
    using assms(2) False by (auto simp: Prune_def journal_transaction_def split: if_splits prod.splits sum.splits)
  then have b: "prune_body io j (j_db j) = Inr (j_db j', ())"
    using False by (auto elim!: transactionGuarded_cases)
  have "unresolved (j_db j') \<subseteq> unresolved (j_db j)" by (rule prune_body_resolves [OF b inv])
  then show ?thesis using prune_body_unresolved [OF b ok] by auto
qed simp

theorem prune_keeps_unresolved_witness:
  "unresolved (j_db (snd (Prune (ex_jio ex_anow) ex_dispatched))) = unresolved (j_db ex_dispatched)"
  using prune_keeps_unresolved [OF ex_runs(3), of "ex_jio ex_anow"] by (metis prod.collapse)

text \<open>C18. A dispatched or settled action cannot be started again. Acquiring it is only possible with the metadata
  on record, changes nothing durable and yields an attempt that reports exactly what is on record: the code
  of the terminal event of the action, or an unknown outcome while there is only an intent. The attempt
  refuses every later intent and result.\<close>

theorem acquire_replays_settled:
  assumes run: "journal_run b (j, I)" and acq: "acquire io k g j = (Inr h, j')"
    and ev: "has_event (j_db j) (ak_ActionID k) 1 \<or> has_event (j_db j) (ak_ActionID k) 2"
  shows "j_db j' = j_db j \<and> j_active j' = j_active j \<and>
         (\<exists>w \<in> set (jd_actions (j_db j)). aw_id w = ak_ActionID k \<and> CanonicalJournalMetadata k = Some (aw_metadata w)) \<and>
         (if has_event (j_db j) (ak_ActionID k) 2
          then Existing h j' \<noteq> NoCode \<and>
            (\<forall>e \<in> set (jd_events (j_db j)). event_key e = (ak_ActionID k, 2) \<longrightarrow> Existing h j' = text_code (ew_code e))
          else Existing h j' = OutcomeUnknown) \<and>
         (\<forall>io' c intent. \<exists>e. transition io' h c intent j' = (Some e, j'))"
proof -
  have ok: "db_ok (j_db j)" using journal_run_inv [OF run] by (simp add: journal_inv_def)
  obtain raw db' a where k: "CanonicalJournalMetadata k = Some raw" and u: "usable j"
    and b: "acquire_body io j g k raw (j_db j) = Inr (db', a)" and h: "h = length (j_attempts j)"
    and j': "j' = j\<lparr>j_db := db', j_attempts := j_attempts j @ [a],
              j_active := (if at_mutable a then (ak_ActionID k, h) # j_active j else j_active j)\<rparr>"
    using acq by (auto simp: acquire_def Let_def elim!: transactionGuarded_cases split: if_splits option.splits prod.splits sum.splits)
  obtain existing where rd: "read_record (j_binding j) (ji_fault io) (j_db j) (ak_ActionID k) = Some existing"
    using b by (auto simp: acquire_body_def split: option.splits)
  have "existing \<noteq> None"
  proof
    assume "existing = None"
    then have "ak_ActionID k \<notin> aw_id ` set (jd_actions (j_db j))" using read_record_None [OF _ ok] rd by metis
    then show False using ev ok by (auto simp: has_event_def event_key_def db_ok_def)
  qed
  then obtain r where r: "existing = Some r" by blast
  obtain w where w: "w \<in> set (jd_actions (j_db j))" "aw_id w = ak_ActionID k" "reads (j_db j) w r"
    using read_record_Some [OF rd [unfolded r] ok] by metis
  then have id: "jr_id r = ak_ActionID k" by (simp add: reads_row_def row_key_def)
  have z: "\<not> IsZero (jr_terminal r) \<or> \<not> IsZero (jr_intent r)" using ev w(3) id by (auto simp: marks_has_event)
  have a: "a = new_attempt r False g" "db' = j_db j" "jr_raw r = raw"
    using b rd r z by (auto simp: acquire_body_def split: if_splits)
  have at: "attempt_at j' h = Some a" by (simp add: attempt_at_def j' h)
  have "Existing h j' = (if \<not> IsZero (jr_terminal r) then jr_code r else OutcomeUnknown)"
    using at u z by (auto simp: Existing_def a new_attempt_def usable_def j')
  then have ex: "Existing h j' = (if has_event (j_db j) (ak_ActionID k) 2 then jr_code r else OutcomeUnknown)"
    using w(3) id by (auto simp: marks_has_event)
  have "coded r" using read_coded rd r by blast
  then have "if has_event (j_db j) (ak_ActionID k) 2 then Existing h j' \<noteq> NoCode \<and>
      (\<forall>e \<in> set (jd_events (j_db j)). event_key e = (ak_ActionID k, 2) \<longrightarrow> Existing h j' = text_code (ew_code e))
      else Existing h j' = OutcomeUnknown"
    using read_carries [OF rd [unfolded r] ok] w(3) id unfolding carries_def by (auto simp: ex coded_def marks_has_event)
  moreover have "\<exists>e. transition io' h c intent j' = (Some e, j')" for io' c intent
    using at by (auto simp: transition_def a new_attempt_def)
  moreover have "CanonicalJournalMetadata k = Some (aw_metadata w)" using k a(3) w(3) by (simp add: reads_row_def)
  moreover have "j_db j' = j_db j" "j_active j' = j_active j" using a by (simp_all add: j' new_attempt_def)
  ultimately show ?thesis using w(1,2) by blast
qed

theorem acquire_replays_settled_witness:
  "(\<exists>h j'. acquire (ex_jio ex_anow) ex_key None ex_done = (Inr h, j') \<and> Existing h j' = Restarted)
   \<and> (\<exists>h j'. acquire (ex_jio ex_anow) ex_key None ex_dispatched = (Inr h, j') \<and> Existing h j' = OutcomeUnknown)"
proof
  obtain h j' where a: "acquire (ex_jio ex_anow) ex_key None ex_done = (Inr h, j')" using ex_done_acquire by blast
  have row: "ex_result_row \<in> set (jd_events (j_db ex_done))" "event_key ex_result_row = (ak_ActionID ex_key, 2)"
    by (simp_all add: ex_done_def event_key_def ex_result_row_def)
  show "\<exists>h j'. acquire (ex_jio ex_anow) ex_key None ex_done = (Inr h, j') \<and> Existing h j' = Restarted"
    using acquire_replays_settled [OF ex_done_run a] ex_done_events a row ex_result_code by metis
next
  have ev: "has_event (j_db ex_dispatched) (ak_ActionID ex_key) 1" "\<not> has_event (j_db ex_dispatched) (ak_ActionID ex_key) 2"
    by (simp_all add: has_event_def event_key_def ex_dispatched_def ex_intent_row_def)
  have "\<exists>h j'. acquire (ex_jio ex_anow) ex_key None ex_dispatched = (Inr h, j')"
    using ex_read_intent ex_canonical ex_times_ordered
    by (simp add: acquire_def guard_ok_def ex_jio_def ex_dispatched_def ex_admitted_def ex_journal_def usable_def Let_def
        transactionGuarded_def acquire_body_def IsZero_def)
  then obtain h j' where a: "acquire (ex_jio ex_anow) ex_key None ex_dispatched = (Inr h, j')" by blast
  show "\<exists>h j'. acquire (ex_jio ex_anow) ex_key None ex_dispatched = (Inr h, j') \<and> Existing h j' = OutcomeUnknown"
    using acquire_replays_settled [OF ex_runs(3) a] ev a by metis
qed

text \<open>C39. Journal metadata has one form: a key has canonical bytes exactly when parsing those bytes gives the
  key back, so that comparing bytes compares actions.\<close>

theorem journal_metadata_roundtrip: "CanonicalJournalMetadata k = Some raw \<longleftrightarrow> ParseJournalMetadata raw = Some k"
  using metadata_parse_canonical canonical_parse_metadata by blast

text \<open>C40. A snapshot of a reachable journal is exact: in the order of the identifiers there is one record for each
  action on file and no other, with the key of its metadata, its intent, the code and the time of its
  terminal event (an unknown outcome when there is only an intent, no code when there is neither), and
  marked active exactly when an attempt is.\<close>

theorem snapshot_exact:
  assumes "journal_run b (j, I)" and "AdmissionSnapshot io ctx_err j = Inr s"
  shows "distinct (map (ak_ActionID \<circ> am_Key) (as_Records s)) \<and>
         list_all2 (\<lambda>w r.
            ak_ActionID (am_Key r) = aw_id w \<and> CanonicalJournalMetadata (am_Key r) = Some (aw_metadata w) \<and>
            (am_HasIntent r \<longleftrightarrow> has_event (j_db j) (aw_id w) 1) \<and> (am_Active r \<longleftrightarrow> aw_id w \<in> active_ids j) \<and>
            (if has_event (j_db j) (aw_id w) 2
             then \<forall>e \<in> set (jd_events (j_db j)). event_key e = (aw_id w, 2) \<longrightarrow>
                    am_Code r = text_code (ew_code e) \<and> parseTime (ew_at e) = Some (am_TerminalAt r)
             else am_TerminalAt r = 0 \<and> am_Code r = (if has_event (j_db j) (aw_id w) 1 then OutcomeUnknown else NoCode)))
           (sort_key aw_id (jd_actions (j_db j))) (as_Records s)"
    (is "_ \<and> list_all2 ?exact ?rows _")
proof -
  have ok: "db_ok (j_db j)" using journal_run_inv [OF assms(1)] by (simp add: journal_inv_def)
  obtain rs where rs: "load (j_binding j) (ji_fault io) (j_db j) AllRecords = Some rs"
    and s: "as_Records s = map (admission_record_of j) rs"
    using assms(2) by (auto simp: AdmissionSnapshot_def all_records_def split: if_splits option.splits)
  have one: "?exact w (admission_record_of j r)" if "reads (j_db j) w r" "carries (set (jd_events (j_db j))) r" for w r
  proof -
    have id: "jr_id r = aw_id w" using that(1) by (simp add: reads_row_def row_key_def)
    have act: "map_of (j_active j) (aw_id w) \<noteq> None \<longleftrightarrow> aw_id w \<in> active_ids j" by (simp add: active_ids_def map_of_eq_None_iff)
    have marks: "IsZero (jr_intent r) \<longleftrightarrow> \<not> has_event (j_db j) (aw_id w) 1" "IsZero (jr_terminal r) \<longleftrightarrow> \<not> has_event (j_db j) (aw_id w) 2"
      using that(1) id by (auto simp: marks_has_event)
    have code: "\<forall>e \<in> set (jd_events (j_db j)). event_key e = (aw_id w, 2) \<longrightarrow> parseTime (ew_at e) = Some (jr_terminal r) \<and> jr_code r = text_code (ew_code e)"
      "\<not> has_event (j_db j) (aw_id w) 2 \<longrightarrow> jr_terminal r = 0 \<and> jr_code r = NoCode"
      using that(2) id by (simp_all add: carries_def has_event_def)
    show ?thesis
      unfolding admission_record_of_def using that(1) id act marks code by (auto simp: reads_row_def row_key_def)
  qed
  have "list_all2 (reads (j_db j)) ?rows rs" using load_reads [OF rs ok] by simp
  then have "list_all2 (\<lambda>w r. reads (j_db j) w r \<and> carries (set (jd_events (j_db j))) r) ?rows rs"
    using load_carries [OF rs ok] nth_mem unfolding list_all2_conv_all_nth by metis
  then have "list_all2 (\<lambda>w r. ?exact w (admission_record_of j r)) ?rows rs"
    by (rule list_all2_mono) (use one in blast)
  then have ex: "list_all2 ?exact ?rows (as_Records s)" unfolding s list_all2_map2 .
  then have "map (ak_ActionID \<circ> am_Key) (as_Records s) = map aw_id ?rows" by (rule list_all2_keys) simp
  moreover have "distinct (map aw_id ?rows)" using ok by (simp add: db_ok_def distinct_map)
  ultimately show ?thesis using ex by simp
qed

theorem snapshot_exact_witness:
  "\<exists>s r. AdmissionSnapshot (ex_jio ex_anow) (\<lambda>_. False) ex_done = Inr s \<and> as_Records s = [r] \<and>
     ak_ActionID (am_Key r) = ak_ActionID ex_key \<and> am_HasIntent r \<and> am_Code r = Restarted \<and> am_TerminalAt r = ex_anow"
proof -
  have "load ex_jbinding (\<lambda>_. False) (j_db ex_done) AllRecords = Some [ex_settled]" by (rule ex_load_done) simp_all
  then have "\<exists>s. AdmissionSnapshot (ex_jio ex_anow) (\<lambda>_. False) ex_done = Inr s"
    by (simp add: AdmissionSnapshot_def all_records_def ex_jio_def usable_def ex_done_def ex_dispatched_def ex_admitted_def ex_journal_def)
  then obtain s where s: "AdmissionSnapshot (ex_jio ex_anow) (\<lambda>_. False) ex_done = Inr s" by blast
  have rows: "jd_actions (j_db ex_done) = [ex_arow]" "aw_id ex_arow = ak_ActionID ex_key"
    "ex_result_row \<in> set (jd_events (j_db ex_done))" "event_key ex_result_row = (ak_ActionID ex_key, 2)"
    "parseTime (ew_at ex_result_row) = Some ex_anow"
    using ex_lengths(7) by (simp_all add: ex_done_def event_key_def ex_result_row_def ex_arow_def action_row_for_def)
  show ?thesis
    using snapshot_exact [OF ex_done_run s] ex_done_events rows ex_result_code s by (auto simp: list_all2_Cons1)
qed

end
