(* ===== verification/ActionProtocol.thy ===== *)
theory ActionProtocol
  imports ActionCore LedgerFiles
begin

text \<open>
  The strict JSON reader and the request receipt of the action protocol, \<^verbatim>\<open>internal/actionprotocol/json.go\<close>
  and \<^verbatim>\<open>receipt.go\<close>. A decoder is given twice: on a JSON value (a nested message) and on the bytes of a whole
  message. Go decodes a nested message from the bytes it occupies in the enclosing one; these have been
  checked with the enclosing message, so that the value determines the result.
\<close>

section \<open>Strict JSON\<close>

definition MaxEnvelopeBytes :: nat where "MaxEnvelopeBytes = 16384"

text \<open>\<^verbatim>\<open>utf8.Valid\<close> on the values of the bytes.\<close>

definition continuation :: "nat \<Rightarrow> bool" where
  "continuation c \<longleftrightarrow> 0x80 \<le> c \<and> c \<le> 0xBF"

definition second_byte :: "nat \<Rightarrow> nat \<Rightarrow> bool" where
  "second_byte a c \<longleftrightarrow>
     (if a = 0xE0 then 0xA0 \<le> c \<and> c \<le> 0xBF
      else if a = 0xED then 0x80 \<le> c \<and> c \<le> 0x9F
      else if a = 0xF0 then 0x90 \<le> c \<and> c \<le> 0xBF
      else if a = 0xF4 then 0x80 \<le> c \<and> c \<le> 0x8F
      else continuation c)"

fun utf8_bytes :: "nat list \<Rightarrow> bool" where
  "utf8_bytes [] = True"
| "utf8_bytes (a # r) =
     (if a < 0x80 then utf8_bytes r
      else if 0xC2 \<le> a \<and> a \<le> 0xDF then
        (case r of c # r1 \<Rightarrow> continuation c \<and> utf8_bytes r1 | _ \<Rightarrow> False)
      else if 0xE0 \<le> a \<and> a \<le> 0xEF then
        (case r of c # d # r1 \<Rightarrow> second_byte a c \<and> continuation d \<and> utf8_bytes r1 | _ \<Rightarrow> False)
      else if 0xF0 \<le> a \<and> a \<le> 0xF4 then
        (case r of c # d # e # r1 \<Rightarrow> second_byte a c \<and> continuation d \<and> continuation e \<and> utf8_bytes r1 | _ \<Rightarrow> False)
      else False)"

definition utf8_valid :: "string \<Rightarrow> bool" where
  "utf8_valid s = utf8_bytes (map of_char s)"

text \<open>The walk over the tokens: nesting below eight, no repeated name, plain decimal numbers.\<close>

definition strict_number :: "string \<Rightarrow> bool" where
  "strict_number s \<longleftrightarrow> \<not> (s = [] \<or> (1 < length s \<and> hd s = CHR ''0'')) \<and> digits s"

fun strict_value :: "nat \<Rightarrow> json \<Rightarrow> bool" where
  "strict_value depth (JNum s) \<longleftrightarrow> strict_number s"
| "strict_value depth (JArr vs) \<longleftrightarrow> depth < 8 \<and> (\<forall>v \<in> set vs. strict_value (Suc depth) v)"
| "strict_value depth (JObj ms) \<longleftrightarrow>
     depth < 8 \<and> distinct (map fst ms) \<and> (\<forall>(k, v) \<in> set ms. strict_value (Suc depth) v)"
| "strict_value depth _ \<longleftrightarrow> True"

text \<open>The value of an accepted text.\<close>

definition strictJSON :: "string \<Rightarrow> json option" where
  "strictJSON raw =
     (if length raw = 0 \<or> MaxEnvelopeBytes < length raw \<or> \<not> utf8_valid raw then None
      else case json_parse raw of
          None \<Rightarrow> None
        | Some v \<Rightarrow> if strict_value 0 v then Some v else None)"

definition objectFields :: "json \<Rightarrow> string list \<Rightarrow> (string \<times> json) list option" where
  "objectFields v names =
     (case v of
        JObj ms \<Rightarrow>
          if length (remdups (map fst ms)) = length names \<and> (\<forall>n \<in> set names. n \<in> set (map fst ms)) then Some ms else None
      | _ \<Rightarrow> None)"

text \<open>\<^verbatim>\<open>fields\<close> of \<^verbatim>\<open>execution.go\<close>.\<close>

definition strict_fields :: "json \<Rightarrow> string list \<Rightarrow> (string \<times> json) list option" where
  "strict_fields v names = (if strict_value 0 v then objectFields v names else None)"

definition member :: "(string \<times> json) list \<Rightarrow> string \<Rightarrow> json" where
  "member ms k = (case map_of ms k of None \<Rightarrow> JNull | Some v \<Rightarrow> v)"

text \<open>Decoding into a string, a pointer to a string, an integer and a boolean; \<^verbatim>\<open>null\<close> keeps the zero value.\<close>

definition as_str :: "json \<Rightarrow> string option" where
  "as_str v = (case v of JNull \<Rightarrow> Some [] | JStr s \<Rightarrow> Some s | _ \<Rightarrow> None)"

definition as_opt :: "json \<Rightarrow> string option option" where
  "as_opt v = (case v of JNull \<Rightarrow> Some None | JStr s \<Rightarrow> Some (Some s) | _ \<Rightarrow> None)"

definition as_int :: "json \<Rightarrow> int option" where
  "as_int v =
     (case v of
        JNull \<Rightarrow> Some 0
      | JNum s \<Rightarrow> if digits s \<and> s \<noteq> [] \<and> dec_val s < 2 ^ 63 then Some (int (dec_val s)) else None
      | _ \<Rightarrow> None)"

definition as_bool :: "json \<Rightarrow> bool option" where
  "as_bool v = (case v of JNull \<Rightarrow> Some False | JBool b \<Rightarrow> Some b | _ \<Rightarrow> None)"

definition opt_json :: "string option \<Rightarrow> json" where
  "opt_json x = (case x of None \<Rightarrow> JNull | Some s \<Rightarrow> JStr s)"

lemma as_simps [simp]:
  "as_str (JStr s) = Some s" "as_str JNull = Some []" "as_opt (opt_json x) = Some x" "as_bool (JBool c) = Some c"
  "as_opt JNull = Some None" "as_opt (JStr s) = Some (Some s)"
  by (auto simp: as_str_def as_opt_def opt_json_def as_bool_def split: option.splits)

lemma as_int_show: "n < 2 ^ 63 \<Longrightarrow> as_int (JNum (show_nat n)) = Some (int n)"
  by (simp add: as_int_def)

lemma show_nat_small: "n < 10 \<Longrightarrow> show_nat n = [digit_char n]"
  by (subst show_nat.simps) simp

lemma show_nat_0: "show_nat 0 = ''0''"
  by code_simp

lemma show_nat_large: "10 \<le> n \<Longrightarrow> show_nat n = show_nat (n div 10) @ [digit_char (n mod 10)]"
  by (subst show_nat.simps) simp

lemma show_nat_short: "n < 10 ^ Suc k \<Longrightarrow> length (show_nat n) \<le> Suc k"
proof (induction k arbitrary: n)
  case (Suc k)
  show ?case
  proof (cases "n < 10")
    case False
    have "n div 10 < 10 ^ Suc k" using Suc.prems by (simp add: div_less_iff_less_mult mult.commute)
    then show ?thesis using Suc.IH [of "n div 10"] False show_nat_large [of n] by simp
  qed (simp add: show_nat_small)
qed (simp add: show_nat_small)

lemma strict_show_nat [simp]: "strict_number (show_nat n)"
  using hd_show_nat [of n] show_nat_small [of 0] by (auto simp: strict_number_def)

text \<open>A plain decimal is the text of its value.\<close>

lemma show_nat_dec_val: "strict_number s \<Longrightarrow> show_nat (dec_val s) = s"
proof (induction s rule: rev_induct)
  case (snoc c t)
  have c: "is_digit c" using snoc.prems by (simp add: strict_number_def)
  show ?case
  proof (cases "t = []")
    case True
    then show ?thesis using c show_nat_small [of "digit_val c"] digit_val_less dec_val_snoc [of "[]" c] by (simp add: digit_char_val)
  next
    case False
    then have hd: "hd t \<noteq> CHR ''0''" using snoc.prems by (auto simp: strict_number_def)
    then have IH: "show_nat (dec_val t) = t" using snoc False by (auto simp: strict_number_def)
    have "dec_val t \<noteq> 0" using IH hd show_nat_0 by (cases "dec_val t = 0") auto
    then show ?thesis
      using IH c show_nat_large [of "dec_val (t @ [c])"] digit_val_less [OF c] by (simp add: digit_char_val)
  qed
qed (simp add: strict_number_def)

section \<open>Texts of the protocol\<close>

definition digits_between :: "char \<Rightarrow> char \<Rightarrow> char \<Rightarrow> bool" where
  "digits_between a z c \<longleftrightarrow> a \<le> c \<and> c \<le> z"

abbreviation hexValue :: "string \<Rightarrow> nat \<Rightarrow> bool" where
  "hexValue s n \<equiv> hex_string s n"

definition revision :: "string \<Rightarrow> bool" where
  "revision s =
     (if s = [] \<or> 19 < length s \<or> hd s < CHR ''1'' \<or> CHR ''9'' < hd s then False
      else if \<not> digits s then False
      else dec_val s < 2 ^ 64 \<and> dec_val s \<le> 2 ^ 63 - 1)"

definition civil_text :: "gotime \<Rightarrow> string" where
  "civil_text t =
     (let (y, yd) = year_yday (t div day_nanos);
          (mo, d) = month_day (leap_year y) yd;
          sod = nat ((t mod day_nanos) div nano_per_second)
      in year_text y @ ''-'' @ dig 2 mo @ ''-'' @ dig 2 d @ ''T'' @
         dig 2 (sod div 3600) @ '':'' @ dig 2 (sod div 60 mod 60) @ '':'' @ dig 2 (sod mod 60))"

text \<open>
  \<^verbatim>\<open>Format\<close> and \<^verbatim>\<open>time.Parse\<close> of a layout with exactly \<open>w\<close> digits of a second. \<^verbatim>\<open>time.Parse\<close> also reads an
  hour of one digit and a decimal comma; every caller rejects a text that is not the format of the
  instant it denotes, and of the texts that are, the reader below accepts the same ones.
\<close>

definition fixed_time :: "nat \<Rightarrow> gotime \<Rightarrow> string" where
  "fixed_time w t = civil_text t @ ''.'' @ dig w (nat (t mod nano_per_second) div 10 ^ (9 - w)) @ ''Z''"

definition fixed_parse :: "nat \<Rightarrow> string \<Rightarrow> gotime option" where
  "fixed_parse w s =
     (let y = dec_val (field s 0 4); mo = dec_val (field s 5 2); d = dec_val (field s 8 2);
          h = dec_val (field s 11 2); mi = dec_val (field s 14 2); se = dec_val (field s 17 2);
          frac = dec_val (field s 20 w); leap = leap_year (int y)
      in if length s = 21 + w
          \<and> digits (field s 0 4) \<and> digits (field s 5 2) \<and> digits (field s 8 2)
          \<and> digits (field s 11 2) \<and> digits (field s 14 2) \<and> digits (field s 17 2) \<and> digits (field s 20 w)
          \<and> field s 4 1 = ''-'' \<and> field s 7 1 = ''-'' \<and> field s 10 1 = ''T''
          \<and> field s 13 1 = '':'' \<and> field s 16 1 = '':'' \<and> field s 19 1 = ''.'' \<and> field s (20 + w) 1 = ''Z''
          \<and> 1 \<le> mo \<and> mo \<le> 12 \<and> 1 \<le> d \<and> d \<le> days_in_month leap mo
          \<and> h < 24 \<and> mi < 60 \<and> se < 60
        then Some ((days_before_year (int y) + days_before_month leap mo + int d - 1) * day_nanos
               + int ((h * 60 + mi) * 60 + se) * nano_per_second + int (frac * 10 ^ (9 - w)))
        else None)"

abbreviation http_time :: "gotime \<Rightarrow> string" where "http_time \<equiv> fixed_time 6"
abbreviation http_parse :: "string \<Rightarrow> gotime option" where "http_parse \<equiv> fixed_parse 6"

definition ParseHTTPTime :: "string \<Rightarrow> gotime option" where
  "ParseHTTPTime s =
     (case http_parse s of
        None \<Rightarrow> None
      | Some t \<Rightarrow> if length s \<noteq> 27 \<or> IsZero t \<or> http_time t \<noteq> s then None else Some t)"

definition alphanumeric :: "char \<Rightarrow> bool" where
  "alphanumeric c \<longleftrightarrow>
     digits_between (CHR ''a'') (CHR ''z'') c \<or> digits_between (CHR ''A'') (CHR ''Z'') c \<or> digits_between (CHR ''0'') (CHR ''9'') c"

definition correlation :: "string \<Rightarrow> bool" where
  "correlation s =
     (if length s < 1 \<or> 128 < length s then False
      else alphanumeric (hd s) \<and> (\<forall>c \<in> set (tl s). alphanumeric c \<or> c \<in> set ''._:-''))"

definition targetKey :: "string \<Rightarrow> bool" where
  "targetKey s =
     (if s = [] \<or> 48 < length s \<or> hd s < CHR ''a'' \<or> CHR ''z'' < hd s then False
      else (\<forall>c \<in> set s. digits_between (CHR ''a'') (CHR ''z'') c \<or> digits_between (CHR ''0'') (CHR ''9'') c
              \<or> c = CHR ''_'' \<or> c = CHR ''-''))"

definition nonce :: "string \<Rightarrow> bool" where
  "nonce s \<longleftrightarrow> hexValue s 32 \<and> s \<noteq> replicate 32 (CHR ''0'')"

definition hex_encode :: "bytes \<Rightarrow> string" where
  "hex_encode bs = concat (map (\<lambda>x. [hex_digit (unat x div 16), hex_digit (unat x mod 16)]) bs)"

section \<open>Parameters\<close>

record grace =
  gr_Seconds :: uint8
  gr_Null :: bool

definition grace_MarshalJSON :: "grace \<Rightarrow> json option" where
  "grace_MarshalJSON g =
     (if gr_Null g \<and> gr_Seconds g = 0 then Some JNull
      else if gr_Null g \<or> gr_Seconds g < 1 \<or> 30 < gr_Seconds g then None
      else Some (JNum (show_nat (unat (gr_Seconds g)))))"

definition grace_UnmarshalJSON :: "json \<Rightarrow> grace option" where
  "grace_UnmarshalJSON v =
     (case v of
        JNull \<Rightarrow> Some \<lparr>gr_Seconds = 0, gr_Null = True\<rparr>
      | JNum s \<Rightarrow>
          (if s = [] \<or> \<not> digits s \<or> 2 ^ 8 \<le> dec_val s then None
           else let n = dec_val s
             in if n < 1 \<or> 30 < n \<or> show_nat n \<noteq> s then None
                else Some \<lparr>gr_Seconds = of_nat n, gr_Null = False\<rparr>)
      | _ \<Rightarrow> None)"

record parameters =
  pa_FormatVersion :: int
  pa_StopGraceSeconds :: grace

definition parameters_names :: "string list" where
  "parameters_names = [''format_version'', ''stop_grace_seconds'']"

definition unmarshal_parameters :: "json \<Rightarrow> parameters option" where
  "unmarshal_parameters v =
     (case v of
        JNull \<Rightarrow> Some \<lparr>pa_FormatVersion = 0, pa_StopGraceSeconds = \<lparr>gr_Seconds = 0, gr_Null = False\<rparr>\<rparr>
      | JObj ms \<Rightarrow>
          do {
            version \<leftarrow> as_int (member ms ''format_version'');
            grace \<leftarrow> grace_UnmarshalJSON (member ms ''stop_grace_seconds'');
            Some \<lparr>pa_FormatVersion = version, pa_StopGraceSeconds = grace\<rparr>
          }
      | _ \<Rightarrow> None)"

definition ParameterDigest :: "operation \<Rightarrow> parameters \<Rightarrow> string option" where
  "ParameterDigest op p =
     (let g = pa_StopGraceSeconds p;
          quoted = (\<lambda>s. dquote # s @ [dquote]);
          preimage = ''{'' @ quoted ''version'' @ '':1,'' @ quoted ''operation'' @ '':'' @ quoted (operation_text op) @ '','' @
                     quoted ''parameters'' @ '':''
      in if pa_FormatVersion p \<noteq> 1 then None
         else if op = Start then
           (if \<not> gr_Null g \<or> gr_Seconds g \<noteq> 0 then None
            else Some (hex_encode (sha256 (bytes_of (preimage @ ''{}}'')))))
         else if op = Stop \<or> op = Restart then
           (if gr_Null g \<or> gr_Seconds g < 1 \<or> 30 < gr_Seconds g then None
            else Some (hex_encode (sha256 (bytes_of (preimage @ ''{'' @ quoted ''stop_grace_seconds'' @ '':'' @
                   show_nat (unat (gr_Seconds g)) @ ''}}'')))))
         else None)"

section \<open>The request receipt\<close>

record request_receipt =
  rr_ActionID :: string
  rr_ServerID :: string
  rr_OwnerUserID :: string
  rr_ActorUserID :: string
  rr_ConnectorInstanceID :: string
  rr_Operation :: operation
  rr_TargetID :: string
  rr_TargetKey :: string
  rr_IdempotencyKeyHash :: string
  rr_PolicyRevision :: string
  rr_CapabilityRevision :: string
  rr_Parameters :: parameters
  rr_ParameterSHA256 :: string
  rr_RequestedAt :: string
  rr_ExpiresAt :: string
  rr_CorrelationID :: string

definition ValidateRequest :: "request_receipt \<Rightarrow> bool" where
  "ValidateRequest r =
     (if \<not> is_identifier (rr_ActionID r) ''hla_'' \<or> \<not> is_identifier (rr_ServerID r) ''srv_''
         \<or> \<not> is_identifier (rr_OwnerUserID r) ''usr_'' \<or> rr_ActorUserID r \<noteq> rr_OwnerUserID r
         \<or> \<not> is_identifier (rr_ConnectorInstanceID r) ''agent_'' \<or> \<not> is_identifier (rr_TargetID r) ''hlt_''
         \<or> \<not> targetKey (rr_TargetKey r) \<or> \<not> hexValue (rr_IdempotencyKeyHash r) 64 \<or> \<not> revision (rr_PolicyRevision r)
         \<or> \<not> revision (rr_CapabilityRevision r) \<or> \<not> hexValue (rr_ParameterSHA256 r) 64 \<or> \<not> correlation (rr_CorrelationID r)
      then False
      else (case (ParseHTTPTime (rr_RequestedAt r), ParseHTTPTime (rr_ExpiresAt r), ParameterDigest (rr_Operation r) (rr_Parameters r)) of
          (Some created, Some expires, Some expected) \<Rightarrow>
            \<not> (Sub expires created \<noteq> seconds 300 \<or> expected \<noteq> rr_ParameterSHA256 r)
        | _ \<Rightarrow> False))"

definition request_names :: "string list" where
  "request_names =
     [''action_id'', ''server_id'', ''owner_user_id'', ''actor_user_id'', ''connector_instance_id'', ''operation'', ''target_id'',
      ''target_key'', ''idempotency_key_hash'', ''policy_revision'', ''capability_revision'', ''parameters'', ''parameter_sha256'',
      ''requested_at'', ''expires_at'', ''correlation_id'']"

text \<open>\<^verbatim>\<open>json.Unmarshal\<close> into the struct.\<close>

definition unmarshal_request :: "(string \<times> json) list \<Rightarrow> request_receipt option" where
  "unmarshal_request ms =
     do {
       action \<leftarrow> as_str (member ms ''action_id'');
       server \<leftarrow> as_str (member ms ''server_id'');
       owner \<leftarrow> as_str (member ms ''owner_user_id'');
       actor \<leftarrow> as_str (member ms ''actor_user_id'');
       connector \<leftarrow> as_str (member ms ''connector_instance_id'');
       op \<leftarrow> as_str (member ms ''operation'');
       target \<leftarrow> as_str (member ms ''target_id'');
       key \<leftarrow> as_str (member ms ''target_key'');
       idem \<leftarrow> as_str (member ms ''idempotency_key_hash'');
       policy \<leftarrow> as_str (member ms ''policy_revision'');
       capability \<leftarrow> as_str (member ms ''capability_revision'');
       params \<leftarrow> unmarshal_parameters (member ms ''parameters'');
       sha \<leftarrow> as_str (member ms ''parameter_sha256'');
       requested \<leftarrow> as_str (member ms ''requested_at'');
       expires \<leftarrow> as_str (member ms ''expires_at'');
       corr \<leftarrow> as_str (member ms ''correlation_id'');
       Some \<lparr>rr_ActionID = action, rr_ServerID = server, rr_OwnerUserID = owner, rr_ActorUserID = actor,
             rr_ConnectorInstanceID = connector, rr_Operation = text_operation op, rr_TargetID = target, rr_TargetKey = key,
             rr_IdempotencyKeyHash = idem, rr_PolicyRevision = policy, rr_CapabilityRevision = capability,
             rr_Parameters = params, rr_ParameterSHA256 = sha, rr_RequestedAt = requested, rr_ExpiresAt = expires,
             rr_CorrelationID = corr\<rparr>
     }"

definition decode_request :: "json \<Rightarrow> request_receipt option" where
  "decode_request v =
     (case strict_fields v request_names of
        None \<Rightarrow> None
      | Some ms \<Rightarrow>
          if objectFields (member ms ''parameters'') parameters_names = None then None
          else case unmarshal_request ms of
              None \<Rightarrow> None
            | Some r \<Rightarrow> if ValidateRequest r then Some r else None)"

definition DecodeRequest :: "string \<Rightarrow> request_receipt option" where
  "DecodeRequest raw = (case strictJSON raw of None \<Rightarrow> None | Some v \<Rightarrow> decode_request v)"

definition int_text :: "int \<Rightarrow> string" where
  "int_text n = (if n < 0 then CHR ''-'' # show_nat (nat (- n)) else show_nat (nat n))"

text \<open>\<^verbatim>\<open>json.Marshal\<close> fails on a grace that is not valid; the codecs encode only valid parameters.\<close>

definition grace_json :: "grace \<Rightarrow> json" where
  "grace_json g = (case grace_MarshalJSON g of None \<Rightarrow> JNull | Some v \<Rightarrow> v)"

definition parameters_json :: "parameters \<Rightarrow> json" where
  "parameters_json p =
     JObj [(''format_version'', JNum (int_text (pa_FormatVersion p))), (''stop_grace_seconds'', grace_json (pa_StopGraceSeconds p))]"

definition request_json :: "request_receipt \<Rightarrow> json" where
  "request_json r =
     JObj [(''action_id'', JStr (rr_ActionID r)), (''server_id'', JStr (rr_ServerID r)), (''owner_user_id'', JStr (rr_OwnerUserID r)),
       (''actor_user_id'', JStr (rr_ActorUserID r)), (''connector_instance_id'', JStr (rr_ConnectorInstanceID r)),
       (''operation'', JStr (operation_text (rr_Operation r))), (''target_id'', JStr (rr_TargetID r)),
       (''target_key'', JStr (rr_TargetKey r)), (''idempotency_key_hash'', JStr (rr_IdempotencyKeyHash r)),
       (''policy_revision'', JStr (rr_PolicyRevision r)), (''capability_revision'', JStr (rr_CapabilityRevision r)),
       (''parameters'', parameters_json (rr_Parameters r)), (''parameter_sha256'', JStr (rr_ParameterSHA256 r)),
       (''requested_at'', JStr (rr_RequestedAt r)), (''expires_at'', JStr (rr_ExpiresAt r)), (''correlation_id'', JStr (rr_CorrelationID r))]"

definition CanonicalRequest :: "request_receipt \<Rightarrow> string option" where
  "CanonicalRequest r =
     (if \<not> ValidateRequest r then None
      else let raw = json_print (request_json r) in if MaxEnvelopeBytes < length raw then None else Some raw)"

definition ReceiptDigest :: "request_receipt \<Rightarrow> bytes option" where
  "ReceiptDigest r =
     (case CanonicalRequest r of
        None \<Rightarrow> None
      | Some raw \<Rightarrow> Some (sha256 (bytes_of (''platform-container-receipt/v1'' @ [CHR 0x0A] @ raw))))"

section \<open>Round trips\<close>

lemma objectFields_names:
  "distinct (map fst ms) \<Longrightarrow> map fst ms = names \<Longrightarrow> objectFields (JObj ms) names = Some ms"
  by (auto simp: objectFields_def distinct_remdups_id)

lemma member_Cons [simp]: "member ((k', v) # ms) k = (if k = k' then v else member ms k)"
  by (simp add: member_def)

lemma ParameterDigest_valid:
  assumes "ParameterDigest op p = Some h"
  shows "known_operation op" "pa_FormatVersion p = 1" "grace_MarshalJSON (pa_StopGraceSeconds p) \<noteq> None"
  using assms unfolding ParameterDigest_def Let_def grace_MarshalJSON_def known_operation_def by (auto split: if_splits)

lemma grace_roundtrip:
  assumes "grace_MarshalJSON g = Some v"
  shows "grace_UnmarshalJSON v = Some g"
proof (cases "gr_Null g")
  case True
  then show ?thesis
    using assms by (cases g) (auto simp: grace_MarshalJSON_def grace_UnmarshalJSON_def split: if_splits)
next
  case False
  then have v: "v = JNum (show_nat (unat (gr_Seconds g)))" and b: "gr_Seconds g \<noteq> 0" "gr_Seconds g \<le> 30"
    using assms by (auto simp: grace_MarshalJSON_def not_less split: if_splits)
  have "1 \<le> unat (gr_Seconds g)" "unat (gr_Seconds g) \<le> 30"
    using b unat_gt_0 [of "gr_Seconds g"] by (simp_all add: word_le_nat_alt)
  then show ?thesis
    using False by (cases g) (simp add: v grace_UnmarshalJSON_def)
qed

lemma grace_strict [simp]: "strict_value d (grace_json g)"
  by (auto simp: grace_json_def grace_MarshalJSON_def)

lemma parameters_roundtrip:
  assumes "ParameterDigest op p = Some h"
  shows "unmarshal_parameters (parameters_json p) = Some p"
    "objectFields (parameters_json p) parameters_names \<noteq> None" "d < 8 \<Longrightarrow> strict_value d (parameters_json p)"
proof -
  obtain v where v: "grace_MarshalJSON (pa_StopGraceSeconds p) = Some v" and one: "pa_FormatVersion p = 1"
    using ParameterDigest_valid [OF assms] by auto
  show "unmarshal_parameters (parameters_json p) = Some p"
    using grace_roundtrip [OF v] v one as_int_show [of 1]
    by (cases p) (simp add: unmarshal_parameters_def parameters_json_def grace_json_def int_text_def)
  show "objectFields (parameters_json p) parameters_names \<noteq> None"
    unfolding parameters_json_def by (subst objectFields_names) (auto simp: parameters_names_def)
  show "d < 8 \<Longrightarrow> strict_value d (parameters_json p)"
    by (simp add: parameters_json_def one int_text_def)
qed

lemma ValidateRequest_digest: "ValidateRequest r \<Longrightarrow> \<exists>h. ParameterDigest (rr_Operation r) (rr_Parameters r) = Some h"
  unfolding ValidateRequest_def by (auto split: if_splits option.splits)

lemma unmarshal_request_json:
  assumes "ValidateRequest r" and "request_json r = JObj ms"
  shows "unmarshal_request ms = Some r"
proof -
  obtain h where h: "ParameterDigest (rr_Operation r) (rr_Parameters r) = Some h"
    using ValidateRequest_digest [OF assms(1)] by blast
  show ?thesis
    using assms(2) parameters_roundtrip(1) [OF h] text_operation_text [OF ParameterDigest_valid(1) [OF h]]
    by (cases r) (auto simp: request_json_def unmarshal_request_def)
qed

lemma strict_request_json: "ValidateRequest r \<Longrightarrow> d < 7 \<Longrightarrow> strict_value d (request_json r)"
  using ValidateRequest_digest [of r] parameters_roundtrip(3) [of "rr_Operation r" "rr_Parameters r" _ "Suc d"]
  by (auto simp: request_json_def)

lemma decode_request_json:
  assumes "ValidateRequest r"
  shows "decode_request (request_json r) = Some r"
proof -
  obtain ms where ms: "request_json r = JObj ms" by (simp add: request_json_def)
  have names: "distinct (map fst ms)" "map fst ms = request_names"
    using ms by (auto simp: request_json_def request_names_def)
  obtain h where h: "ParameterDigest (rr_Operation r) (rr_Parameters r) = Some h"
    using ValidateRequest_digest [OF assms] by blast
  have "member ms ''parameters'' = parameters_json (rr_Parameters r)"
    using ms by (auto simp: request_json_def)
  then show ?thesis
    using strict_request_json [OF assms, of 0] names unmarshal_request_json [OF assms ms] parameters_roundtrip(2) [OF h] assms
    by (simp add: decode_request_def strict_fields_def objectFields_names ms)
qed

lemma decode_request_valid: "decode_request v = Some r \<Longrightarrow> ValidateRequest r"
  by (auto simp: decode_request_def split: option.splits if_splits)

text \<open>A strict value survives printing, and ASCII texts are valid UTF-8.\<close>

lemma strict_wf: "strict_value d v \<Longrightarrow> wf_json v"
proof (induction d v rule: strict_value.induct)
  case (1 d s)
  then show ?case using show_nat_dec_val [of s] by (auto intro: exI [of _ "dec_val s"])
qed auto

definition ascii :: "string \<Rightarrow> bool" where
  "ascii s = list_all (\<lambda>c. of_char c < (128 :: nat)) s"

lemma ascii_simps [simp]:
  "ascii []" "ascii (c # s) \<longleftrightarrow> of_char c < (128 :: nat) \<and> ascii s" "ascii (s @ t) \<longleftrightarrow> ascii s \<and> ascii t"
  by (simp_all add: ascii_def)

lemma ascii_utf8: "ascii s \<Longrightarrow> utf8_valid s"
  by (induction s) (auto simp: utf8_valid_def)

lemma ascii_concat: "(\<And>x. x \<in> set xs \<Longrightarrow> ascii x) \<Longrightarrow> ascii (concat xs)"
  by (induction xs) auto

fun ascii_json :: "json \<Rightarrow> bool" where
  "ascii_json (JNum s) \<longleftrightarrow> ascii s"
| "ascii_json (JStr s) \<longleftrightarrow> ascii s"
| "ascii_json (JArr vs) \<longleftrightarrow> (\<forall>v \<in> set vs. ascii_json v)"
| "ascii_json (JObj ms) \<longleftrightarrow> (\<forall>(k, v) \<in> set ms. ascii k \<and> ascii_json v)"
| "ascii_json _ \<longleftrightarrow> True"

lemma ascii_hex_digit [simp]: "of_char (hex_digit n) < (128 :: nat)"
proof -
  have "ascii ''0123456789abcdef''" by simp
  moreover have "n mod 16 < length ''0123456789abcdef''" by simp
  ultimately show ?thesis unfolding hex_digit_def ascii_def by (simp only: list_all_length)
qed

lemma ascii_json_string: "ascii s \<Longrightarrow> ascii (json_string s)"
proof -
  have c: "of_char c < (128 :: nat) \<Longrightarrow> ascii (escape_char c)" for c
    by (auto simp: escape_char_def backslash_def dquote_def)
  assume "ascii s"
  then have "ascii (concat (map escape_char s))" by (induction s) (auto simp: c)
  then show ?thesis by (simp add: json_string_def dquote_def)
qed

lemma ascii_join: "ascii sep \<Longrightarrow> (\<And>x. x \<in> set xs \<Longrightarrow> ascii x) \<Longrightarrow> ascii (join sep xs)"
  by (induction sep xs rule: join.induct) auto

lemma ascii_print: "ascii_json v \<Longrightarrow> ascii (json_print v)"
proof (induction v)
  case (JArr vs)
  then show ?case by (auto intro!: ascii_join)
next
  case (JObj ms)
  have "ascii (member_text m)" if "m \<in> set ms" for m
    using JObj that by (cases m) (fastforce simp: ascii_json_string)
  then show ?case by (auto intro!: ascii_join)
qed (auto simp: ascii_json_string)

lemma strict_print:
  assumes "strict_value 0 v" "ascii_json v" "length (json_print v) \<le> MaxEnvelopeBytes"
  shows "strictJSON (json_print v) = Some v"
proof -
  have v: "json_parse (json_print v) = Some v" using json_roundtrip [OF strict_wf [OF assms(1)]] .
  then have "json_print v \<noteq> []" by (auto simp: json_parse_def)
  then show ?thesis using v assms ascii_utf8 [OF ascii_print [OF assms(2)]] by (simp add: strictJSON_def)
qed

text \<open>The accepted texts are ASCII and short, so that every message of valid parts is accepted again.\<close>

definition short :: "string \<Rightarrow> nat \<Rightarrow> bool" where
  "short s n \<longleftrightarrow> ascii s \<and> length s \<le> n"

lemma char_le_ascii: "c \<le> d \<Longrightarrow> of_char d < (128 :: nat) \<Longrightarrow> of_char c < (128 :: nat)"
  by (simp add: less_eq_char_def)

lemma lower_hex_ascii: "lower_hex c \<Longrightarrow> of_char c < (128 :: nat)"
  using char_le_ascii [of c "CHR ''9''"] char_le_ascii [of c "CHR ''f''"] by (auto simp: lower_hex_def)

lemma alphanumeric_ascii: "alphanumeric c \<Longrightarrow> of_char c < (128 :: nat)"
  using char_le_ascii [of c "CHR ''z''"] char_le_ascii [of c "CHR ''Z''"] char_le_ascii [of c "CHR ''9''"]
  by (auto simp: alphanumeric_def digits_between_def)

lemma digits_ascii: "digits s \<Longrightarrow> ascii s"
  by (auto simp: digits_def ascii_def list_all_iff is_digit_def)

lemma hex_short: "hex_string s n \<Longrightarrow> short s n"
  by (auto simp: hex_string_def short_def ascii_def list_all_iff lower_hex_ascii)

lemma identifier_short: "prefixed_hex s p n \<Longrightarrow> ascii p \<Longrightarrow> short s (length p + n)"
proof -
  assume a: "prefixed_hex s p n" "ascii p"
  then have "s = p @ drop (length p) s" "hex_string (drop (length p) s) n"
    using append_take_drop_id [of "length p" s] by (auto simp: prefixed_hex_def)
  then show ?thesis using a hex_short [of "drop (length p) s" n] prefixed_hex_length [OF a(1)]
    by (metis ascii_simps(3) order_refl short_def)
qed

lemma revision_short: "revision s \<Longrightarrow> short s 19"
  by (auto simp: revision_def short_def digits_ascii split: if_splits)

lemma targetKey_short: "targetKey s \<Longrightarrow> short s 48"
  using alphanumeric_ascii by (fastforce simp: targetKey_def short_def ascii_def list_all_iff alphanumeric_def split: if_splits)

lemma correlation_short: "correlation s \<Longrightarrow> short s 128"
  using alphanumeric_ascii
  by (cases s) (fastforce simp: correlation_def short_def ascii_def list_all_iff split: if_splits)+

lemma operation_short: "known_operation op \<Longrightarrow> short (operation_text op) 17"
  by (auto simp: known_operation_def short_def)

lemma grace_short: "grace_json g = JNull \<or> (\<exists>n. grace_json g = JNum (show_nat n) \<and> n \<le> 30)"
  by (auto simp: grace_json_def grace_MarshalJSON_def word_le_nat_alt word_less_nat_alt)

lemma ParseHTTPTime_text: "ParseHTTPTime s = Some t \<Longrightarrow> http_time t = s \<and> length s = 27 \<and> t \<noteq> 0"
  by (auto simp: ParseHTTPTime_def IsZero_def split: option.splits if_splits)

lemma ascii_numbers [simp]: "ascii (dig w n)" "ascii (show_nat n)"
  by (simp_all add: digits_ascii)

lemma ascii_fixed_time: "ascii (fixed_time w t)"
  by (simp add: fixed_time_def civil_text_def year_text_def Let_def split: prod.splits)

lemma time_short: "ParseHTTPTime s = Some t \<Longrightarrow> short s 27"
proof -
  assume "ParseHTTPTime s = Some t"
  moreover have "ascii (http_time t)" by (rule ascii_fixed_time)
  ultimately show ?thesis using ParseHTTPTime_text [of s t] by (auto simp: short_def)
qed

lemma length_json_string: "length (json_string s) \<le> 6 * length s + 2"
proof -
  have "length (escape_char c) \<le> 6" for c by (simp add: escape_char_def)
  then have "length (concat (map escape_char s)) \<le> 6 * length s"
    by (induction s) (auto simp: add_mono)
  then show ?thesis by (simp add: json_string_def)
qed

lemma short_json_string: "short s n \<Longrightarrow> length (json_string s) \<le> 6 * n + 2"
  using length_json_string [of s] by (auto simp: short_def)

lemma length_parameters:
  assumes "ParameterDigest op p = Some h"
  shows "length (json_print (parameters_json p)) \<le> 300" "ascii_json (parameters_json p)"
proof -
  have "length (show_nat n) \<le> 2" if "n \<le> 30" for n
    using that by (subst show_nat.simps, subst show_nat.simps) auto
  then have "length (json_print (grace_json (pa_StopGraceSeconds p))) \<le> 4"
    using grace_short [of "pa_StopGraceSeconds p"] by fastforce
  moreover have "length (json_string ''format_version'') \<le> 100" "length (json_string ''stop_grace_seconds'') \<le> 120"
    using length_json_string [of "''format_version''"] length_json_string [of "''stop_grace_seconds''"] by auto
  ultimately show "length (json_print (parameters_json p)) \<le> 300"
    using ParameterDigest_valid(2) [OF assms] show_nat_small [of 1]
    by (simp add: parameters_json_def int_text_def)
  show "ascii_json (parameters_json p)"
    using ParameterDigest_valid(2) [OF assms] grace_short [of "pa_StopGraceSeconds p"]
    by (auto simp: parameters_json_def int_text_def)
qed

lemma ValidateRequest_short:
  assumes "ValidateRequest r"
  shows "short (rr_ActionID r) 36" "short (rr_ServerID r) 36" "short (rr_OwnerUserID r) 36" "short (rr_ActorUserID r) 36"
    "short (rr_ConnectorInstanceID r) 38" "short (operation_text (rr_Operation r)) 17" "short (rr_TargetID r) 36"
    "short (rr_TargetKey r) 48" "short (rr_IdempotencyKeyHash r) 64" "short (rr_PolicyRevision r) 19"
    "short (rr_CapabilityRevision r) 19" "short (rr_ParameterSHA256 r) 64" "short (rr_RequestedAt r) 27"
    "short (rr_ExpiresAt r) 27" "short (rr_CorrelationID r) 128"
  using assms identifier_short [of "rr_ActionID r" "''hla_''" 32] identifier_short [of "rr_ServerID r" "''srv_''" 32]
    identifier_short [of "rr_OwnerUserID r" "''usr_''" 32] identifier_short [of "rr_ConnectorInstanceID r" "''agent_''" 32]
    identifier_short [of "rr_TargetID r" "''hlt_''" 32] ParameterDigest_valid(1) [THEN operation_short]
  by (auto simp: ValidateRequest_def targetKey_short hex_short revision_short correlation_short time_short
      split: if_splits option.splits)

lemma request_length:
  assumes "ValidateRequest r"
  shows "length (json_print (request_json r)) \<le> 8000" "ascii_json (request_json r)"
proof -
  obtain h where h: "ParameterDigest (rr_Operation r) (rr_Parameters r) = Some h"
    using ValidateRequest_digest [OF assms] by blast
  note p = length_parameters [OF h] and s = ValidateRequest_short [OF assms]
  have "length (json_string n) \<le> 140" if "n \<in> set request_names" for n
    using that length_json_string [of n] by (auto simp: request_names_def)
  then have names: "list_all (\<lambda>n. length (json_string n) \<le> 140) request_names"
    by (auto simp: list_all_iff)
  show "ascii_json (request_json r)" using s p(2) by (simp add: request_json_def short_def)
  show "length (json_print (request_json r)) \<le> 8000"
    using s [THEN short_json_string] names p(1) by (simp add: request_json_def request_names_def)
qed

lemma CanonicalRequest_total: "ValidateRequest r \<Longrightarrow> CanonicalRequest r = Some (json_print (request_json r))"
  using request_length(1) [of r] by (simp add: CanonicalRequest_def MaxEnvelopeBytes_def)

lemma DecodeRequest_canonical:
  assumes "CanonicalRequest r = Some raw"
  shows "DecodeRequest raw = Some r"
proof -
  have v: "ValidateRequest r" and raw: "raw = json_print (request_json r)"
    using assms by (auto simp: CanonicalRequest_def Let_def split: if_splits)
  have "strictJSON raw = Some (request_json r)"
    unfolding raw by (rule strict_print)
      (use v request_length [OF v] strict_request_json [OF v, of 0] in \<open>auto simp: MaxEnvelopeBytes_def\<close>)
  then show ?thesis using decode_request_json [OF v] by (simp add: DecodeRequest_def)
qed

lemma DecodeRequest_valid: "DecodeRequest raw = Some r \<Longrightarrow> ValidateRequest r"
  by (auto simp: DecodeRequest_def decode_request_valid split: option.splits)

text \<open>The revisions are exactly the decimal texts of the positive signed 64-bit integers.\<close>

lemma revision_iff: "revision s \<longleftrightarrow> (\<exists>n. 1 \<le> n \<and> n \<le> 2 ^ 63 - 1 \<and> s = show_nat n)"
proof
  assume r: "revision s"
  then have d: "digits s" "s \<noteq> []" "CHR ''1'' \<le> hd s" "dec_val s \<le> 2 ^ 63 - 1"
    by (auto simp: revision_def not_less split: if_splits)
  have "hd s \<noteq> CHR ''0''" using d(3) by (auto simp: less_eq_char_def)
  then have s: "show_nat (dec_val s) = s"
    using d by (intro show_nat_dec_val) (auto simp: strict_number_def)
  have "dec_val s \<noteq> 0"
    using s \<open>hd s \<noteq> CHR ''0''\<close> show_nat_0 by (cases "dec_val s = 0") auto
  then show "\<exists>n. 1 \<le> n \<and> n \<le> 2 ^ 63 - 1 \<and> s = show_nat n" using s d(4) by (intro exI [of _ "dec_val s"]) auto
next
  assume "\<exists>n. 1 \<le> n \<and> n \<le> 2 ^ 63 - 1 \<and> s = show_nat n"
  then obtain n where n: "1 \<le> n" "n \<le> 2 ^ 63 - 1" and s: "s = show_nat n" by blast
  have "n < 10 ^ 19" using n(2) by simp
  then have len: "length s \<le> 19" using show_nat_short [of n 18] s by simp
  have dig: "is_digit (hd s)" unfolding s using digits_show_nat [of n] show_nat_nonempty [of n]
    by (cases "show_nat n") (auto simp del: show_nat_nonempty digits_show_nat)
  have "hd s \<noteq> CHR ''0''" using hd_show_nat [of n] n s by auto
  then have "(of_char (hd s) :: nat) \<noteq> of_char (CHR ''0'')" by (simp only: of_char_eq_iff not_False_eq_True)
  then have "CHR ''1'' \<le> hd s" "hd s \<le> CHR ''9''"
    using dig by (auto simp: is_digit_def less_eq_char_def)
  then show "revision s" using n len s by (auto simp: revision_def)
qed

text \<open>A fixed-width text reads back as the instant, truncated to its precision.\<close>

lemma civil_rfc: "rfc3339nano t = civil_text t @ fraction (nat (t mod nano_per_second)) @ ''Z''"
  by (simp add: rfc3339nano_def civil_text_def Let_def split: prod.splits)

lemma fixed_roundtrip:
  assumes "four_digit_year t" "w \<le> 9" "10 ^ (9 - w) dvd t mod nano_per_second"
  shows "fixed_parse w (fixed_time w t) = Some t"
proof -
  obtain y mo d h mi se ns where
    tx: "rfc3339nano t = dig 4 y @ ''-'' @ dig 2 mo @ ''-'' @ dig 2 d @ ''T'' @ dig 2 h @ '':'' @
       dig 2 mi @ '':'' @ dig 2 se @ fraction ns @ ''Z''"
    and b: "y < 10000" "1 \<le> mo" "mo \<le> 12" "1 \<le> d" "d \<le> days_in_month (leap_year (int y)) mo"
      "h < 24" "mi < 60" "se < 60" "ns < 10 ^ 9"
    and t: "t = (days_before_year (int y) + days_before_month (leap_year (int y)) mo + int d - 1) * day_nanos
           + int ((h * 60 + mi) * 60 + se) * nano_per_second + int ns"
    using civil_fields [OF assms(1)] by blast
  define a c where "a = days_before_year (int y) + days_before_month (leap_year (int y)) mo + int d - 1"
    and "c = int ((h * 60 + mi) * 60 + se)"
  have "t = int ns + (a * 86400 + c) * nano_per_second"
    using t unfolding a_def [symmetric] c_def [symmetric] by (simp add: day_nanos_def algebra_simps)
  then have "t mod nano_per_second = int ns mod nano_per_second" by (simp only: mod_mult_self1)
  then have ns: "t mod nano_per_second = int ns" using b(9) by simp
  have len: "length (dig 4 y @ ''-'' @ dig 2 mo @ ''-'' @ dig 2 d @ ''T'' @ dig 2 h @ '':'' @ dig 2 mi @ '':'' @ dig 2 se) = 19"
    by (simp del: dig.simps)
  have c: "civil_text t = dig 4 y @ ''-'' @ dig 2 mo @ ''-'' @ dig 2 d @ ''T'' @ dig 2 h @ '':'' @ dig 2 mi @ '':'' @ dig 2 se"
    using tx unfolding civil_rfc ns by (simp del: dig.simps)
  define f where "f = ns div 10 ^ (9 - w)"
  have "10 ^ (9 - w) dvd ns" using assms(3) unfolding ns by (metis of_nat_dvd_iff of_nat_numeral of_nat_power)
  then have f: "f * 10 ^ (9 - w) = ns" by (simp add: f_def)
  have "ns < 10 ^ w * 10 ^ (9 - w)" using b(9) assms(2) by (simp flip: power_add)
  then have fw: "f < 10 ^ w" unfolding f [symmetric] by simp
  have d31: "d \<le> 31" using b month_lengths_le order_trans by blast
  have v: "dec_val (dig 4 y) = y" "dec_val (dig 2 mo) = mo" "dec_val (dig 2 d) = d"
    "dec_val (dig 2 h) = h" "dec_val (dig 2 mi) = mi" "dec_val (dig 2 se) = se" "dec_val (dig w f) = f"
    using b d31 fw by (simp_all add: dec_val_dig)
  have s: "fixed_time w t = dig 4 y @ ''-'' @ dig 2 mo @ ''-'' @ dig 2 d @ ''T'' @ dig 2 h @ '':'' @ dig 2 mi @ '':'' @
      dig 2 se @ ''.'' @ dig w f @ ''Z''"
    unfolding fixed_time_def c ns by (simp add: f_def del: dig.simps)
  have fs: "field (fixed_time w t) 0 4 = dig 4 y" "field (fixed_time w t) 5 2 = dig 2 mo"
    "field (fixed_time w t) 8 2 = dig 2 d" "field (fixed_time w t) 11 2 = dig 2 h"
    "field (fixed_time w t) 14 2 = dig 2 mi" "field (fixed_time w t) 17 2 = dig 2 se" "field (fixed_time w t) 20 w = dig w f"
    "field (fixed_time w t) 4 1 = ''-''" "field (fixed_time w t) 7 1 = ''-''" "field (fixed_time w t) 10 1 = ''T''"
    "field (fixed_time w t) 13 1 = '':''" "field (fixed_time w t) 16 1 = '':''" "field (fixed_time w t) 19 1 = ''.''"
    "length (fixed_time w t) = 21 + w"
    unfolding s field_def by (simp_all del: dig.simps)
  have "drop 20 (fixed_time w t) = dig w f @ ''Z''" unfolding s by (simp del: dig.simps)
  then have z: "field (fixed_time w t) (20 + w) 1 = ''Z''"
    unfolding field_def add.commute [of 20 w] drop_drop [symmetric] by (simp del: dig.simps drop_drop)
  show ?thesis
    unfolding fixed_parse_def Let_def fs z v f
    by (simp only: b digits_dig t [symmetric] simp_thms if_True)
qed

text \<open>The texts of \<open>ParseHTTPTime\<close> are the texts of the instants of a whole microsecond in the four-digit years.\<close>

lemma fixed_parse_exact:
  assumes "fixed_parse w s = Some t" "fixed_time w t = s"
  shows "four_digit_year t" "10 ^ (9 - w) dvd t mod nano_per_second"
proof -
  obtain rest where tx: "civil_text t = year_text (Year t) @ ''-'' @ rest"
    by (cases "year_yday (t div day_nanos)";
        cases "month_day (leap_year (fst (year_yday (t div day_nanos)))) (snd (year_yday (t div day_nanos)))")
       (simp add: civil_text_def Year_def Let_def)
  then obtain rest' where "s = year_text (Year t) @ ''-'' @ rest'"
    using assms(2) by (auto simp: fixed_time_def)
  moreover have "digits (field s 0 4)" "field s 4 1 = ''-''"
    using assms(1) by (auto simp: fixed_parse_def Let_def split: if_splits)
  ultimately show "four_digit_year t" using year_text_shape by (simp add: four_digit_year_def)
  obtain a b c where t: "t = a * day_nanos + b * nano_per_second + int (c * 10 ^ (9 - w))"
    using assms(1) unfolding fixed_parse_def Let_def by (metis option.distinct(1) option.inject)
  have "(10 :: int) ^ (9 - w) dvd 10 ^ 9" by (rule le_imp_power_dvd) simp
  then have n: "(10 :: int) ^ (9 - w) dvd nano_per_second" "(10 :: int) ^ (9 - w) dvd day_nanos"
    using dvd_mult [of "(10 :: int) ^ (9 - w)" "10 ^ 9" 86400] by (simp_all add: day_nanos_def)
  have "int (c * 10 ^ (9 - w)) = int c * 10 ^ (9 - w)" by simp
  then have "10 ^ (9 - w) dvd t" unfolding t using n by (simp add: dvd_add dvd_mult)
  then show "10 ^ (9 - w) dvd t mod nano_per_second" using n(1) by (simp add: dvd_mod)
qed

lemma ParseHTTPTime_iff:
  "ParseHTTPTime s = Some t \<longleftrightarrow> s = http_time t \<and> four_digit_year t \<and> 1000 dvd t \<and> t \<noteq> 0"
proof
  assume a: "ParseHTTPTime s = Some t"
  then have p: "http_parse s = Some t" by (auto simp: ParseHTTPTime_def split: option.splits if_splits)
  note tx = ParseHTTPTime_text [OF a] and e = fixed_parse_exact [OF p]
  have "1000 dvd t mod nano_per_second" using e(2) tx by simp
  then have "1000 dvd t" using dvd_mod_iff [of 1000 nano_per_second t] by simp
  then show "s = http_time t \<and> four_digit_year t \<and> 1000 dvd t \<and> t \<noteq> 0" using tx e(1) by simp
next
  assume a: "s = http_time t \<and> four_digit_year t \<and> 1000 dvd t \<and> t \<noteq> 0"
  then have "10 ^ (9 - 6) dvd t mod nano_per_second" by (simp add: dvd_mod)
  then have p: "http_parse s = Some t" using a fixed_roundtrip [of t 6] by simp
  then have "length s = 27" by (auto simp: fixed_parse_def Let_def split: if_splits)
  then show "ParseHTTPTime s = Some t" using p a by (simp add: ParseHTTPTime_def IsZero_def)
qed

end
