(* ===== verification/ProtocolExecution.thy ===== *)
theory ProtocolExecution
  imports ActionProtocol ActionJournal
begin

text \<open>
  The execution messages of the action protocol, \<^verbatim>\<open>internal/actionprotocol/execution.go\<close> and \<^verbatim>\<open>delivery.go\<close>:
  claims, decisions, reports, result receipts, the retained status and the claim and check requests. Every
  decoder reads the strict fields, decodes the nested messages from their own values and validates the
  whole; the encoder is the order of the fields of the Go struct. The locale \<open>message_codec\<close> states what
  the envelope needs of a decoder and its encoder, and is interpreted for every message.
\<close>

section \<open>Codecs\<close>

locale message_codec =
  fixes decode :: "json \<Rightarrow> 'a option" and encode :: "'a \<Rightarrow> json" and height :: nat
  assumes stable: "decode v = Some x \<Longrightarrow> decode (encode x) = Some x"
    and strict: "decode v = Some x \<Longrightarrow> d + height \<le> 8 \<Longrightarrow> strict_value d (encode x)"
    and printable: "decode v = Some x \<Longrightarrow> ascii_json (encode x)"
begin

lemma unambiguous: "decode v = Some x \<Longrightarrow> decode w = Some y \<Longrightarrow> encode x = encode y \<Longrightarrow> x = y"
  using stable by (metis option.inject)

lemma reread:
  assumes "decode v = Some x" "length (json_print (encode x)) \<le> MaxEnvelopeBytes" "height \<le> 8"
  shows "strictJSON (json_print (encode x)) = Some (encode x)" "Option.bind (strictJSON (json_print (encode x))) decode = Some x"
  using strict_print [of "encode x"] assms strict [of v x 0] printable [of v x] stable [of v x] by simp_all

end

interpretation request_codec: message_codec decode_request request_json 2
proof
  fix v r assume "decode_request v = Some r"
  then have r: "ValidateRequest r" by (rule decode_request_valid)
  show "decode_request (request_json r) = Some r" by (rule decode_request_json [OF r])
  show "ascii_json (request_json r)" by (rule request_length(2) [OF r])
  show "strict_value d (request_json r)" if "d + 2 \<le> 8" for d
    using strict_request_json [OF r, of d] that by simp
qed

section \<open>Claims, decisions and results\<close>

record claim =
  cl_Request :: request_receipt
  cl_ExecutionLeaseID :: string
  cl_ClaimCredentialID :: string
  cl_ClaimCredentialRevision :: string
  cl_ClaimedAt :: string
  cl_LeaseExpiresAt :: string
  cl_CorrelationID :: string

record execution_decision =
  ed_Request :: request_receipt
  ed_ExecutionLeaseID :: string
  ed_Checkpoint :: string
  ed_CheckNonce :: string
  ed_CredentialID :: string
  ed_CredentialRevision :: string
  ed_CheckedAt :: string
  ed_Decision :: string

record report =
  rp_Request :: request_receipt
  rp_ExecutionLeaseID :: string
  rp_ResultCode :: code
  rp_EvidenceKind :: string
  rp_CorrelationID :: string

record result_receipt =
  rs_Request :: request_receipt
  rs_ExecutionLeaseID :: string
  rs_ReportingCredentialID :: string
  rs_ReportingCredentialRevision :: string
  rs_ResultCode :: code
  rs_RecordedAt :: string
  rs_CorrelationID :: string

record retained_status =
  rt_ActionID :: string
  rt_State :: string
  rt_Request :: "request_receipt option"
  rt_Claim :: "claim option"
  rt_Result :: "result_receipt option"
  rt_LaneState :: string

definition valid_claim :: "claim \<Rightarrow> bool" where
  "valid_claim c =
     (case (ParseHTTPTime (rr_RequestedAt (cl_Request c)), ParseHTTPTime (rr_ExpiresAt (cl_Request c)),
            ParseHTTPTime (cl_ClaimedAt c), ParseHTTPTime (cl_LeaseExpiresAt c)) of
        (Some created, Some expires, Some claimed, Some lease) \<Rightarrow>
          \<not> (claimed < created \<or> expires < lease
             \<or> Sub lease claimed \<noteq> seconds 120 \<or> \<not> is_identifier (cl_ExecutionLeaseID c) ''hle_''
             \<or> \<not> is_identifier (cl_ClaimCredentialID c) ''hlac_'' \<or> \<not> revision (cl_ClaimCredentialRevision c)
             \<or> \<not> correlation (cl_CorrelationID c))
      | _ \<Rightarrow> False)"

definition unmarshal_claim :: "request_receipt \<Rightarrow> (string \<times> json) list \<Rightarrow> claim option" where
  "unmarshal_claim r ms =
     do {
       lease \<leftarrow> as_str (member ms ''execution_lease_id'');
       credential \<leftarrow> as_str (member ms ''claim_credential_id'');
       rev \<leftarrow> as_str (member ms ''claim_credential_revision'');
       claimed \<leftarrow> as_str (member ms ''claimed_at'');
       expires \<leftarrow> as_str (member ms ''lease_expires_at'');
       corr \<leftarrow> as_str (member ms ''correlation_id'');
       Some \<lparr>cl_Request = r, cl_ExecutionLeaseID = lease, cl_ClaimCredentialID = credential, cl_ClaimCredentialRevision = rev,
             cl_ClaimedAt = claimed, cl_LeaseExpiresAt = expires, cl_CorrelationID = corr\<rparr>
     }"

definition decode_claim :: "json \<Rightarrow> claim option" where
  "decode_claim v =
     do {
       ms \<leftarrow> strict_fields v [''request'', ''execution_lease_id'', ''claim_credential_id'', ''claim_credential_revision'',
                            ''claimed_at'', ''lease_expires_at'', ''correlation_id''];
       r \<leftarrow> decode_request (member ms ''request'');
       c \<leftarrow> unmarshal_claim r ms;
       if valid_claim c then Some c else None
     }"

definition DecodeClaim :: "string \<Rightarrow> claim option" where
  "DecodeClaim raw = Option.bind (strictJSON raw) decode_claim"

definition valid_decision :: "execution_decision \<Rightarrow> bool" where
  "valid_decision d =
     (\<not> (ParseHTTPTime (ed_CheckedAt d) = None \<or> \<not> is_identifier (ed_ExecutionLeaseID d) ''hle_''
         \<or> (ed_Checkpoint d \<noteq> ''1'' \<and> ed_Checkpoint d \<noteq> ''2'')
         \<or> \<not> nonce (ed_CheckNonce d) \<or> \<not> is_identifier (ed_CredentialID d) ''hlac_'' \<or> \<not> revision (ed_CredentialRevision d)
         \<or> (ed_Decision d \<noteq> ''PERMITTED'' \<and> ed_Decision d \<noteq> ''DENIED'')))"

definition unmarshal_decision :: "request_receipt \<Rightarrow> (string \<times> json) list \<Rightarrow> execution_decision option" where
  "unmarshal_decision r ms =
     do {
       lease \<leftarrow> as_str (member ms ''execution_lease_id'');
       checkpoint \<leftarrow> as_str (member ms ''checkpoint'');
       challenge \<leftarrow> as_str (member ms ''check_nonce'');
       credential \<leftarrow> as_str (member ms ''credential_id'');
       rev \<leftarrow> as_str (member ms ''credential_revision'');
       checked \<leftarrow> as_str (member ms ''checked_at'');
       decision \<leftarrow> as_str (member ms ''decision'');
       Some \<lparr>ed_Request = r, ed_ExecutionLeaseID = lease, ed_Checkpoint = checkpoint, ed_CheckNonce = challenge,
             ed_CredentialID = credential, ed_CredentialRevision = rev, ed_CheckedAt = checked, ed_Decision = decision\<rparr>
     }"

definition decode_decision :: "json \<Rightarrow> execution_decision option" where
  "decode_decision v =
     do {
       ms \<leftarrow> strict_fields v [''request'', ''execution_lease_id'', ''checkpoint'', ''check_nonce'', ''credential_id'',
                            ''credential_revision'', ''checked_at'', ''decision''];
       r \<leftarrow> decode_request (member ms ''request'');
       d \<leftarrow> unmarshal_decision r ms;
       if valid_decision d then Some d else None
     }"

definition DecodeExecutionDecision :: "string \<Rightarrow> execution_decision option" where
  "DecodeExecutionDecision raw = Option.bind (strictJSON raw) decode_decision"

definition MatchExecutionDecision :: "claim \<Rightarrow> string \<Rightarrow> string \<Rightarrow> execution_decision \<Rightarrow> bool" where
  "MatchExecutionDecision c checkpoint challenge d =
     (case (ParseHTTPTime (ed_CheckedAt d), ParseHTTPTime (cl_ClaimedAt c), ParseHTTPTime (cl_LeaseExpiresAt c)) of
        (Some checked, Some claimed, Some expires) \<Rightarrow>
          \<not> (ed_Request d \<noteq> cl_Request c \<or> ed_ExecutionLeaseID d \<noteq> cl_ExecutionLeaseID c
             \<or> ed_Checkpoint d \<noteq> checkpoint \<or> ed_CheckNonce d \<noteq> challenge \<or> checked < claimed \<or> \<not> checked < expires
             \<or> ed_Decision d \<noteq> ''PERMITTED'' \<or> \<not> is_identifier (ed_CredentialID d) ''hlac_''
             \<or> \<not> revision (ed_CredentialRevision d))
      | _ \<Rightarrow> False)"

fun resultCode :: "operation \<Rightarrow> code \<Rightarrow> bool" where
  "resultCode op StateConflict \<longleftrightarrow> True"
| "resultCode op OutcomeUnknown \<longleftrightarrow> True"
| "resultCode op Started \<longleftrightarrow> op = Start"
| "resultCode op AlreadyRunning \<longleftrightarrow> op = Start"
| "resultCode op Stopped \<longleftrightarrow> op = Stop"
| "resultCode op AlreadyStopped \<longleftrightarrow> op = Stop"
| "resultCode op Restarted \<longleftrightarrow> op = Restart"
| "resultCode op _ \<longleftrightarrow> False"

definition valid_report :: "report \<Rightarrow> bool" where
  "valid_report r =
     (\<not> (\<not> is_identifier (rp_ExecutionLeaseID r) ''hle_'' \<or> \<not> correlation (rp_CorrelationID r)
         \<or> \<not> resultCode (rr_Operation (rp_Request r)) (rp_ResultCode r)
         \<or> (rp_ResultCode r = OutcomeUnknown \<and> rp_EvidenceKind r \<noteq> ''QUIESCED_INTENT'')
         \<or> (rp_ResultCode r \<noteq> OutcomeUnknown \<and> rp_EvidenceKind r \<noteq> ''RETAINED_TERMINAL'')))"

definition unmarshal_report :: "request_receipt \<Rightarrow> (string \<times> json) list \<Rightarrow> report option" where
  "unmarshal_report request ms =
     do {
       lease \<leftarrow> as_str (member ms ''execution_lease_id'');
       code \<leftarrow> as_str (member ms ''result_code'');
       kind \<leftarrow> as_str (member ms ''evidence_kind'');
       corr \<leftarrow> as_str (member ms ''correlation_id'');
       Some \<lparr>rp_Request = request, rp_ExecutionLeaseID = lease, rp_ResultCode = text_code code, rp_EvidenceKind = kind,
             rp_CorrelationID = corr\<rparr>
     }"

definition decode_report :: "json \<Rightarrow> report option" where
  "decode_report v =
     do {
       ms \<leftarrow> strict_fields v [''request'', ''execution_lease_id'', ''result_code'', ''evidence_kind'', ''correlation_id''];
       request \<leftarrow> decode_request (member ms ''request'');
       r \<leftarrow> unmarshal_report request ms;
       if valid_report r then Some r else None
     }"

definition DecodeReport :: "string \<Rightarrow> report option" where
  "DecodeReport raw = Option.bind (strictJSON raw) decode_report"

definition valid_result :: "result_receipt \<Rightarrow> bool" where
  "valid_result r =
     (case (ParseHTTPTime (rs_RecordedAt r), ParseHTTPTime (rr_RequestedAt (rs_Request r)), ParseHTTPTime (rr_ExpiresAt (rs_Request r))) of
        (Some recorded, Some created, Some expires) \<Rightarrow>
          \<not> (recorded < created \<or> \<not> recorded < expires
             \<or> \<not> is_identifier (rs_ExecutionLeaseID r) ''hle_'' \<or> \<not> is_identifier (rs_ReportingCredentialID r) ''hlac_''
             \<or> \<not> revision (rs_ReportingCredentialRevision r) \<or> \<not> resultCode (rr_Operation (rs_Request r)) (rs_ResultCode r)
             \<or> \<not> correlation (rs_CorrelationID r))
      | _ \<Rightarrow> False)"

definition unmarshal_result :: "request_receipt \<Rightarrow> (string \<times> json) list \<Rightarrow> result_receipt option" where
  "unmarshal_result request ms =
     do {
       lease \<leftarrow> as_str (member ms ''execution_lease_id'');
       credential \<leftarrow> as_str (member ms ''reporting_credential_id'');
       rev \<leftarrow> as_str (member ms ''reporting_credential_revision'');
       code \<leftarrow> as_str (member ms ''result_code'');
       recorded \<leftarrow> as_str (member ms ''recorded_at'');
       corr \<leftarrow> as_str (member ms ''correlation_id'');
       Some \<lparr>rs_Request = request, rs_ExecutionLeaseID = lease, rs_ReportingCredentialID = credential,
             rs_ReportingCredentialRevision = rev, rs_ResultCode = text_code code, rs_RecordedAt = recorded, rs_CorrelationID = corr\<rparr>
     }"

definition decode_result :: "json \<Rightarrow> result_receipt option" where
  "decode_result v =
     do {
       ms \<leftarrow> strict_fields v [''request'', ''execution_lease_id'', ''reporting_credential_id'', ''reporting_credential_revision'',
                            ''result_code'', ''recorded_at'', ''correlation_id''];
       request \<leftarrow> decode_request (member ms ''request'');
       r \<leftarrow> unmarshal_result request ms;
       if valid_result r then Some r else None
     }"

definition DecodeResultReceipt :: "string \<Rightarrow> result_receipt option" where
  "DecodeResultReceipt raw = Option.bind (strictJSON raw) decode_result"

definition MatchResultReceipt :: "claim \<Rightarrow> result_receipt \<Rightarrow> bool" where
  "MatchResultReceipt c r =
     (case (ParseHTTPTime (rs_RecordedAt r), ParseHTTPTime (cl_ClaimedAt c), ParseHTTPTime (cl_LeaseExpiresAt c)) of
        (Some recorded, Some claimed, Some expires) \<Rightarrow>
          \<not> (rs_Request r \<noteq> cl_Request c \<or> rs_ExecutionLeaseID r \<noteq> cl_ExecutionLeaseID c
             \<or> recorded < claimed \<or> \<not> recorded < expires)
      | _ \<Rightarrow> False)"

definition isNull :: "json \<Rightarrow> bool" where
  "isNull v \<longleftrightarrow> v = JNull"

text \<open>The table of the retained states.\<close>

definition retained_valid :: "retained_status \<Rightarrow> bool" where
  "retained_valid s =
     (let request = rt_Request s \<noteq> None; claimed = rt_Claim s \<noteq> None; lane = rt_LaneState s
      in if rt_State s = ''MISSING'' then \<not> request \<and> \<not> claimed \<and> rt_Result s = None \<and> lane = ''MISSING''
         else if rt_State s = ''REQUESTED'' then request \<and> \<not> claimed \<and> rt_Result s = None \<and> lane = ''HELD''
         else if rt_State s = ''CLAIMED'' then request \<and> claimed \<and> rt_Result s = None \<and> lane = ''HELD''
         else if rt_State s = ''EXPIRED_UNCONFIRMED'' then
           request \<and> claimed \<and> rt_Result s = None \<and> (lane = ''HELD'' \<or> lane = ''RELEASED'')
         else if rt_State s = ''EXPIRED'' \<or> rt_State s = ''CANCELED'' then
           request \<and> \<not> claimed \<and> rt_Result s = None \<and> lane = ''RELEASED''
         else if rt_State s = ''SUCCEEDED'' then
           (case rt_Result s of
              Some r \<Rightarrow> rs_ResultCode r \<noteq> StateConflict \<and> rs_ResultCode r \<noteq> OutcomeUnknown \<and> lane = ''RELEASED''
            | None \<Rightarrow> False)
         else if rt_State s = ''FAILED'' then
           (case rt_Result s of Some r \<Rightarrow> rs_ResultCode r = StateConflict \<and> lane = ''RELEASED'' | None \<Rightarrow> False)
         else if rt_State s = ''OUTCOME_UNKNOWN'' then
           (case rt_Result s of
              Some r \<Rightarrow> rs_ResultCode r = OutcomeUnknown \<and> (lane = ''HELD'' \<or> lane = ''RELEASED'')
            | None \<Rightarrow> False)
         else False)"

text \<open>The three nested messages, each checked against the one before it.\<close>

definition retained_request :: "string \<Rightarrow> json \<Rightarrow> request_receipt option option" where
  "retained_request action v =
     (if isNull v then Some None
      else case decode_request v of
          None \<Rightarrow> None
        | Some r \<Rightarrow> if rr_ActionID r \<noteq> action then None else Some (Some r))"

definition retained_claim :: "request_receipt option \<Rightarrow> json \<Rightarrow> claim option option" where
  "retained_claim request v =
     (if isNull v then Some None
      else case decode_claim v of
          None \<Rightarrow> None
        | Some c \<Rightarrow> if request \<noteq> Some (cl_Request c) then None else Some (Some c))"

definition retained_result :: "claim option \<Rightarrow> json \<Rightarrow> result_receipt option option" where
  "retained_result claimed v =
     (if isNull v then Some None
      else case (decode_result v, claimed) of
          (Some r, Some c) \<Rightarrow> if MatchResultReceipt c r then Some (Some r) else None
        | _ \<Rightarrow> None)"

definition decode_retained :: "json \<Rightarrow> retained_status option" where
  "decode_retained v =
     do {
       ms \<leftarrow> strict_fields v [''action_id'', ''state'', ''request'', ''claim'', ''result'', ''lane_state''];
       action \<leftarrow> as_str (member ms ''action_id'');
       state \<leftarrow> as_str (member ms ''state'');
       lane \<leftarrow> as_str (member ms ''lane_state'');
       if \<not> is_identifier action ''hla_'' then None
       else do {
         request \<leftarrow> retained_request action (member ms ''request'');
         claimed \<leftarrow> retained_claim request (member ms ''claim'');
         result \<leftarrow> retained_result claimed (member ms ''result'');
         let s = \<lparr>rt_ActionID = action, rt_State = state, rt_Request = request, rt_Claim = claimed, rt_Result = result,
                   rt_LaneState = lane\<rparr>
         in if retained_valid s then Some s else None
       }
     }"

definition DecodeRetainedStatus :: "string \<Rightarrow> retained_status option" where
  "DecodeRetainedStatus raw = Option.bind (strictJSON raw) decode_retained"

section \<open>Claim and check requests\<close>

record claim_request =
  cq_ClaimNonce :: string
  cq_EligibleTargetIDs :: "string list"

record claim_response =
  cp_ClaimNonce :: string
  cp_Claim :: claim

record check_request =
  ch_Request :: request_receipt
  ch_ExecutionLeaseID :: string
  ch_Checkpoint :: string
  ch_CheckNonce :: string

text \<open>Go compares strings byte by byte.\<close>

fun string_le :: "string \<Rightarrow> string \<Rightarrow> bool" where
  "string_le [] t \<longleftrightarrow> True"
| "string_le (c # s) [] \<longleftrightarrow> False"
| "string_le (c # s) (d # t) \<longleftrightarrow> c < d \<or> (c = d \<and> string_le s t)"

fun eligible_targets :: "string \<Rightarrow> string list \<Rightarrow> bool" where
  "eligible_targets previous [] \<longleftrightarrow> True"
| "eligible_targets previous (target # ts) \<longleftrightarrow>
     (if \<not> is_identifier target ''hlt_'' \<or> string_le target previous then False else eligible_targets target ts)"

definition as_strs :: "json \<Rightarrow> string list option" where
  "as_strs v = (case v of JNull \<Rightarrow> Some [] | JArr vs \<Rightarrow> those (map as_str vs) | _ \<Rightarrow> None)"

definition decode_claim_request :: "json \<Rightarrow> claim_request option" where
  "decode_claim_request v =
     do {
       ms \<leftarrow> strict_fields v [''claim_nonce'', ''eligible_target_ids''];
       n \<leftarrow> as_str (member ms ''claim_nonce'');
       targets \<leftarrow> as_strs (member ms ''eligible_target_ids'');
       if \<not> nonce n \<or> length targets < 1 \<or> 32 < length targets then None
       else if eligible_targets '''' targets then Some \<lparr>cq_ClaimNonce = n, cq_EligibleTargetIDs = targets\<rparr> else None
     }"

definition DecodeClaimRequest :: "string \<Rightarrow> claim_request option" where
  "DecodeClaimRequest raw = Option.bind (strictJSON raw) decode_claim_request"

definition decode_claim_response :: "json \<Rightarrow> claim_response option" where
  "decode_claim_response v =
     do {
       ms \<leftarrow> strict_fields v [''claim_nonce'', ''claim''];
       n \<leftarrow> as_str (member ms ''claim_nonce'');
       if \<not> nonce n then None
       else do {
         c \<leftarrow> decode_claim (member ms ''claim'');
         Some \<lparr>cp_ClaimNonce = n, cp_Claim = c\<rparr>
       }
     }"

definition DecodeClaimResponse :: "string \<Rightarrow> claim_response option" where
  "DecodeClaimResponse raw = Option.bind (strictJSON raw) decode_claim_response"

definition valid_check :: "check_request \<Rightarrow> bool" where
  "valid_check c =
     (\<not> (\<not> is_identifier (ch_ExecutionLeaseID c) ''hle_'' \<or> (ch_Checkpoint c \<noteq> ''1'' \<and> ch_Checkpoint c \<noteq> ''2'')
         \<or> \<not> nonce (ch_CheckNonce c)))"

definition decode_check :: "json \<Rightarrow> check_request option" where
  "decode_check v =
     do {
       ms \<leftarrow> strict_fields v [''request'', ''execution_lease_id'', ''checkpoint'', ''check_nonce''];
       lease \<leftarrow> as_str (member ms ''execution_lease_id'');
       checkpoint \<leftarrow> as_str (member ms ''checkpoint'');
       challenge \<leftarrow> as_str (member ms ''check_nonce'');
       r \<leftarrow> decode_request (member ms ''request'');
       let c = \<lparr>ch_Request = r, ch_ExecutionLeaseID = lease, ch_Checkpoint = checkpoint, ch_CheckNonce = challenge\<rparr>
       in if valid_check c then Some c else None
     }"

definition DecodeCheckRequest :: "string \<Rightarrow> check_request option" where
  "DecodeCheckRequest raw = Option.bind (strictJSON raw) decode_check"

section \<open>Encoders\<close>

definition claim_json :: "claim \<Rightarrow> json" where
  "claim_json c =
     JObj [(''request'', request_json (cl_Request c)), (''execution_lease_id'', JStr (cl_ExecutionLeaseID c)),
       (''claim_credential_id'', JStr (cl_ClaimCredentialID c)), (''claim_credential_revision'', JStr (cl_ClaimCredentialRevision c)),
       (''claimed_at'', JStr (cl_ClaimedAt c)), (''lease_expires_at'', JStr (cl_LeaseExpiresAt c)),
       (''correlation_id'', JStr (cl_CorrelationID c))]"

definition decision_json :: "execution_decision \<Rightarrow> json" where
  "decision_json d =
     JObj [(''request'', request_json (ed_Request d)), (''execution_lease_id'', JStr (ed_ExecutionLeaseID d)),
       (''checkpoint'', JStr (ed_Checkpoint d)), (''check_nonce'', JStr (ed_CheckNonce d)),
       (''credential_id'', JStr (ed_CredentialID d)), (''credential_revision'', JStr (ed_CredentialRevision d)),
       (''checked_at'', JStr (ed_CheckedAt d)), (''decision'', JStr (ed_Decision d))]"

definition report_json :: "report \<Rightarrow> json" where
  "report_json r =
     JObj [(''request'', request_json (rp_Request r)), (''execution_lease_id'', JStr (rp_ExecutionLeaseID r)),
       (''result_code'', JStr (code_text (rp_ResultCode r))), (''evidence_kind'', JStr (rp_EvidenceKind r)),
       (''correlation_id'', JStr (rp_CorrelationID r))]"

definition result_json :: "result_receipt \<Rightarrow> json" where
  "result_json r =
     JObj [(''request'', request_json (rs_Request r)), (''execution_lease_id'', JStr (rs_ExecutionLeaseID r)),
       (''reporting_credential_id'', JStr (rs_ReportingCredentialID r)),
       (''reporting_credential_revision'', JStr (rs_ReportingCredentialRevision r)),
       (''result_code'', JStr (code_text (rs_ResultCode r))), (''recorded_at'', JStr (rs_RecordedAt r)),
       (''correlation_id'', JStr (rs_CorrelationID r))]"

definition null_or :: "('a \<Rightarrow> json) \<Rightarrow> 'a option \<Rightarrow> json" where
  "null_or f x = (case x of None \<Rightarrow> JNull | Some y \<Rightarrow> f y)"

definition retained_json :: "retained_status \<Rightarrow> json" where
  "retained_json s =
     JObj [(''action_id'', JStr (rt_ActionID s)), (''state'', JStr (rt_State s)), (''request'', null_or request_json (rt_Request s)),
       (''claim'', null_or claim_json (rt_Claim s)), (''result'', null_or result_json (rt_Result s)),
       (''lane_state'', JStr (rt_LaneState s))]"

definition check_json :: "check_request \<Rightarrow> json" where
  "check_json c =
     JObj [(''request'', request_json (ch_Request c)), (''execution_lease_id'', JStr (ch_ExecutionLeaseID c)),
       (''checkpoint'', JStr (ch_Checkpoint c)), (''check_nonce'', JStr (ch_CheckNonce c))]"

lemma strict_fields_names:
  assumes "strict_value 0 (JObj ms)" "map fst ms = names"
  shows "strict_fields (JObj ms) names = Some ms"
  using assms objectFields_names [of ms names] by (simp add: strict_fields_def)

lemma ascii_texts:
  "hex_string s n \<Longrightarrow> ascii s" "prefixed_hex s p n \<Longrightarrow> ascii p \<Longrightarrow> ascii s" "revision s \<Longrightarrow> ascii s"
  "correlation s \<Longrightarrow> ascii s" "targetKey s \<Longrightarrow> ascii s" "ParseHTTPTime s = Some t \<Longrightarrow> ascii s" "nonce s \<Longrightarrow> ascii s"
  using hex_short identifier_short revision_short correlation_short targetKey_short time_short
  by (auto simp: short_def nonce_def)

lemma resultCode_text: "resultCode op c \<Longrightarrow> text_code (code_text c) = c" "resultCode op c \<Longrightarrow> ascii (code_text c)"
  by (cases c; simp add: text_code_def known_codes_def)+

lemma request_parts:
  assumes "ValidateRequest r"
  shows "decode_request (request_json r) = Some r" "ascii_json (request_json r)" "d + 2 \<le> 8 \<Longrightarrow> strict_value d (request_json r)"
  using decode_request_json [OF assms] request_length(2) [OF assms] strict_request_json [OF assms, of d] by auto

lemma strict_strings [simp]: "strict_value d (JStr s)" "strict_value d JNull" "strict_value d (opt_json x)" "strict_value d (JBool c)"
  by (auto simp: opt_json_def split: option.splits)

lemma decode_claim_valid: "decode_claim v = Some c \<Longrightarrow> valid_claim c \<and> ValidateRequest (cl_Request c)"
  by (auto simp: decode_claim_def unmarshal_claim_def bind_eq_Some_conv decode_request_valid split: if_splits)

lemma claim_json_ok:
  assumes "valid_claim c" "ValidateRequest (cl_Request c)"
  shows "decode_claim (claim_json c) = Some c" "ascii_json (claim_json c)" "d + 3 \<le> 8 \<Longrightarrow> strict_value d (claim_json c)"
proof -
  note r = request_parts [OF assms(2)]
  show strict: "strict_value d (claim_json c)" if "d + 3 \<le> 8" for d
    using r(3) [of "Suc d"] that by (simp add: claim_json_def)
  show "decode_claim (claim_json c) = Some c"
    using strict [of 0] assms(1) r(1) unfolding decode_claim_def claim_json_def
    by (cases c, subst strict_fields_names) (auto simp: unmarshal_claim_def)
  show "ascii_json (claim_json c)"
    using assms(1) r(2) by (auto simp: valid_claim_def claim_json_def ascii_texts split: option.splits)
qed

interpretation claim_codec: message_codec decode_claim claim_json 3
  by unfold_locales (use decode_claim_valid claim_json_ok in blast)+

lemma decode_decision_valid: "decode_decision v = Some d \<Longrightarrow> valid_decision d \<and> ValidateRequest (ed_Request d)"
  by (auto simp: decode_decision_def unmarshal_decision_def bind_eq_Some_conv decode_request_valid split: if_splits)

lemma decision_json_ok:
  assumes "valid_decision c" "ValidateRequest (ed_Request c)"
  shows "decode_decision (decision_json c) = Some c" "ascii_json (decision_json c)" "d + 3 \<le> 8 \<Longrightarrow> strict_value d (decision_json c)"
proof -
  note r = request_parts [OF assms(2)]
  show strict: "strict_value d (decision_json c)" if "d + 3 \<le> 8" for d
    using r(3) [of "Suc d"] that by (simp add: decision_json_def)
  show "decode_decision (decision_json c) = Some c"
    using strict [of 0] assms(1) r(1) unfolding decode_decision_def decision_json_def
    by (cases c, subst strict_fields_names) (auto simp: unmarshal_decision_def)
  show "ascii_json (decision_json c)"
    using assms(1) r(2) by (auto simp: valid_decision_def decision_json_def ascii_texts)
qed

interpretation decision_codec: message_codec decode_decision decision_json 3
  by unfold_locales (use decode_decision_valid decision_json_ok in blast)+

lemma decode_report_valid: "decode_report v = Some r \<Longrightarrow> valid_report r \<and> ValidateRequest (rp_Request r)"
  by (auto simp: decode_report_def unmarshal_report_def bind_eq_Some_conv decode_request_valid split: if_splits)

lemma report_json_ok:
  assumes "valid_report c" "ValidateRequest (rp_Request c)"
  shows "decode_report (report_json c) = Some c" "ascii_json (report_json c)" "d + 3 \<le> 8 \<Longrightarrow> strict_value d (report_json c)"
proof -
  note r = request_parts [OF assms(2)]
  have code: "text_code (code_text (rp_ResultCode c)) = rp_ResultCode c" "ascii (code_text (rp_ResultCode c))"
    using assms(1) resultCode_text by (auto simp: valid_report_def)
  show strict: "strict_value d (report_json c)" if "d + 3 \<le> 8" for d
    using r(3) [of "Suc d"] that by (simp add: report_json_def)
  show "decode_report (report_json c) = Some c"
    using strict [of 0] assms(1) r(1) code(1) unfolding decode_report_def report_json_def
    by (cases c, subst strict_fields_names) (auto simp: unmarshal_report_def)
  have "ascii (rp_EvidenceKind c)" using assms(1) by (auto simp: valid_report_def)
  then show "ascii_json (report_json c)"
    using assms(1) r(2) code(2) by (auto simp: valid_report_def report_json_def ascii_texts)
qed

interpretation report_codec: message_codec decode_report report_json 3
  by unfold_locales (use decode_report_valid report_json_ok in blast)+

lemma decode_result_valid: "decode_result v = Some r \<Longrightarrow> valid_result r \<and> ValidateRequest (rs_Request r)"
  by (auto simp: decode_result_def unmarshal_result_def bind_eq_Some_conv decode_request_valid split: if_splits)

lemma result_json_ok:
  assumes "valid_result c" "ValidateRequest (rs_Request c)"
  shows "decode_result (result_json c) = Some c" "ascii_json (result_json c)" "d + 3 \<le> 8 \<Longrightarrow> strict_value d (result_json c)"
proof -
  note r = request_parts [OF assms(2)]
  have code: "text_code (code_text (rs_ResultCode c)) = rs_ResultCode c" "ascii (code_text (rs_ResultCode c))"
    using assms(1) resultCode_text by (auto simp: valid_result_def split: option.splits)
  show strict: "strict_value d (result_json c)" if "d + 3 \<le> 8" for d
    using r(3) [of "Suc d"] that by (simp add: result_json_def)
  show "decode_result (result_json c) = Some c"
    using strict [of 0] assms(1) r(1) code(1) unfolding decode_result_def result_json_def
    by (cases c, subst strict_fields_names) (auto simp: unmarshal_result_def)
  show "ascii_json (result_json c)"
    using assms(1) r(2) code(2) by (auto simp: valid_result_def result_json_def ascii_texts split: option.splits)
qed

interpretation result_codec: message_codec decode_result result_json 3
  by unfold_locales (use decode_result_valid result_json_ok in blast)+

lemma decode_check_valid: "decode_check v = Some c \<Longrightarrow> valid_check c \<and> ValidateRequest (ch_Request c)"
  by (auto simp: decode_check_def Let_def bind_eq_Some_conv decode_request_valid split: if_splits)

lemma check_json_ok:
  assumes "valid_check c" "ValidateRequest (ch_Request c)"
  shows "decode_check (check_json c) = Some c" "ascii_json (check_json c)" "d + 3 \<le> 8 \<Longrightarrow> strict_value d (check_json c)"
proof -
  note r = request_parts [OF assms(2)]
  show strict: "strict_value d (check_json c)" if "d + 3 \<le> 8" for d
    using r(3) [of "Suc d"] that by (simp add: check_json_def)
  show "decode_check (check_json c) = Some c"
    using strict [of 0] assms(1) r(1) unfolding decode_check_def check_json_def
    by (cases c, subst strict_fields_names) auto
  show "ascii_json (check_json c)"
    using assms(1) r(2) by (auto simp: valid_check_def check_json_def ascii_texts)
qed

interpretation check_codec: message_codec decode_check check_json 3
  by unfold_locales (use decode_check_valid check_json_ok in blast)+

text \<open>The retained status: its three parts agree with each other.\<close>

definition retained_parts_ok :: "retained_status \<Rightarrow> bool" where
  "retained_parts_ok s \<longleftrightarrow>
     is_identifier (rt_ActionID s) ''hla_'' \<and>
     (\<forall>r. rt_Request s = Some r \<longrightarrow> ValidateRequest r \<and> rr_ActionID r = rt_ActionID s) \<and>
     (\<forall>c. rt_Claim s = Some c \<longrightarrow> valid_claim c \<and> rt_Request s = Some (cl_Request c)) \<and>
     (\<forall>r. rt_Result s = Some r \<longrightarrow>
        valid_result r \<and> (\<exists>c. rt_Claim s = Some c \<and> MatchResultReceipt c r))"

lemma retained_part_cases:
  "retained_request a v = Some x \<Longrightarrow> x = None \<or> (\<exists>r. x = Some r \<and> decode_request v = Some r \<and> rr_ActionID r = a)"
  "retained_claim q v = Some y \<Longrightarrow> y = None \<or> (\<exists>c. y = Some c \<and> decode_claim v = Some c \<and> q = Some (cl_Request c))"
  "retained_result k v = Some z \<Longrightarrow> z = None \<or> (\<exists>r c. z = Some r \<and> decode_result v = Some r \<and> k = Some c \<and> MatchResultReceipt c r)"
  by (auto simp: retained_request_def retained_claim_def retained_result_def split: if_splits option.splits)

lemma decode_retained_valid: "decode_retained v = Some s \<Longrightarrow> retained_valid s \<and> retained_parts_ok s"
  unfolding decode_retained_def Let_def retained_parts_ok_def
  by (auto simp: bind_eq_Some_conv split: if_splits
      dest!: retained_part_cases dest: decode_request_valid decode_claim_valid decode_result_valid)

lemma MatchResultReceipt_request: "MatchResultReceipt c r \<Longrightarrow> rs_Request r = cl_Request c"
  by (auto simp: MatchResultReceipt_def split: option.splits)

lemma retained_valid_ascii: "retained_valid s \<Longrightarrow> ascii (rt_State s) \<and> ascii (rt_LaneState s)"
  by (auto simp: retained_valid_def Let_def split: if_splits option.splits)

lemma retained_json_ok:
  assumes "retained_valid c" "retained_parts_ok c"
  shows "decode_retained (retained_json c) = Some c" "ascii_json (retained_json c)" "d + 4 \<le> 8 \<Longrightarrow> strict_value d (retained_json c)"
proof -
  have rq: "ValidateRequest r" "rr_ActionID r = rt_ActionID c" if "rt_Request c = Some r" for r
    using assms(2) that by (auto simp: retained_parts_ok_def)
  have cl: "valid_claim k" "rt_Request c = Some (cl_Request k)" "ValidateRequest (cl_Request k)" if "rt_Claim c = Some k" for k
    using assms(2) that by (auto simp: retained_parts_ok_def)
  have rs: "valid_result r \<and> ValidateRequest (rs_Request r) \<and> (\<exists>k. rt_Claim c = Some k \<and> MatchResultReceipt k r)"
    if r: "rt_Result c = Some r" for r
  proof -
    obtain k where k: "rt_Claim c = Some k" "MatchResultReceipt k r" and "valid_result r"
      using assms(2) r by (auto simp: retained_parts_ok_def)
    then show ?thesis using MatchResultReceipt_request [OF k(2)] cl(3) [OF k(1)] by simp
  qed
  have nn: "request_json x \<noteq> JNull" "claim_json y \<noteq> JNull" "result_json z \<noteq> JNull" for x y z
    by (simp_all add: request_json_def claim_json_def result_json_def)
  have parts: "strict_value (Suc d) (null_or request_json (rt_Request c))" "strict_value (Suc d) (null_or claim_json (rt_Claim c))"
    "strict_value (Suc d) (null_or result_json (rt_Result c))" if "d + 4 \<le> 8" for d
    using that request_parts(3) [OF rq(1), of _ "Suc d"] claim_json_ok(3) [OF cl(1,3), of _ "Suc d"] rs result_json_ok(3) [of _ "Suc d"]
    by (simp_all add: null_or_def split: option.split)
  then show strict: "strict_value d (retained_json c)" if "d + 4 \<le> 8" for d
    using that by (simp add: retained_json_def)
  have "retained_request (rt_ActionID c) (null_or request_json (rt_Request c)) = Some (rt_Request c)"
    using rq request_parts(1) nn by (auto simp: retained_request_def null_or_def isNull_def split: option.splits)
  moreover have "retained_claim (rt_Request c) (null_or claim_json (rt_Claim c)) = Some (rt_Claim c)"
    using cl claim_json_ok(1) nn by (auto simp: retained_claim_def null_or_def isNull_def split: option.splits)
  moreover have "retained_result (rt_Claim c) (null_or result_json (rt_Result c)) = Some (rt_Result c)"
    using rs result_json_ok(1) nn by (fastforce simp: retained_result_def null_or_def isNull_def split: option.splits)
  moreover have "is_identifier (rt_ActionID c) ''hla_''" using assms(2) by (simp add: retained_parts_ok_def)
  ultimately show "decode_retained (retained_json c) = Some c"
    using strict [of 0] assms(1) unfolding decode_retained_def retained_json_def
    by (cases c, subst strict_fields_names) auto
  have "ascii_json (null_or request_json (rt_Request c))" "ascii_json (null_or claim_json (rt_Claim c))"
    "ascii_json (null_or result_json (rt_Result c))"
    using request_parts(2) [OF rq(1)] claim_json_ok(2) [OF cl(1,3)] rs result_json_ok(2)
    by (simp_all add: null_or_def split: option.split)
  then show "ascii_json (retained_json c)"
    using retained_valid_ascii [OF assms(1)] assms(2) by (auto simp: retained_json_def retained_parts_ok_def ascii_texts)
qed

interpretation retained_codec: message_codec decode_retained retained_json 4
  by unfold_locales (use decode_retained_valid retained_json_ok in blast)+

end
