(* ===== verification/ProtocolRecovery.thy ===== *)
theory ProtocolRecovery
  imports ProtocolExecution
begin

text \<open>
  The recovery messages of the action protocol, \<^verbatim>\<open>internal/actionprotocol/recovery.go\<close>: proposals,
  approvals, recovery checks and decisions, finalizations and the recovery view. A lane whose outcome
  is unknown is released only by a finalization that matches the owner's approval.
\<close>

section \<open>Messages\<close>

record recovery_proposal =
  pr_ProposalID :: string
  pr_RemoteReceiptDigest :: string
  pr_EvidenceKind :: string

record prepare_request =
  pq_RecoveryID :: string
  pq_ExpectedLaneRevision :: string
  pq_ExpectedApprovalRevision :: "string option"
  pq_RemoteReceiptDigest :: string
  pq_EvidenceKind :: string
  pq_AcknowledgeUncertainty :: bool
  pq_CommittedACKDigest :: "string option"

record approval =
  ap_RecoveryID :: string
  ap_PrepareID :: string
  ap_OwnerDecisionID :: string
  ap_ApprovalRevision :: string
  ap_PreviousPrepareID :: "string option"
  ap_ServerID :: string
  ap_OwnerUserID :: string
  ap_ConnectorInstanceID :: string
  ap_ActionID :: string
  ap_RemoteReceiptDigest :: string
  ap_EvidenceKind :: string
  ap_LaneRevision :: string
  ap_CommittedACKDigest :: "string option"
  ap_PreparedAt :: string
  ap_ExpiresAt :: string

record recovery_check =
  rc_RecoveryID :: string
  rc_PrepareID :: string
  rc_ApprovalRevision :: string
  rc_RemoteReceiptDigest :: string
  rc_CheckNonce :: string
  rc_CommittedACKDigest :: "string option"

record recovery_decision =
  rd_Approval :: approval
  rd_CheckNonce :: string
  rd_CredentialID :: string
  rd_CredentialRevision :: string
  rd_CheckedAt :: string
  rd_Decision :: string

record finalize_request =
  fq_RecoveryID :: string
  fq_PrepareID :: string
  fq_ApprovalRevision :: string
  fq_RemoteReceiptDigest :: string
  fq_ACKDigest :: string

record finalization =
  fi_RecoveryID :: string
  fi_PrepareID :: string
  fi_OwnerDecisionID :: string
  fi_ApprovalRevision :: string
  fi_ActionID :: string
  fi_RemoteReceiptDigest :: string
  fi_ACKDigest :: string
  fi_ReleasedLaneRevision :: string
  fi_FinalizedAt :: string

record recovery_view =
  rw_ActionID :: string
  rw_RecoveryID :: "string option"
  rw_RemoteReceiptDigest :: "string option"
  rw_EvidenceKind :: "string option"
  rw_LaneRevision :: string
  rw_State :: string
  rw_CurrentApproval :: "approval option"
  rw_Finalization :: "finalization option"
  rw_RemainingApprovals :: int

definition evidenceKind :: "string \<Rightarrow> bool" where
  "evidenceKind s \<longleftrightarrow>
     s = ''MISSING_RECORD'' \<or> s = ''ADMITTED_WITHOUT_INTENT'' \<or> s = ''INTENT_WITHOUT_TERMINAL'' \<or> s = ''RETAINED_KNOWN_TERMINAL''"

definition approvalRevision :: "string \<Rightarrow> bool" where
  "approvalRevision s \<longleftrightarrow> length s = 1 \<and> CHR ''1'' \<le> s ! 0 \<and> s ! 0 \<le> CHR ''8''"

definition optionalDigest :: "string option \<Rightarrow> bool" where
  "optionalDigest x = (case x of None \<Rightarrow> True | Some s \<Rightarrow> hexValue s 64)"

definition equalOptional :: "string option \<Rightarrow> string option \<Rightarrow> bool" where
  "equalOptional a b =
     (case (a, b) of (None, None) \<Rightarrow> True | (Some s, Some t) \<Rightarrow> s = t | _ \<Rightarrow> False)"

definition ProposalID :: "string \<Rightarrow> string \<Rightarrow> string option" where
  "ProposalID digest evidence =
     (if \<not> hexValue digest 64 \<or> \<not> evidenceKind evidence then None
      else Some (hex_encode (take 16 (sha256 (bytes_of (''observer-recovery-proposal/v1'' @ [CHR 0x0A] @ digest @ [CHR 0x0A] @ evidence))))))"

definition decode_proposal :: "json \<Rightarrow> recovery_proposal option" where
  "decode_proposal v =
     do {
       ms \<leftarrow> strict_fields v [''proposal_id'', ''remote_receipt_digest'', ''evidence_kind''];
       i \<leftarrow> as_str (member ms ''proposal_id'');
       digest \<leftarrow> as_str (member ms ''remote_receipt_digest'');
       kind \<leftarrow> as_str (member ms ''evidence_kind'');
       if ProposalID digest kind = Some i
       then Some \<lparr>pr_ProposalID = i, pr_RemoteReceiptDigest = digest, pr_EvidenceKind = kind\<rparr> else None
     }"

definition valid_prepare :: "prepare_request \<Rightarrow> bool" where
  "valid_prepare p =
     (\<not> (\<not> nonce (pq_RecoveryID p) \<or> \<not> revision (pq_ExpectedLaneRevision p)
         \<or> (case pq_ExpectedApprovalRevision p of None \<Rightarrow> False | Some r \<Rightarrow> \<not> approvalRevision r)
         \<or> \<not> hexValue (pq_RemoteReceiptDigest p) 64
         \<or> \<not> evidenceKind (pq_EvidenceKind p) \<or> \<not> pq_AcknowledgeUncertainty p \<or> \<not> optionalDigest (pq_CommittedACKDigest p)
         \<or> (pq_ExpectedApprovalRevision p = None \<and> pq_CommittedACKDigest p \<noteq> None)))"

definition decode_prepare :: "json \<Rightarrow> prepare_request option" where
  "decode_prepare v =
     do {
       ms \<leftarrow> strict_fields v [''recovery_id'', ''expected_lane_revision'', ''expected_approval_revision'', ''remote_receipt_digest'',
                            ''evidence_kind'', ''acknowledge_uncertainty'', ''committed_ack_digest''];
       recovery \<leftarrow> as_str (member ms ''recovery_id'');
       lane \<leftarrow> as_str (member ms ''expected_lane_revision'');
       expected \<leftarrow> as_opt (member ms ''expected_approval_revision'');
       digest \<leftarrow> as_str (member ms ''remote_receipt_digest'');
       kind \<leftarrow> as_str (member ms ''evidence_kind'');
       ack \<leftarrow> as_bool (member ms ''acknowledge_uncertainty'');
       committed \<leftarrow> as_opt (member ms ''committed_ack_digest'');
       let p = \<lparr>pq_RecoveryID = recovery, pq_ExpectedLaneRevision = lane, pq_ExpectedApprovalRevision = expected,
                 pq_RemoteReceiptDigest = digest, pq_EvidenceKind = kind, pq_AcknowledgeUncertainty = ack,
                 pq_CommittedACKDigest = committed\<rparr>
       in if valid_prepare p then Some p else None
     }"

definition validateApproval :: "approval \<Rightarrow> bool" where
  "validateApproval a =
     (case (ParseHTTPTime (ap_PreparedAt a), ParseHTTPTime (ap_ExpiresAt a)) of
        (Some prepared, Some expires) \<Rightarrow>
          \<not> (\<not> nonce (ap_RecoveryID a) \<or> \<not> nonce (ap_PrepareID a) \<or> \<not> nonce (ap_OwnerDecisionID a)
             \<or> \<not> approvalRevision (ap_ApprovalRevision a)
             \<or> (ap_ApprovalRevision a = ''1'') \<noteq> (ap_PreviousPrepareID a = None)
             \<or> (case ap_PreviousPrepareID a of None \<Rightarrow> False | Some p \<Rightarrow> \<not> nonce p \<or> p = ap_PrepareID a)
             \<or> \<not> is_identifier (ap_ServerID a) ''srv_'' \<or> \<not> is_identifier (ap_OwnerUserID a) ''usr_''
             \<or> \<not> is_identifier (ap_ConnectorInstanceID a) ''agent_'' \<or> \<not> is_identifier (ap_ActionID a) ''hla_''
             \<or> \<not> hexValue (ap_RemoteReceiptDigest a) 64 \<or> \<not> evidenceKind (ap_EvidenceKind a) \<or> \<not> revision (ap_LaneRevision a)
             \<or> \<not> optionalDigest (ap_CommittedACKDigest a)
             \<or> (ap_ApprovalRevision a = ''1'' \<and> ap_CommittedACKDigest a \<noteq> None)
             \<or> \<not> prepared < expires \<or> minutes 5 < Sub expires prepared)
      | _ \<Rightarrow> False)"

definition unmarshal_approval :: "(string \<times> json) list \<Rightarrow> approval option" where
  "unmarshal_approval ms =
     do {
       recovery \<leftarrow> as_str (member ms ''recovery_id'');
       prepare \<leftarrow> as_str (member ms ''prepare_id'');
       owner_decision \<leftarrow> as_str (member ms ''owner_decision_id'');
       rev \<leftarrow> as_str (member ms ''approval_revision'');
       previous \<leftarrow> as_opt (member ms ''previous_prepare_id'');
       server \<leftarrow> as_str (member ms ''server_id'');
       owner \<leftarrow> as_str (member ms ''owner_user_id'');
       connector \<leftarrow> as_str (member ms ''connector_instance_id'');
       action \<leftarrow> as_str (member ms ''action_id'');
       digest \<leftarrow> as_str (member ms ''remote_receipt_digest'');
       kind \<leftarrow> as_str (member ms ''evidence_kind'');
       lane \<leftarrow> as_str (member ms ''lane_revision'');
       committed \<leftarrow> as_opt (member ms ''committed_ack_digest'');
       prepared \<leftarrow> as_str (member ms ''prepared_at'');
       expires \<leftarrow> as_str (member ms ''expires_at'');
       Some \<lparr>ap_RecoveryID = recovery, ap_PrepareID = prepare, ap_OwnerDecisionID = owner_decision, ap_ApprovalRevision = rev,
             ap_PreviousPrepareID = previous, ap_ServerID = server, ap_OwnerUserID = owner, ap_ConnectorInstanceID = connector,
             ap_ActionID = action, ap_RemoteReceiptDigest = digest, ap_EvidenceKind = kind, ap_LaneRevision = lane,
             ap_CommittedACKDigest = committed, ap_PreparedAt = prepared, ap_ExpiresAt = expires\<rparr>
     }"

definition decode_approval :: "json \<Rightarrow> approval option" where
  "decode_approval v =
     do {
       ms \<leftarrow> strict_fields v [''recovery_id'', ''prepare_id'', ''owner_decision_id'', ''approval_revision'', ''previous_prepare_id'',
                            ''server_id'', ''owner_user_id'', ''connector_instance_id'', ''action_id'', ''remote_receipt_digest'',
                            ''evidence_kind'', ''lane_revision'', ''committed_ack_digest'', ''prepared_at'', ''expires_at''];
       a \<leftarrow> unmarshal_approval ms;
       if validateApproval a then Some a else None
     }"

definition valid_recovery_check :: "recovery_check \<Rightarrow> bool" where
  "valid_recovery_check c =
     (\<not> (\<not> nonce (rc_RecoveryID c) \<or> \<not> nonce (rc_PrepareID c) \<or> \<not> approvalRevision (rc_ApprovalRevision c)
         \<or> \<not> hexValue (rc_RemoteReceiptDigest c) 64 \<or> \<not> nonce (rc_CheckNonce c) \<or> \<not> optionalDigest (rc_CommittedACKDigest c)))"

definition decode_recovery_check :: "json \<Rightarrow> recovery_check option" where
  "decode_recovery_check v =
     do {
       ms \<leftarrow> strict_fields v [''recovery_id'', ''prepare_id'', ''approval_revision'', ''remote_receipt_digest'', ''check_nonce'',
                            ''committed_ack_digest''];
       recovery \<leftarrow> as_str (member ms ''recovery_id'');
       prepare \<leftarrow> as_str (member ms ''prepare_id'');
       rev \<leftarrow> as_str (member ms ''approval_revision'');
       digest \<leftarrow> as_str (member ms ''remote_receipt_digest'');
       challenge \<leftarrow> as_str (member ms ''check_nonce'');
       committed \<leftarrow> as_opt (member ms ''committed_ack_digest'');
       let c = \<lparr>rc_RecoveryID = recovery, rc_PrepareID = prepare, rc_ApprovalRevision = rev, rc_RemoteReceiptDigest = digest,
                 rc_CheckNonce = challenge, rc_CommittedACKDigest = committed\<rparr>
       in if valid_recovery_check c then Some c else None
     }"

definition valid_recovery_decision :: "recovery_decision \<Rightarrow> bool" where
  "valid_recovery_decision d =
     (case (ParseHTTPTime (rd_CheckedAt d), ParseHTTPTime (ap_PreparedAt (rd_Approval d))) of
        (Some checked, Some prepared) \<Rightarrow>
          \<not> (checked < prepared \<or> \<not> nonce (rd_CheckNonce d) \<or> \<not> is_identifier (rd_CredentialID d) ''hlac_''
             \<or> \<not> revision (rd_CredentialRevision d) \<or> (rd_Decision d \<noteq> ''PERMITTED'' \<and> rd_Decision d \<noteq> ''DENIED''))
      | _ \<Rightarrow> False)"

definition decode_recovery_decision :: "json \<Rightarrow> recovery_decision option" where
  "decode_recovery_decision v =
     do {
       ms \<leftarrow> strict_fields v [''approval'', ''check_nonce'', ''credential_id'', ''credential_revision'', ''checked_at'', ''decision''];
       challenge \<leftarrow> as_str (member ms ''check_nonce'');
       credential \<leftarrow> as_str (member ms ''credential_id'');
       rev \<leftarrow> as_str (member ms ''credential_revision'');
       checked \<leftarrow> as_str (member ms ''checked_at'');
       decision \<leftarrow> as_str (member ms ''decision'');
       a \<leftarrow> decode_approval (member ms ''approval'');
       let d = \<lparr>rd_Approval = a, rd_CheckNonce = challenge, rd_CredentialID = credential, rd_CredentialRevision = rev,
                 rd_CheckedAt = checked, rd_Decision = decision\<rparr>
       in if valid_recovery_decision d then Some d else None
     }"

definition sameApproval :: "approval \<Rightarrow> approval \<Rightarrow> bool" where
  "sameApproval a b =
     (let x = a\<lparr>ap_PreviousPrepareID := None, ap_CommittedACKDigest := None\<rparr>;
          y = b\<lparr>ap_PreviousPrepareID := None, ap_CommittedACKDigest := None\<rparr>
      in x = y \<and> equalOptional (ap_PreviousPrepareID a) (ap_PreviousPrepareID b)
         \<and> equalOptional (ap_CommittedACKDigest a) (ap_CommittedACKDigest b))"

definition MatchRecoveryDecision :: "approval \<Rightarrow> string \<Rightarrow> recovery_decision \<Rightarrow> bool" where
  "MatchRecoveryDecision a challenge d =
     (case (ParseHTTPTime (rd_CheckedAt d), ParseHTTPTime (ap_ExpiresAt a), ParseHTTPTime (ap_PreparedAt a)) of
        (Some checked, Some expires, Some prepared) \<Rightarrow>
          \<not> (\<not> validateApproval a \<or> \<not> sameApproval a (rd_Approval d) \<or> \<not> nonce challenge \<or> rd_CheckNonce d \<noteq> challenge
             \<or> \<not> is_identifier (rd_CredentialID d) ''hlac_'' \<or> \<not> revision (rd_CredentialRevision d)
             \<or> checked < prepared \<or> \<not> checked < expires \<or> rd_Decision d \<noteq> ''PERMITTED'')
      | _ \<Rightarrow> False)"

definition valid_finalize :: "finalize_request \<Rightarrow> bool" where
  "valid_finalize f =
     (\<not> (\<not> nonce (fq_RecoveryID f) \<or> \<not> nonce (fq_PrepareID f) \<or> \<not> approvalRevision (fq_ApprovalRevision f)
         \<or> \<not> hexValue (fq_RemoteReceiptDigest f) 64 \<or> \<not> hexValue (fq_ACKDigest f) 64))"

definition decode_finalize :: "json \<Rightarrow> finalize_request option" where
  "decode_finalize v =
     do {
       ms \<leftarrow> strict_fields v [''recovery_id'', ''prepare_id'', ''approval_revision'', ''remote_receipt_digest'', ''ack_digest''];
       recovery \<leftarrow> as_str (member ms ''recovery_id'');
       prepare \<leftarrow> as_str (member ms ''prepare_id'');
       rev \<leftarrow> as_str (member ms ''approval_revision'');
       digest \<leftarrow> as_str (member ms ''remote_receipt_digest'');
       ack \<leftarrow> as_str (member ms ''ack_digest'');
       let f = \<lparr>fq_RecoveryID = recovery, fq_PrepareID = prepare, fq_ApprovalRevision = rev, fq_RemoteReceiptDigest = digest,
                 fq_ACKDigest = ack\<rparr>
       in if valid_finalize f then Some f else None
     }"

definition valid_finalization :: "finalization \<Rightarrow> bool" where
  "valid_finalization f =
     (\<not> (ParseHTTPTime (fi_FinalizedAt f) = None \<or> \<not> nonce (fi_RecoveryID f) \<or> \<not> nonce (fi_PrepareID f)
         \<or> \<not> nonce (fi_OwnerDecisionID f) \<or> \<not> approvalRevision (fi_ApprovalRevision f) \<or> \<not> is_identifier (fi_ActionID f) ''hla_''
         \<or> \<not> hexValue (fi_RemoteReceiptDigest f) 64 \<or> \<not> hexValue (fi_ACKDigest f) 64 \<or> \<not> revision (fi_ReleasedLaneRevision f)))"

definition decode_finalization :: "json \<Rightarrow> finalization option" where
  "decode_finalization v =
     do {
       ms \<leftarrow> strict_fields v [''recovery_id'', ''prepare_id'', ''owner_decision_id'', ''approval_revision'', ''action_id'',
                            ''remote_receipt_digest'', ''ack_digest'', ''released_lane_revision'', ''finalized_at''];
       recovery \<leftarrow> as_str (member ms ''recovery_id'');
       prepare \<leftarrow> as_str (member ms ''prepare_id'');
       owner_decision \<leftarrow> as_str (member ms ''owner_decision_id'');
       rev \<leftarrow> as_str (member ms ''approval_revision'');
       action \<leftarrow> as_str (member ms ''action_id'');
       digest \<leftarrow> as_str (member ms ''remote_receipt_digest'');
       ack \<leftarrow> as_str (member ms ''ack_digest'');
       released \<leftarrow> as_str (member ms ''released_lane_revision'');
       finalized \<leftarrow> as_str (member ms ''finalized_at'');
       let f = \<lparr>fi_RecoveryID = recovery, fi_PrepareID = prepare, fi_OwnerDecisionID = owner_decision, fi_ApprovalRevision = rev,
                 fi_ActionID = action, fi_RemoteReceiptDigest = digest, fi_ACKDigest = ack, fi_ReleasedLaneRevision = released,
                 fi_FinalizedAt = finalized\<rparr>
       in if valid_finalization f then Some f else None
     }"

text \<open>\<^verbatim>\<open>strconv.ParseUint(s, 10, 64)\<close>.\<close>

definition ParseUint64 :: "string \<Rightarrow> uint64 option" where
  "ParseUint64 s = (if s = [] \<or> \<not> digits s \<or> 2 ^ 64 \<le> dec_val s then None else Some (of_nat (dec_val s)))"

definition MatchFinalization :: "approval \<Rightarrow> string \<Rightarrow> finalization \<Rightarrow> bool" where
  "MatchFinalization a ack f =
     (case (ParseHTTPTime (fi_FinalizedAt f), ParseHTTPTime (ap_PreparedAt a), ParseUint64 (ap_LaneRevision a),
            ParseUint64 (fi_ReleasedLaneRevision f), ParseHTTPTime (ap_ExpiresAt a)) of
        (Some finalized, Some prepared, Some lane, Some released, Some expires) \<Rightarrow>
          \<not> (\<not> validateApproval a \<or> \<not> hexValue ack 64 \<or> fi_RecoveryID f \<noteq> ap_RecoveryID a \<or> fi_PrepareID f \<noteq> ap_PrepareID a
             \<or> fi_OwnerDecisionID f \<noteq> ap_OwnerDecisionID a \<or> fi_ApprovalRevision f \<noteq> ap_ApprovalRevision a
             \<or> fi_ActionID f \<noteq> ap_ActionID a \<or> fi_RemoteReceiptDigest f \<noteq> ap_RemoteReceiptDigest a \<or> fi_ACKDigest f \<noteq> ack
             \<or> finalized < prepared \<or> \<not> finalized < expires \<or> \<not> revision (fi_ReleasedLaneRevision f)
             \<or> 9223372036854775807 \<le> lane \<or> released \<noteq> lane + 1)
      | _ \<Rightarrow> False)"

text \<open>\<^verbatim>\<open>strconv.Atoi\<close> on the revision of a decoded approval, which is one digit.\<close>

definition used_approvals :: "approval \<Rightarrow> int" where
  "used_approvals a = int (dec_val (ap_ApprovalRevision a))"

definition view_approval_ok :: "recovery_view \<Rightarrow> approval \<Rightarrow> bool" where
  "view_approval_ok v a =
     (\<not> (ap_ActionID a \<noteq> rw_ActionID v \<or> rw_RecoveryID v \<noteq> Some (ap_RecoveryID a)
         \<or> rw_RemoteReceiptDigest v \<noteq> Some (ap_RemoteReceiptDigest a) \<or> rw_EvidenceKind v \<noteq> Some (ap_EvidenceKind a)
         \<or> rw_RemainingApprovals v \<noteq> 8 - used_approvals a))"

definition view_state_ok :: "recovery_view \<Rightarrow> bool" where
  "view_state_ok v =
     (if rw_State v = ''AWAITING_OWNER'' then
        \<not> (rw_CurrentApproval v \<noteq> None \<or> rw_Finalization v \<noteq> None \<or> rw_RemainingApprovals v \<noteq> 8)
      else if rw_State v = ''PREPARED'' then
        (case rw_CurrentApproval v of
           None \<Rightarrow> False
         | Some a \<Rightarrow> \<not> (rw_Finalization v \<noteq> None \<or> rw_LaneRevision v \<noteq> ap_LaneRevision a))
      else if rw_State v = ''FINALIZED'' then
        (case (rw_CurrentApproval v, rw_Finalization v) of
           (Some a, Some f) \<Rightarrow>
             \<not> (\<not> MatchFinalization a (fi_ACKDigest f) f \<or> rw_LaneRevision v \<noteq> fi_ReleasedLaneRevision f)
         | _ \<Rightarrow> False)
      else False)"

definition valid_view :: "recovery_view \<Rightarrow> bool" where
  "valid_view v =
     (if \<not> is_identifier (rw_ActionID v) ''hla_'' \<or> \<not> revision (rw_LaneRevision v)
         \<or> rw_RemainingApprovals v < 0 \<or> 8 < rw_RemainingApprovals v then False
      else if rw_State v = ''NONE'' then
        \<not> (rw_RecoveryID v \<noteq> None \<or> rw_RemoteReceiptDigest v \<noteq> None \<or> rw_EvidenceKind v \<noteq> None
           \<or> rw_CurrentApproval v \<noteq> None \<or> rw_Finalization v \<noteq> None \<or> rw_RemainingApprovals v \<noteq> 8)
      else (case (rw_RecoveryID v, rw_RemoteReceiptDigest v, rw_EvidenceKind v) of
          (Some recovery, Some digest, Some kind) \<Rightarrow>
            if \<not> nonce recovery \<or> \<not> hexValue digest 64 \<or> \<not> evidenceKind kind then False
            else (case rw_CurrentApproval v of None \<Rightarrow> True | Some a \<Rightarrow> view_approval_ok v a) \<and> view_state_ok v
        | _ \<Rightarrow> False))"

definition nested :: "(json \<Rightarrow> 'a option) \<Rightarrow> json \<Rightarrow> 'a option option" where
  "nested dec v = (if isNull v then Some None else map_option Some (dec v))"

definition decode_view :: "json \<Rightarrow> recovery_view option" where
  "decode_view v =
     do {
       ms \<leftarrow> strict_fields v [''action_id'', ''recovery_id'', ''remote_receipt_digest'', ''evidence_kind'', ''lane_revision'', ''state'',
                            ''current_approval'', ''finalization'', ''remaining_approvals''];
       action \<leftarrow> as_str (member ms ''action_id'');
       recovery \<leftarrow> as_opt (member ms ''recovery_id'');
       digest \<leftarrow> as_opt (member ms ''remote_receipt_digest'');
       kind \<leftarrow> as_opt (member ms ''evidence_kind'');
       lane \<leftarrow> as_str (member ms ''lane_revision'');
       state \<leftarrow> as_str (member ms ''state'');
       remaining \<leftarrow> as_int (member ms ''remaining_approvals'');
       a \<leftarrow> nested decode_approval (member ms ''current_approval'');
       f \<leftarrow> nested decode_finalization (member ms ''finalization'');
       let w = \<lparr>rw_ActionID = action, rw_RecoveryID = recovery, rw_RemoteReceiptDigest = digest, rw_EvidenceKind = kind,
                 rw_LaneRevision = lane, rw_State = state, rw_CurrentApproval = a, rw_Finalization = f,
                 rw_RemainingApprovals = remaining\<rparr>
       in if \<not> isNull (member ms ''remaining_approvals'') \<and> valid_view w then Some w else None
     }"

definition MatchRecoveryView :: "request_receipt \<Rightarrow> string \<Rightarrow> recovery_view \<Rightarrow> bool" where
  "MatchRecoveryView r digest v =
     (case ReceiptDigest r of
        None \<Rightarrow> False
      | Some actual \<Rightarrow>
          if hex_encode actual \<noteq> digest \<or> rw_ActionID v \<noteq> rr_ActionID r
             \<or> (rw_RemoteReceiptDigest v \<noteq> None \<and> rw_RemoteReceiptDigest v \<noteq> Some digest) then False
          else (case rw_CurrentApproval v of
              None \<Rightarrow> True
            | Some a \<Rightarrow> \<not> (ap_ServerID a \<noteq> rr_ServerID r \<or> ap_OwnerUserID a \<noteq> rr_OwnerUserID r
                \<or> ap_ConnectorInstanceID a \<noteq> rr_ConnectorInstanceID r)))"

definition DecodeRecoveryProposal :: "string \<Rightarrow> recovery_proposal option" where
  "DecodeRecoveryProposal raw = Option.bind (strictJSON raw) decode_proposal"
definition DecodePrepareRequest :: "string \<Rightarrow> prepare_request option" where
  "DecodePrepareRequest raw = Option.bind (strictJSON raw) decode_prepare"
definition DecodeApproval :: "string \<Rightarrow> approval option" where
  "DecodeApproval raw = Option.bind (strictJSON raw) decode_approval"
definition DecodeRecoveryCheck :: "string \<Rightarrow> recovery_check option" where
  "DecodeRecoveryCheck raw = Option.bind (strictJSON raw) decode_recovery_check"
definition DecodeRecoveryDecision :: "string \<Rightarrow> recovery_decision option" where
  "DecodeRecoveryDecision raw = Option.bind (strictJSON raw) decode_recovery_decision"
definition DecodeFinalizeRequest :: "string \<Rightarrow> finalize_request option" where
  "DecodeFinalizeRequest raw = Option.bind (strictJSON raw) decode_finalize"
definition DecodeFinalization :: "string \<Rightarrow> finalization option" where
  "DecodeFinalization raw = Option.bind (strictJSON raw) decode_finalization"
definition DecodeRecoveryView :: "string \<Rightarrow> recovery_view option" where
  "DecodeRecoveryView raw = Option.bind (strictJSON raw) decode_view"

section \<open>Encoders\<close>

definition proposal_json :: "recovery_proposal \<Rightarrow> json" where
  "proposal_json p =
     JObj [(''proposal_id'', JStr (pr_ProposalID p)), (''remote_receipt_digest'', JStr (pr_RemoteReceiptDigest p)),
       (''evidence_kind'', JStr (pr_EvidenceKind p))]"

definition approval_json :: "approval \<Rightarrow> json" where
  "approval_json a =
     JObj [(''recovery_id'', JStr (ap_RecoveryID a)), (''prepare_id'', JStr (ap_PrepareID a)),
       (''owner_decision_id'', JStr (ap_OwnerDecisionID a)), (''approval_revision'', JStr (ap_ApprovalRevision a)),
       (''previous_prepare_id'', opt_json (ap_PreviousPrepareID a)), (''server_id'', JStr (ap_ServerID a)),
       (''owner_user_id'', JStr (ap_OwnerUserID a)), (''connector_instance_id'', JStr (ap_ConnectorInstanceID a)),
       (''action_id'', JStr (ap_ActionID a)), (''remote_receipt_digest'', JStr (ap_RemoteReceiptDigest a)),
       (''evidence_kind'', JStr (ap_EvidenceKind a)), (''lane_revision'', JStr (ap_LaneRevision a)),
       (''committed_ack_digest'', opt_json (ap_CommittedACKDigest a)), (''prepared_at'', JStr (ap_PreparedAt a)),
       (''expires_at'', JStr (ap_ExpiresAt a))]"

definition recovery_check_json :: "recovery_check \<Rightarrow> json" where
  "recovery_check_json c =
     JObj [(''recovery_id'', JStr (rc_RecoveryID c)), (''prepare_id'', JStr (rc_PrepareID c)),
       (''approval_revision'', JStr (rc_ApprovalRevision c)), (''remote_receipt_digest'', JStr (rc_RemoteReceiptDigest c)),
       (''check_nonce'', JStr (rc_CheckNonce c)), (''committed_ack_digest'', opt_json (rc_CommittedACKDigest c))]"

definition recovery_decision_json :: "recovery_decision \<Rightarrow> json" where
  "recovery_decision_json d =
     JObj [(''approval'', approval_json (rd_Approval d)), (''check_nonce'', JStr (rd_CheckNonce d)),
       (''credential_id'', JStr (rd_CredentialID d)), (''credential_revision'', JStr (rd_CredentialRevision d)),
       (''checked_at'', JStr (rd_CheckedAt d)), (''decision'', JStr (rd_Decision d))]"

definition finalize_json :: "finalize_request \<Rightarrow> json" where
  "finalize_json f =
     JObj [(''recovery_id'', JStr (fq_RecoveryID f)), (''prepare_id'', JStr (fq_PrepareID f)),
       (''approval_revision'', JStr (fq_ApprovalRevision f)), (''remote_receipt_digest'', JStr (fq_RemoteReceiptDigest f)),
       (''ack_digest'', JStr (fq_ACKDigest f))]"

definition finalization_json :: "finalization \<Rightarrow> json" where
  "finalization_json f =
     JObj [(''recovery_id'', JStr (fi_RecoveryID f)), (''prepare_id'', JStr (fi_PrepareID f)),
       (''owner_decision_id'', JStr (fi_OwnerDecisionID f)), (''approval_revision'', JStr (fi_ApprovalRevision f)),
       (''action_id'', JStr (fi_ActionID f)), (''remote_receipt_digest'', JStr (fi_RemoteReceiptDigest f)),
       (''ack_digest'', JStr (fi_ACKDigest f)), (''released_lane_revision'', JStr (fi_ReleasedLaneRevision f)),
       (''finalized_at'', JStr (fi_FinalizedAt f))]"

definition view_json :: "recovery_view \<Rightarrow> json" where
  "view_json v =
     JObj [(''action_id'', JStr (rw_ActionID v)), (''recovery_id'', opt_json (rw_RecoveryID v)),
       (''remote_receipt_digest'', opt_json (rw_RemoteReceiptDigest v)), (''evidence_kind'', opt_json (rw_EvidenceKind v)),
       (''lane_revision'', JStr (rw_LaneRevision v)), (''state'', JStr (rw_State v)),
       (''current_approval'', null_or approval_json (rw_CurrentApproval v)),
       (''finalization'', null_or finalization_json (rw_Finalization v)),
       (''remaining_approvals'', JNum (int_text (rw_RemainingApprovals v)))]"

lemma ascii_kinds:
  "evidenceKind s \<Longrightarrow> ascii s" "approvalRevision s \<Longrightarrow> ascii s" "optionalDigest x \<Longrightarrow> ascii_json (opt_json x)"
  "ascii_json (opt_json None)" "ascii t \<Longrightarrow> ascii_json (opt_json (Some t))"
proof -
  show "approvalRevision s \<Longrightarrow> ascii s"
    using char_le_ascii [of "hd s" "CHR ''8''"] by (cases s) (auto simp: approvalRevision_def)
qed (auto simp: evidenceKind_def optionalDigest_def opt_json_def ascii_texts split: option.splits)

lemma ascii_hex_encode: "ascii (hex_encode bs)"
  unfolding hex_encode_def by (rule ascii_concat) auto

lemma ProposalID_ascii: "ProposalID d k = Some i \<Longrightarrow> ascii i \<and> ascii d \<and> ascii k"
  by (auto simp: ProposalID_def ascii_hex_encode ascii_texts ascii_kinds split: if_splits)

lemma decode_proposal_valid:
  "decode_proposal v = Some p \<Longrightarrow> ProposalID (pr_RemoteReceiptDigest p) (pr_EvidenceKind p) = Some (pr_ProposalID p)"
  by (auto simp: decode_proposal_def bind_eq_Some_conv split: if_splits)

lemma proposal_json_ok:
  assumes "ProposalID (pr_RemoteReceiptDigest p) (pr_EvidenceKind p) = Some (pr_ProposalID p)"
  shows "decode_proposal (proposal_json p) = Some p" "ascii_json (proposal_json p)" "d + 1 \<le> 8 \<Longrightarrow> strict_value d (proposal_json p)"
proof -
  show strict: "strict_value d (proposal_json p)" if "d + 1 \<le> 8" for d
    using that by (simp add: proposal_json_def)
  show "decode_proposal (proposal_json p) = Some p"
    using strict [of 0] assms unfolding decode_proposal_def proposal_json_def
    by (cases p, subst strict_fields_names) auto
  show "ascii_json (proposal_json p)" using ProposalID_ascii [OF assms] by (simp add: proposal_json_def)
qed

interpretation proposal_codec: message_codec decode_proposal proposal_json 1
  by unfold_locales (use decode_proposal_valid proposal_json_ok in blast)+

lemma decode_approval_valid: "decode_approval v = Some a \<Longrightarrow> validateApproval a"
  by (auto simp: decode_approval_def bind_eq_Some_conv split: if_splits)

lemma approval_json_ok:
  assumes "validateApproval a"
  shows "decode_approval (approval_json a) = Some a" "ascii_json (approval_json a)" "d + 1 \<le> 8 \<Longrightarrow> strict_value d (approval_json a)"
proof -
  show strict: "strict_value d (approval_json a)" if "d + 1 \<le> 8" for d
    using that by (simp add: approval_json_def)
  show "decode_approval (approval_json a) = Some a"
    using strict [of 0] assms unfolding decode_approval_def approval_json_def
    by (cases a, subst strict_fields_names) (auto simp: unmarshal_approval_def)
  have "ascii_json (opt_json (ap_PreviousPrepareID a))"
    using assms by (auto simp: validateApproval_def ascii_texts ascii_kinds split: option.splits)
  then show "ascii_json (approval_json a)"
    using assms by (auto simp: approval_json_def validateApproval_def ascii_texts ascii_kinds split: option.splits)
qed

interpretation approval_codec: message_codec decode_approval approval_json 1
  by unfold_locales (use decode_approval_valid approval_json_ok in blast)+

lemma decode_recovery_check_valid: "decode_recovery_check v = Some c \<Longrightarrow> valid_recovery_check c"
  by (auto simp: decode_recovery_check_def bind_eq_Some_conv Let_def split: if_splits)

lemma recovery_check_json_ok:
  assumes "valid_recovery_check c"
  shows "decode_recovery_check (recovery_check_json c) = Some c" "ascii_json (recovery_check_json c)"
    "d + 1 \<le> 8 \<Longrightarrow> strict_value d (recovery_check_json c)"
proof -
  show strict: "strict_value d (recovery_check_json c)" if "d + 1 \<le> 8" for d
    using that by (simp add: recovery_check_json_def)
  show "decode_recovery_check (recovery_check_json c) = Some c"
    using strict [of 0] assms unfolding decode_recovery_check_def recovery_check_json_def
    by (cases c, subst strict_fields_names) auto
  show "ascii_json (recovery_check_json c)"
    using assms by (auto simp: recovery_check_json_def valid_recovery_check_def ascii_texts ascii_kinds)
qed

interpretation recovery_check_codec: message_codec decode_recovery_check recovery_check_json 1
  by unfold_locales (use decode_recovery_check_valid recovery_check_json_ok in blast)+

lemma decode_recovery_decision_valid:
  "decode_recovery_decision v = Some d \<Longrightarrow> valid_recovery_decision d \<and> validateApproval (rd_Approval d)"
  by (auto simp: decode_recovery_decision_def bind_eq_Some_conv Let_def decode_approval_valid split: if_splits)

lemma recovery_decision_json_ok:
  assumes "valid_recovery_decision c" "validateApproval (rd_Approval c)"
  shows "decode_recovery_decision (recovery_decision_json c) = Some c" "ascii_json (recovery_decision_json c)"
    "d + 2 \<le> 8 \<Longrightarrow> strict_value d (recovery_decision_json c)"
proof -
  note a = approval_json_ok [OF assms(2)]
  show strict: "strict_value d (recovery_decision_json c)" if "d + 2 \<le> 8" for d
    using that a(3) [of "Suc d"] by (simp add: recovery_decision_json_def)
  show "decode_recovery_decision (recovery_decision_json c) = Some c"
    using strict [of 0] assms(1) a(1) unfolding decode_recovery_decision_def recovery_decision_json_def
    by (cases c, subst strict_fields_names) auto
  show "ascii_json (recovery_decision_json c)"
    using assms(1) a(2) by (auto simp: recovery_decision_json_def valid_recovery_decision_def ascii_texts split: option.splits)
qed

interpretation recovery_decision_codec: message_codec decode_recovery_decision recovery_decision_json 2
  by unfold_locales (use decode_recovery_decision_valid recovery_decision_json_ok in blast)+

lemma decode_finalize_valid: "decode_finalize v = Some f \<Longrightarrow> valid_finalize f"
  by (auto simp: decode_finalize_def bind_eq_Some_conv Let_def split: if_splits)

lemma finalize_json_ok:
  assumes "valid_finalize f"
  shows "decode_finalize (finalize_json f) = Some f" "ascii_json (finalize_json f)" "d + 1 \<le> 8 \<Longrightarrow> strict_value d (finalize_json f)"
proof -
  show strict: "strict_value d (finalize_json f)" if "d + 1 \<le> 8" for d
    using that by (simp add: finalize_json_def)
  show "decode_finalize (finalize_json f) = Some f"
    using strict [of 0] assms unfolding decode_finalize_def finalize_json_def
    by (cases f, subst strict_fields_names) auto
  show "ascii_json (finalize_json f)"
    using assms by (auto simp: finalize_json_def valid_finalize_def ascii_texts ascii_kinds)
qed

interpretation finalize_codec: message_codec decode_finalize finalize_json 1
  by unfold_locales (use decode_finalize_valid finalize_json_ok in blast)+

lemma decode_finalization_valid: "decode_finalization v = Some f \<Longrightarrow> valid_finalization f"
  by (auto simp: decode_finalization_def bind_eq_Some_conv Let_def split: if_splits)

lemma finalization_json_ok:
  assumes "valid_finalization f"
  shows "decode_finalization (finalization_json f) = Some f" "ascii_json (finalization_json f)"
    "d + 1 \<le> 8 \<Longrightarrow> strict_value d (finalization_json f)"
proof -
  show strict: "strict_value d (finalization_json f)" if "d + 1 \<le> 8" for d
    using that by (simp add: finalization_json_def)
  show "decode_finalization (finalization_json f) = Some f"
    using strict [of 0] assms unfolding decode_finalization_def finalization_json_def
    by (cases f, subst strict_fields_names) auto
  show "ascii_json (finalization_json f)"
    using assms by (auto simp: finalization_json_def valid_finalization_def ascii_texts ascii_kinds)
qed

interpretation finalization_codec: message_codec decode_finalization finalization_json 1
  by unfold_locales (use decode_finalization_valid finalization_json_ok in blast)+

text \<open>The view: its nested messages are valid themselves.\<close>

definition view_parts :: "recovery_view \<Rightarrow> bool" where
  "view_parts v \<longleftrightarrow>
     (case rw_CurrentApproval v of None \<Rightarrow> True | Some a \<Rightarrow> validateApproval a) \<and>
     (case rw_Finalization v of None \<Rightarrow> True | Some f \<Rightarrow> valid_finalization f)"

lemma nested_cases: "nested dec v = Some x \<Longrightarrow> x = None \<or> (\<exists>y. x = Some y \<and> dec v = Some y)"
  by (auto simp: nested_def split: if_splits)

lemma nested_null_or:
  assumes "\<And>y. x = Some y \<Longrightarrow> dec (enc y) = Some y \<and> enc y \<noteq> JNull"
  shows "nested dec (null_or enc x) = Some x"
  using assms by (cases x) (auto simp: nested_def null_or_def isNull_def)

lemma decode_view_valid: "decode_view v = Some w \<Longrightarrow> valid_view w \<and> view_parts w"
  unfolding decode_view_def Let_def view_parts_def
  by (auto simp: bind_eq_Some_conv split: if_splits dest!: nested_cases dest: decode_approval_valid decode_finalization_valid)

lemma valid_view_texts:
  assumes "valid_view v"
  shows "ascii (rw_ActionID v)" "ascii (rw_LaneRevision v)" "ascii (rw_State v)" "ascii_json (opt_json (rw_RecoveryID v))"
    "ascii_json (opt_json (rw_RemoteReceiptDigest v))" "ascii_json (opt_json (rw_EvidenceKind v))"
    "0 \<le> rw_RemainingApprovals v" "rw_RemainingApprovals v \<le> 8"
  using assms by (auto simp: valid_view_def view_state_ok_def ascii_texts ascii_kinds split: if_splits option.splits)

lemma view_json_ok:
  assumes "valid_view w" "view_parts w"
  shows "decode_view (view_json w) = Some w" "ascii_json (view_json w)" "d + 2 \<le> 8 \<Longrightarrow> strict_value d (view_json w)"
proof -
  note t = valid_view_texts [OF assms(1)]
  define n where "n = nat (rw_RemainingApprovals w)"
  have n: "int_text (rw_RemainingApprovals w) = show_nat n" "n \<le> 8" "int n = rw_RemainingApprovals w"
    using t(7,8) by (auto simp: int_text_def n_def)
  have int: "as_int (JNum (show_nat n)) = Some (rw_RemainingApprovals w)" using as_int_show [of n] n(2,3) by simp
  have a: "nested decode_approval (null_or approval_json (rw_CurrentApproval w)) = Some (rw_CurrentApproval w)"
    using assms(2) approval_json_ok(1) by (intro nested_null_or) (auto simp: view_parts_def approval_json_def)
  have f: "nested decode_finalization (null_or finalization_json (rw_Finalization w)) = Some (rw_Finalization w)"
    using assms(2) finalization_json_ok(1) by (intro nested_null_or) (auto simp: view_parts_def finalization_json_def)
  have parts: "strict_value (Suc d) (null_or approval_json (rw_CurrentApproval w))"
    "strict_value (Suc d) (null_or finalization_json (rw_Finalization w))" if "d + 2 \<le> 8" for d
    using that assms(2) approval_json_ok(3) [of _ "Suc d"] finalization_json_ok(3) [of _ "Suc d"]
    by (auto simp: view_parts_def null_or_def split: option.splits)
  then show strict: "strict_value d (view_json w)" if "d + 2 \<le> 8" for d
    using that by (simp add: view_json_def n(1))
  show "decode_view (view_json w) = Some w"
    using strict [of 0] assms(1) a f int unfolding decode_view_def view_json_def n(1)
    by (cases w, subst strict_fields_names) (auto simp: isNull_def)
  have "ascii_json (null_or approval_json (rw_CurrentApproval w))" "ascii_json (null_or finalization_json (rw_Finalization w))"
    using assms(2) approval_json_ok(2) finalization_json_ok(2) by (auto simp: view_parts_def null_or_def split: option.splits)
  then show "ascii_json (view_json w)" using t by (simp add: view_json_def n(1))
qed

interpretation view_codec: message_codec decode_view view_json 2
  by unfold_locales (use decode_view_valid view_json_ok in blast)+

section \<open>Matching\<close>

lemma sameApproval_iff: "sameApproval a b \<longleftrightarrow> a = b"
  by (cases a; cases b) (auto simp: sameApproval_def Let_def equalOptional_def split: option.splits)

lemma ParseUint64_revision: "revision s \<Longrightarrow> ParseUint64 s = Some (of_nat (dec_val s)) \<and> dec_val s < 2 ^ 63"
  by (auto simp: revision_def ParseUint64_def split: if_splits)

text \<open>The released lane is the next revision, and it is still a revision: the addition does not wrap.\<close>

lemma MatchFinalization_lane:
  assumes "MatchFinalization a ack f"
  shows "dec_val (fi_ReleasedLaneRevision f) = Suc (dec_val (ap_LaneRevision a))"
    and "dec_val (fi_ReleasedLaneRevision f) < 2 ^ 63"
proof -
  have r: "revision (ap_LaneRevision a)" "revision (fi_ReleasedLaneRevision f)"
    using assms by (auto simp: MatchFinalization_def validateApproval_def split: option.splits)
  note p = ParseUint64_revision [OF r(1)] ParseUint64_revision [OF r(2)]
  have w: "(of_nat (dec_val (fi_ReleasedLaneRevision f)) :: uint64) = of_nat (dec_val (ap_LaneRevision a)) + 1"
    using assms p by (auto simp: MatchFinalization_def split: option.splits)
  then have "(of_nat (dec_val (fi_ReleasedLaneRevision f)) :: uint64) = of_nat (Suc (dec_val (ap_LaneRevision a)))" by simp
  then have "unat (of_nat (dec_val (fi_ReleasedLaneRevision f)) :: uint64) = unat (of_nat (Suc (dec_val (ap_LaneRevision a))) :: uint64)"
    by (rule arg_cong)
  then have "dec_val (fi_ReleasedLaneRevision f) mod 2 ^ 64 = Suc (dec_val (ap_LaneRevision a)) mod 2 ^ 64"
    unfolding unat_of_nat by simp
  then show "dec_val (fi_ReleasedLaneRevision f) = Suc (dec_val (ap_LaneRevision a))" using p by simp
  show "dec_val (fi_ReleasedLaneRevision f) < 2 ^ 63" using p(2) by simp
qed

end
