(* ===== verification/ProtocolSnapshot.thy ===== *)
theory ProtocolSnapshot
  imports ProtocolRecovery
begin

text \<open>
  The capability snapshots of the action protocol, \<^verbatim>\<open>internal/actionprotocol/snapshot.go\<close> and
  \<^verbatim>\<open>snapshot_startup.go\<close>: the approved entries and the loop that validates them, publications, snapshot
  receipts and views, and the startup query with its reply. A slice is an optional list, \<open>None\<close> for \<^verbatim>\<open>nil\<close>.
\<close>

section \<open>Entries\<close>

record entry =
  et_TargetID :: string
  et_TargetKey :: string
  et_Operation :: operation
  et_Parameters :: parameters
  et_ParameterSHA256 :: string
  et_PolicyRevision :: string
  et_CapabilityRevision :: string

record publication =
  pb_PublicationID :: string
  pb_ExpectedSnapshotRevision :: "string option"
  pb_Entries :: "entry list option"

record snapshot_receipt =
  sr_PublicationID :: string
  sr_SnapshotRevision :: string
  sr_SnapshotDigest :: string
  sr_AdvertisedAt :: string
  sr_ExpiresAt :: string

record entry_view =
  evw_Entry :: entry
  evw_CooldownUntil :: "string option"

record snapshot_view =
  sv_ServerID :: string
  sv_OwnerUserID :: string
  sv_ConnectorInstanceID :: string
  sv_Readiness :: string
  sv_SnapshotRevision :: "string option"
  sv_SnapshotDigest :: "string option"
  sv_AdvertisedAt :: "string option"
  sv_ExpiresAt :: "string option"
  sv_Entries :: "entry_view list"

definition entryFields :: "bool \<Rightarrow> string list" where
  "entryFields view =
     (let names = [''target_id'', ''target_key'', ''operation'', ''parameters'', ''parameter_sha256'', ''policy_revision'',
                   ''capability_revision'']
      in if view then names @ [''cooldown_until''] else names)"

definition validEntry :: "entry \<Rightarrow> bool" where
  "validEntry e \<longleftrightarrow>
     ParameterDigest (et_Operation e) (et_Parameters e) = Some (et_ParameterSHA256 e) \<and> is_identifier (et_TargetID e) ''hlt_'' \<and>
     length (et_TargetKey e) = 20 \<and> take 4 (et_TargetKey e) = ''ctr_'' \<and> hexValue (drop 4 (et_TargetKey e)) 16 \<and>
     revision (et_PolicyRevision e) \<and> revision (et_CapabilityRevision e)"

definition entry_key :: "entry \<Rightarrow> string" where
  "entry_key e = et_TargetID e @ [CHR 0x00] @ operation_text (et_Operation e)"

text \<open>The loop over the entries with its two maps and the previous key.\<close>

fun validate_entries :: "(string \<rightharpoonup> string) \<Rightarrow> (string \<rightharpoonup> string) \<Rightarrow> string \<Rightarrow> entry list \<Rightarrow> bool" where
  "validate_entries aliases targets previous [] = True"
| "validate_entries aliases targets previous (e # es) =
     (let key = entry_key e
      in if \<not> validEntry e \<or> string_le key previous then False
         else if (case aliases (et_TargetKey e) of Some owner \<Rightarrow> owner \<noteq> et_TargetID e | None \<Rightarrow> False) then False
         else if (case targets (et_TargetID e) of Some alias \<Rightarrow> alias \<noteq> et_TargetKey e | None \<Rightarrow> False) then False
         else validate_entries (aliases(et_TargetKey e \<mapsto> et_TargetID e)) (targets(et_TargetID e \<mapsto> et_TargetKey e)) key es)"

definition ValidateEntries :: "entry list option \<Rightarrow> bool" where
  "ValidateEntries entries =
     (case entries of
        None \<Rightarrow> False
      | Some es \<Rightarrow> if 32 < length es then False else validate_entries Map.empty Map.empty [] es)"

definition unmarshal_entry :: "(string \<times> json) list \<Rightarrow> entry_view option" where
  "unmarshal_entry ms =
     do {
       target \<leftarrow> as_str (member ms ''target_id'');
       key \<leftarrow> as_str (member ms ''target_key'');
       op \<leftarrow> as_str (member ms ''operation'');
       params \<leftarrow> unmarshal_parameters (member ms ''parameters'');
       sha \<leftarrow> as_str (member ms ''parameter_sha256'');
       policy \<leftarrow> as_str (member ms ''policy_revision'');
       capability \<leftarrow> as_str (member ms ''capability_revision'');
       cooldown \<leftarrow> as_opt (member ms ''cooldown_until'');
       Some \<lparr>evw_Entry = \<lparr>et_TargetID = target, et_TargetKey = key, et_Operation = text_operation op, et_Parameters = params,
                          et_ParameterSHA256 = sha, et_PolicyRevision = policy, et_CapabilityRevision = capability\<rparr>,
             evw_CooldownUntil = cooldown\<rparr>
     }"

definition decodeEntry :: "json \<Rightarrow> bool \<Rightarrow> entry_view option" where
  "decodeEntry v view =
     do {
       ms \<leftarrow> strict_fields v (entryFields view);
       if objectFields (member ms ''parameters'') parameters_names = None then None
       else do {
         e \<leftarrow> unmarshal_entry ms;
         if \<not> validEntry (evw_Entry e) then None
         else if view \<and> (case evw_CooldownUntil e of None \<Rightarrow> False | Some s \<Rightarrow> ParseHTTPTime s = None) then None
         else Some e
       }
     }"

definition decode_entry :: "json \<Rightarrow> entry option" where
  "decode_entry v = map_option evw_Entry (decodeEntry v False)"

definition decodeEntries :: "json \<Rightarrow> entry list option" where
  "decodeEntries v =
     (case v of
        JArr values \<Rightarrow>
          if 32 < length values then None
          else (case those (map decode_entry values) of
              None \<Rightarrow> None
            | Some entries \<Rightarrow> if ValidateEntries (Some entries) then Some entries else None)
      | _ \<Rightarrow> None)"

definition decode_publication :: "json \<Rightarrow> publication option" where
  "decode_publication v =
     do {
       ms \<leftarrow> strict_fields v [''publication_id'', ''expected_snapshot_revision'', ''entries''];
       i \<leftarrow> as_str (member ms ''publication_id'');
       expected \<leftarrow> as_opt (member ms ''expected_snapshot_revision'');
       if \<not> hexValue i 32 \<or> (case expected of None \<Rightarrow> False | Some r \<Rightarrow> \<not> revision r) then None
       else do {
         es \<leftarrow> decodeEntries (member ms ''entries'');
         Some \<lparr>pb_PublicationID = i, pb_ExpectedSnapshotRevision = expected, pb_Entries = Some es\<rparr>
       }
     }"

section \<open>Snapshot receipts and views\<close>

definition validSnapshotReceipt :: "snapshot_receipt \<Rightarrow> bool" where
  "validSnapshotReceipt r \<longleftrightarrow>
     hexValue (sr_PublicationID r) 32 \<and> revision (sr_SnapshotRevision r) \<and> hexValue (sr_SnapshotDigest r) 64 \<and>
     (case (ParseHTTPTime (sr_AdvertisedAt r), ParseHTTPTime (sr_ExpiresAt r)) of
        (Some start, Some stop) \<Rightarrow> Sub stop start = seconds 60
      | _ \<Rightarrow> False)"

definition decode_snapshot_receipt :: "json \<Rightarrow> snapshot_receipt option" where
  "decode_snapshot_receipt v =
     do {
       ms \<leftarrow> strict_fields v [''publication_id'', ''snapshot_revision'', ''snapshot_digest'', ''advertised_at'', ''expires_at''];
       i \<leftarrow> as_str (member ms ''publication_id'');
       rev \<leftarrow> as_str (member ms ''snapshot_revision'');
       digest \<leftarrow> as_str (member ms ''snapshot_digest'');
       advertised \<leftarrow> as_str (member ms ''advertised_at'');
       expires \<leftarrow> as_str (member ms ''expires_at'');
       let r = \<lparr>sr_PublicationID = i, sr_SnapshotRevision = rev, sr_SnapshotDigest = digest, sr_AdvertisedAt = advertised,
                 sr_ExpiresAt = expires\<rparr>
       in if validSnapshotReceipt r then Some r else None
     }"

definition entry_json :: "entry \<Rightarrow> json" where
  "entry_json e =
     JObj [(''target_id'', JStr (et_TargetID e)), (''target_key'', JStr (et_TargetKey e)),
       (''operation'', JStr (operation_text (et_Operation e))), (''parameters'', parameters_json (et_Parameters e)),
       (''parameter_sha256'', JStr (et_ParameterSHA256 e)), (''policy_revision'', JStr (et_PolicyRevision e)),
       (''capability_revision'', JStr (et_CapabilityRevision e))]"

definition entries_json :: "entry list option \<Rightarrow> json" where
  "entries_json entries = (case entries of None \<Rightarrow> JNull | Some es \<Rightarrow> JArr (map entry_json es))"

definition SnapshotDigest :: "string \<Rightarrow> string \<Rightarrow> string \<Rightarrow> snapshot_receipt \<Rightarrow> entry list option \<Rightarrow> string option" where
  "SnapshotDigest server owner connector r entries =
     (if \<not> is_identifier server ''srv_'' \<or> \<not> is_identifier owner ''usr_'' \<or> \<not> is_identifier connector ''agent_''
         \<or> \<not> validSnapshotReceipt r \<or> \<not> ValidateEntries entries then None
      else let raw = json_print (JObj [(''server_id'', JStr server), (''owner_user_id'', JStr owner),
                 (''connector_instance_id'', JStr connector), (''snapshot_revision'', JStr (sr_SnapshotRevision r)),
                 (''advertised_at'', JStr (sr_AdvertisedAt r)), (''expires_at'', JStr (sr_ExpiresAt r)), (''entries'', entries_json entries)])
        in if MaxEnvelopeBytes < length raw then None
           else Some (hex_encode (sha256 (bytes_of (''platform-container-snapshot/v1'' @ [CHR 0x0A] @ raw)))))"

definition as_arr :: "json \<Rightarrow> json list option" where
  "as_arr v = (case v of JArr vs \<Rightarrow> Some vs | _ \<Rightarrow> None)"

text \<open>The checks of a view after its entries: an empty head, an expired head, or a digest of what is shown.\<close>

definition view_head_ok :: "snapshot_view \<Rightarrow> bool" where
  "view_head_ok v =
     (let entries = map evw_Entry (sv_Entries v)
      in case sv_SnapshotRevision v of
          None \<Rightarrow>
            \<not> (sv_SnapshotDigest v \<noteq> None \<or> sv_AdvertisedAt v \<noteq> None \<or> sv_ExpiresAt v \<noteq> None
               \<or> sv_Readiness v \<noteq> ''UNAVAILABLE'' \<or> length entries \<noteq> 0)
        | Some revised \<Rightarrow>
            (case (sv_SnapshotDigest v, sv_AdvertisedAt v, sv_ExpiresAt v) of
               (Some digest, Some advertised, Some expires) \<Rightarrow>
                 let r = \<lparr>sr_PublicationID = replicate 32 (CHR ''0''), sr_SnapshotRevision = revised, sr_SnapshotDigest = digest,
                           sr_AdvertisedAt = advertised, sr_ExpiresAt = expires\<rparr>
                 in if \<not> validSnapshotReceipt r then False
                    else if sv_Readiness v = ''UNAVAILABLE'' then length entries = 0
                    else if \<not> (sv_Readiness v = ''READY'' \<and> 0 < length entries \<or> sv_Readiness v = ''EMPTY'' \<and> length entries = 0)
                    then False
                    else SnapshotDigest (sv_ServerID v) (sv_OwnerUserID v) (sv_ConnectorInstanceID v) r (Some entries) = Some digest
             | _ \<Rightarrow> False))"

definition decode_snapshot_view :: "json \<Rightarrow> snapshot_view option" where
  "decode_snapshot_view v =
     do {
       ms \<leftarrow> strict_fields v [''server_id'', ''owner_user_id'', ''connector_instance_id'', ''readiness'', ''snapshot_revision'',
                            ''snapshot_digest'', ''advertised_at'', ''expires_at'', ''entries''];
       server \<leftarrow> as_str (member ms ''server_id'');
       owner \<leftarrow> as_str (member ms ''owner_user_id'');
       connector \<leftarrow> as_str (member ms ''connector_instance_id'');
       readiness \<leftarrow> as_str (member ms ''readiness'');
       rev \<leftarrow> as_opt (member ms ''snapshot_revision'');
       digest \<leftarrow> as_opt (member ms ''snapshot_digest'');
       advertised \<leftarrow> as_opt (member ms ''advertised_at'');
       expires \<leftarrow> as_opt (member ms ''expires_at'');
       values \<leftarrow> as_arr (member ms ''entries'');
       if \<not> is_identifier server ''srv_'' \<or> \<not> is_identifier owner ''usr_'' \<or> \<not> is_identifier connector ''agent_''
          \<or> 32 < length values then None
       else do {
         es \<leftarrow> those (map (\<lambda>x. decodeEntry x True) values);
         let w = \<lparr>sv_ServerID = server, sv_OwnerUserID = owner, sv_ConnectorInstanceID = connector, sv_Readiness = readiness,
                   sv_SnapshotRevision = rev, sv_SnapshotDigest = digest, sv_AdvertisedAt = advertised, sv_ExpiresAt = expires,
                   sv_Entries = es\<rparr>
         in if \<not> ValidateEntries (Some (map evw_Entry es)) then None else if view_head_ok w then Some w else None
       }
     }"

section \<open>The startup query\<close>

record snapshot_query =
  sq_ServerID :: string
  sq_OwnerUserID :: string
  sq_ConnectorInstanceID :: string
  sq_PublicationID :: string
  sq_Entries :: "entry list option"

record snapshot_reply =
  sp_Outcome :: string
  sp_Receipt :: "snapshot_receipt option"

definition ValidateSnapshotQuery :: "snapshot_query \<Rightarrow> bool" where
  "ValidateSnapshotQuery q =
     (\<not> (\<not> is_identifier (sq_ServerID q) ''srv_'' \<or> \<not> is_identifier (sq_OwnerUserID q) ''usr_''
         \<or> \<not> is_identifier (sq_ConnectorInstanceID q) ''agent_'' \<or> \<not> nonce (sq_PublicationID q) \<or> \<not> ValidateEntries (sq_Entries q)))"

definition decode_snapshot_query :: "json \<Rightarrow> snapshot_query option" where
  "decode_snapshot_query v =
     do {
       ms \<leftarrow> strict_fields v [''server_id'', ''owner_user_id'', ''connector_instance_id'', ''publication_id'', ''entries''];
       server \<leftarrow> as_str (member ms ''server_id'');
       owner \<leftarrow> as_str (member ms ''owner_user_id'');
       connector \<leftarrow> as_str (member ms ''connector_instance_id'');
       i \<leftarrow> as_str (member ms ''publication_id'');
       es \<leftarrow> decodeEntries (member ms ''entries'');
       let q = \<lparr>sq_ServerID = server, sq_OwnerUserID = owner, sq_ConnectorInstanceID = connector, sq_PublicationID = i,
                 sq_Entries = Some es\<rparr>
       in if ValidateSnapshotQuery q then Some q else None
     }"

definition decode_snapshot_reply :: "json \<Rightarrow> snapshot_reply option" where
  "decode_snapshot_reply v =
     do {
       ms \<leftarrow> strict_fields v [''outcome'', ''receipt''];
       outcome \<leftarrow> as_str (member ms ''outcome'');
       if outcome = ''OK'' then do {
         r \<leftarrow> decode_snapshot_receipt (member ms ''receipt'');
         Some \<lparr>sp_Outcome = outcome, sp_Receipt = Some r\<rparr>
       }
       else if (outcome \<noteq> ''DENIED'' \<and> outcome \<noteq> ''UNAVAILABLE'' \<and> outcome \<noteq> ''CONFLICT'') \<or> \<not> isNull (member ms ''receipt'')
       then None else Some \<lparr>sp_Outcome = outcome, sp_Receipt = None\<rparr>
     }"

definition MatchSnapshotReply :: "snapshot_query \<Rightarrow> snapshot_reply \<Rightarrow> bool" where
  "MatchSnapshotReply q r =
     (case sp_Receipt r of
        None \<Rightarrow> False
      | Some receipt \<Rightarrow>
          if \<not> ValidateSnapshotQuery q \<or> sp_Outcome r \<noteq> ''OK'' \<or> sr_PublicationID receipt \<noteq> sq_PublicationID q then False
          else SnapshotDigest (sq_ServerID q) (sq_OwnerUserID q) (sq_ConnectorInstanceID q) receipt (sq_Entries q)
                 = Some (sr_SnapshotDigest receipt))"

definition MatchSnapshotHead :: "snapshot_query \<Rightarrow> snapshot_view \<Rightarrow> bool" where
  "MatchSnapshotHead q v =
     (if \<not> ValidateSnapshotQuery q \<or> sq_ServerID q \<noteq> sv_ServerID v \<or> sq_OwnerUserID q \<noteq> sv_OwnerUserID v
         \<or> sq_ConnectorInstanceID q \<noteq> sv_ConnectorInstanceID v then False
      else (case sv_SnapshotRevision v of
          None \<Rightarrow>
            \<not> (sv_SnapshotDigest v \<noteq> None \<or> sv_AdvertisedAt v \<noteq> None \<or> sv_ExpiresAt v \<noteq> None
               \<or> sv_Readiness v \<noteq> ''UNAVAILABLE'' \<or> length (sv_Entries v) \<noteq> 0)
        | Some revised \<Rightarrow>
            (case (sv_SnapshotDigest v, sv_AdvertisedAt v, sv_ExpiresAt v) of
               (Some digest, Some advertised, Some expires) \<Rightarrow>
                 SnapshotDigest (sq_ServerID q) (sq_OwnerUserID q) (sq_ConnectorInstanceID q)
                   \<lparr>sr_PublicationID = replicate 32 (CHR ''0''), sr_SnapshotRevision = revised, sr_SnapshotDigest = digest,
                    sr_AdvertisedAt = advertised, sr_ExpiresAt = expires\<rparr> (sq_Entries q) = Some digest
             | _ \<Rightarrow> False)))"

definition DecodeEntry :: "string \<Rightarrow> entry option" where
  "DecodeEntry raw = Option.bind (strictJSON raw) decode_entry"
definition DecodePublication :: "string \<Rightarrow> publication option" where
  "DecodePublication raw = Option.bind (strictJSON raw) decode_publication"
definition DecodeSnapshotReceipt :: "string \<Rightarrow> snapshot_receipt option" where
  "DecodeSnapshotReceipt raw = Option.bind (strictJSON raw) decode_snapshot_receipt"
definition DecodeSnapshotView :: "string \<Rightarrow> snapshot_view option" where
  "DecodeSnapshotView raw = Option.bind (strictJSON raw) decode_snapshot_view"
definition DecodeSnapshotQuery :: "string \<Rightarrow> snapshot_query option" where
  "DecodeSnapshotQuery raw = Option.bind (strictJSON raw) decode_snapshot_query"
definition DecodeSnapshotReply :: "string \<Rightarrow> snapshot_reply option" where
  "DecodeSnapshotReply raw = Option.bind (strictJSON raw) decode_snapshot_reply"

section \<open>What the loop accepts\<close>

lemma string_le_refl [simp]: "string_le s s"
  by (induction s) auto

lemma string_le_Nil [simp]: "string_le s [] \<longleftrightarrow> s = []"
  by (cases s) auto

lemma string_le_total: "string_le s t \<or> string_le t s"
  by (induction s t rule: string_le.induct) auto

lemma string_le_antisym: "string_le s t \<Longrightarrow> string_le t s \<Longrightarrow> s = t"
  by (induction s t rule: string_le.induct) auto

lemma string_le_trans: "string_le s t \<Longrightarrow> string_le t u \<Longrightarrow> string_le s u"
proof (induction s t arbitrary: u rule: string_le.induct)
  case (3 c s d t)
  then show ?case by (cases u) auto
qed auto

definition string_less :: "string \<Rightarrow> string \<Rightarrow> bool" where
  "string_less s t \<longleftrightarrow> \<not> string_le t s"

lemma string_less_trans: "string_less s t \<Longrightarrow> string_less t u \<Longrightarrow> string_less s u"
  unfolding string_less_def using string_le_trans string_le_total by blast

text \<open>The specification: sorted strictly by target and operation, and a target has one alias and an alias one target.\<close>

definition one_alias :: "entry list \<Rightarrow> bool" where
  "one_alias es \<longleftrightarrow> (\<forall>a \<in> set es. \<forall>b \<in> set es. et_TargetKey a = et_TargetKey b \<longleftrightarrow> et_TargetID a = et_TargetID b)"

definition valid_entries :: "entry list \<Rightarrow> bool" where
  "valid_entries es \<longleftrightarrow>
     length es \<le> 32 \<and> list_all validEntry es \<and> sorted_wrt (\<lambda>a b. string_less (entry_key a) (entry_key b)) es \<and> one_alias es"

text \<open>The maps of the loop hold the aliases of the entries already seen.\<close>

definition seen :: "entry list \<Rightarrow> (string \<rightharpoonup> string) \<Rightarrow> (string \<rightharpoonup> string) \<Rightarrow> bool" where
  "seen ds aliases targets \<longleftrightarrow>
     (\<forall>k t. aliases k = Some t \<longleftrightarrow> (\<exists>d \<in> set ds. et_TargetKey d = k \<and> et_TargetID d = t)) \<and>
     (\<forall>t k. targets t = Some k \<longleftrightarrow> (\<exists>d \<in> set ds. et_TargetKey d = k \<and> et_TargetID d = t))"

lemma seen_lookup:
  assumes "seen ds aliases targets"
  shows "(case aliases (et_TargetKey e) of Some owner \<Rightarrow> owner \<noteq> et_TargetID e | None \<Rightarrow> False) \<longleftrightarrow>
      (\<exists>d \<in> set ds. et_TargetKey d = et_TargetKey e \<and> et_TargetID d \<noteq> et_TargetID e)"
    "(case targets (et_TargetID e) of Some alias \<Rightarrow> alias \<noteq> et_TargetKey e | None \<Rightarrow> False) \<longleftrightarrow>
      (\<exists>d \<in> set ds. et_TargetID d = et_TargetID e \<and> et_TargetKey d \<noteq> et_TargetKey e)"
proof -
  have seen: "aliases k = Some t \<longleftrightarrow> (\<exists>d \<in> set ds. et_TargetKey d = k \<and> et_TargetID d = t)"
    "targets t = Some k \<longleftrightarrow> (\<exists>d \<in> set ds. et_TargetKey d = k \<and> et_TargetID d = t)" for k t
    using assms unfolding seen_def by blast+
  have a: "d \<in> set ds \<Longrightarrow> aliases (et_TargetKey d) = Some (et_TargetID d)"
    "d \<in> set ds \<Longrightarrow> targets (et_TargetID d) = Some (et_TargetKey d)" for d
    unfolding seen by blast+
  show "(case aliases (et_TargetKey e) of Some owner \<Rightarrow> owner \<noteq> et_TargetID e | None \<Rightarrow> False) \<longleftrightarrow>
      (\<exists>d \<in> set ds. et_TargetKey d = et_TargetKey e \<and> et_TargetID d \<noteq> et_TargetID e)"
  proof (cases "aliases (et_TargetKey e)")
    case (Some t)
    then have "et_TargetID d = t" if "d \<in> set ds" "et_TargetKey d = et_TargetKey e" for d using a(1) that by fastforce
    then show ?thesis using Some seen(1) [of "et_TargetKey e" t] by auto
  qed (use a(1) in force)
  show "(case targets (et_TargetID e) of Some alias \<Rightarrow> alias \<noteq> et_TargetKey e | None \<Rightarrow> False) \<longleftrightarrow>
      (\<exists>d \<in> set ds. et_TargetID d = et_TargetID e \<and> et_TargetKey d \<noteq> et_TargetKey e)"
  proof (cases "targets (et_TargetID e)")
    case (Some k)
    then have "et_TargetKey d = k" if "d \<in> set ds" "et_TargetID d = et_TargetID e" for d using a(2) that by fastforce
    then show ?thesis using Some seen(2) [of "et_TargetID e" k] by auto
  qed (use a(2) in force)
qed

lemma seen_extend:
  assumes "seen ds aliases targets"
    and "\<forall>d \<in> set ds. et_TargetKey d = et_TargetKey e \<longleftrightarrow> et_TargetID d = et_TargetID e"
  shows "seen (ds @ [e]) (aliases(et_TargetKey e \<mapsto> et_TargetID e)) (targets(et_TargetID e \<mapsto> et_TargetKey e))"
  using assms unfolding seen_def by (auto simp: fun_upd_apply split: if_splits)

lemma validate_entries_iff:
  assumes "seen ds aliases targets" "one_alias ds"
  shows "validate_entries aliases targets previous es \<longleftrightarrow>
     list_all validEntry es \<and> sorted_wrt (\<lambda>a b. string_less (entry_key a) (entry_key b)) es \<and>
     (\<forall>e \<in> set es. string_less previous (entry_key e)) \<and> one_alias (ds @ es)"
  using assms
proof (induction es arbitrary: ds aliases targets previous)
  case Nil
  then show ?case by simp
next
  case (Cons e es)
  let ?fresh = "\<forall>d \<in> set ds. et_TargetKey d = et_TargetKey e \<longleftrightarrow> et_TargetID d = et_TargetID e"
  have al: "one_alias (ds @ [e]) \<longleftrightarrow> ?fresh" "one_alias (ds @ e # es) \<Longrightarrow> one_alias (ds @ [e])"
    using Cons.prems(2) by (auto simp: one_alias_def)
  have order: "string_less previous (entry_key e) \<Longrightarrow> (\<forall>x \<in> set es. string_less (entry_key e) (entry_key x)) \<Longrightarrow>
      (\<forall>x \<in> set es. string_less previous (entry_key x))"
    using string_less_trans by blast
  show ?case
  proof (cases ?fresh)
    case True
    have "seen (ds @ [e]) (aliases(et_TargetKey e \<mapsto> et_TargetID e)) (targets(et_TargetID e \<mapsto> et_TargetKey e))"
      by (rule seen_extend [OF Cons.prems(1) True])
    note IH = Cons.IH [OF this al(1) [THEN iffD2, OF True], of "entry_key e"]
    show ?thesis
      using True order unfolding validate_entries.simps Let_def seen_lookup [OF Cons.prems(1)] IH
      by (auto simp: string_less_def)
  next
    case False
    then show ?thesis
      using al unfolding validate_entries.simps Let_def seen_lookup [OF Cons.prems(1)] by auto
  qed
qed

lemma ValidateEntries_iff: "ValidateEntries (Some es) \<longleftrightarrow> valid_entries es"
proof -
  have "seen [] Map.empty Map.empty" "one_alias []" by (auto simp: seen_def one_alias_def)
  note iff = validate_entries_iff [OF this, of "[]" es]
  have "string_less [] (entry_key e)" for e by (auto simp: string_less_def entry_key_def)
  then show ?thesis unfolding ValidateEntries_def valid_entries_def using iff by auto
qed

section \<open>Round trips\<close>

lemma validEntry_ascii:
  assumes "validEntry e"
  shows "ascii (et_TargetID e)" "ascii (et_TargetKey e)" "ascii (operation_text (et_Operation e))" "ascii (et_ParameterSHA256 e)"
    "ascii (et_PolicyRevision e)" "ascii (et_CapabilityRevision e)"
proof -
  have "ascii (take 4 (et_TargetKey e) @ drop 4 (et_TargetKey e))"
    using assms ascii_texts(1) [of "drop 4 (et_TargetKey e)" 16] by (simp add: validEntry_def del: append_take_drop_id)
  then show "ascii (et_TargetKey e)" by simp
  have "ascii h" if "ParameterDigest op p = Some h" for op p h
    using that ascii_hex_encode by (auto simp: ParameterDigest_def Let_def split: if_splits)
  then show "ascii (et_ParameterSHA256 e)" using assms unfolding validEntry_def by blast
  show "ascii (operation_text (et_Operation e))"
    using assms operation_short [OF ParameterDigest_valid(1)] by (auto simp: validEntry_def short_def)
qed (use assms in \<open>auto simp: validEntry_def ascii_texts\<close>)

lemma entry_json_ok:
  assumes "validEntry e"
  shows "decode_entry (entry_json e) = Some e" "ascii_json (entry_json e)" "d + 2 \<le> 8 \<Longrightarrow> strict_value d (entry_json e)"
proof -
  have h: "ParameterDigest (et_Operation e) (et_Parameters e) = Some (et_ParameterSHA256 e)"
    using assms by (simp add: validEntry_def)
  note p = parameters_roundtrip [OF h] and op = text_operation_text [OF ParameterDigest_valid(1) [OF h]]
  show strict: "strict_value d (entry_json e)" if "d + 2 \<le> 8" for d
    using that p(3) [of "Suc d"] by (simp add: entry_json_def)
  obtain ms where ms: "entry_json e = JObj ms" by (simp add: entry_json_def)
  have names: "map fst ms = entryFields False" "member ms ''parameters'' = parameters_json (et_Parameters e)"
    using ms by (auto simp: entry_json_def entryFields_def)
  have "unmarshal_entry ms = Some \<lparr>evw_Entry = e, evw_CooldownUntil = None\<rparr>"
    using ms p(1) op by (cases e) (auto simp: entry_json_def unmarshal_entry_def member_def [of "[]"])
  moreover have "strict_fields (JObj ms) (entryFields False) = Some ms"
    by (rule strict_fields_names) (use strict [of 0] ms names in auto)
  ultimately show "decode_entry (entry_json e) = Some e"
    using names(2) p(2) assms unfolding decode_entry_def decodeEntry_def ms by simp
  show "ascii_json (entry_json e)"
    using validEntry_ascii [OF assms] length_parameters(2) [OF h] by (simp add: entry_json_def)
qed

lemma decode_entry_valid: "decode_entry v = Some e \<Longrightarrow> validEntry e"
  by (auto simp: decode_entry_def decodeEntry_def bind_eq_Some_conv split: if_splits)

interpretation entry_codec: message_codec decode_entry entry_json 2
  by unfold_locales (use decode_entry_valid entry_json_ok in blast)+

lemma entries_json_ok:
  assumes "ValidateEntries (Some es)"
  shows "decodeEntries (entries_json (Some es)) = Some es" "ascii_json (entries_json (Some es))"
    "d + 3 \<le> 8 \<Longrightarrow> strict_value d (entries_json (Some es))"
proof -
  have e: "validEntry e" if "e \<in> set es" for e
    using assms that unfolding ValidateEntries_iff valid_entries_def by (auto simp: list_all_iff)
  have "those (map decode_entry (map entry_json es)) = Some es"
    using e by (induction es) (auto simp: entry_json_ok(1))
  moreover have "length es \<le> 32" using assms by (auto simp: ValidateEntries_def split: if_splits)
  ultimately show "decodeEntries (entries_json (Some es)) = Some es"
    using assms by (simp add: decodeEntries_def entries_json_def)
  show "ascii_json (entries_json (Some es))" using e entry_json_ok(2) by (auto simp: entries_json_def)
  show "d + 3 \<le> 8 \<Longrightarrow> strict_value d (entries_json (Some es))"
    using e entry_json_ok(3) [of _ "Suc d"] by (auto simp: entries_json_def)
qed

lemma decodeEntries_valid: "decodeEntries v = Some es \<Longrightarrow> ValidateEntries (Some es)"
  by (auto simp: decodeEntries_def split: json.splits if_splits option.splits)

definition snapshot_receipt_json :: "snapshot_receipt \<Rightarrow> json" where
  "snapshot_receipt_json r =
     JObj [(''publication_id'', JStr (sr_PublicationID r)), (''snapshot_revision'', JStr (sr_SnapshotRevision r)),
       (''snapshot_digest'', JStr (sr_SnapshotDigest r)), (''advertised_at'', JStr (sr_AdvertisedAt r)),
       (''expires_at'', JStr (sr_ExpiresAt r))]"

definition snapshot_query_json :: "snapshot_query \<Rightarrow> json" where
  "snapshot_query_json q =
     JObj [(''server_id'', JStr (sq_ServerID q)), (''owner_user_id'', JStr (sq_OwnerUserID q)),
       (''connector_instance_id'', JStr (sq_ConnectorInstanceID q)), (''publication_id'', JStr (sq_PublicationID q)),
       (''entries'', entries_json (sq_Entries q))]"

definition snapshot_reply_json :: "snapshot_reply \<Rightarrow> json" where
  "snapshot_reply_json r = JObj [(''outcome'', JStr (sp_Outcome r)), (''receipt'', null_or snapshot_receipt_json (sp_Receipt r))]"

lemma decode_snapshot_receipt_valid: "decode_snapshot_receipt v = Some r \<Longrightarrow> validSnapshotReceipt r"
  by (auto simp: decode_snapshot_receipt_def bind_eq_Some_conv Let_def split: if_splits)

lemma snapshot_receipt_json_ok:
  assumes "validSnapshotReceipt r"
  shows "decode_snapshot_receipt (snapshot_receipt_json r) = Some r" "ascii_json (snapshot_receipt_json r)"
    "d + 1 \<le> 8 \<Longrightarrow> strict_value d (snapshot_receipt_json r)"
proof -
  show strict: "strict_value d (snapshot_receipt_json r)" if "d + 1 \<le> 8" for d
    using that by (simp add: snapshot_receipt_json_def)
  show "decode_snapshot_receipt (snapshot_receipt_json r) = Some r"
    using strict [of 0] assms unfolding decode_snapshot_receipt_def snapshot_receipt_json_def
    by (cases r, subst strict_fields_names) auto
  show "ascii_json (snapshot_receipt_json r)"
    using assms by (auto simp: snapshot_receipt_json_def validSnapshotReceipt_def ascii_texts split: option.splits)
qed

interpretation snapshot_receipt_codec: message_codec decode_snapshot_receipt snapshot_receipt_json 1
  by unfold_locales (use decode_snapshot_receipt_valid snapshot_receipt_json_ok in blast)+

lemma decode_snapshot_query_valid: "decode_snapshot_query v = Some q \<Longrightarrow> ValidateSnapshotQuery q"
  by (auto simp: decode_snapshot_query_def bind_eq_Some_conv Let_def split: if_splits)

lemma snapshot_query_json_ok:
  assumes "ValidateSnapshotQuery q"
  shows "decode_snapshot_query (snapshot_query_json q) = Some q" "ascii_json (snapshot_query_json q)"
    "d + 4 \<le> 8 \<Longrightarrow> strict_value d (snapshot_query_json q)"
proof -
  obtain es where es: "sq_Entries q = Some es" "ValidateEntries (Some es)"
    using assms by (cases "sq_Entries q") (auto simp: ValidateSnapshotQuery_def ValidateEntries_def)
  note e = entries_json_ok [OF es(2)]
  show strict: "strict_value d (snapshot_query_json q)" if "d + 4 \<le> 8" for d
    using that e(3) [of "Suc d"] by (simp add: snapshot_query_json_def es(1))
  show "decode_snapshot_query (snapshot_query_json q) = Some q"
    using strict [of 0] assms e(1) es(1) unfolding decode_snapshot_query_def snapshot_query_json_def
    by (cases q, subst strict_fields_names) auto
  show "ascii_json (snapshot_query_json q)"
    using assms e(2) by (auto simp: snapshot_query_json_def es(1) ValidateSnapshotQuery_def ascii_texts)
qed

interpretation snapshot_query_codec: message_codec decode_snapshot_query snapshot_query_json 4
  by unfold_locales (use decode_snapshot_query_valid snapshot_query_json_ok in blast)+

definition valid_reply :: "snapshot_reply \<Rightarrow> bool" where
  "valid_reply r \<longleftrightarrow>
     (case sp_Receipt r of
        Some x \<Rightarrow> sp_Outcome r = ''OK'' \<and> validSnapshotReceipt x
      | None \<Rightarrow> sp_Outcome r \<in> {''DENIED'', ''UNAVAILABLE'', ''CONFLICT''})"

lemma decode_snapshot_reply_valid: "decode_snapshot_reply v = Some r \<Longrightarrow> valid_reply r"
  by (auto simp: decode_snapshot_reply_def valid_reply_def bind_eq_Some_conv decode_snapshot_receipt_valid split: if_splits)

lemma snapshot_reply_json_ok:
  assumes "valid_reply r"
  shows "decode_snapshot_reply (snapshot_reply_json r) = Some r" "ascii_json (snapshot_reply_json r)"
    "d + 2 \<le> 8 \<Longrightarrow> strict_value d (snapshot_reply_json r)"
proof -
  have x: "validSnapshotReceipt x" if "sp_Receipt r = Some x" for x using assms that by (simp add: valid_reply_def)
  show strict: "strict_value d (snapshot_reply_json r)" if "d + 2 \<le> 8" for d
    using that x snapshot_receipt_json_ok(3) [of _ "Suc d"]
    by (auto simp: snapshot_reply_json_def null_or_def split: option.split)
  show "decode_snapshot_reply (snapshot_reply_json r) = Some r"
    using strict [of 0] assms snapshot_receipt_json_ok(1) unfolding decode_snapshot_reply_def snapshot_reply_json_def
    by (cases r, subst strict_fields_names) (auto simp: null_or_def valid_reply_def isNull_def split: option.splits)
  show "ascii_json (snapshot_reply_json r)"
    using assms snapshot_receipt_json_ok(2) by (auto simp: snapshot_reply_json_def null_or_def valid_reply_def split: option.splits)
qed

interpretation snapshot_reply_codec: message_codec decode_snapshot_reply snapshot_reply_json 2
  by unfold_locales (use decode_snapshot_reply_valid snapshot_reply_json_ok in blast)+

end
