(* ===== verification/ProtocolLocal.thy ===== *)
theory ProtocolLocal
  imports ProtocolSnapshot
begin

unbundle bit_operations_syntax

text \<open>
  The local envelopes of the action protocol, \<^verbatim>\<open>internal/actionprotocol/local.go\<close>: the messages that only
  travel between the processes of one host, the table of envelope kinds, and the encoder and decoder of
  an envelope. A \<^verbatim>\<open>json.RawMessage\<close> inside a message is the JSON value it holds; the payload of an
  envelope is a text.
\<close>

section \<open>Messages\<close>

definition WorkerVersion :: string where "WorkerVersion = ''observer-action-local/v1''"
definition AdminVersion :: string where "AdminVersion = ''observer-action-admin/v1''"

record envelope =
  env_Version :: string
  env_Kind :: string
  env_ConversationNonce :: string
  env_Ordinal :: string
  env_Payload :: string

record local_parameters =
  lp_FormatVersion :: int
  lp_StopGraceSeconds :: grace

record local_entry =
  le_TargetID :: string
  le_TargetKey :: string
  le_Operation :: operation
  le_Parameters :: local_parameters
  le_ParameterSHA256 :: string
  le_PolicyRevision :: string
  le_CapabilityRevision :: string

definition local_HTTP :: "local_entry \<Rightarrow> entry" where
  "local_HTTP e =
     \<lparr>et_TargetID = le_TargetID e, et_TargetKey = le_TargetKey e, et_Operation = le_Operation e,
      et_Parameters = \<lparr>pa_FormatVersion = lp_FormatVersion (le_Parameters e), pa_StopGraceSeconds = lp_StopGraceSeconds (le_Parameters e)\<rparr>,
      et_ParameterSHA256 = le_ParameterSHA256 e, et_PolicyRevision = le_PolicyRevision e, et_CapabilityRevision = le_CapabilityRevision e\<rparr>"

definition LocalFromEntry :: "entry \<Rightarrow> local_entry" where
  "LocalFromEntry e =
     \<lparr>le_TargetID = et_TargetID e, le_TargetKey = et_TargetKey e, le_Operation = et_Operation e,
      le_Parameters = \<lparr>lp_FormatVersion = pa_FormatVersion (et_Parameters e), lp_StopGraceSeconds = pa_StopGraceSeconds (et_Parameters e)\<rparr>,
      le_ParameterSHA256 = et_ParameterSHA256 e, le_PolicyRevision = et_PolicyRevision e, le_CapabilityRevision = et_CapabilityRevision e\<rparr>"

record approval_snapshot =
  asn_ServerID :: string
  asn_OwnerUserID :: string
  asn_ConnectorInstanceID :: string
  asn_Entries :: "local_entry list"

record claimed_execute =
  ce_Claim :: claim
  ce_ClaimRTTNanos :: string

record retained_lookup =
  rl_ActionID :: string
  rl_RemoteReceiptDigest :: string

record recovery_query =
  rq_Operation :: string
  rq_ActionID :: string
  rq_RemoteReceiptDigest :: string
  rq_Body :: json

record recovery_reply =
  ry_Operation :: string
  ry_ActionID :: string
  ry_RemoteReceiptDigest :: string
  ry_Outcome :: string
  ry_Body :: json

record recovery_init =
  ri_Request :: request_receipt
  ri_RemoteReceiptDigest :: string
  ri_MappingRevision :: string

record recovery_status =
  rss_Request :: request_receipt
  rss_RemoteReceiptDigest :: string

record recovery_continue =
  rco_Request :: request_receipt
  rco_RemoteReceiptDigest :: string
  rco_RecoveryID :: string
  rco_PrepareID :: string
  rco_ApprovalRevision :: string

record recovery_state =
  rst_ActionID :: string
  rst_RemoteReceiptDigest :: string
  rst_LocalState :: string
  rst_EvidenceKind :: "string option"
  rst_MappingRevision :: "string option"
  rst_ObservedState :: "string option"
  rst_ObservedAt :: "string option"
  rst_ACKDigest :: "string option"
  rst_Remote :: "recovery_view option"

section \<open>Decoders\<close>

definition unmarshal_local_parameters :: "json \<Rightarrow> local_parameters option" where
  "unmarshal_local_parameters v =
     (case v of
        JNull \<Rightarrow> Some \<lparr>lp_FormatVersion = 0, lp_StopGraceSeconds = \<lparr>gr_Seconds = 0, gr_Null = False\<rparr>\<rparr>
      | JObj ms \<Rightarrow>
          do {
            version \<leftarrow> as_int (member ms ''formatVersion'');
            grace \<leftarrow> grace_UnmarshalJSON (member ms ''stopGraceSeconds'');
            Some \<lparr>lp_FormatVersion = version, lp_StopGraceSeconds = grace\<rparr>
          }
      | _ \<Rightarrow> None)"

definition unmarshal_local_entry :: "(string \<times> json) list \<Rightarrow> local_entry option" where
  "unmarshal_local_entry ms =
     do {
       target \<leftarrow> as_str (member ms ''targetId'');
       key \<leftarrow> as_str (member ms ''targetKey'');
       op \<leftarrow> as_str (member ms ''operation'');
       params \<leftarrow> unmarshal_local_parameters (member ms ''parameters'');
       sha \<leftarrow> as_str (member ms ''parameterSha256'');
       policy \<leftarrow> as_str (member ms ''policyRevision'');
       capability \<leftarrow> as_str (member ms ''capabilityRevision'');
       Some \<lparr>le_TargetID = target, le_TargetKey = key, le_Operation = text_operation op, le_Parameters = params,
             le_ParameterSHA256 = sha, le_PolicyRevision = policy, le_CapabilityRevision = capability\<rparr>
     }"

definition decode_local_entry :: "json \<Rightarrow> local_entry option" where
  "decode_local_entry v =
     do {
       ms \<leftarrow> strict_fields v [''targetId'', ''targetKey'', ''operation'', ''parameters'', ''parameterSha256'', ''policyRevision'',
                            ''capabilityRevision''];
       if strict_fields (member ms ''parameters'') [''formatVersion'', ''stopGraceSeconds''] = None then None
       else unmarshal_local_entry ms
     }"

definition valid_approval_snapshot :: "approval_snapshot \<Rightarrow> bool" where
  "valid_approval_snapshot s =
     (\<not> (\<not> is_identifier (asn_ServerID s) ''srv_'' \<or> \<not> is_identifier (asn_OwnerUserID s) ''usr_''
         \<or> \<not> is_identifier (asn_ConnectorInstanceID s) ''agent_'' \<or> 32 < length (asn_Entries s)
         \<or> \<not> ValidateEntries (Some (map local_HTTP (asn_Entries s)))))"

definition decode_approval_snapshot :: "json \<Rightarrow> approval_snapshot option" where
  "decode_approval_snapshot v =
     do {
       ms \<leftarrow> strict_fields v [''serverId'', ''ownerUserId'', ''connectorInstanceId'', ''entries''];
       server \<leftarrow> as_str (member ms ''serverId'');
       owner \<leftarrow> as_str (member ms ''ownerUserId'');
       connector \<leftarrow> as_str (member ms ''connectorInstanceId'');
       entries \<leftarrow> as_arr (member ms ''entries'');
       es \<leftarrow> those (map decode_local_entry entries);
       let s = \<lparr>asn_ServerID = server, asn_OwnerUserID = owner, asn_ConnectorInstanceID = connector, asn_Entries = es\<rparr>
       in if valid_approval_snapshot s then Some s else None
     }"

text \<open>\<^verbatim>\<open>strconv.ParseInt(s, 10, 64)\<close>.\<close>

definition ParseInt64 :: "string \<Rightarrow> int option" where
  "ParseInt64 s =
     (let neg = (s \<noteq> [] \<and> hd s = CHR ''-''); ds = (if s \<noteq> [] \<and> (hd s = CHR ''-'' \<or> hd s = CHR ''+'') then tl s else s)
      in if ds = [] \<or> \<not> digits ds then None
         else if neg then (if 2 ^ 63 < dec_val ds then None else Some (- int (dec_val ds)))
         else if 2 ^ 63 \<le> dec_val ds then None else Some (int (dec_val ds)))"

definition valid_rtt :: "string \<Rightarrow> bool" where
  "valid_rtt s =
     (case ParseInt64 s of
        None \<Rightarrow> False
      | Some nanos \<Rightarrow> \<not> (nanos < 0 \<or> seconds 30 < nanos \<or> int_text nanos \<noteq> s))"

definition decode_claimed_execute :: "json \<Rightarrow> claimed_execute option" where
  "decode_claimed_execute v =
     do {
       ms \<leftarrow> strict_fields v [''claim'', ''claimRttNanos''];
       rtt \<leftarrow> as_str (member ms ''claimRttNanos'');
       c \<leftarrow> decode_claim (member ms ''claim'');
       if valid_rtt rtt then Some \<lparr>ce_Claim = c, ce_ClaimRTTNanos = rtt\<rparr> else None
     }"

definition decode_retained_lookup :: "json \<Rightarrow> retained_lookup option" where
  "decode_retained_lookup v =
     do {
       ms \<leftarrow> strict_fields v [''action_id'', ''remote_receipt_digest''];
       action \<leftarrow> as_str (member ms ''action_id'');
       digest \<leftarrow> as_str (member ms ''remote_receipt_digest'');
       if \<not> is_identifier action ''hla_'' \<or> \<not> hexValue digest 64 then None
       else Some \<lparr>rl_ActionID = action, rl_RemoteReceiptDigest = digest\<rparr>
     }"

definition digestString :: "bytes \<Rightarrow> string" where
  "digestString d = concat (map (\<lambda>b. [''0123456789abcdef'' ! unat (drop_bit 4 b), ''0123456789abcdef'' ! unat (b AND 15)]) d)"

text \<open>The body of a recovery query or reply, by operation.\<close>

datatype recovery_body =
    BodyNull
  | BodyProposal recovery_proposal
  | BodyCheck recovery_check
  | BodyFinalize finalize_request
  | BodyRetained retained_status
  | BodyView recovery_view
  | BodyDecision recovery_decision
  | BodyFinalization finalization

fun body_json :: "recovery_body \<Rightarrow> json" where
  "body_json BodyNull = JNull"
| "body_json (BodyProposal p) = proposal_json p"
| "body_json (BodyCheck c) = recovery_check_json c"
| "body_json (BodyFinalize f) = finalize_json f"
| "body_json (BodyRetained s) = retained_json s"
| "body_json (BodyView v) = view_json v"
| "body_json (BodyDecision d) = recovery_decision_json d"
| "body_json (BodyFinalization f) = finalization_json f"

definition accept :: "('a \<Rightarrow> bool) \<Rightarrow> ('a \<Rightarrow> recovery_body) \<Rightarrow> 'a option \<Rightarrow> recovery_body option" where
  "accept ok con x = (case x of None \<Rightarrow> None | Some y \<Rightarrow> if ok y then Some (con y) else None)"

definition query_body :: "string \<Rightarrow> string \<Rightarrow> json \<Rightarrow> recovery_body option" where
  "query_body op digest raw =
     (if op = ''RETAINED'' \<or> op = ''STATUS'' then (if isNull raw then Some BodyNull else None)
      else if op = ''PROPOSE'' then accept (\<lambda>p. pr_RemoteReceiptDigest p = digest) BodyProposal (decode_proposal raw)
      else if op = ''CHECK'' then accept (\<lambda>c. rc_RemoteReceiptDigest c = digest) BodyCheck (decode_recovery_check raw)
      else if op = ''FINALIZE'' then accept (\<lambda>f. fq_RemoteReceiptDigest f = digest) BodyFinalize (decode_finalize raw)
      else None)"

definition reply_body :: "string \<Rightarrow> string \<Rightarrow> string \<Rightarrow> json \<Rightarrow> recovery_body option" where
  "reply_body op action digest raw =
     (if op = ''RETAINED'' then
        accept (\<lambda>s. rt_ActionID s = action \<and>
            (case rt_Request s of
               None \<Rightarrow> False
             | Some r \<Rightarrow> (case ReceiptDigest r of None \<Rightarrow> False | Some d \<Rightarrow> digestString d = digest))) BodyRetained (decode_retained raw)
      else if op = ''PROPOSE'' \<or> op = ''STATUS'' then
        accept (\<lambda>v. rw_ActionID v = action \<and> (rw_RemoteReceiptDigest v = None \<or> rw_RemoteReceiptDigest v = Some digest)) BodyView
          (decode_view raw)
      else if op = ''CHECK'' then
        accept (\<lambda>d. ap_ActionID (rd_Approval d) = action \<and> ap_RemoteReceiptDigest (rd_Approval d) = digest) BodyDecision
          (decode_recovery_decision raw)
      else if op = ''FINALIZE'' then
        accept (\<lambda>f. fi_ActionID f = action \<and> fi_RemoteReceiptDigest f = digest) BodyFinalization (decode_finalization raw)
      else None)"

definition canonicalRecoveryBody :: "string \<Rightarrow> string \<Rightarrow> string \<Rightarrow> json \<Rightarrow> bool \<Rightarrow> recovery_body option" where
  "canonicalRecoveryBody op action digest raw reply =
     (if \<not> is_identifier action ''hla_'' \<or> \<not> hexValue digest 64 then None
      else if \<not> reply then query_body op digest raw else reply_body op action digest raw)"

definition decode_recovery_query :: "json \<Rightarrow> recovery_query option" where
  "decode_recovery_query v =
     do {
       ms \<leftarrow> strict_fields v [''operation'', ''action_id'', ''remote_receipt_digest'', ''body''];
       op \<leftarrow> as_str (member ms ''operation'');
       action \<leftarrow> as_str (member ms ''action_id'');
       digest \<leftarrow> as_str (member ms ''remote_receipt_digest'');
       body \<leftarrow> canonicalRecoveryBody op action digest (member ms ''body'') False;
       Some \<lparr>rq_Operation = op, rq_ActionID = action, rq_RemoteReceiptDigest = digest, rq_Body = body_json body\<rparr>
     }"

definition recovery_operations :: "string list" where
  "recovery_operations = [''RETAINED'', ''STATUS'', ''PROPOSE'', ''CHECK'', ''FINALIZE'']"

definition recovery_refusals :: "string list" where
  "recovery_refusals = [''DENIED'', ''UNAVAILABLE'', ''CONFLICT'', ''FULL'']"

definition decode_recovery_reply :: "json \<Rightarrow> recovery_reply option" where
  "decode_recovery_reply v =
     do {
       ms \<leftarrow> strict_fields v [''operation'', ''action_id'', ''remote_receipt_digest'', ''outcome'', ''body''];
       op \<leftarrow> as_str (member ms ''operation'');
       action \<leftarrow> as_str (member ms ''action_id'');
       digest \<leftarrow> as_str (member ms ''remote_receipt_digest'');
       outcome \<leftarrow> as_str (member ms ''outcome'');
       if \<not> is_identifier action ''hla_'' \<or> \<not> hexValue digest 64 then None
       else if op \<notin> set recovery_operations then None
       else if outcome \<noteq> ''OK'' then
         (if outcome \<notin> set recovery_refusals \<or> \<not> isNull (member ms ''body'') then None
          else Some \<lparr>ry_Operation = op, ry_ActionID = action, ry_RemoteReceiptDigest = digest, ry_Outcome = outcome, ry_Body = JNull\<rparr>)
       else do {
         body \<leftarrow> canonicalRecoveryBody op action digest (member ms ''body'') True;
         Some \<lparr>ry_Operation = op, ry_ActionID = action, ry_RemoteReceiptDigest = digest, ry_Outcome = outcome, ry_Body = body_json body\<rparr>
       }
     }"

text \<open>The commands of an administrator: the request must have the digest the command names.\<close>

datatype admin_command =
    AdminInit recovery_init
  | AdminStatus recovery_status
  | AdminContinue recovery_continue

definition admin_names :: "string \<Rightarrow> string list" where
  "admin_names kind =
     [''request'', ''remote_receipt_digest'']
     @ (if kind = ''RECOVERY_INIT'' then [''mapping_revision''] else [])
     @ (if kind = ''RECOVERY_CONTINUE'' then [''recovery_id'', ''prepare_id'', ''approval_revision''] else [])"

definition admin_body :: "string \<Rightarrow> (string \<times> json) list \<Rightarrow> request_receipt \<Rightarrow> string \<Rightarrow> admin_command option" where
  "admin_body kind ms r digest =
     (if kind = ''RECOVERY_INIT'' then do {
        mapping \<leftarrow> as_str (member ms ''mapping_revision'');
        if revision mapping
        then Some (AdminInit \<lparr>ri_Request = r, ri_RemoteReceiptDigest = digest, ri_MappingRevision = mapping\<rparr>) else None
      }
      else if kind = ''RECOVERY_STATUS'' then Some (AdminStatus \<lparr>rss_Request = r, rss_RemoteReceiptDigest = digest\<rparr>)
      else if kind = ''RECOVERY_CONTINUE'' then do {
        recovery \<leftarrow> as_str (member ms ''recovery_id'');
        prepare \<leftarrow> as_str (member ms ''prepare_id'');
        ar \<leftarrow> as_str (member ms ''approval_revision'');
        if nonce recovery \<and> nonce prepare \<and> approvalRevision ar
        then Some (AdminContinue \<lparr>rco_Request = r, rco_RemoteReceiptDigest = digest, rco_RecoveryID = recovery,
                                  rco_PrepareID = prepare, rco_ApprovalRevision = ar\<rparr>)
        else None
      }
      else None)"

definition decodeAdminCommand :: "string \<Rightarrow> json \<Rightarrow> admin_command option" where
  "decodeAdminCommand kind v =
     do {
       ms \<leftarrow> strict_fields v (admin_names kind);
       r \<leftarrow> decode_request (member ms ''request'');
       digest \<leftarrow> as_str (member ms ''remote_receipt_digest'');
       actual \<leftarrow> ReceiptDigest r;
       if digestString actual \<noteq> digest then None else admin_body kind ms r digest
     }"

definition observed_ok :: "recovery_state \<Rightarrow> bool" where
  "observed_ok s =
     (case rst_ObservedAt s of
        None \<Rightarrow> True
      | Some t \<Rightarrow>
          (case fixed_parse 9 t of
             None \<Rightarrow> False
           | Some at \<Rightarrow> \<not> (fixed_time 9 at \<noteq> t
               \<or> (rst_ObservedState s \<noteq> Some ''CREATED'' \<and> rst_ObservedState s \<noteq> Some ''RUNNING''
                  \<and> rst_ObservedState s \<noteq> Some ''EXITED''))))"

definition valid_recovery_state :: "recovery_state \<Rightarrow> bool" where
  "valid_recovery_state s =
     (if \<not> is_identifier (rst_ActionID s) ''hla_'' \<or> \<not> hexValue (rst_RemoteReceiptDigest s) 64
         \<or> (case rst_EvidenceKind s of None \<Rightarrow> False | Some k \<Rightarrow> \<not> evidenceKind k)
         \<or> (case rst_MappingRevision s of None \<Rightarrow> False | Some r \<Rightarrow> \<not> revision r)
         \<or> \<not> optionalDigest (rst_ACKDigest s) \<or> (rst_ObservedAt s = None) \<noteq> (rst_ObservedState s = None) then False
      else if \<not> observed_ok s then False
      else if (case rst_Remote s of
                 None \<Rightarrow> False
               | Some v \<Rightarrow> rw_ActionID v \<noteq> rst_ActionID s
                   \<or> (rw_RemoteReceiptDigest v \<noteq> None \<and> rw_RemoteReceiptDigest v \<noteq> Some (rst_RemoteReceiptDigest s))) then False
      else if rst_LocalState s = ''UNPREPARED'' \<or> rst_LocalState s = ''RECOVERY_REQUIRED'' then True
      else if rst_LocalState s = ''QUIESCED'' then
        \<not> (rst_EvidenceKind s = None \<or> rst_MappingRevision s = None \<or> rst_ObservedState s = None \<or> rst_ACKDigest s \<noteq> None)
      else if rst_LocalState s = ''ACKED'' then
        \<not> (rst_EvidenceKind s = None \<or> rst_MappingRevision s = None \<or> rst_ObservedState s = None \<or> rst_ACKDigest s = None)
      else False)"

definition decode_recovery_state :: "json \<Rightarrow> recovery_state option" where
  "decode_recovery_state v =
     do {
       ms \<leftarrow> strict_fields v [''action_id'', ''remote_receipt_digest'', ''local_state'', ''evidence_kind'', ''mapping_revision'',
                            ''observed_state'', ''observed_at'', ''ack_digest'', ''remote''];
       action \<leftarrow> as_str (member ms ''action_id'');
       digest \<leftarrow> as_str (member ms ''remote_receipt_digest'');
       state \<leftarrow> as_str (member ms ''local_state'');
       kind \<leftarrow> as_opt (member ms ''evidence_kind'');
       mapping \<leftarrow> as_opt (member ms ''mapping_revision'');
       observed \<leftarrow> as_opt (member ms ''observed_state'');
       at \<leftarrow> as_opt (member ms ''observed_at'');
       ack \<leftarrow> as_opt (member ms ''ack_digest'');
       remote \<leftarrow> nested decode_view (member ms ''remote'');
       let s = \<lparr>rst_ActionID = action, rst_RemoteReceiptDigest = digest, rst_LocalState = state, rst_EvidenceKind = kind,
                 rst_MappingRevision = mapping, rst_ObservedState = observed, rst_ObservedAt = at, rst_ACKDigest = ack,
                 rst_Remote = remote\<rparr>
       in if valid_recovery_state s then Some s else None
     }"

definition refused_codes :: "string list" where
  "refused_codes = [''INVALID'', ''BUSY'', ''BINDING_MISMATCH'', ''MAPPING_UNAVAILABLE'', ''NOT_QUIESCED'', ''INSPECTION_UNAVAILABLE'',
     ''REMOTE_UNAVAILABLE'', ''OWNER_REQUIRED'', ''FULL'', ''RECOVERY_REQUIRED'']"

definition decode_refused :: "json \<Rightarrow> string option" where
  "decode_refused v =
     do {
       ms \<leftarrow> strict_fields v [''code''];
       c \<leftarrow> as_str (member ms ''code'');
       if c \<in> set refused_codes then Some c else None
     }"

section \<open>Envelopes\<close>

datatype payload =
    PayloadEmpty
  | PayloadAdmin admin_command
  | PayloadState recovery_state
  | PayloadRefused string
  | PayloadSnapshot approval_snapshot
  | PayloadExecute claimed_execute
  | PayloadCheck check_request
  | PayloadDecision execution_decision
  | PayloadReport report
  | PayloadLookup retained_lookup
  | PayloadQuery recovery_query
  | PayloadReply recovery_reply
  | PayloadSnapshotQuery snapshot_query
  | PayloadSnapshotReply snapshot_reply

definition as_payload :: "(json \<Rightarrow> 'a option) \<Rightarrow> ('a \<Rightarrow> payload) \<Rightarrow> string \<Rightarrow> payload option" where
  "as_payload dec con raw = map_option con (Option.bind (strictJSON raw) dec)"

definition admin_payload :: "envelope \<Rightarrow> payload option" where
  "admin_payload e =
     (if env_Kind e = ''HELLO'' then (if env_Ordinal e = ''1'' \<and> env_Payload e = ''{}'' then Some PayloadEmpty else None)
      else if env_Kind e = ''RECOVERY_INIT'' \<or> env_Kind e = ''RECOVERY_STATUS'' \<or> env_Kind e = ''RECOVERY_CONTINUE'' then
        (if env_Ordinal e = ''2'' then as_payload (decodeAdminCommand (env_Kind e)) PayloadAdmin (env_Payload e) else None)
      else if env_Kind e = ''RECOVERY_STATE'' then
        (if env_Ordinal e = ''3'' then as_payload decode_recovery_state PayloadState (env_Payload e) else None)
      else if env_Kind e = ''REFUSED'' then
        (if env_Ordinal e \<noteq> ''3'' then None else as_payload decode_refused PayloadRefused (env_Payload e))
      else None)"

definition one_to_five :: "string \<Rightarrow> bool" where
  "one_to_five s \<longleftrightarrow> string_le ''1'' s \<and> string_le s ''5'' \<and> length s = 1"

definition worker_payload :: "envelope \<Rightarrow> payload option" where
  "worker_payload e =
     (let kind = env_Kind e; n = env_Ordinal e; raw = env_Payload e
      in if kind = ''BEGIN'' then
           (if n = ''1'' \<and> env_ConversationNonce e = replicate 32 (CHR ''0'') \<and> raw = ''{}'' then Some PayloadEmpty else None)
         else if kind = ''APPROVAL_SNAPSHOT'' then (if n = ''1'' then as_payload decode_approval_snapshot PayloadSnapshot raw else None)
         else if kind = ''CLAIMED_EXECUTE'' then (if n = ''2'' then as_payload decode_claimed_execute PayloadExecute raw else None)
         else if kind = ''NO_CLAIM'' then (if n = ''2'' \<and> raw = ''{}'' then Some PayloadEmpty else None)
         else if kind = ''AUTHORITY_CHALLENGE'' then
           (if n = ''3'' \<or> n = ''4'' then as_payload decode_check PayloadCheck raw else None)
         else if kind = ''AUTHORITY_REPLY'' then
           (if n = ''3'' \<or> n = ''4'' then as_payload decode_decision PayloadDecision raw else None)
         else if kind = ''RESULT'' then (if n = ''5'' then as_payload decode_report PayloadReport raw else None)
         else if kind = ''RETAINED_LOOKUP'' then (if n = ''1'' then as_payload decode_retained_lookup PayloadLookup raw else None)
         else if kind = ''RECOVERY_QUERY'' then (if one_to_five n then as_payload decode_recovery_query PayloadQuery raw else None)
         else if kind = ''RECOVERY_REPLY'' then (if one_to_five n then as_payload decode_recovery_reply PayloadReply raw else None)
         else if kind = ''SNAPSHOT_QUERY'' then
           (if n = ''1'' then
              (case DecodeSnapshotQuery raw of
                 None \<Rightarrow> None
               | Some q \<Rightarrow> if sq_PublicationID q = env_ConversationNonce e then Some (PayloadSnapshotQuery q) else None)
            else None)
         else if kind = ''SNAPSHOT_REPLY'' then
           (if n = ''2'' then
              (case DecodeSnapshotReply raw of
                 None \<Rightarrow> None
               | Some r \<Rightarrow>
                   if (case sp_Receipt r of None \<Rightarrow> True | Some x \<Rightarrow> sr_PublicationID x = env_ConversationNonce e)
                   then Some (PayloadSnapshotReply r) else None)
            else None)
         else None)"

definition canonicalPayload :: "envelope \<Rightarrow> payload option" where
  "canonicalPayload e =
     (if env_Version e = AdminVersion then admin_payload e
      else if env_Version e \<noteq> WorkerVersion then None
      else worker_payload e)"

section \<open>Encoders\<close>

definition local_parameters_json :: "local_parameters \<Rightarrow> json" where
  "local_parameters_json p =
     JObj [(''formatVersion'', JNum (int_text (lp_FormatVersion p))), (''stopGraceSeconds'', grace_json (lp_StopGraceSeconds p))]"

definition local_entry_json :: "local_entry \<Rightarrow> json" where
  "local_entry_json e =
     JObj [(''targetId'', JStr (le_TargetID e)), (''targetKey'', JStr (le_TargetKey e)),
       (''operation'', JStr (operation_text (le_Operation e))), (''parameters'', local_parameters_json (le_Parameters e)),
       (''parameterSha256'', JStr (le_ParameterSHA256 e)), (''policyRevision'', JStr (le_PolicyRevision e)),
       (''capabilityRevision'', JStr (le_CapabilityRevision e))]"

definition approval_snapshot_json :: "approval_snapshot \<Rightarrow> json" where
  "approval_snapshot_json s =
     JObj [(''serverId'', JStr (asn_ServerID s)), (''ownerUserId'', JStr (asn_OwnerUserID s)),
       (''connectorInstanceId'', JStr (asn_ConnectorInstanceID s)), (''entries'', JArr (map local_entry_json (asn_Entries s)))]"

definition claimed_execute_json :: "claimed_execute \<Rightarrow> json" where
  "claimed_execute_json e = JObj [(''claim'', claim_json (ce_Claim e)), (''claimRttNanos'', JStr (ce_ClaimRTTNanos e))]"

definition retained_lookup_json :: "retained_lookup \<Rightarrow> json" where
  "retained_lookup_json l =
     JObj [(''action_id'', JStr (rl_ActionID l)), (''remote_receipt_digest'', JStr (rl_RemoteReceiptDigest l))]"

definition recovery_query_json :: "recovery_query \<Rightarrow> json" where
  "recovery_query_json q =
     JObj [(''operation'', JStr (rq_Operation q)), (''action_id'', JStr (rq_ActionID q)),
       (''remote_receipt_digest'', JStr (rq_RemoteReceiptDigest q)), (''body'', rq_Body q)]"

definition recovery_reply_json :: "recovery_reply \<Rightarrow> json" where
  "recovery_reply_json r =
     JObj [(''operation'', JStr (ry_Operation r)), (''action_id'', JStr (ry_ActionID r)),
       (''remote_receipt_digest'', JStr (ry_RemoteReceiptDigest r)), (''outcome'', JStr (ry_Outcome r)), (''body'', ry_Body r)]"

fun admin_json :: "admin_command \<Rightarrow> json" where
  "admin_json (AdminInit c) =
     JObj [(''request'', request_json (ri_Request c)), (''remote_receipt_digest'', JStr (ri_RemoteReceiptDigest c)),
       (''mapping_revision'', JStr (ri_MappingRevision c))]"
| "admin_json (AdminStatus c) =
     JObj [(''request'', request_json (rss_Request c)), (''remote_receipt_digest'', JStr (rss_RemoteReceiptDigest c))]"
| "admin_json (AdminContinue c) =
     JObj [(''request'', request_json (rco_Request c)), (''remote_receipt_digest'', JStr (rco_RemoteReceiptDigest c)),
       (''recovery_id'', JStr (rco_RecoveryID c)), (''prepare_id'', JStr (rco_PrepareID c)),
       (''approval_revision'', JStr (rco_ApprovalRevision c))]"

definition recovery_state_json :: "recovery_state \<Rightarrow> json" where
  "recovery_state_json s =
     JObj [(''action_id'', JStr (rst_ActionID s)), (''remote_receipt_digest'', JStr (rst_RemoteReceiptDigest s)),
       (''local_state'', JStr (rst_LocalState s)), (''evidence_kind'', opt_json (rst_EvidenceKind s)),
       (''mapping_revision'', opt_json (rst_MappingRevision s)), (''observed_state'', opt_json (rst_ObservedState s)),
       (''observed_at'', opt_json (rst_ObservedAt s)), (''ack_digest'', opt_json (rst_ACKDigest s)),
       (''remote'', null_or view_json (rst_Remote s))]"

definition refused_json :: "string \<Rightarrow> json" where
  "refused_json c = JObj [(''code'', JStr c)]"

fun payload_json :: "payload \<Rightarrow> json" where
  "payload_json PayloadEmpty = JObj []"
| "payload_json (PayloadAdmin c) = admin_json c"
| "payload_json (PayloadState s) = recovery_state_json s"
| "payload_json (PayloadRefused c) = refused_json c"
| "payload_json (PayloadSnapshot s) = approval_snapshot_json s"
| "payload_json (PayloadExecute e) = claimed_execute_json e"
| "payload_json (PayloadCheck c) = check_json c"
| "payload_json (PayloadDecision d) = decision_json d"
| "payload_json (PayloadReport r) = report_json r"
| "payload_json (PayloadLookup l) = retained_lookup_json l"
| "payload_json (PayloadQuery q) = recovery_query_json q"
| "payload_json (PayloadReply r) = recovery_reply_json r"
| "payload_json (PayloadSnapshotQuery q) = snapshot_query_json q"
| "payload_json (PayloadSnapshotReply r) = snapshot_reply_json r"

text \<open>\<^verbatim>\<open>json.Marshal\<close> copies the canonical text of the payload, which is the print of its value.\<close>

definition envelope_json :: "envelope \<Rightarrow> payload \<Rightarrow> json" where
  "envelope_json e p =
     JObj [(''version'', JStr (env_Version e)), (''kind'', JStr (env_Kind e)), (''conversationNonce'', JStr (env_ConversationNonce e)),
       (''ordinal'', JStr (env_Ordinal e)), (''payload'', payload_json p)]"

definition EncodeEnvelope :: "envelope \<Rightarrow> string option" where
  "EncodeEnvelope e =
     (if \<not> nonce (env_ConversationNonce e)
         \<and> \<not> (env_Version e = WorkerVersion \<and> env_Kind e = ''BEGIN'' \<and> env_ConversationNonce e = replicate 32 (CHR ''0'')) then None
      else case canonicalPayload e of
          None \<Rightarrow> None
        | Some p \<Rightarrow>
            let raw = json_print (envelope_json e p)
            in if strictJSON raw = None then None else Some raw)"

text \<open>
  The payload of a decoded envelope is the text it occupies in the message. That text is taken here to be
  the print of its value: where it is not, the message differs from its canonical encoding and is refused
  either way.
\<close>

definition DecodeEnvelope :: "string \<Rightarrow> envelope option" where
  "DecodeEnvelope raw =
     do {
       v \<leftarrow> strictJSON raw;
       ms \<leftarrow> strict_fields v [''version'', ''kind'', ''conversationNonce'', ''ordinal'', ''payload''];
       version \<leftarrow> as_str (member ms ''version'');
       kind \<leftarrow> as_str (member ms ''kind'');
       conversation \<leftarrow> as_str (member ms ''conversationNonce'');
       ordinal \<leftarrow> as_str (member ms ''ordinal'');
       let e = \<lparr>env_Version = version, env_Kind = kind, env_ConversationNonce = conversation, env_Ordinal = ordinal,
                 env_Payload = json_print (member ms ''payload'')\<rparr>
       in if EncodeEnvelope e = Some raw then Some e else None
     }"

definition DecodeApprovalSnapshot :: "string \<Rightarrow> approval_snapshot option" where
  "DecodeApprovalSnapshot raw = Option.bind (strictJSON raw) decode_approval_snapshot"
definition DecodeClaimedExecute :: "string \<Rightarrow> claimed_execute option" where
  "DecodeClaimedExecute raw = Option.bind (strictJSON raw) decode_claimed_execute"
definition DecodeRetainedLookup :: "string \<Rightarrow> retained_lookup option" where
  "DecodeRetainedLookup raw = Option.bind (strictJSON raw) decode_retained_lookup"
definition DecodeRecoveryQuery :: "string \<Rightarrow> recovery_query option" where
  "DecodeRecoveryQuery raw = Option.bind (strictJSON raw) decode_recovery_query"
definition DecodeRecoveryReply :: "string \<Rightarrow> recovery_reply option" where
  "DecodeRecoveryReply raw = Option.bind (strictJSON raw) decode_recovery_reply"
definition DecodeRecoveryState :: "string \<Rightarrow> recovery_state option" where
  "DecodeRecoveryState raw = Option.bind (strictJSON raw) decode_recovery_state"

end
