(* ===== verification/ProtocolEnvelope.thy ===== *)
theory ProtocolEnvelope
  imports ProtocolLocal
begin

text \<open>
  Every message that an envelope carries is a codec, and so are the envelopes: what the encoder writes,
  the decoder reads back as the same envelope with its payload in canonical form.
\<close>

section \<open>Local codecs\<close>

lemma digestString_hex: "digestString d = hex_encode d"
proof -
  have "unat (drop_bit 4 b) = unat b div 16 mod 16" "unat (b AND 15) = unat b mod 16" for b :: byte
  proof -
    have "unat b < 256" using unsigned_less [of b] by simp
    then have "unat b div 16 mod 16 = drop_bit 4 (unat b)" by (simp add: drop_bit_eq_div)
    then show "unat (drop_bit 4 b) = unat b div 16 mod 16" by (simp only: unat_drop_bit_eq)
    have "b AND 15 = take_bit 4 b" by (simp add: take_bit_eq_mask mask_eq_exp_minus_1)
    then have "unat (b AND 15) = take_bit 4 (unat b)" by (simp only: unsigned_take_bit_eq)
    then show "unat (b AND 15) = unat b mod 16" by (simp add: take_bit_eq_mod)
  qed
  then show ?thesis by (simp add: digestString_def hex_encode_def hex_digit_def)
qed

lemma local_HTTP_inverse [simp]: "LocalFromEntry (local_HTTP e) = e" "local_HTTP (LocalFromEntry x) = x"
  by (simp_all add: LocalFromEntry_def local_HTTP_def)

lemma local_parameters_ok:
  assumes "ParameterDigest op (et_Parameters (local_HTTP e)) = Some h"
  shows "unmarshal_local_parameters (local_parameters_json (le_Parameters e)) = Some (le_Parameters e)"
    "d < 8 \<Longrightarrow> strict_value d (local_parameters_json (le_Parameters e))" "ascii_json (local_parameters_json (le_Parameters e))"
    "strict_fields (local_parameters_json (le_Parameters e)) [''formatVersion'', ''stopGraceSeconds''] \<noteq> None"
proof -
  obtain v where v: "grace_MarshalJSON (lp_StopGraceSeconds (le_Parameters e)) = Some v" and one: "lp_FormatVersion (le_Parameters e) = 1"
    using ParameterDigest_valid [OF assms] by (auto simp: local_HTTP_def)
  show strict: "d < 8 \<Longrightarrow> strict_value d (local_parameters_json (le_Parameters e))" for d
    by (simp add: local_parameters_json_def one int_text_def)
  show "unmarshal_local_parameters (local_parameters_json (le_Parameters e)) = Some (le_Parameters e)"
    using grace_roundtrip [OF v] v one as_int_show [of 1]
    by (cases "le_Parameters e") (simp add: unmarshal_local_parameters_def local_parameters_json_def grace_json_def int_text_def)
  show "ascii_json (local_parameters_json (le_Parameters e))"
    using grace_short [of "lp_StopGraceSeconds (le_Parameters e)"] by (auto simp: local_parameters_json_def one int_text_def)
  show "strict_fields (local_parameters_json (le_Parameters e)) [''formatVersion'', ''stopGraceSeconds''] \<noteq> None"
    using strict [of 0] unfolding local_parameters_json_def by (subst strict_fields_names) auto
qed

lemma local_entry_json_ok:
  assumes "validEntry (local_HTTP e)"
  shows "decode_local_entry (local_entry_json e) = Some e" "ascii_json (local_entry_json e)"
    "d + 2 \<le> 8 \<Longrightarrow> strict_value d (local_entry_json e)"
proof -
  have h: "ParameterDigest (le_Operation e) (et_Parameters (local_HTTP e)) = Some (le_ParameterSHA256 e)"
    using assms by (simp add: validEntry_def local_HTTP_def)
  note p = local_parameters_ok [OF h] and op = text_operation_text [OF ParameterDigest_valid(1) [OF h]]
  show strict: "strict_value d (local_entry_json e)" if "d + 2 \<le> 8" for d
    using that p(2) [of "Suc d"] by (simp add: local_entry_json_def)
  show "decode_local_entry (local_entry_json e) = Some e"
    using strict [of 0] p(1,4) op unfolding decode_local_entry_def local_entry_json_def
    by (cases e, subst strict_fields_names) (auto simp: unmarshal_local_entry_def)
  show "ascii_json (local_entry_json e)"
    using validEntry_ascii [OF assms] p(3) by (simp add: local_entry_json_def local_HTTP_def)
qed

lemma decode_approval_snapshot_valid: "decode_approval_snapshot v = Some s \<Longrightarrow> valid_approval_snapshot s"
  by (auto simp: decode_approval_snapshot_def bind_eq_Some_conv Let_def split: if_splits)

lemma approval_snapshot_json_ok:
  assumes "valid_approval_snapshot s"
  shows "decode_approval_snapshot (approval_snapshot_json s) = Some s" "ascii_json (approval_snapshot_json s)"
    "d + 4 \<le> 8 \<Longrightarrow> strict_value d (approval_snapshot_json s)"
proof -
  have e: "validEntry (local_HTTP e)" if "e \<in> set (asn_Entries s)" for e
    using assms that unfolding valid_approval_snapshot_def ValidateEntries_iff valid_entries_def by (auto simp: list_all_iff)
  have es: "those (map decode_local_entry (map local_entry_json es)) = Some es" if "\<And>e. e \<in> set es \<Longrightarrow> validEntry (local_HTTP e)" for es
    using that by (induction es) (auto simp: local_entry_json_ok(1))
  show strict: "strict_value d (approval_snapshot_json s)" if "d + 4 \<le> 8" for d
    using that e local_entry_json_ok(3) [of _ "Suc (Suc d)"] by (auto simp: approval_snapshot_json_def)
  show "decode_approval_snapshot (approval_snapshot_json s) = Some s"
    using strict [of 0] assms es [OF e] unfolding decode_approval_snapshot_def approval_snapshot_json_def
    by (cases s, subst strict_fields_names) (auto simp: as_arr_def)
  show "ascii_json (approval_snapshot_json s)"
    using assms e local_entry_json_ok(2) by (auto simp: approval_snapshot_json_def valid_approval_snapshot_def ascii_texts)
qed

interpretation approval_snapshot_codec: message_codec decode_approval_snapshot approval_snapshot_json 4
  by unfold_locales (use decode_approval_snapshot_valid approval_snapshot_json_ok in blast)+

text \<open>The accepted round-trip times are the plain decimals of at most thirty seconds.\<close>

lemma valid_rtt_iff: "valid_rtt s \<longleftrightarrow> (\<exists>n. n \<le> 30 * 10 ^ 9 \<and> s = show_nat n)"
proof
  assume v: "valid_rtt s"
  then obtain n where n: "ParseInt64 s = Some n" "0 \<le> n" "n \<le> seconds 30" "int_text n = s"
    by (auto simp: valid_rtt_def split: option.splits)
  have "s = show_nat (nat n)" using n(2,4) by (simp add: int_text_def)
  moreover have "nat n \<le> 30 * 10 ^ 9" using n(3) by (simp add: seconds_def)
  ultimately show "\<exists>n. n \<le> 30 * 10 ^ 9 \<and> s = show_nat n" by blast
next
  assume "\<exists>n. n \<le> 30 * 10 ^ 9 \<and> s = show_nat n"
  then obtain n where n: "n \<le> 30 * 10 ^ 9" and s: "s = show_nat n" by blast
  have "is_digit (hd s)" unfolding s using digits_show_nat [of n] show_nat_nonempty [of n]
    by (cases "show_nat n") (auto simp del: show_nat_nonempty digits_show_nat)
  then have "hd s \<noteq> CHR ''-''" "hd s \<noteq> CHR ''+''" by (auto simp: is_digit_def)
  then have "ParseInt64 s = Some (int n)" using n by (simp add: ParseInt64_def s)
  then show "valid_rtt s" using n by (simp add: valid_rtt_def seconds_def int_text_def s)
qed

lemma decode_claimed_execute_valid:
  "decode_claimed_execute v = Some e \<Longrightarrow> valid_rtt (ce_ClaimRTTNanos e) \<and> valid_claim (ce_Claim e) \<and> ValidateRequest (cl_Request (ce_Claim e))"
  by (auto simp: decode_claimed_execute_def bind_eq_Some_conv decode_claim_valid split: if_splits)

lemma claimed_execute_json_ok:
  assumes "valid_rtt (ce_ClaimRTTNanos e)" "valid_claim (ce_Claim e)" "ValidateRequest (cl_Request (ce_Claim e))"
  shows "decode_claimed_execute (claimed_execute_json e) = Some e" "ascii_json (claimed_execute_json e)"
    "d + 4 \<le> 8 \<Longrightarrow> strict_value d (claimed_execute_json e)"
proof -
  note c = claim_json_ok [OF assms(2,3)]
  show strict: "strict_value d (claimed_execute_json e)" if "d + 4 \<le> 8" for d
    using that c(3) [of "Suc d"] by (simp add: claimed_execute_json_def)
  show "decode_claimed_execute (claimed_execute_json e) = Some e"
    using strict [of 0] assms(1) c(1) unfolding decode_claimed_execute_def claimed_execute_json_def
    by (cases e, subst strict_fields_names) auto
  show "ascii_json (claimed_execute_json e)"
    using assms(1) c(2) unfolding valid_rtt_iff by (auto simp: claimed_execute_json_def)
qed

interpretation claimed_execute_codec: message_codec decode_claimed_execute claimed_execute_json 4
  by unfold_locales (use decode_claimed_execute_valid claimed_execute_json_ok in blast)+

interpretation retained_lookup_codec: message_codec decode_retained_lookup retained_lookup_json 1
proof
  fix v l assume "decode_retained_lookup v = Some l"
  then have l: "is_identifier (rl_ActionID l) ''hla_''" "hexValue (rl_RemoteReceiptDigest l) 64"
    by (auto simp: decode_retained_lookup_def bind_eq_Some_conv split: if_splits)
  show strict: "strict_value d (retained_lookup_json l)" if "d + 1 \<le> 8" for d
    using that by (simp add: retained_lookup_json_def)
  show "decode_retained_lookup (retained_lookup_json l) = Some l"
    using strict [of 0] l unfolding decode_retained_lookup_def retained_lookup_json_def
    by (cases l, subst strict_fields_names) auto
  show "ascii_json (retained_lookup_json l)" using l by (auto simp: retained_lookup_json_def ascii_texts)
qed

section \<open>Recovery bodies\<close>

lemma accept_Some: "accept ok con x = Some b \<longleftrightarrow> (\<exists>y. x = Some y \<and> ok y \<and> b = con y)"
  by (auto simp: accept_def split: option.splits)

lemma query_body_cases:
  assumes "query_body op digest raw = Some b"
  obtains (null) "op = ''RETAINED'' \<or> op = ''STATUS''" "b = BodyNull"
  | (propose) p where "op = ''PROPOSE''" "decode_proposal raw = Some p" "pr_RemoteReceiptDigest p = digest" "b = BodyProposal p"
  | (check) c where "op = ''CHECK''" "decode_recovery_check raw = Some c" "rc_RemoteReceiptDigest c = digest" "b = BodyCheck c"
  | (finalize) f where "op = ''FINALIZE''" "decode_finalize raw = Some f" "fq_RemoteReceiptDigest f = digest" "b = BodyFinalize f"
  using assms unfolding query_body_def by (auto simp: accept_Some split: if_splits)

lemma query_body_ok:
  assumes "query_body op digest raw = Some b"
  shows "query_body op digest (body_json b) = Some b \<and> ascii_json (body_json b) \<and> (\<forall>d. d + 4 \<le> 8 \<longrightarrow> strict_value d (body_json b)) \<and> ascii op"
  using assms
proof (cases rule: query_body_cases)
  case null
  then show ?thesis by (auto simp: query_body_def isNull_def)
next
  case (propose p)
  then show ?thesis
    using proposal_codec.stable [OF propose(2)] proposal_codec.printable [OF propose(2)] proposal_codec.strict [OF propose(2)]
    by (simp add: query_body_def accept_def)
next
  case (check c)
  then show ?thesis
    using recovery_check_codec.stable [OF check(2)] recovery_check_codec.printable [OF check(2)] recovery_check_codec.strict [OF check(2)]
    by (simp add: query_body_def accept_def)
next
  case (finalize f)
  then show ?thesis
    using finalize_codec.stable [OF finalize(2)] finalize_codec.printable [OF finalize(2)] finalize_codec.strict [OF finalize(2)]
    by (simp add: query_body_def accept_def)
qed

lemma reply_body_ok:
  assumes "reply_body op action digest raw = Some b"
  shows "reply_body op action digest (body_json b) = Some b \<and> ascii_json (body_json b) \<and>
    (\<forall>d. d + 4 \<le> 8 \<longrightarrow> strict_value d (body_json b)) \<and> ascii op"
proof -
  consider (retained) "op = ''RETAINED''" | (view) "op = ''PROPOSE'' \<or> op = ''STATUS''" | (check) "op = ''CHECK''" | (finalize) "op = ''FINALIZE''"
    using assms by (auto simp: reply_body_def split: if_splits)
  then show ?thesis
  proof cases
    case retained
    obtain s where s: "decode_retained raw = Some s" and b: "b = BodyRetained s"
      using assms retained by (auto simp: reply_body_def accept_Some)
    show ?thesis using assms retained s b retained_codec.stable [OF s] retained_codec.printable [OF s] retained_codec.strict [OF s]
      by (simp add: reply_body_def accept_def)
  next
    case view
    then have op: "op \<noteq> ''RETAINED''" "ascii op" by auto
    obtain v where v: "decode_view raw = Some v" and b: "b = BodyView v"
      using assms view op(1) by (auto simp: reply_body_def accept_Some simp del: list.inject)
    show ?thesis using assms view op v b view_codec.stable [OF v] view_codec.printable [OF v] view_codec.strict [OF v]
      by (simp add: reply_body_def accept_def)
  next
    case check
    obtain d where d: "decode_recovery_decision raw = Some d" and b: "b = BodyDecision d"
      using assms check by (auto simp: reply_body_def accept_Some)
    show ?thesis
      using assms check d b recovery_decision_codec.stable [OF d] recovery_decision_codec.printable [OF d] recovery_decision_codec.strict [OF d]
      by (simp add: reply_body_def accept_def)
  next
    case finalize
    obtain f where f: "decode_finalization raw = Some f" and b: "b = BodyFinalization f"
      using assms finalize by (auto simp: reply_body_def accept_Some)
    show ?thesis
      using assms finalize f b finalization_codec.stable [OF f] finalization_codec.printable [OF f] finalization_codec.strict [OF f]
      by (simp add: reply_body_def accept_def)
  qed
qed

lemma canonicalRecoveryBody_ok:
  assumes "canonicalRecoveryBody op action digest raw reply = Some b"
  shows "canonicalRecoveryBody op action digest (body_json b) reply = Some b" "ascii_json (body_json b)"
    "d + 4 \<le> 8 \<Longrightarrow> strict_value d (body_json b)" "is_identifier action ''hla_''" "hexValue digest 64" "ascii op"
  using assms query_body_ok [of op digest raw b] reply_body_ok [of op action digest raw b]
  by (auto simp: canonicalRecoveryBody_def split: if_splits)

interpretation recovery_query_codec: message_codec decode_recovery_query recovery_query_json 5
proof
  fix v q assume "decode_recovery_query v = Some q"
  then obtain raw b where b: "canonicalRecoveryBody (rq_Operation q) (rq_ActionID q) (rq_RemoteReceiptDigest q) raw False = Some b"
    and q: "rq_Body q = body_json b"
    by (auto simp: decode_recovery_query_def bind_eq_Some_conv)
  note ok = canonicalRecoveryBody_ok [OF b]
  show strict: "strict_value d (recovery_query_json q)" if "d + 5 \<le> 8" for d
    using that ok(3) [of "Suc d"] by (simp add: recovery_query_json_def q)
  show "decode_recovery_query (recovery_query_json q) = Some q"
    using strict [of 0] ok(1) q unfolding decode_recovery_query_def recovery_query_json_def
    by (cases q, subst strict_fields_names) auto
  show "ascii_json (recovery_query_json q)"
    using ok(2,4-6) by (auto simp: recovery_query_json_def q ascii_texts)
qed

lemma decode_recovery_reply_cases:
  assumes "decode_recovery_reply v = Some r"
  shows "is_identifier (ry_ActionID r) ''hla_''" "hexValue (ry_RemoteReceiptDigest r) 64"
    "ry_Operation r \<in> set recovery_operations"
    "(ry_Outcome r = ''OK'' \<and> (\<exists>raw b. canonicalRecoveryBody (ry_Operation r) (ry_ActionID r) (ry_RemoteReceiptDigest r) raw True = Some b
        \<and> ry_Body r = body_json b))
      \<or> (ry_Outcome r \<noteq> ''OK'' \<and> ry_Outcome r \<in> set recovery_refusals \<and> ry_Body r = JNull)"
  using assms by (auto simp: decode_recovery_reply_def bind_eq_Some_conv split: if_splits intro!: exI)

interpretation recovery_reply_codec: message_codec decode_recovery_reply recovery_reply_json 5
proof
  fix v r assume "decode_recovery_reply v = Some r"
  note c = decode_recovery_reply_cases [OF this]
  have body: "ascii_json (ry_Body r)" "d + 4 \<le> 8 \<Longrightarrow> strict_value d (ry_Body r)" for d
    using c(4) canonicalRecoveryBody_ok(2,3) by auto
  show strict: "strict_value d (recovery_reply_json r)" if "d + 5 \<le> 8" for d
    using that body(2) [of "Suc d"] by (simp add: recovery_reply_json_def)
  have fields: "strict_fields (recovery_reply_json r) [''operation'', ''action_id'', ''remote_receipt_digest'', ''outcome'', ''body''] =
      Some [(''operation'', JStr (ry_Operation r)), (''action_id'', JStr (ry_ActionID r)),
        (''remote_receipt_digest'', JStr (ry_RemoteReceiptDigest r)), (''outcome'', JStr (ry_Outcome r)), (''body'', ry_Body r)]"
    using strict [of 0] unfolding recovery_reply_json_def by (subst strict_fields_names) auto
  show "decode_recovery_reply (recovery_reply_json r) = Some r"
    using c(4)
  proof
    assume "ry_Outcome r = ''OK'' \<and> (\<exists>raw b. canonicalRecoveryBody (ry_Operation r) (ry_ActionID r) (ry_RemoteReceiptDigest r) raw True = Some b
        \<and> ry_Body r = body_json b)"
    then obtain raw b where o: "ry_Outcome r = ''OK''" and q: "ry_Body r = body_json b"
      and b: "canonicalRecoveryBody (ry_Operation r) (ry_ActionID r) (ry_RemoteReceiptDigest r) raw True = Some b" by blast
    show ?thesis
      using c(1,2,3) o q canonicalRecoveryBody_ok(1) [OF b] unfolding decode_recovery_reply_def fields
      by (cases r) (auto simp: isNull_def)
  next
    assume "ry_Outcome r \<noteq> ''OK'' \<and> ry_Outcome r \<in> set recovery_refusals \<and> ry_Body r = JNull"
    then show ?thesis
      using c(1,2,3) unfolding decode_recovery_reply_def fields by (cases r) (auto simp: isNull_def)
  qed
  show "ascii_json (recovery_reply_json r)"
    using c body(1) by (auto simp: recovery_reply_json_def ascii_texts recovery_operations_def recovery_refusals_def)
qed

section \<open>Administration\<close>

lemma bound_digest: "ReceiptDigest r = Some d \<Longrightarrow> ascii (digestString d)"
  by (simp add: digestString_hex ascii_hex_encode)

text \<open>A command decodes to the constructor of its kind.\<close>

lemma decodeAdminCommand_cases:
  assumes "decodeAdminCommand kind v = Some c"
  obtains (init) r d m where "kind = ''RECOVERY_INIT''" "ValidateRequest r" "ReceiptDigest r = Some d" "revision m"
      "c = AdminInit \<lparr>ri_Request = r, ri_RemoteReceiptDigest = digestString d, ri_MappingRevision = m\<rparr>"
  | (status) r d where "kind = ''RECOVERY_STATUS''" "ValidateRequest r" "ReceiptDigest r = Some d"
      "c = AdminStatus \<lparr>rss_Request = r, rss_RemoteReceiptDigest = digestString d\<rparr>"
  | (continue) r d i p a where "kind = ''RECOVERY_CONTINUE''" "ValidateRequest r" "ReceiptDigest r = Some d" "nonce i" "nonce p"
      "approvalRevision a"
      "c = AdminContinue \<lparr>rco_Request = r, rco_RemoteReceiptDigest = digestString d, rco_RecoveryID = i, rco_PrepareID = p,
             rco_ApprovalRevision = a\<rparr>"
proof -
  obtain ms r d where r: "ValidateRequest r" and d: "ReceiptDigest r = Some d" and c: "admin_body kind ms r (digestString d) = Some c"
    using assms unfolding decodeAdminCommand_def by (auto simp: bind_eq_Some_conv split: if_splits dest: decode_request_valid)
  consider "kind = ''RECOVERY_INIT''" | "kind = ''RECOVERY_STATUS''" | "kind = ''RECOVERY_CONTINUE''"
    using c by (auto simp: admin_body_def split: if_splits)
  then show thesis
  proof cases
    case 1
    then show ?thesis using init [of r d] r d c by (auto simp: admin_body_def bind_eq_Some_conv split: if_splits)
  next
    case 2
    then show ?thesis using status [of r d] r d c by (auto simp: admin_body_def split: if_splits)
  next
    case 3
    then show ?thesis using continue [of r d] r d c by (auto simp: admin_body_def bind_eq_Some_conv split: if_splits)
  qed
qed

lemma decodeAdminCommand_ok:
  assumes "decodeAdminCommand kind v = Some c"
  shows "decodeAdminCommand kind (admin_json c) = Some c \<and> ascii_json (admin_json c) \<and> (\<forall>d. d + 3 \<le> 8 \<longrightarrow> strict_value d (admin_json c))"
  using assms
proof (cases rule: decodeAdminCommand_cases)
  case (init r d m)
  have strict: "strict_value k (admin_json c)" if "k + 3 \<le> 8" for k
    using that request_parts(3) [OF init(2), of "Suc k"] by (simp add: init(5))
  have "decodeAdminCommand kind (admin_json c) = Some c"
    using strict [of 0] init request_parts(1) [OF init(2)] unfolding decodeAdminCommand_def init(5) admin_json.simps
    by (subst strict_fields_names) (auto simp: admin_names_def admin_body_def)
  then show ?thesis
    using strict init request_parts(2) [OF init(2)] bound_digest [OF init(3)] by (simp add: ascii_texts)
next
  case (status r d)
  have strict: "strict_value k (admin_json c)" if "k + 3 \<le> 8" for k
    using that request_parts(3) [OF status(2), of "Suc k"] by (simp add: status(4))
  have "decodeAdminCommand kind (admin_json c) = Some c"
    using strict [of 0] status request_parts(1) [OF status(2)] unfolding decodeAdminCommand_def status(4) admin_json.simps
    by (subst strict_fields_names) (auto simp: admin_names_def admin_body_def)
  then show ?thesis
    using strict status request_parts(2) [OF status(2)] bound_digest [OF status(3)] by simp
next
  case (continue r d i p a)
  have strict: "strict_value k (admin_json c)" if "k + 3 \<le> 8" for k
    using that request_parts(3) [OF continue(2), of "Suc k"] by (simp add: continue(7))
  have "decodeAdminCommand kind (admin_json c) = Some c"
    using strict [of 0] continue request_parts(1) [OF continue(2)] unfolding decodeAdminCommand_def continue(7) admin_json.simps
    by (subst strict_fields_names) (auto simp: admin_names_def admin_body_def)
  then show ?thesis
    using strict continue request_parts(2) [OF continue(2)] bound_digest [OF continue(3)] by (simp add: ascii_texts ascii_kinds)
qed

interpretation admin_codec: message_codec "decodeAdminCommand kind" admin_json 3 for kind
  by unfold_locales (use decodeAdminCommand_ok in blast)+

interpretation refused_codec: message_codec decode_refused refused_json 1
proof
  fix v c assume "decode_refused v = Some c"
  then have c: "c \<in> set refused_codes" by (auto simp: decode_refused_def bind_eq_Some_conv split: if_splits)
  show strict: "strict_value d (refused_json c)" if "d + 1 \<le> 8" for d using that by (simp add: refused_json_def)
  show "decode_refused (refused_json c) = Some c"
    using strict [of 0] c unfolding decode_refused_def refused_json_def by (subst strict_fields_names) auto
  show "ascii_json (refused_json c)" using c by (auto simp: refused_json_def refused_codes_def)
qed

lemma decode_recovery_state_valid:
  "decode_recovery_state v = Some s \<Longrightarrow>
    valid_recovery_state s \<and> (\<forall>w. rst_Remote s = Some w \<longrightarrow> decode_view (view_json w) = Some w)"
  by (auto simp: decode_recovery_state_def bind_eq_Some_conv Let_def split: if_splits dest!: nested_cases intro: view_codec.stable)

lemma valid_recovery_state_texts:
  assumes "valid_recovery_state s"
  shows "ascii (rst_ActionID s)" "ascii (rst_RemoteReceiptDigest s)" "ascii (rst_LocalState s)"
    "ascii_json (opt_json (rst_EvidenceKind s))" "ascii_json (opt_json (rst_MappingRevision s))" "ascii_json (opt_json (rst_ACKDigest s))"
  using assms unfolding valid_recovery_state_def
  by (auto simp: ascii_texts ascii_kinds split: if_splits option.splits)

lemma observed_texts:
  assumes "valid_recovery_state s"
  shows "ascii_json (opt_json (rst_ObservedState s))" "ascii_json (opt_json (rst_ObservedAt s))"
proof -
  have o: "observed_ok s" "(rst_ObservedAt s = None) = (rst_ObservedState s = None)"
    using assms by (auto simp: valid_recovery_state_def split: if_splits)
  show "ascii_json (opt_json (rst_ObservedState s))" "ascii_json (opt_json (rst_ObservedAt s))"
    using o ascii_fixed_time [of 9] by (auto simp: observed_ok_def opt_json_def split: option.splits)
qed

lemma recovery_state_json_ok:
  assumes "valid_recovery_state s" "\<forall>w. rst_Remote s = Some w \<longrightarrow> decode_view (view_json w) = Some w"
  shows "decode_recovery_state (recovery_state_json s) = Some s" "ascii_json (recovery_state_json s)"
    "d + 3 \<le> 8 \<Longrightarrow> strict_value d (recovery_state_json s)"
proof -
  have w: "strict_value k (view_json w)" "ascii_json (view_json w)" if "rst_Remote s = Some w" "k + 2 \<le> 8" for w k
    using assms(2) view_codec.strict view_codec.printable that by blast+
  show strict: "strict_value d (recovery_state_json s)" if "d + 3 \<le> 8" for d
    using that w(1) [of _ "Suc d"] by (auto simp: recovery_state_json_def null_or_def split: option.split)
  have "nested decode_view (null_or view_json (rst_Remote s)) = Some (rst_Remote s)"
    using assms(2) by (intro nested_null_or) (auto simp: view_json_def)
  then show "decode_recovery_state (recovery_state_json s) = Some s"
    using strict [of 0] assms(1) unfolding decode_recovery_state_def recovery_state_json_def
    by (cases s, subst strict_fields_names) auto
  show "ascii_json (recovery_state_json s)"
    using valid_recovery_state_texts [OF assms(1)] observed_texts [OF assms(1)] w(2) [of _ 0]
    by (auto simp: recovery_state_json_def null_or_def split: option.split)
qed

interpretation recovery_state_codec: message_codec decode_recovery_state recovery_state_json 3
  by unfold_locales (use decode_recovery_state_valid recovery_state_json_ok in blast)+

section \<open>Payloads\<close>

text \<open>What the envelope needs of a payload: it is strict one level down, printable, and read again.\<close>

definition carried :: "payload \<Rightarrow> bool" where
  "carried p \<longleftrightarrow> strict_value 1 (payload_json p) \<and> ascii_json (payload_json p)"

context message_codec
begin

lemma payload_again:
  assumes p: "as_payload decode con raw = Some p" and con: "\<And>x. payload_json (con x) = encode x" and h: "height \<le> 7"
  shows "carried p"
    and "length (json_print (payload_json p)) \<le> MaxEnvelopeBytes \<Longrightarrow> as_payload decode con (json_print (payload_json p)) = Some p"
proof -
  obtain v x where x: "decode v = Some x" "p = con x"
    using p by (auto simp: as_payload_def bind_eq_Some_conv)
  show "carried p" using strict [OF x(1), of 1] printable [OF x(1)] h by (simp add: carried_def x(2) con)
  show "as_payload decode con (json_print (payload_json p)) = Some p"
    if "length (json_print (payload_json p)) \<le> MaxEnvelopeBytes"
    using reread(2) [OF x(1)] that h by (simp add: as_payload_def x(2) con)
qed

end

lemma empty_carried: "carried PayloadEmpty" "json_print (payload_json PayloadEmpty) = ''{}''"
  by (simp_all add: carried_def)

lemma admin_payload_ok:
  assumes "admin_payload e = Some p" "length (json_print (payload_json p)) \<le> MaxEnvelopeBytes"
  shows "carried p \<and> admin_payload (e\<lparr>env_Payload := json_print (payload_json p)\<rparr>) = Some p"
proof -
  consider "env_Kind e = ''HELLO''" | "env_Kind e \<in> {''RECOVERY_INIT'', ''RECOVERY_STATUS'', ''RECOVERY_CONTINUE''}"
    | "env_Kind e = ''RECOVERY_STATE''" | "env_Kind e = ''REFUSED''"
    using assms(1) by (auto simp: admin_payload_def split: if_splits)
  then show ?thesis
  proof cases
    case 1
    then show ?thesis using assms empty_carried by (auto simp: admin_payload_def split: if_splits)
  next
    case 2
    then have k: "admin_payload x = (if env_Ordinal x = ''2'' then as_payload (decodeAdminCommand (env_Kind x)) PayloadAdmin (env_Payload x) else None)"
      if "env_Kind x = env_Kind e" for x :: envelope using that by (auto simp: admin_payload_def)
    show ?thesis
      using assms admin_codec.payload_again [of "env_Kind e" PayloadAdmin "env_Payload e" p] by (auto simp: k split: if_splits)
  next
    case 3
    then show ?thesis
      using assms recovery_state_codec.payload_again [of PayloadState "env_Payload e" p] by (auto simp: admin_payload_def split: if_splits)
  next
    case 4
    then show ?thesis
      using assms refused_codec.payload_again [of PayloadRefused "env_Payload e" p] by (auto simp: admin_payload_def split: if_splits)
  qed
qed

lemma worker_payload_ok:
  assumes "worker_payload e = Some p" "length (json_print (payload_json p)) \<le> MaxEnvelopeBytes"
  shows "carried p \<and> worker_payload (e\<lparr>env_Payload := json_print (payload_json p)\<rparr>) = Some p"
proof -
  consider "env_Kind e = ''BEGIN''" | "env_Kind e = ''APPROVAL_SNAPSHOT''" | "env_Kind e = ''CLAIMED_EXECUTE''" | "env_Kind e = ''NO_CLAIM''"
    | "env_Kind e = ''AUTHORITY_CHALLENGE''" | "env_Kind e = ''AUTHORITY_REPLY''" | "env_Kind e = ''RESULT''" | "env_Kind e = ''RETAINED_LOOKUP''"
    | "env_Kind e = ''RECOVERY_QUERY''" | "env_Kind e = ''RECOVERY_REPLY''" | "env_Kind e = ''SNAPSHOT_QUERY''" | "env_Kind e = ''SNAPSHOT_REPLY''"
    using assms(1) unfolding worker_payload_def Let_def by (meson option.distinct(1))
  then show ?thesis
  proof cases
    case 1
    then show ?thesis using assms empty_carried by (auto simp: worker_payload_def Let_def split: if_splits)
  next
    case 2
    then show ?thesis using assms approval_snapshot_codec.payload_again [of PayloadSnapshot "env_Payload e" p]
      by (auto simp: worker_payload_def Let_def split: if_splits)
  next
    case 3
    then show ?thesis using assms claimed_execute_codec.payload_again [of PayloadExecute "env_Payload e" p]
      by (auto simp: worker_payload_def Let_def split: if_splits)
  next
    case 4
    then show ?thesis using assms empty_carried by (auto simp: worker_payload_def Let_def split: if_splits)
  next
    case 5
    then show ?thesis using assms check_codec.payload_again [of PayloadCheck "env_Payload e" p]
      by (auto simp: worker_payload_def Let_def split: if_splits)
  next
    case 6
    then show ?thesis using assms decision_codec.payload_again [of PayloadDecision "env_Payload e" p]
      by (auto simp: worker_payload_def Let_def split: if_splits)
  next
    case 7
    then show ?thesis using assms report_codec.payload_again [of PayloadReport "env_Payload e" p]
      by (auto simp: worker_payload_def Let_def split: if_splits)
  next
    case 8
    then show ?thesis using assms retained_lookup_codec.payload_again [of PayloadLookup "env_Payload e" p]
      by (auto simp: worker_payload_def Let_def split: if_splits)
  next
    case 9
    then show ?thesis using assms recovery_query_codec.payload_again [of PayloadQuery "env_Payload e" p]
      by (auto simp: worker_payload_def Let_def split: if_splits)
  next
    case 10
    then show ?thesis using assms recovery_reply_codec.payload_again [of PayloadReply "env_Payload e" p]
      by (auto simp: worker_payload_def Let_def split: if_splits)
  next
    case 11
    then have q: "DecodeSnapshotQuery (env_Payload e) = Some q \<Longrightarrow> as_payload decode_snapshot_query PayloadSnapshotQuery (env_Payload e) = Some (PayloadSnapshotQuery q)" for q
      by (simp add: DecodeSnapshotQuery_def as_payload_def)
    show ?thesis using 11 assms q snapshot_query_codec.payload_again [of PayloadSnapshotQuery "env_Payload e" p]
      by (auto simp: worker_payload_def Let_def as_payload_def DecodeSnapshotQuery_def split: if_splits option.splits)
  next
    case 12
    then have q: "DecodeSnapshotReply (env_Payload e) = Some q \<Longrightarrow> as_payload decode_snapshot_reply PayloadSnapshotReply (env_Payload e) = Some (PayloadSnapshotReply q)" for q
      by (simp add: DecodeSnapshotReply_def as_payload_def)
    show ?thesis using 12 assms q snapshot_reply_codec.payload_again [of PayloadSnapshotReply "env_Payload e" p]
      by (auto simp: worker_payload_def Let_def as_payload_def DecodeSnapshotReply_def split: if_splits option.splits)
  qed
qed

lemma canonicalPayload_ok:
  assumes "canonicalPayload e = Some p" "length (json_print (payload_json p)) \<le> MaxEnvelopeBytes"
  shows "carried p" "canonicalPayload (e\<lparr>env_Payload := json_print (payload_json p)\<rparr>) = Some p"
  using assms admin_payload_ok [of e p] worker_payload_ok [of e p] by (auto simp: canonicalPayload_def split: if_splits)

lemma strictJSON_length: "strictJSON raw = Some v \<Longrightarrow> length raw \<le> MaxEnvelopeBytes"
  by (auto simp: strictJSON_def split: if_splits)

lemma EncodeEnvelope_cases:
  assumes "EncodeEnvelope e = Some raw"
  obtains p where "canonicalPayload e = Some p" "raw = json_print (envelope_json e p)" "strictJSON raw \<noteq> None"
  using assms by (auto simp: EncodeEnvelope_def Let_def split: if_splits option.splits)

lemma payload_within: "length (json_print (payload_json p)) \<le> length (json_print (envelope_json e p))"
  by (simp add: envelope_json_def)

text \<open>The envelope with its payload in canonical form.\<close>

definition canonical :: "envelope \<Rightarrow> envelope" where
  "canonical e =
     (case canonicalPayload e of None \<Rightarrow> e | Some p \<Rightarrow> e\<lparr>env_Payload := json_print (payload_json p)\<rparr>)"

lemma encode_canonical:
  assumes "EncodeEnvelope e = Some raw"
  shows "EncodeEnvelope (canonical e) = Some raw" "DecodeEnvelope raw = Some (canonical e)"
proof -
  obtain p where p: "canonicalPayload e = Some p" and raw: "raw = json_print (envelope_json e p)" and s: "strictJSON raw \<noteq> None"
    using assms by (rule EncodeEnvelope_cases)
  have len: "length (json_print (payload_json p)) \<le> MaxEnvelopeBytes"
    using s strictJSON_length payload_within [of p e] unfolding raw by fastforce
  note ok = canonicalPayload_ok [OF p len]
  have same: "envelope_json (canonical e) q = envelope_json e q" for q by (simp add: canonical_def envelope_json_def p)
  show enc: "EncodeEnvelope (canonical e) = Some raw"
    using assms ok(2) same p by (auto simp: EncodeEnvelope_def Let_def canonical_def split: if_splits)
  have "strict_value 0 (envelope_json e p)" using ok(1) by (simp add: envelope_json_def carried_def)
  then have "json_parse raw = Some (envelope_json e p)" unfolding raw by (intro json_roundtrip strict_wf)
  then have v: "strictJSON raw = Some (envelope_json e p)" using s by (auto simp: strictJSON_def split: if_splits)
  have f: "strict_fields (envelope_json e p) [''version'', ''kind'', ''conversationNonce'', ''ordinal'', ''payload''] =
      Some [(''version'', JStr (env_Version e)), (''kind'', JStr (env_Kind e)), (''conversationNonce'', JStr (env_ConversationNonce e)),
        (''ordinal'', JStr (env_Ordinal e)), (''payload'', payload_json p)]"
    using \<open>strict_value 0 (envelope_json e p)\<close> unfolding envelope_json_def by (subst strict_fields_names) auto
  have c: "canonical e = \<lparr>env_Version = env_Version e, env_Kind = env_Kind e, env_ConversationNonce = env_ConversationNonce e,
      env_Ordinal = env_Ordinal e, env_Payload = json_print (payload_json p)\<rparr>"
    using p by (cases e) (simp add: canonical_def)
  show "DecodeEnvelope raw = Some (canonical e)"
    using enc unfolding DecodeEnvelope_def c by (simp add: v f)
qed

lemma decode_encodes: "DecodeEnvelope raw = Some e \<Longrightarrow> EncodeEnvelope e = Some raw"
  by (auto simp: DecodeEnvelope_def Let_def bind_eq_Some_conv split: if_splits)

end
