(* ===== verification/ProtocolExample.thy ===== *)
theory ProtocolExample
  imports ProtocolEnvelope
begin

text \<open>
  A concrete request with its claim, decision, approval and entries, for the witnesses of the protocol's
  properties. The digest of the parameters stays symbolic: only its length and alphabet are used.
\<close>

definition ex_hex :: "nat \<Rightarrow> string" where "ex_hex n = replicate n (CHR ''a'')"

definition ex_parameters :: parameters where
  "ex_parameters = \<lparr>pa_FormatVersion = 1, pa_StopGraceSeconds = \<lparr>gr_Seconds = 0, gr_Null = True\<rparr>\<rparr>"

definition ex_digest :: string where
  "ex_digest = the (ParameterDigest Start ex_parameters)"

definition ex_receipt :: request_receipt where
  "ex_receipt =
     \<lparr>rr_ActionID = ''hla_'' @ ex_hex 32, rr_ServerID = ''srv_'' @ ex_hex 32, rr_OwnerUserID = ''usr_'' @ ex_hex 32,
      rr_ActorUserID = ''usr_'' @ ex_hex 32, rr_ConnectorInstanceID = ''agent_'' @ ex_hex 32, rr_Operation = Start,
      rr_TargetID = ''hlt_'' @ ex_hex 32, rr_TargetKey = ''c'', rr_IdempotencyKeyHash = ex_hex 64,
      rr_PolicyRevision = ''7'', rr_CapabilityRevision = ''12'', rr_Parameters = ex_parameters, rr_ParameterSHA256 = ex_digest,
      rr_RequestedAt = ''2026-01-02T03:04:05.000000Z'', rr_ExpiresAt = ''2026-01-02T03:09:05.000000Z'',
      rr_CorrelationID = ''c''\<rparr>"

lemma hex_string_encode: "hex_string (hex_encode bs) (2 * length bs)"
proof -
  have "lower_hex (hex_digit n)" for n
  proof -
    have "list_all lower_hex ''0123456789abcdef''" by code_simp
    moreover have "n mod 16 < length ''0123456789abcdef''" by simp
    ultimately show ?thesis unfolding hex_digit_def by (simp only: list_all_length)
  qed
  then show ?thesis by (induction bs) (auto simp: hex_encode_def hex_string_def)
qed

lemma ex_digest: "ParameterDigest Start ex_parameters = Some ex_digest" "hex_string ex_digest 64"
proof -
  obtain h where h: "ParameterDigest Start ex_parameters = Some (hex_encode (sha256 h))"
    by (simp add: ParameterDigest_def ex_parameters_def Let_def)
  then show "ParameterDigest Start ex_parameters = Some ex_digest" by (simp add: ex_digest_def)
  show "hex_string ex_digest 64" using h hex_string_encode [of "sha256 h"] by (simp add: ex_digest_def)
qed

lemma ex_texts:
  "hex_string (ex_hex 32) 32" "hex_string (ex_hex 64) 64" "nonce (ex_hex 32)"
  "is_identifier (''hla_'' @ ex_hex 32) ''hla_''" "is_identifier (''srv_'' @ ex_hex 32) ''srv_''" "is_identifier (''usr_'' @ ex_hex 32) ''usr_''"
  "is_identifier (''agent_'' @ ex_hex 32) ''agent_''" "is_identifier (''hlt_'' @ ex_hex 32) ''hlt_''" "is_identifier (''hle_'' @ ex_hex 32) ''hle_''"
  "is_identifier (''hlac_'' @ ex_hex 32) ''hlac_''" "targetKey ''c''" "revision ''7''" "revision ''12''" "revision ''8''"
  "correlation ''c''" "hex_string (ex_hex 16) 16"
  by code_simp+

definition ex_t0 :: gotime where "ex_t0 = the (ParseHTTPTime ''2026-01-02T03:04:05.000000Z'')"

lemma ex_message_times:
  "ParseHTTPTime ''2026-01-02T03:04:05.000000Z'' = Some ex_t0" "ParseHTTPTime ''2026-01-02T03:04:06.000000Z'' = Some (ex_t0 + seconds 1)"
  "ParseHTTPTime ''2026-01-02T03:04:07.000000Z'' = Some (ex_t0 + seconds 2)"
  "ParseHTTPTime ''2026-01-02T03:06:06.000000Z'' = Some (ex_t0 + seconds 121)" "ParseHTTPTime ''2026-01-02T03:09:05.000000Z'' = Some (ex_t0 + seconds 300)"
  by code_simp+

lemma ex_receipt_valid: "ValidateRequest ex_receipt"
  using ex_digest ex_texts ex_message_times by (simp add: ValidateRequest_def ex_receipt_def Sub_def MinDuration_def MaxDuration_def seconds_def)

definition ex_claim :: claim where
  "ex_claim =
     \<lparr>cl_Request = ex_receipt, cl_ExecutionLeaseID = ''hle_'' @ ex_hex 32, cl_ClaimCredentialID = ''hlac_'' @ ex_hex 32,
      cl_ClaimCredentialRevision = ''7'', cl_ClaimedAt = ''2026-01-02T03:04:06.000000Z'',
      cl_LeaseExpiresAt = ''2026-01-02T03:06:06.000000Z'', cl_CorrelationID = ''c''\<rparr>"

lemma ex_claim_valid: "valid_claim ex_claim" "cl_Request ex_claim = ex_receipt"
  using ex_texts ex_message_times
  by (simp_all add: valid_claim_def ex_claim_def ex_receipt_def Sub_def MinDuration_def MaxDuration_def seconds_def)

lemma ex_request_decodes: "DecodeRequest (json_print (request_json ex_receipt)) = Some ex_receipt"
  by (rule DecodeRequest_canonical [OF CanonicalRequest_total [OF ex_receipt_valid]])

text \<open>Every message above is short enough to be read.\<close>

fun weight :: "json \<Rightarrow> nat" where
  "weight (JStr s) = 6 * length s + 2"
| "weight (JObj ms) = 2 + sum_list (map (\<lambda>(k, v). 6 * length k + 4 + weight v) ms)"
| "weight (JArr vs) = 2 + sum_list (map (\<lambda>v. 1 + weight v) vs)"
| "weight v = length (json_print v)"

lemma length_join: "length (join '','' xs) \<le> sum_list (map (\<lambda>x. 1 + length x) xs)"
  by (induction "'',''" xs rule: join.induct) auto

lemma length_print_weight: "length (json_print v) \<le> weight v"
proof (induction v)
  case (JStr s)
  then show ?case using length_json_string [of s] by simp
next
  case (JArr vs)
  have "sum_list (map (\<lambda>v. 1 + length (json_print v)) vs) \<le> sum_list (map (\<lambda>v. 1 + weight v) vs)"
    using JArr by (intro sum_list_mono) simp
  then show ?case using length_join [of "map json_print vs"] by (simp add: comp_def)
next
  case (JObj ms)
  have "sum_list (map (\<lambda>m. 1 + length (member_text m)) ms) \<le> sum_list (map (\<lambda>(k, v). 6 * length k + 4 + weight v) ms)"
  proof (intro sum_list_mono)
    fix m assume m: "m \<in> set ms"
    obtain k v where kv: "m = (k, v)" by fastforce
    have "length (json_print v) \<le> weight v" using JObj [of m v] m kv by simp
    then show "1 + length (member_text m) \<le> (case m of (k, v) \<Rightarrow> 6 * length k + 4 + weight v)"
      using length_json_string [of k] by (simp add: kv)
  qed
  then show ?case using length_join [of "map member_text ms"] by (simp add: comp_def)
qed auto

lemma ex_hex_length [simp]: "length (ex_hex n) = n" by (simp add: ex_hex_def)

lemma ex_receipt_weight: "weight (request_json ex_receipt) \<le> 4100"
  using ex_digest(2) by (simp add: request_json_def ex_receipt_def parameters_json_def ex_parameters_def grace_json_def
      grace_MarshalJSON_def int_text_def hex_string_def show_nat.simps [of "Suc 0"])

lemma ex_claim_weight: "weight (claim_json ex_claim) \<le> 5600"
  using ex_receipt_weight by (simp add: claim_json_def ex_claim_def)

lemma ex_claim_length: "length (json_print (claim_json ex_claim)) \<le> MaxEnvelopeBytes"
  using ex_claim_weight length_print_weight [of "claim_json ex_claim"] by (simp add: MaxEnvelopeBytes_def)

lemma ex_claim_decodes: "DecodeClaim (json_print (claim_json ex_claim)) = Some ex_claim"
  using claim_codec.reread(2) [OF claim_json_ok(1) [of ex_claim]] ex_claim_length ex_claim_valid ex_receipt_valid
  by (simp add: DecodeClaim_def)

definition ex_result :: result_receipt where
  "ex_result =
     \<lparr>rs_Request = ex_receipt, rs_ExecutionLeaseID = ''hle_'' @ ex_hex 32, rs_ReportingCredentialID = ''hlac_'' @ ex_hex 32,
      rs_ReportingCredentialRevision = ''7'', rs_ResultCode = Started, rs_RecordedAt = ''2026-01-02T03:04:07.000000Z'',
      rs_CorrelationID = ''c''\<rparr>"

definition ex_retained :: retained_status where
  "ex_retained =
     \<lparr>rt_ActionID = ''hla_'' @ ex_hex 32, rt_State = ''SUCCEEDED'', rt_Request = Some ex_receipt, rt_Claim = Some ex_claim,
      rt_Result = Some ex_result, rt_LaneState = ''RELEASED''\<rparr>"

lemma ex_retained_valid: "retained_valid ex_retained" "retained_parts_ok ex_retained"
proof -
  show "retained_valid ex_retained" by (simp add: retained_valid_def ex_retained_def ex_result_def)
  have "valid_result ex_result" "MatchResultReceipt ex_claim ex_result"
    using ex_texts ex_message_times by (simp_all add: valid_result_def MatchResultReceipt_def ex_result_def ex_claim_def ex_receipt_def seconds_def)
  then show "retained_parts_ok ex_retained"
    using ex_receipt_valid ex_claim_valid ex_texts by (simp add: retained_parts_ok_def ex_retained_def, simp add: ex_receipt_def)
qed

lemma ex_retained_decodes: "DecodeRetainedStatus (json_print (retained_json ex_retained)) = Some ex_retained"
proof -
  have "weight (result_json ex_result) \<le> 5500"
    using ex_receipt_weight by (simp add: result_json_def ex_result_def)
  then have "weight (retained_json ex_retained) \<le> MaxEnvelopeBytes"
    using ex_receipt_weight ex_claim_weight by (simp add: retained_json_def ex_retained_def null_or_def MaxEnvelopeBytes_def)
  then show ?thesis
    using retained_codec.reread(2) [OF retained_json_ok(1) [OF ex_retained_valid]] length_print_weight [of "retained_json ex_retained"]
    by (simp add: DecodeRetainedStatus_def)
qed

definition ex_approval :: approval where
  "ex_approval =
     \<lparr>ap_RecoveryID = ex_hex 32, ap_PrepareID = ex_hex 32, ap_OwnerDecisionID = ex_hex 32, ap_ApprovalRevision = ''1'',
      ap_PreviousPrepareID = None, ap_ServerID = ''srv_'' @ ex_hex 32, ap_OwnerUserID = ''usr_'' @ ex_hex 32,
      ap_ConnectorInstanceID = ''agent_'' @ ex_hex 32, ap_ActionID = ''hla_'' @ ex_hex 32, ap_RemoteReceiptDigest = ex_hex 64,
      ap_EvidenceKind = ''MISSING_RECORD'', ap_LaneRevision = ''7'', ap_CommittedACKDigest = None,
      ap_PreparedAt = ''2026-01-02T03:04:05.000000Z'', ap_ExpiresAt = ''2026-01-02T03:06:06.000000Z''\<rparr>"

definition ex_finalization :: finalization where
  "ex_finalization =
     \<lparr>fi_RecoveryID = ex_hex 32, fi_PrepareID = ex_hex 32, fi_OwnerDecisionID = ex_hex 32, fi_ApprovalRevision = ''1'',
      fi_ActionID = ''hla_'' @ ex_hex 32, fi_RemoteReceiptDigest = ex_hex 64, fi_ACKDigest = ex_hex 64,
      fi_ReleasedLaneRevision = ''8'', fi_FinalizedAt = ''2026-01-02T03:04:06.000000Z''\<rparr>"

definition ex_view :: recovery_view where
  "ex_view =
     \<lparr>rw_ActionID = ''hla_'' @ ex_hex 32, rw_RecoveryID = Some (ex_hex 32), rw_RemoteReceiptDigest = Some (ex_hex 64),
      rw_EvidenceKind = Some ''MISSING_RECORD'', rw_LaneRevision = ''8'', rw_State = ''FINALIZED'',
      rw_CurrentApproval = Some ex_approval, rw_Finalization = Some ex_finalization, rw_RemainingApprovals = 7\<rparr>"

definition ex_recovery_decision :: recovery_decision where
  "ex_recovery_decision =
     \<lparr>rd_Approval = ex_approval, rd_CheckNonce = ex_hex 32, rd_CredentialID = ''hlac_'' @ ex_hex 32, rd_CredentialRevision = ''7'',
      rd_CheckedAt = ''2026-01-02T03:04:06.000000Z'', rd_Decision = ''PERMITTED''\<rparr>"

lemma ex_approval_sel [simp]:
  "ap_RecoveryID ex_approval = ex_hex 32" "ap_PrepareID ex_approval = ex_hex 32" "ap_OwnerDecisionID ex_approval = ex_hex 32"
  "ap_ApprovalRevision ex_approval = ''1''" "ap_ActionID ex_approval = ''hla_'' @ ex_hex 32" "ap_RemoteReceiptDigest ex_approval = ex_hex 64"
  "ap_EvidenceKind ex_approval = ''MISSING_RECORD''" "ap_LaneRevision ex_approval = ''7''"
  "ap_PreparedAt ex_approval = ''2026-01-02T03:04:05.000000Z''" "ap_ExpiresAt ex_approval = ''2026-01-02T03:06:06.000000Z''"
  by (simp_all add: ex_approval_def)

lemma ex_approval_valid: "validateApproval ex_approval" "approvalRevision ''1''" "evidenceKind ''MISSING_RECORD''"
  using ex_texts ex_message_times
  by (simp_all add: validateApproval_def, simp_all add: ex_approval_def evidenceKind_def approvalRevision_def optionalDigest_def
      Sub_def MinDuration_def MaxDuration_def seconds_def minutes_def less_eq_char_def)

lemma ex_recovery_matches: "MatchRecoveryDecision ex_approval (ex_hex 32) ex_recovery_decision"
  using ex_approval_valid ex_texts ex_message_times
  by (simp add: MatchRecoveryDecision_def ex_recovery_decision_def sameApproval_iff seconds_def)

lemma ex_view_valid: "valid_view ex_view" "view_parts ex_view"
proof -
  have "ParseUint64 ''7'' = Some 7" "ParseUint64 ''8'' = Some 8" by code_simp+
  then have "MatchFinalization ex_approval (ex_hex 64) ex_finalization"
    using ex_approval_valid ex_texts ex_message_times
    by (simp add: MatchFinalization_def ex_finalization_def seconds_def)
  moreover have "used_approvals ex_approval = 1" unfolding used_approvals_def ex_approval_sel by code_simp
  ultimately show "valid_view ex_view"
    using ex_approval_valid ex_texts
    by (simp add: valid_view_def ex_view_def view_approval_ok_def view_state_ok_def ex_finalization_def)
  have "valid_finalization ex_finalization"
    using ex_approval_valid ex_texts ex_message_times by (simp add: valid_finalization_def ex_finalization_def)
  then show "view_parts ex_view" using ex_approval_valid by (simp add: view_parts_def ex_view_def)
qed

lemma ex_view_decodes: "DecodeRecoveryView (json_print (view_json ex_view)) = Some ex_view"
proof -
  have "weight (view_json ex_view) \<le> MaxEnvelopeBytes"
    by (simp add: view_json_def ex_view_def null_or_def opt_json_def approval_json_def ex_approval_def finalization_json_def
        ex_finalization_def int_text_def MaxEnvelopeBytes_def show_nat.simps [of 7])
  then show ?thesis
    using view_codec.reread(2) [OF view_json_ok(1) [OF ex_view_valid]] length_print_weight [of "view_json ex_view"]
    by (simp add: DecodeRecoveryView_def)
qed

definition ex_entry :: "char \<Rightarrow> entry" where
  "ex_entry c =
     \<lparr>et_TargetID = ''hlt_'' @ replicate 32 c, et_TargetKey = ''ctr_'' @ replicate 16 c, et_Operation = Start,
      et_Parameters = ex_parameters, et_ParameterSHA256 = ex_digest, et_PolicyRevision = ''7'', et_CapabilityRevision = ''12''\<rparr>"

definition ex_admin :: "string \<Rightarrow> string \<Rightarrow> envelope" where
  "ex_admin kind payload =
     \<lparr>env_Version = AdminVersion, env_Kind = kind, env_ConversationNonce = ex_hex 32, env_Ordinal = ''3'', env_Payload = payload\<rparr>"

lemma ex_refused:
  "canonicalPayload (ex_admin ''REFUSED'' (''{ '' @ json_string ''code'' @ '' : '' @ json_string ''BUSY'' @ '' }'')) = Some (PayloadRefused ''BUSY'')"
  by code_simp

definition ex_envelope :: envelope where
  "ex_envelope = ex_admin ''REFUSED'' (''{ '' @ json_string ''code'' @ '' : '' @ json_string ''BUSY'' @ '' }'')"

lemma ex_encodes: "EncodeEnvelope ex_envelope = Some (json_print (envelope_json ex_envelope (PayloadRefused ''BUSY'')))"
  by code_simp

end
