(* ===== verification/JsonFuel.thy ===== *)
theory JsonFuel
  imports Json
begin

text \<open>
  The fuel of the JSON reader is enough: a value is read with as much fuel as it has bytes, so that more
  fuel than the length of the text never reads more.
\<close>

lemma skip_ws_length: "length (skip_ws s) \<le> length s"
  by (induction s) auto

lemma skip_ws_Cons: "skip_ws s = c # r \<Longrightarrow> length r < length s"
  using skip_ws_length [of s] by simp

lemma prepend_Some: "prepend p x = Some (t, r) \<Longrightarrow> \<exists>u. x = Some (u, r)"
  by (auto simp: prepend_def)

lemma parse_str_step:
  "parse_str s = Some (t, r) \<Longrightarrow> length r < length s \<or> (\<exists>s' u. length s' < length s \<and> parse_str s' = Some (u, r))"
  by (cases s) (auto split: if_splits list.splits option.splits prod.splits dest!: prepend_Some low_escape_shorter
      intro: less_SucI simp del: parse_str.simps simp: parse_str.simps(2) parse_str.simps(1))

lemma parse_str_shorter: "parse_str s = Some (t, r) \<Longrightarrow> length r < length s"
proof (induction s arbitrary: t rule: length_induct)
  case (1 s)
  then show ?case using parse_str_step [of s t r] by (meson less_trans)
qed

lemma span_digits_length: "span_digits s = (d, r) \<Longrightarrow> length s = length d + length r"
  by (induction s arbitrary: d r) (auto split: if_splits prod.splits)

lemma number_length:
  "number_int s = Some (d, r) \<Longrightarrow> length r < length s"
  "number_frac s = Some (d, r) \<Longrightarrow> length r \<le> length s"
  "number_exp s = Some (d, r) \<Longrightarrow> length r \<le> length s"
  by (auto simp: number_int_def number_frac_def number_exp_def Let_def split: list.splits if_splits prod.splits
      dest!: span_digits_length)

lemma parse_num_length: "parse_num s = Some (t, r) \<Longrightarrow> length r < length s"
proof -
  assume p: "parse_num s = Some (t, r)"
  obtain sign u where u: "(case s of c # s' \<Rightarrow> if c = CHR ''-'' then ([c], s') else ([], s) | [] \<Rightarrow> ([], s)) = (sign, u)" by fastforce
  have "length u \<le> length s" using u by (auto split: list.splits if_splits)
  moreover have "length r < length u"
    using p u number_length by (fastforce simp: parse_num_def split: option.splits prod.splits)
  ultimately show ?thesis by simp
qed

lemma expect_length: "expect lit s = Some r \<Longrightarrow> length r \<le> length s"
  by (auto simp: expect_def split: if_splits)

text \<open>\<open>reads p s x r\<close>: with any fuel of at least the number of bytes it consumes, \<open>p\<close> reads \<open>x\<close> from \<open>s\<close> and leaves \<open>r\<close>.\<close>

definition reads_with :: "(nat \<Rightarrow> string \<Rightarrow> ('a \<times> string) option) \<Rightarrow> string \<Rightarrow> 'a \<Rightarrow> string \<Rightarrow> bool" where
  "reads_with p s x r \<longleftrightarrow> length r < length s \<and> (\<forall>m \<ge> length s - length r. p m s = Some (x, r))"

lemma reads_withD: "reads_with p s x r \<Longrightarrow> length s - length r \<le> m \<Longrightarrow> p m s = Some (x, r)"
  by (simp add: reads_with_def)

lemma reads_length: "reads_with p s x r \<Longrightarrow> length r < length s"
  by (simp add: reads_with_def)

lemma reads_withI:
  assumes "length r < length s" "\<And>k. length s \<le> Suc k + length r \<Longrightarrow> p (Suc k) s = Some (x, r)"
  shows "reads_with p s x r"
  unfolding reads_with_def
proof (intro conjI allI impI)
  fix m assume "length s - length r \<le> m"
  then show "p m s = Some (x, r)" using assms by (cases m) auto
qed (rule assms(1))

lemma value_reads:
  assumes "parse_value (Suc n) s = Some (v, r)"
    and IHe: "\<And>s vs r. parse_elements n s = Some (vs, r) \<Longrightarrow> reads_with parse_elements s vs r"
    and IHm: "\<And>s ms r. parse_members n s = Some (ms, r) \<Longrightarrow> reads_with parse_members s ms r"
  shows "reads_with parse_value s v r"
proof -
  obtain c s1 where c: "skip_ws s = c # s1" using assms(1) by (cases "skip_ws s") auto
  note l = skip_ws_Cons [OF c]
  consider (obj) "c = CHR ''{''" | (arr) "c = CHR ''[''" | (atom) "c \<noteq> CHR ''{''" "c \<noteq> CHR ''[''" by blast
  then show ?thesis
  proof cases
    case obj
    obtain d s2 where d: "skip_ws s1 = d # s2" using assms(1) c obj by (cases "skip_ws s1") auto
    note l2 = skip_ws_Cons [OF d]
    show ?thesis
    proof (cases "d = CHR ''}''")
      case True
      then show ?thesis using assms(1) c obj d l l2 by (intro reads_withI) auto
    next
      case False
      then obtain ms where ms: "parse_members n (d # s2) = Some (ms, r)" "v = JObj ms" using assms(1) c obj d by auto
      note m = IHm [OF ms(1)]
      show ?thesis
      proof (rule reads_withI)
        show "length r < length s" using reads_length [OF m] l l2 by simp
        fix k assume "length s \<le> Suc k + length r"
        then have "parse_members k (d # s2) = Some (ms, r)" using l l2 by (intro reads_withD [OF m]) simp
        then show "parse_value (Suc k) s = Some (v, r)" using c obj d False ms(2) by simp
      qed
    qed
  next
    case arr
    obtain d s2 where d: "skip_ws s1 = d # s2" using assms(1) c arr by (cases "skip_ws s1") auto
    note l2 = skip_ws_Cons [OF d]
    show ?thesis
    proof (cases "d = CHR '']''")
      case True
      then show ?thesis using assms(1) c arr d l l2 by (intro reads_withI) auto
    next
      case False
      then obtain vs where vs: "parse_elements n (d # s2) = Some (vs, r)" "v = JArr vs" using assms(1) c arr d by auto
      note m = IHe [OF vs(1)]
      show ?thesis
      proof (rule reads_withI)
        show "length r < length s" using reads_length [OF m] l l2 by simp
        fix k assume "length s \<le> Suc k + length r"
        then have "parse_elements k (d # s2) = Some (vs, r)" using l l2 by (intro reads_withD [OF m]) simp
        then show "parse_value (Suc k) s = Some (v, r)" using c arr d False vs(2) by simp
      qed
    qed
  next
    case atom
    have same: "parse_value (Suc k) s = parse_value (Suc n) s" for k using c atom by simp
    have "length r < length s"
      using assms(1) c atom l parse_str_shorter [of s1] expect_length [of _ s1] parse_num_length [of "c # s1"]
      by (fastforce split: if_splits)
    then show ?thesis using assms(1) same by (intro reads_withI) auto
  qed
qed

lemma elements_reads:
  assumes "parse_elements (Suc n) s = Some (vs, r)"
    and IHv: "\<And>s v r. parse_value n s = Some (v, r) \<Longrightarrow> reads_with parse_value s v r"
    and IHe: "\<And>s vs r. parse_elements n s = Some (vs, r) \<Longrightarrow> reads_with parse_elements s vs r"
  shows "reads_with parse_elements s vs r"
proof -
  obtain v r1 where v: "parse_value n s = Some (v, r1)" using assms(1) by (auto split: option.splits)
  obtain c r2 where c: "skip_ws r1 = c # r2" using assms(1) v by (cases "skip_ws r1") auto
  note l = reads_length [OF IHv [OF v]] skip_ws_Cons [OF c] and m = reads_withD [OF IHv [OF v]]
  show ?thesis
  proof (cases "c = CHR '']''")
    case True
    then have "vs = [v]" "r2 = r" using assms(1) v c by auto
    then show ?thesis using l m c True by (intro reads_withI) auto
  next
    case False
    then obtain ws where ws: "parse_elements n r2 = Some (ws, r)" "vs = v # ws" "c = CHR '',''" using assms(1) v c by (auto split: if_splits)
    note e = IHe [OF ws(1)]
    show ?thesis
    proof (rule reads_withI)
      show "length r < length s" using l reads_length [OF e] by simp
      fix k assume k: "length s \<le> Suc k + length r"
      have "parse_value k s = Some (v, r1)" using k l reads_length [OF e] by (intro m) simp
      moreover have "parse_elements k r2 = Some (ws, r)" using k l by (intro reads_withD [OF e]) simp
      ultimately show "parse_elements (Suc k) s = Some (vs, r)" using c ws by simp
    qed
  qed
qed

lemma members_reads:
  assumes "parse_members (Suc n) s = Some (ms, r)"
    and IHv: "\<And>s v r. parse_value n s = Some (v, r) \<Longrightarrow> reads_with parse_value s v r"
    and IHm: "\<And>s ms r. parse_members n s = Some (ms, r) \<Longrightarrow> reads_with parse_members s ms r"
  shows "reads_with parse_members s ms r"
proof -
  obtain s1 where q: "skip_ws s = dquote # s1" using assms(1) by (cases "skip_ws s") (auto split: if_splits)
  obtain key s2 where key: "parse_str s1 = Some (key, s2)" using assms(1) q by (auto split: option.splits)
  obtain s3 where s3: "skip_ws s2 = CHR '':'' # s3" using assms(1) q key by (cases "skip_ws s2") (auto split: if_splits)
  obtain v r1 where v: "parse_value n s3 = Some (v, r1)" using assms(1) q key s3 by (auto split: option.splits)
  obtain c r2 where c: "skip_ws r1 = c # r2" using assms(1) q key s3 v by (cases "skip_ws r1") auto
  note l = skip_ws_Cons [OF q] parse_str_shorter [OF key] skip_ws_Cons [OF s3] reads_length [OF IHv [OF v]] skip_ws_Cons [OF c]
    and m = reads_withD [OF IHv [OF v]]
  show ?thesis
  proof (cases "c = CHR ''}''")
    case True
    then have "ms = [(key, v)]" "r2 = r" using assms(1) q key s3 v c by auto
    then show ?thesis using l m q key s3 c True by (intro reads_withI) auto
  next
    case False
    then obtain ws where ws: "parse_members n r2 = Some (ws, r)" "ms = (key, v) # ws" "c = CHR '',''"
      using assms(1) q key s3 v c by (auto split: if_splits)
    note e = IHm [OF ws(1)]
    show ?thesis
    proof (rule reads_withI)
      show "length r < length s" using l reads_length [OF e] by simp
      fix k assume k: "length s \<le> Suc k + length r"
      have "parse_value k s3 = Some (v, r1)" using k l reads_length [OF e] by (intro m) simp
      moreover have "parse_members k r2 = Some (ws, r)" using k l by (intro reads_withD [OF e]) simp
      ultimately show "parse_members (Suc k) s = Some (ms, r)" using q key s3 c ws by simp
    qed
  qed
qed

lemma fuel_reads:
  "(\<forall>s v r. parse_value n s = Some (v, r) \<longrightarrow> reads_with parse_value s v r) \<and>
   (\<forall>s vs r. parse_elements n s = Some (vs, r) \<longrightarrow> reads_with parse_elements s vs r) \<and>
   (\<forall>s ms r. parse_members n s = Some (ms, r) \<longrightarrow> reads_with parse_members s ms r)"
proof (induction n)
  case (Suc n)
  show ?case
    using value_reads [of n] elements_reads [of n] members_reads [of n] Suc by blast
qed simp

text \<open>No amount of fuel reads a value that the length of the text does not read.\<close>

lemma parse_value_fuel: "(\<exists>n. parse_value n s = Some (v, r)) \<longleftrightarrow> parse_value (length s) s = Some (v, r)"
  using fuel_reads by (metis diff_le_self reads_withD)

lemma json_parse_iff: "json_parse s = Some v \<longleftrightarrow> (\<exists>n r. parse_value n s = Some (v, r) \<and> skip_ws r = [])"
proof -
  have "json_parse s = Some v \<longleftrightarrow> (\<exists>r. parse_value (length s) s = Some (v, r) \<and> skip_ws r = [])"
    by (auto simp: json_parse_def split: option.splits if_splits)
  then show ?thesis using parse_value_fuel by blast
qed

end
