(* ===== verification/ProtocolProperties.thy ===== *)
theory ProtocolProperties
  imports ProtocolExample JsonFuel
begin

text \<open>
  The properties of the action protocol: the round trips of requests and envelopes, the windows of
  claims and decisions, the coherence of retained states, the lane arithmetic of recoveries and the
  validation of the approved entries.
\<close>

text \<open>The three conditions of the strict reader on a value, each by itself.\<close>

fun json_height :: "json \<Rightarrow> nat" where
  "json_height (JArr vs) = Suc (Max (insert 0 (json_height ` set vs)))"
| "json_height (JObj ms) = Suc (Max (insert 0 ((\<lambda>(k, v). json_height v) ` set ms)))"
| "json_height _ = 0"

fun distinct_names :: "json \<Rightarrow> bool" where
  "distinct_names (JArr vs) \<longleftrightarrow> (\<forall>v \<in> set vs. distinct_names v)"
| "distinct_names (JObj ms) \<longleftrightarrow> distinct (map fst ms) \<and> (\<forall>(k, v) \<in> set ms. distinct_names v)"
| "distinct_names _ \<longleftrightarrow> True"

fun plain_numbers :: "json \<Rightarrow> bool" where
  "plain_numbers (JNum s) \<longleftrightarrow> (\<exists>n. s = show_nat n)"
| "plain_numbers (JArr vs) \<longleftrightarrow> (\<forall>v \<in> set vs. plain_numbers v)"
| "plain_numbers (JObj ms) \<longleftrightarrow> (\<forall>(k, v) \<in> set ms. plain_numbers v)"
| "plain_numbers _ \<longleftrightarrow> True"

lemma strict_number_iff: "strict_number s \<longleftrightarrow> (\<exists>n. s = show_nat n)"
  using show_nat_dec_val [of s] by (metis strict_show_nat)

lemma height_arith: "d < 8 \<Longrightarrow> Suc m + d \<le> 8 \<longleftrightarrow> m \<le> 7 - d" "d < 8 \<Longrightarrow> h = 0 \<or> h + Suc d \<le> 8 \<longleftrightarrow> h \<le> 7 - d"
  for d m h :: nat
  by auto

lemma strict_value_iff: "strict_value d v \<longleftrightarrow> (json_height v = 0 \<or> json_height v + d \<le> 8) \<and> distinct_names v \<and> plain_numbers v"
proof (induction d v rule: strict_value.induct)
  case (2 d vs)
  show ?case
  proof (cases "d < 8")
    case True
    have "strict_value d (JArr vs) \<longleftrightarrow> (\<forall>v \<in> set vs. json_height v \<le> 7 - d \<and> distinct_names v \<and> plain_numbers v)"
      using 2 True unfolding height_arith(2) [OF True] by (simp add: Ball_def)
    then show ?thesis unfolding json_height.simps height_arith(1) [OF True] by auto
  qed simp
next
  case (3 d ms)
  show ?case
  proof (cases "d < 8")
    case True
    have "strict_value (Suc d) v \<longleftrightarrow> json_height v \<le> 7 - d \<and> distinct_names v \<and> plain_numbers v" if "(k, v) \<in> set ms" for k v
      using 3 [OF that refl] by (simp only: height_arith(2) [OF True])
    then have "strict_value d (JObj ms) \<longleftrightarrow> distinct (map fst ms) \<and> (\<forall>(k, v) \<in> set ms. json_height v \<le> 7 - d \<and> distinct_names v \<and> plain_numbers v)"
      using True by auto
    then show ?thesis unfolding json_height.simps height_arith(1) [OF True] by auto
  qed simp
qed (auto simp: strict_number_iff)

lemma Sub_exact: "Sub t u = d \<Longrightarrow> MinDuration < d \<Longrightarrow> d < MaxDuration \<Longrightarrow> t = u + d"
  by (auto simp: Sub_def min_def max_def split: if_splits)

section \<open>Strict JSON\<close>

text \<open>C36. The strict reader accepts exactly the UTF-8 texts of one to 16384 bytes that hold one JSON value, at any depth of
  recursion of the reader, with nothing after it, nested at most eight deep, without repeated names and with plain decimal
  numbers only: it always stops with that value or with the error.\<close>

theorem strict_json_exact:
  "strictJSON raw = Some v \<longleftrightarrow>
     raw \<noteq> [] \<and> length raw \<le> 16384 \<and> utf8_valid raw \<and>
     (\<exists>n r. parse_value n raw = Some (v, r) \<and> skip_ws r = []) \<and>
     json_height v \<le> 8 \<and> distinct_names v \<and> plain_numbers v"
  using json_parse_iff [of raw v] strict_value_iff [of 0 v] by (auto simp: strictJSON_def MaxEnvelopeBytes_def split: option.splits)

section \<open>Requests and times\<close>

text \<open>C30. A request is valid exactly when it has a canonical encoding within the size limit that decodes to it.\<close>

theorem request_roundtrip:
  "ValidateRequest r \<longleftrightarrow>
     (\<exists>raw. CanonicalRequest r = Some raw \<and> length raw \<le> MaxEnvelopeBytes \<and> DecodeRequest raw = Some r)"
  using CanonicalRequest_total [of r] DecodeRequest_canonical [of r] request_length(1) [of r] DecodeRequest_valid
  by (auto simp: MaxEnvelopeBytes_def)

text \<open>C37. The accepted time texts are exactly the fixed-width texts of the nonzero instants of a whole microsecond
  in the years 0 to 9999, and each denotes that instant.\<close>

theorem http_time_exact:
  "ParseHTTPTime s = Some t \<longleftrightarrow> s = http_time t \<and> 0 \<le> Year t \<and> Year t \<le> 9999 \<and> 1000 dvd t \<and> t \<noteq> 0"
  using ParseHTTPTime_iff [of s t] by (auto simp: four_digit_year_def)

text \<open>C38. The accepted revisions are exactly the decimal texts of the integers from 1 to the largest signed 64-bit integer.\<close>

theorem revision_exact: "revision s \<longleftrightarrow> (\<exists>n. 1 \<le> n \<and> n \<le> 2 ^ 63 - 1 \<and> s = show_nat n)"
  by (rule revision_iff)

section \<open>Claims and decisions\<close>

lemma valid_request_window:
  assumes "ValidateRequest r"
  obtains created where "ParseHTTPTime (rr_RequestedAt r) = Some created" "ParseHTTPTime (rr_ExpiresAt r) = Some (created + seconds 300)"
  using assms Sub_exact [of _ _ "seconds 300"]
  by (auto simp: ValidateRequest_def MinDuration_def MaxDuration_def seconds_def split: if_splits option.splits)

lemma valid_claim_window:
  assumes "valid_claim c" "ParseHTTPTime (rr_RequestedAt (cl_Request c)) = Some created"
    "ParseHTTPTime (rr_ExpiresAt (cl_Request c)) = Some expires"
  obtains claimed where "ParseHTTPTime (cl_ClaimedAt c) = Some claimed" "ParseHTTPTime (cl_LeaseExpiresAt c) = Some (claimed + seconds 120)"
    "created \<le> claimed" "claimed + seconds 120 \<le> expires"
  using assms Sub_exact [of _ _ "seconds 120"]
  by (auto simp: valid_claim_def MinDuration_def MaxDuration_def seconds_def split: option.splits)

text \<open>C31. A decoded claim leases its request for two minutes inside the five minutes of the request: it is claimed
  no earlier than the request was made, and no later than 180 seconds after.\<close>

theorem claim_lease_within_request:
  assumes "DecodeClaim raw = Some c"
  shows "\<exists>created claimed.
     ParseHTTPTime (rr_RequestedAt (cl_Request c)) = Some created \<and> ParseHTTPTime (rr_ExpiresAt (cl_Request c)) = Some (created + seconds 300) \<and>
     ParseHTTPTime (cl_ClaimedAt c) = Some claimed \<and> ParseHTTPTime (cl_LeaseExpiresAt c) = Some (claimed + seconds 120) \<and>
     created \<le> claimed \<and> claimed \<le> created + seconds 180"
proof -
  have v: "valid_claim c" "ValidateRequest (cl_Request c)"
    using assms decode_claim_valid by (auto simp: DecodeClaim_def bind_eq_Some_conv)
  obtain created where "ParseHTTPTime (rr_RequestedAt (cl_Request c)) = Some created"
    "ParseHTTPTime (rr_ExpiresAt (cl_Request c)) = Some (created + seconds 300)"
    using valid_request_window [OF v(2)] by blast
  then show ?thesis
    using valid_claim_window [OF v(1)] by (fastforce simp: seconds_def)
qed

theorem claim_lease_within_request_witness:
  "DecodeClaim (json_print (claim_json ex_claim)) = Some ex_claim \<and>
   (\<exists>created claimed.
     ParseHTTPTime (rr_RequestedAt (cl_Request ex_claim)) = Some created \<and> ParseHTTPTime (cl_ClaimedAt ex_claim) = Some claimed \<and>
     created \<le> claimed \<and> claimed \<le> created + seconds 180)"
  using claim_lease_within_request [OF ex_claim_decodes] ex_claim_decodes by blast

text \<open>The states and lanes an action may be retained in, by the parts that are retained with it.\<close>

fun retained_states :: "bool \<Rightarrow> bool \<Rightarrow> code option \<Rightarrow> (string \<times> string) set" where
  "retained_states False False None = {(''MISSING'', ''MISSING'')}"
| "retained_states True False None = {(''REQUESTED'', ''HELD''), (''EXPIRED'', ''RELEASED''), (''CANCELED'', ''RELEASED'')}"
| "retained_states True True None =
     {(''CLAIMED'', ''HELD''), (''EXPIRED_UNCONFIRMED'', ''HELD''), (''EXPIRED_UNCONFIRMED'', ''RELEASED'')}"
| "retained_states True True (Some StateConflict) = {(''FAILED'', ''RELEASED'')}"
| "retained_states True True (Some OutcomeUnknown) = {(''OUTCOME_UNKNOWN'', ''HELD''), (''OUTCOME_UNKNOWN'', ''RELEASED'')}"
| "retained_states True True (Some _) = {(''SUCCEEDED'', ''RELEASED'')}"
| "retained_states _ _ _ = {}"

lemma retained_states_code:
  "retained_states True True (Some c) =
     (if c = StateConflict then {(''FAILED'', ''RELEASED'')}
      else if c = OutcomeUnknown then {(''OUTCOME_UNKNOWN'', ''HELD''), (''OUTCOME_UNKNOWN'', ''RELEASED'')}
      else {(''SUCCEEDED'', ''RELEASED'')})"
  by (cases c) auto

definition retained_spec :: "retained_status \<Rightarrow> bool" where
  "retained_spec s \<longleftrightarrow>
     is_identifier (rt_ActionID s) ''hla_'' \<and>
     (rt_State s, rt_LaneState s) \<in> retained_states (rt_Request s \<noteq> None) (rt_Claim s \<noteq> None) (map_option rs_ResultCode (rt_Result s)) \<and>
     (\<forall>r. rt_Request s = Some r \<longrightarrow> ValidateRequest r \<and> rr_ActionID r = rt_ActionID s) \<and>
     (\<forall>c. rt_Claim s = Some c \<longrightarrow> valid_claim c \<and> rt_Request s = Some (cl_Request c)) \<and>
     (\<forall>r. rt_Result s = Some r \<longrightarrow> valid_result r \<and>
        (\<exists>c recorded claimed expires. rt_Claim s = Some c \<and> rs_Request r = cl_Request c \<and> rs_ExecutionLeaseID r = cl_ExecutionLeaseID c \<and>
           ParseHTTPTime (rs_RecordedAt r) = Some recorded \<and> ParseHTTPTime (cl_ClaimedAt c) = Some claimed \<and>
           ParseHTTPTime (cl_LeaseExpiresAt c) = Some expires \<and> claimed \<le> recorded \<and> recorded < expires))"

lemma MatchResultReceipt_iff:
  "MatchResultReceipt c r \<longleftrightarrow> (\<exists>recorded claimed expires. rs_Request r = cl_Request c \<and> rs_ExecutionLeaseID r = cl_ExecutionLeaseID c \<and>
     ParseHTTPTime (rs_RecordedAt r) = Some recorded \<and> ParseHTTPTime (cl_ClaimedAt c) = Some claimed \<and>
     ParseHTTPTime (cl_LeaseExpiresAt c) = Some expires \<and> claimed \<le> recorded \<and> recorded < expires)"
  by (auto simp: MatchResultReceipt_def split: option.splits)

text \<open>The switch over the state agrees with the table over the parts, when the parts are nested.\<close>

lemma retained_valid_iff:
  assumes "rt_Claim s \<noteq> None \<longrightarrow> rt_Request s \<noteq> None" "rt_Result s \<noteq> None \<longrightarrow> rt_Claim s \<noteq> None"
  shows "retained_valid s \<longleftrightarrow>
    (rt_State s, rt_LaneState s) \<in> retained_states (rt_Request s \<noteq> None) (rt_Claim s \<noteq> None) (map_option rs_ResultCode (rt_Result s))"
  using assms
  by (cases "rt_Request s"; cases "rt_Claim s"; cases "rt_Result s") (auto simp: retained_valid_def Let_def retained_states_code)

lemma retained_spec_iff: "retained_spec s \<longleftrightarrow> retained_valid s \<and> retained_parts_ok s"
proof -
  have "retained_parts_ok s \<Longrightarrow> rt_Claim s \<noteq> None \<longrightarrow> rt_Request s \<noteq> None" "retained_parts_ok s \<Longrightarrow> rt_Result s \<noteq> None \<longrightarrow> rt_Claim s \<noteq> None"
    unfolding retained_parts_ok_def by auto
  then show ?thesis
    using retained_valid_iff [of s] unfolding retained_spec_def retained_parts_ok_def MatchResultReceipt_iff by blast
qed

text \<open>C33. The retained statuses are exactly these: the parts are valid and nested, they concern one action, request and
  lease, a result was recorded during the lease, and the parts determine the states and lanes: nothing retained is missing, a request is
  open, expired or cancelled, a claim is open or expired unconfirmed, and a result is a failure, an unknown outcome or a
  success as its code says; the lane is held for an open action, may be held for an uncertain one and is released otherwise. A
  decoded status is one of them, and each of them is decoded from its encoding when that is within the size limit.\<close>

theorem retained_status_exact:
  "(DecodeRetainedStatus raw = Some s \<longrightarrow> retained_spec s) \<and>
   (length (json_print (retained_json s)) \<le> MaxEnvelopeBytes \<longrightarrow>
      (retained_spec s \<longleftrightarrow> DecodeRetainedStatus (json_print (retained_json s)) = Some s))"
proof -
  have decoded: "retained_spec s" if "DecodeRetainedStatus raw = Some s" for raw
    using that decode_retained_valid unfolding retained_spec_iff by (auto simp: DecodeRetainedStatus_def bind_eq_Some_conv)
  moreover have "DecodeRetainedStatus (json_print (retained_json s)) = Some s"
    if "retained_spec s" "length (json_print (retained_json s)) \<le> MaxEnvelopeBytes"
    using retained_codec.reread(2) [OF retained_json_ok(1) that(2)] that(1) unfolding retained_spec_iff by (simp add: DecodeRetainedStatus_def)
  ultimately show ?thesis by blast
qed

theorem retained_status_exact_witness:
  "DecodeRetainedStatus (json_print (retained_json ex_retained)) = Some ex_retained \<and> retained_spec ex_retained \<and>
   \<not> retained_spec (ex_retained\<lparr>rt_State := ''FAILED''\<rparr>)"
proof -
  have spec: "retained_spec ex_retained" using retained_status_exact ex_retained_decodes by blast
  have "rt_State ex_retained = ''SUCCEEDED''" by (simp add: ex_retained_def)
  with spec show ?thesis using ex_retained_decodes
    by (cases "rt_Request ex_retained"; cases "rt_Claim ex_retained"; cases "rt_Result ex_retained")
      (auto simp: retained_spec_def retained_states_code split: if_splits)
qed

section \<open>Recovery\<close>

text \<open>C34. A recovery view that reports a finalization holds the approval and the finalization of the same preparation and owner
  decision; the lane moved to the next revision, which has not wrapped, and the remaining approvals count the used ones.\<close>

theorem finalized_lane_advances:
  assumes "DecodeRecoveryView raw = Some v" "rw_State v = ''FINALIZED''"
  shows "\<exists>a f n. rw_CurrentApproval v = Some a \<and> rw_Finalization v = Some f \<and>
     fi_RecoveryID f = ap_RecoveryID a \<and> fi_PrepareID f = ap_PrepareID a \<and> fi_OwnerDecisionID f = ap_OwnerDecisionID a \<and>
     ap_LaneRevision a = show_nat n \<and> rw_LaneRevision v = show_nat (Suc n) \<and> 1 \<le> n \<and> Suc n \<le> 2 ^ 63 - 1 \<and>
     rw_RemainingApprovals v = 8 - used_approvals a"
proof -
  have v: "valid_view v" using assms(1) decode_view_valid by (auto simp: DecodeRecoveryView_def bind_eq_Some_conv)
  obtain a f where af: "rw_CurrentApproval v = Some a" "rw_Finalization v = Some f" "MatchFinalization a (fi_ACKDigest f) f"
    "rw_LaneRevision v = fi_ReleasedLaneRevision f" "view_approval_ok v a"
    using v assms(2) by (auto simp: valid_view_def view_state_ok_def split: if_splits option.splits)
  have r: "revision (ap_LaneRevision a)" "revision (fi_ReleasedLaneRevision f)" "fi_RecoveryID f = ap_RecoveryID a"
    "fi_PrepareID f = ap_PrepareID a" "fi_OwnerDecisionID f = ap_OwnerDecisionID a"
    using af(3) by (auto simp: MatchFinalization_def validateApproval_def split: option.splits)
  obtain n where n: "1 \<le> n" "ap_LaneRevision a = show_nat n" using r(1) unfolding revision_iff by blast
  obtain m where m: "m \<le> 2 ^ 63 - 1" "fi_ReleasedLaneRevision f = show_nat m" using r(2) unfolding revision_iff by blast
  have "m = Suc n" using MatchFinalization_lane(1) [OF af(3)] n(2) m(2) by simp
  then show ?thesis using af r n m by (auto simp: view_approval_ok_def)
qed

theorem finalized_lane_advances_witness:
  "DecodeRecoveryView (json_print (view_json ex_view)) = Some ex_view \<and> rw_State ex_view = ''FINALIZED'' \<and>
   (\<exists>n. ap_LaneRevision ex_approval = show_nat n \<and> rw_LaneRevision ex_view = show_nat (Suc n))"
  using finalized_lane_advances [OF ex_view_decodes] ex_view_decodes by (auto simp: ex_view_def)

text \<open>C35. A recovery decision that matches an approval carries that very approval and permits it for the challenge asked,
  at a time within the approval, which lasts at most five minutes.\<close>

theorem recovery_decision_bound:
  assumes "MatchRecoveryDecision a challenge d"
  shows "rd_Approval d = a \<and> rd_CheckNonce d = challenge \<and> rd_Decision d = ''PERMITTED'' \<and>
     (\<exists>prepared checked expires. ParseHTTPTime (ap_PreparedAt a) = Some prepared \<and> ParseHTTPTime (rd_CheckedAt d) = Some checked \<and>
        ParseHTTPTime (ap_ExpiresAt a) = Some expires \<and> prepared \<le> checked \<and> checked < expires \<and> expires \<le> prepared + minutes 5)"
proof -
  have "expires \<le> prepared + minutes 5"
    if "validateApproval a" "ParseHTTPTime (ap_PreparedAt a) = Some prepared" "ParseHTTPTime (ap_ExpiresAt a) = Some expires" for prepared expires
    using that Sub_gt_iff [of "minutes 5" expires prepared]
    by (auto simp: validateApproval_def MinDuration_def MaxDuration_def minutes_def)
  then show ?thesis
    using assms by (auto simp: MatchRecoveryDecision_def sameApproval_iff not_less split: option.splits)
qed

theorem recovery_decision_bound_witness:
  "MatchRecoveryDecision ex_approval (ex_hex 32) ex_recovery_decision \<and> rd_Approval ex_recovery_decision = ex_approval \<and>
   rd_Decision ex_recovery_decision = ''PERMITTED''"
  using recovery_decision_bound [OF ex_recovery_matches] ex_recovery_matches by simp

section \<open>Entries\<close>

text \<open>C23. The validation loop accepts exactly the lists of at most 32 valid entries that are strictly sorted by target and
  operation and in which a target has one alias and an alias one target.\<close>

theorem entries_exact:
  "ValidateEntries (Some es) \<longleftrightarrow>
     length es \<le> 32 \<and> list_all validEntry es \<and> sorted_wrt (\<lambda>a b. string_less (entry_key a) (entry_key b)) es \<and> one_alias es"
  using ValidateEntries_iff [of es] by (simp add: valid_entries_def)

section \<open>Envelopes\<close>

text \<open>C22. What the encoder writes, the decoder reads back as the envelope with its payload in canonical form, and that envelope
  is written the same way again.\<close>

theorem envelope_roundtrip:
  assumes "EncodeEnvelope e = Some raw"
  shows "DecodeEnvelope raw = Some (canonical e) \<and> EncodeEnvelope (canonical e) = Some raw"
  using encode_canonical [OF assms] by simp

theorem envelope_roundtrip_witness:
  "DecodeEnvelope (json_print (envelope_json ex_envelope (PayloadRefused ''BUSY''))) = Some (canonical ex_envelope) \<and>
   canonical ex_envelope \<noteq> ex_envelope"
proof -
  have "canonical ex_envelope \<noteq> ex_envelope" by code_simp
  then show ?thesis using envelope_roundtrip [OF ex_encodes] by simp
qed

text \<open>C21. A text decodes to an envelope exactly when the envelope is in canonical form and the text is its encoding: every
  accepted message has one text, and every text at most one message.\<close>

theorem envelope_exact: "DecodeEnvelope raw = Some e \<longleftrightarrow> EncodeEnvelope e = Some raw \<and> canonical e = e"
  using encode_canonical(2) [of e raw] decode_encodes [of raw e] by auto

end
