(* ===== verification/ActionBudget.thy ===== *)
theory ActionBudget
  imports ProtocolExecution
begin

text \<open>
  The local time budget of an action, \<^verbatim>\<open>internal/actionbudget\<close>. A stamp is one reading of three clocks: the
  monotonic clock of the Go runtime, the wall clock and the boot-time clock of the kernel, which also
  runs while the machine sleeps. A readiness brackets the server's time between two stamps, a conversation
  begins from a readiness, and an accepted claim becomes an execution whose deadline every controlled
  write checks.

  Every operation reads the clock at most once, so the reading is an argument: \<open>None\<close> when the clock has no
  reading. A Go time that carries a monotonic reading is the instant the process started plus that
  reading, the scale on which \<^verbatim>\<open>Sub\<close>, \<^verbatim>\<open>Add\<close> and deadlines act. Clocks are compared by address. Operations
  that only return an error return whether they succeed.
\<close>

section \<open>Clocks and stamps\<close>

definition continuity :: duration where "continuity = milliseconds 100"
definition skew :: duration where "skew = milliseconds 4900"

record reading =
  rd_goTime :: gotime
  rd_wall :: gotime
  rd_boot :: duration

type_synonym clock_ref = "nat option"

record bstamp =
  st_clock :: clock_ref
  st_reading :: reading

abbreviation st_goTime :: "bstamp \<Rightarrow> gotime" where "st_goTime s \<equiv> rd_goTime (st_reading s)"
abbreviation st_wall :: "bstamp \<Rightarrow> gotime" where "st_wall s \<equiv> rd_wall (st_reading s)"
abbreviation st_boot :: "bstamp \<Rightarrow> duration" where "st_boot s \<equiv> rd_boot (st_reading s)"

record readiness =
  re_clock :: clock_ref
  re_origin :: bstamp
  re_recv :: bstamp

record conversation =
  cv_clock :: clock_ref
  cv_readiness :: "readiness option"
  cv_start :: bstamp
  cv_used :: bool

definition executionPhase :: nat where "executionPhase = 1"

record budget =
  bg_clock :: clock_ref
  bg_origin :: bstamp
  bg_deadline :: duration
  bg_kind :: nat
  bg_actionID :: string
  bg_digest :: bytes
  bg_containerID :: string
  bg_operation :: operation

record execution =
  ex_guard :: budget
  ex_delivery :: delivery
  ex_start :: bstamp

text \<open>
  A context: \<open>cx_err n\<close> is its answer the \<open>n\<close>-th time one operation asks whether it is done. Its value
  under the key of the package is the guard of an execution.
\<close>

record bctx =
  cx_err :: "nat \<Rightarrow> bool"
  cx_deadline :: "gotime option"
  cx_guard :: "budget option"

definition Background :: bctx where
  "Background = \<lparr>cx_err = (\<lambda>_. False), cx_deadline = None, cx_guard = None\<rparr>"

text \<open>\<^verbatim>\<open>context.WithDeadline\<close>: \<open>timer\<close> tells when the new context's own timer has fired.\<close>

definition WithDeadline :: "bctx \<Rightarrow> gotime \<Rightarrow> (nat \<Rightarrow> bool) \<Rightarrow> bctx" where
  "WithDeadline parent d timer =
     (case cx_deadline parent of
        Some cur \<Rightarrow> if cur < d then parent else parent\<lparr>cx_deadline := Some d, cx_err := (\<lambda>n. cx_err parent n \<or> timer n)\<rparr>
      | None \<Rightarrow> parent\<lparr>cx_deadline := Some d, cx_err := (\<lambda>n. cx_err parent n \<or> timer n)\<rparr>)"

text \<open>\<open>boot\<close> is the answer of \<^verbatim>\<open>clock_gettime\<close>, seconds and nanoseconds.\<close>

definition nativeReading :: "gotime \<Rightarrow> gotime \<Rightarrow> (int \<times> int) option \<Rightarrow> reading option" where
  "nativeReading goTime wall boot =
     (case boot of
        None \<Rightarrow> None
      | Some (sec, nsec) \<Rightarrow>
          if sec < 0 \<or> nsec < 0 \<or> nano_per_second \<le> nsec \<or> MaxDuration div nano_per_second < sec then None
          else Some \<lparr>rd_goTime = goTime, rd_wall = wall, rd_boot = wrap64 (wrap64 (sec * nano_per_second) + nsec)\<rparr>)"

text \<open>\<open>fresh\<close> is the address of the new clock.\<close>

definition NewClock :: "nat \<Rightarrow> reading option \<Rightarrow> clock_ref" where
  "NewClock fresh native = (if native = None then None else Some fresh)"

definition Capture :: "clock_ref \<Rightarrow> reading option \<Rightarrow> bstamp option" where
  "Capture c read =
     (case (c, read) of
        (Some k, Some r) \<Rightarrow>
          if IsZero (rd_goTime r) \<or> IsZero (rd_wall r) \<or> rd_boot r < 0 \<or> MaxDuration - seconds 134 < rd_boot r then None
          else Some \<lparr>st_clock = c, st_reading = r\<rparr>
      | _ \<Rightarrow> None)"

definition continuousWithin :: "bstamp \<Rightarrow> bstamp \<Rightarrow> duration \<Rightarrow> bool" where
  "continuousWithin from to maximum =
     (if st_clock from = None \<or> st_clock from \<noteq> st_clock to \<or> st_boot to < st_boot from \<or> st_wall to < st_wall from
      then False
      else let boot = wrap64 (st_boot to - st_boot from)
        in if maximum < boot then False
           else let mono = Sub (st_goTime to) (st_goTime from);
                    wall = Sub (st_wall to) (st_wall from)
             in 0 \<le> mono \<and> wrap64 (boot - continuity) \<le> mono \<and> mono \<le> wrap64 (boot + continuity)
                \<and> wrap64 (boot - continuity) \<le> wall \<and> wall \<le> wrap64 (boot + continuity))"

definition continuous :: "bstamp \<Rightarrow> bstamp \<Rightarrow> bool" where
  "continuous from to = continuousWithin from to (seconds 134)"

definition reportContinuous :: "bstamp \<Rightarrow> bstamp \<Rightarrow> bool" where
  "reportContinuous from to \<longleftrightarrow>
     wrap64 (st_boot to - st_boot from) < seconds 5 + seconds 15 + seconds 119 \<and> continuousWithin from to (seconds 139)"

definition serverBracket :: "gotime \<Rightarrow> bstamp \<Rightarrow> bstamp \<Rightarrow> bool" where
  "serverBracket server send recv \<longleftrightarrow>
     continuous send recv \<and> \<not> IsZero server \<and> - skew \<le> Sub server (st_wall recv) \<and> Sub server (st_wall send) \<le> skew"

section \<open>Readiness and conversations\<close>

definition ObserveServerTime :: "clock_ref \<Rightarrow> gotime \<Rightarrow> bstamp \<Rightarrow> bstamp \<Rightarrow> readiness option" where
  "ObserveServerTime c server send recv =
     (if st_clock send \<noteq> c \<or> st_clock recv \<noteq> c \<or> \<not> serverBracket server send recv then None
      else Some \<lparr>re_clock = c, re_origin = send, re_recv = recv\<rparr>)"

definition ObserveControlTime :: "clock_ref \<Rightarrow> gotime \<Rightarrow> bstamp \<Rightarrow> bstamp \<Rightarrow> readiness option" where
  "ObserveControlTime c server send recv =
     (if st_clock send \<noteq> c \<or> st_clock recv \<noteq> c \<or> \<not> continuous send recv
         \<or> seconds 5 \<le> wrap64 (st_boot recv - st_boot send) then None
      else ObserveServerTime c server send recv)"

definition Begin :: "clock_ref \<Rightarrow> readiness option \<Rightarrow> reading option \<Rightarrow> conversation option" where
  "Begin c r read =
     (case (Capture c read, r) of
        (Some now, Some r) \<Rightarrow>
          if re_clock r \<noteq> c \<or> \<not> continuous (re_origin r) now \<or> seconds 15 < wrap64 (st_boot now - st_boot (re_recv r))
             \<or> st_boot now < st_boot (re_recv r) then None
          else Some \<lparr>cv_clock = c, cv_readiness = Some r, cv_start = now, cv_used = False\<rparr>
      | _ \<Rightarrow> None)"

definition fullID :: "string \<Rightarrow> bool" where
  "fullID s = hex_string s 64"

definition budget_actionID :: "string \<Rightarrow> bool" where
  "budget_actionID s \<longleftrightarrow> \<not> (length s \<noteq> 36 \<or> take 4 s \<noteq> ''hla_'') \<and> list_all lower_hex (drop 4 s)"

text \<open>
  The claim is encoded and read back. Only \<open>Begin\<close> makes conversations with a clock, and it gives them a
  readiness.
\<close>

definition marshal_claim :: "claim \<Rightarrow> string option" where
  "marshal_claim c =
     (if grace_MarshalJSON (pa_StopGraceSeconds (rr_Parameters (cl_Request c))) = None then None
      else Some (json_print (claim_json c)))"

definition accept_checks :: "conversation \<Rightarrow> readiness \<Rightarrow> claim \<Rightarrow> duration \<Rightarrow> string \<Rightarrow> bstamp \<Rightarrow> bool" where
  "accept_checks c r claim rtt containerID now =
     (case (marshal_claim claim, ParseHTTPTime (cl_ClaimedAt claim)) of
        (Some raw, Some claimed) \<Rightarrow>
          \<not> (DecodeClaim raw \<noteq> Some claim \<or> \<not> continuous (re_origin r) now
             \<or> seconds 30 \<le> wrap64 (st_boot now - st_boot (cv_start c)) \<or> st_boot now < st_boot (cv_start c)
             \<or> rtt < 0 \<or> seconds 30 < rtt \<or> wrap64 (st_boot now - st_boot (cv_start c)) < rtt
             \<or> \<not> serverBracket claimed (cv_start c) now \<or> \<not> fullID containerID)
      | _ \<Rightarrow> False)"

definition AcceptClaim ::
  "claim \<Rightarrow> duration \<Rightarrow> string \<Rightarrow> reading option \<Rightarrow> conversation \<Rightarrow> execution option \<times> conversation" where
  "AcceptClaim claim rtt containerID read c =
     (if cv_used c then (None, c)
      else
        let c' = c\<lparr>cv_used := True\<rparr>
        in case (Capture (cv_clock c) read, cv_readiness c) of
             (Some now, Some r) \<Rightarrow>
               if \<not> accept_checks c r claim rtt containerID now then (None, c')
               else (case ReceiptDigest (cl_Request claim) of
                   None \<Rightarrow> (None, c')
                 | Some digest \<Rightarrow>
                     let end_boot = wrap64 (st_boot (cv_start c) + min (seconds 89) (wrap64 (rtt + seconds 60)))
                     in if end_boot \<le> st_boot now then (None, c')
                        else (Some
                          \<lparr>ex_guard = \<lparr>bg_clock = cv_clock c, bg_origin = re_origin r, bg_deadline = end_boot,
                             bg_kind = executionPhase, bg_actionID = rr_ActionID (cl_Request claim), bg_digest = digest,
                             bg_containerID = containerID, bg_operation = rr_Operation (cl_Request claim)\<rparr>,
                           ex_delivery = \<lparr>dl_StartedAt = st_goTime (cv_start c), dl_ReceivedAt = st_goTime (cv_start c) + rtt,
                             dl_LeaseDeadline = st_goTime (cv_start c) + seconds 119\<rparr>,
                           ex_start = cv_start c\<rparr>, c'))
           | _ \<Rightarrow> (None, c'))"

definition CheckDelivery :: "bctx option \<Rightarrow> reading option \<Rightarrow> conversation \<Rightarrow> bool" where
  "CheckDelivery parent read c =
     (case parent of
        None \<Rightarrow> False
      | Some p \<Rightarrow>
          if cx_err p 0 then False
          else if cx_err p 1 \<or> cv_used c \<or> cv_clock c = None then False
          else (case cv_readiness c of
              None \<Rightarrow> False
            | Some r \<Rightarrow>
                if re_clock r \<noteq> cv_clock c \<or> st_clock (cv_start c) \<noteq> cv_clock c then False
                else (case Capture (cv_clock c) read of
                    None \<Rightarrow> False
                  | Some now \<Rightarrow>
                      \<not> (cx_err p 2 \<or> \<not> continuous (re_origin r) now \<or> \<not> continuous (cv_start c) now
                         \<or> seconds 30 \<le> wrap64 (st_boot now - st_boot (cv_start c))))))"

definition DeliveryContext :: "bctx option \<Rightarrow> reading option \<Rightarrow> (nat \<Rightarrow> bool) \<Rightarrow> conversation \<Rightarrow> bctx option" where
  "DeliveryContext parent read timer c =
     (case parent of
        None \<Rightarrow> None
      | Some p \<Rightarrow>
          if \<not> CheckDelivery parent read c then None
          else let ctx = WithDeadline p (st_goTime (cv_start c) + seconds 30) timer
            in if cx_err ctx 3 then None else Some ctx)"

section \<open>Executions\<close>

definition execution_Context :: "execution option \<Rightarrow> bctx option \<Rightarrow> bctx option" where
  "execution_Context e parent =
     (case (e, parent) of (Some e, Some p) \<Rightarrow> Some (p\<lparr>cx_guard := Some (ex_guard e)\<rparr>) | _ \<Rightarrow> None)"

definition execution_Delivery :: "execution option \<Rightarrow> delivery" where
  "execution_Delivery e =
     (case e of None \<Rightarrow> \<lparr>dl_StartedAt = 0, dl_ReceivedAt = 0, dl_LeaseDeadline = 0\<rparr> | Some x \<Rightarrow> ex_delivery x)"

definition checked :: "bctx option \<Rightarrow> nat \<Rightarrow> reading option \<Rightarrow> budget option" where
  "checked ctx kind read =
     (case ctx of
        None \<Rightarrow> None
      | Some x \<Rightarrow>
          if cx_err x 0 then None
          else (case cx_guard x of
              None \<Rightarrow> None
            | Some b \<Rightarrow>
                if bg_kind b \<noteq> kind then None
                else (case Capture (bg_clock b) read of
                    None \<Rightarrow> None
                  | Some now \<Rightarrow>
                      if cx_err x 1 \<or> \<not> continuous (bg_origin b) now \<or> bg_deadline b \<le> st_boot now
                         \<or> seconds 134 < wrap64 (st_boot now - st_boot (bg_origin b)) then None
                      else Some b)))"

definition CheckExecution :: "bctx option \<Rightarrow> string \<Rightarrow> bytes \<Rightarrow> reading option \<Rightarrow> bool" where
  "CheckExecution ctx actionID digest read =
     (case checked ctx executionPhase read of
        None \<Rightarrow> False
      | Some b \<Rightarrow> \<not> (bg_actionID b \<noteq> actionID \<or> bg_digest b \<noteq> digest))"

definition CheckMutation :: "bctx option \<Rightarrow> string \<Rightarrow> operation \<Rightarrow> reading option \<Rightarrow> bool" where
  "CheckMutation ctx containerID op read =
     (case checked ctx executionPhase read of
        None \<Rightarrow> False
      | Some b \<Rightarrow> \<not> (bg_containerID b \<noteq> containerID \<or> bg_operation b \<noteq> op))"

definition CheckDecision :: "execution option \<Rightarrow> bstamp \<Rightarrow> bstamp \<Rightarrow> gotime \<Rightarrow> reading option \<Rightarrow> bool" where
  "CheckDecision e send recv checkedAt read =
     (case e of
        None \<Rightarrow> False
      | Some x \<Rightarrow>
          let g = ex_guard x
          in if bg_kind g \<noteq> executionPhase \<or> st_clock send \<noteq> bg_clock g \<or> st_clock recv \<noteq> bg_clock g
                \<or> \<not> continuous (bg_origin g) send \<or> \<not> continuous (bg_origin g) recv \<or> \<not> serverBracket checkedAt send recv
                \<or> seconds 5 \<le> wrap64 (st_boot recv - st_boot send) then False
             else CheckExecution (execution_Context e (Some Background)) (bg_actionID g) (bg_digest g) read)"

definition CheckReport :: "execution option \<Rightarrow> bctx option \<Rightarrow> reading option \<Rightarrow> bool" where
  "CheckReport e ctx read =
     (case (e, ctx) of
        (Some x, Some p) \<Rightarrow>
          let g = ex_guard x
          in if cx_err p 0 \<or> bg_kind g \<noteq> executionPhase \<or> \<not> budget_actionID (bg_actionID g)
                \<or> st_clock (ex_start x) \<noteq> bg_clock g \<or> \<not> continuous (bg_origin g) (ex_start x) then False
             else (case Capture (bg_clock g) read of
                 None \<Rightarrow> False
               | Some now \<Rightarrow>
                   \<not> (cx_err p 1 \<or> \<not> reportContinuous (bg_origin g) now \<or> st_boot now < st_boot (ex_start x)
                      \<or> seconds 119 \<le> wrap64 (st_boot now - st_boot (ex_start x))))
      | _ \<Rightarrow> False)"

section \<open>Quiescence\<close>

definition CheckQuiescence :: "clock_ref \<Rightarrow> bctx option \<Rightarrow> bstamp \<Rightarrow> reading option \<Rightarrow> bool" where
  "CheckQuiescence c parent original read =
     (case parent of
        None \<Rightarrow> False
      | Some p \<Rightarrow>
          if c = None \<or> cx_err p 0 \<or> st_clock original \<noteq> c then False
          else (case Capture c read of
              None \<Rightarrow> False
            | Some now \<Rightarrow>
                let limit = (case cx_deadline p of
                      None \<Rightarrow> seconds 75
                    | Some deadline \<Rightarrow> min (seconds 75) (Sub deadline (st_goTime original)))
                in \<not> (cx_err p 1 \<or> \<not> continuous original now \<or> limit \<le> 0
                      \<or> limit \<le> wrap64 (st_boot now - st_boot original))))"

definition QuiescenceContext :: "clock_ref \<Rightarrow> bctx option \<Rightarrow> bstamp \<Rightarrow> reading option \<Rightarrow> (nat \<Rightarrow> bool) \<Rightarrow> bctx option" where
  "QuiescenceContext c parent original read timer =
     (case parent of
        None \<Rightarrow> None
      | Some p \<Rightarrow>
          if \<not> CheckQuiescence c parent original read then None
          else let ctx = WithDeadline p (st_goTime original + seconds 75) timer
            in if cx_err ctx 2 then None else Some ctx)"

section \<open>What a continuous pair of stamps means\<close>

text \<open>
  Captured stamps leave room for the longest interval, so that no difference of theirs wraps.
\<close>

definition captured :: "clock_ref \<Rightarrow> bstamp \<Rightarrow> bool" where
  "captured c s \<longleftrightarrow> c \<noteq> None \<and> st_clock s = c \<and> 0 \<le> st_boot s \<and> st_boot s \<le> MaxDuration - seconds 134"

lemmas budget_consts = continuity_def skew_def duration_defs MaxDuration_def MinDuration_def

lemma Capture_captured: "Capture c read = Some s \<Longrightarrow> captured c s \<and> read = Some (st_reading s)"
  by (auto simp: Capture_def captured_def split: option.splits if_splits)

lemma captured_diff:
  assumes "captured c s" "captured d t"
  shows "wrap64 (st_boot t - st_boot s) = st_boot t - st_boot s"
  using assms by (intro wrap64_id) (auto simp: captured_def budget_consts)

lemma captured_plus:
  assumes "captured c s" "0 \<le> d" "d \<le> seconds 134"
  shows "wrap64 (st_boot s + d) = st_boot s + d"
  using assms by (intro wrap64_id) (auto simp: captured_def budget_consts)

lemma Sub_ge_iff: "MinDuration < d \<Longrightarrow> d \<le> MaxDuration \<Longrightarrow> d \<le> Sub t u \<longleftrightarrow> d \<le> t - u"
  unfolding Sub_def MinDuration_def MaxDuration_def by auto

text \<open>Between continuous stamps the three clocks agree up to the continuity bound.\<close>

definition drift :: "bstamp \<Rightarrow> bstamp \<Rightarrow> bool" where
  "drift s t \<longleftrightarrow>
     st_boot s \<le> st_boot t \<and> st_wall s \<le> st_wall t \<and> st_goTime s \<le> st_goTime t
     \<and> \<bar>(st_goTime t - st_goTime s) - (st_boot t - st_boot s)\<bar> \<le> continuity
     \<and> \<bar>(st_wall t - st_wall s) - (st_boot t - st_boot s)\<bar> \<le> continuity"

lemma continuousWithin_iff:
  assumes "captured c s" "captured d t" "0 \<le> maximum" "maximum \<le> seconds 139"
  shows "continuousWithin s t maximum \<longleftrightarrow> c = d \<and> st_boot t - st_boot s \<le> maximum \<and> drift s t"
proof (cases "st_boot s \<le> st_boot t \<and> st_boot t - st_boot s \<le> maximum")
  case True
  define b where "b = st_boot t - st_boot s"
  have b: "0 \<le> b" "b \<le> seconds 139" "b \<le> maximum" using True assms(4) by (auto simp: b_def)
  have w: "wrap64 b = b" "wrap64 (b - continuity) = b - continuity" "wrap64 (b + continuity) = b + continuity"
    using b by (auto intro!: wrap64_id simp: budget_consts)
  have sub: "Sub x y \<le> b + continuity \<longleftrightarrow> x - y \<le> b + continuity" "b - continuity \<le> Sub x y \<longleftrightarrow> b - continuity \<le> x - y"
    "0 \<le> Sub x y \<longleftrightarrow> 0 \<le> x - y" for x y
    using b Sub_ge_iff [of 0 x y] by (auto intro!: Sub_le_iff Sub_ge_iff simp: budget_consts)
  show ?thesis
    using True b(3) assms(1,2) unfolding continuousWithin_def w Let_def sub drift_def b_def [symmetric]
    by (auto simp: captured_def abs_le_iff)
next
  case False
  then show ?thesis
    by (auto simp: continuousWithin_def captured_diff [OF assms(1,2)] drift_def)
qed

lemma continuous_iff:
  "captured c s \<Longrightarrow> captured d t \<Longrightarrow> continuous s t \<longleftrightarrow> c = d \<and> st_boot t - st_boot s \<le> seconds 134 \<and> drift s t"
  by (simp add: continuous_def continuousWithin_iff seconds_def)

lemma reportContinuous_iff:
  "captured c s \<Longrightarrow> captured d t \<Longrightarrow>
   reportContinuous s t \<longleftrightarrow> c = d \<and> st_boot t - st_boot s < seconds 139 \<and> drift s t"
  by (auto simp: reportContinuous_def continuousWithin_iff captured_diff seconds_def)

text \<open>Two stamps that drift little from a common origin drift little from each other.\<close>

lemma drift_common:
  assumes "drift u s" "drift u t"
  shows "st_goTime t - st_goTime s \<le> st_boot t - st_boot s + 2 * continuity"
    "st_wall t - st_wall s \<le> st_boot t - st_boot s + 2 * continuity"
  using assms by (auto simp: drift_def)

section \<open>Conversations and executions\<close>

definition readiness_ok :: "readiness \<Rightarrow> bool" where
  "readiness_ok r \<longleftrightarrow> captured (re_clock r) (re_origin r) \<and> captured (re_clock r) (re_recv r) \<and> drift (re_origin r) (re_recv r)"

definition conversation_ok :: "conversation \<Rightarrow> bool" where
  "conversation_ok c \<longleftrightarrow>
     (\<exists>r. cv_readiness c = Some r \<and> readiness_ok r \<and> re_clock r = cv_clock c \<and> captured (cv_clock c) (cv_start c)
        \<and> st_boot (cv_start c) - st_boot (re_origin r) \<le> seconds 134 \<and> drift (re_origin r) (cv_start c)
        \<and> st_boot (re_recv r) \<le> st_boot (cv_start c) \<and> st_boot (cv_start c) \<le> st_boot (re_recv r) + seconds 15)"

lemma ObserveServerTime_ok:
  assumes "ObserveServerTime c server send recv = Some r" "captured d send" "captured d' recv"
  shows "readiness_ok r \<and> re_clock r = c \<and> server - st_wall recv \<ge> - skew \<and> server - st_wall send \<le> skew"
proof -
  have r: "r = \<lparr>re_clock = c, re_origin = send, re_recv = recv\<rparr>" and c: "st_clock send = c" "st_clock recv = c"
    and br: "serverBracket server send recv"
    using assms(1) by (auto simp: ObserveServerTime_def split: if_splits)
  have "captured c send" "captured c recv" using assms(2,3) c by (auto simp: captured_def)
  then show ?thesis
    using br by (auto simp: r serverBracket_def readiness_ok_def continuous_iff Sub_def budget_consts max_def min_def split: if_splits)
qed

lemma ObserveControlTime_server:
  "ObserveControlTime c server send recv = Some r \<Longrightarrow> ObserveServerTime c server send recv = Some r"
  by (simp add: ObserveControlTime_def split: if_splits)

lemma Begin_ok:
  assumes "Begin c (Some r) read = Some v" "readiness_ok r"
  shows "conversation_ok v \<and> \<not> cv_used v \<and> cv_clock v = c \<and> cv_readiness v = Some r"
proof -
  obtain now where now: "Capture c read = Some now" and v: "v = \<lparr>cv_clock = c, cv_readiness = Some r, cv_start = now, cv_used = False\<rparr>"
    and cl: "re_clock r = c" and ct: "continuous (re_origin r) now"
    and recv: "wrap64 (st_boot now - st_boot (re_recv r)) \<le> seconds 15" "st_boot (re_recv r) \<le> st_boot now"
    using assms(1) by (auto simp: Begin_def split: option.splits if_splits)
  have c: "captured c now" using Capture_captured [OF now] by simp
  have oc: "captured c (re_origin r)" "captured c (re_recv r)" using assms(2) cl by (auto simp: readiness_ok_def)
  show ?thesis
    using ct recv assms(2) by (auto simp: v conversation_ok_def cl c continuous_iff [OF oc(1) c] captured_diff [OF oc(2) c])
qed

text \<open>A conversation accepts a claim at most once.\<close>

lemma AcceptClaim_used: "AcceptClaim cl rtt cid read c = (e, c') \<Longrightarrow> cv_used c' \<and> c' = c\<lparr>cv_used := True\<rparr>"
  by (cases "cv_used c") (auto simp: AcceptClaim_def Let_def split: option.splits if_splits)

lemma AcceptClaim_again: "cv_used c \<Longrightarrow> AcceptClaim cl rtt cid read c = (None, c)"
  by (simp add: AcceptClaim_def)

lemma AcceptClaim_keeps: "AcceptClaim cl rtt cid read c = (e, c') \<Longrightarrow> conversation_ok c \<Longrightarrow> conversation_ok c'"
  by (auto dest!: AcceptClaim_used simp: conversation_ok_def)

text \<open>The execution of an accepted claim.\<close>

definition accepted :: "conversation \<Rightarrow> readiness \<Rightarrow> claim \<Rightarrow> duration \<Rightarrow> string \<Rightarrow> bstamp \<Rightarrow> execution \<Rightarrow> bool" where
  "accepted c r cl rtt cid now e \<longleftrightarrow>
     DecodeClaim (json_print (claim_json cl)) = Some cl
     \<and> bg_clock (ex_guard e) = cv_clock c \<and> bg_origin (ex_guard e) = re_origin r \<and> bg_kind (ex_guard e) = executionPhase
     \<and> bg_deadline (ex_guard e) = st_boot (cv_start c) + min (seconds 89) (rtt + seconds 60)
     \<and> bg_actionID (ex_guard e) = rr_ActionID (cl_Request cl) \<and> ReceiptDigest (cl_Request cl) = Some (bg_digest (ex_guard e))
     \<and> bg_containerID (ex_guard e) = cid \<and> bg_operation (ex_guard e) = rr_Operation (cl_Request cl)
     \<and> ex_start e = cv_start c \<and> ex_delivery e = \<lparr>dl_StartedAt = st_goTime (cv_start c),
          dl_ReceivedAt = st_goTime (cv_start c) + rtt, dl_LeaseDeadline = st_goTime (cv_start c) + seconds 119\<rparr>
     \<and> fullID cid \<and> 0 \<le> rtt \<and> rtt \<le> st_boot now - st_boot (cv_start c) \<and> st_boot now < st_boot (cv_start c) + seconds 30
     \<and> drift (re_origin r) now \<and> drift (cv_start c) now
     \<and> (\<exists>claimed. ParseHTTPTime (cl_ClaimedAt cl) = Some claimed
          \<and> st_wall now - skew \<le> claimed \<and> claimed \<le> st_wall (cv_start c) + skew)"

lemma AcceptClaim_accepted:
  assumes "AcceptClaim cl rtt cid read c = (Some e, c')" "conversation_ok c"
  shows "\<exists>r now. cv_readiness c = Some r \<and> Capture (cv_clock c) read = Some now \<and> accepted c r cl rtt cid now e"
proof -
  obtain r where r: "cv_readiness c = Some r" "readiness_ok r" "re_clock r = cv_clock c" and st: "captured (cv_clock c) (cv_start c)"
    using assms(2) by (auto simp: conversation_ok_def)
  obtain now dg where now: "Capture (cv_clock c) read = Some now" and chk: "accept_checks c r cl rtt cid now"
    and dg: "ReceiptDigest (cl_Request cl) = Some dg"
    using assms(1) r(1) by (auto simp: AcceptClaim_def Let_def split: option.splits if_splits)
  have cn: "captured (cv_clock c) now" using Capture_captured [OF now] by simp
  have co: "captured (cv_clock c) (re_origin r)" using r by (auto simp: readiness_ok_def)
  have rtt: "0 \<le> rtt" "rtt \<le> seconds 30" using chk by (auto simp: accept_checks_def split: option.splits)
  have m: "wrap64 (rtt + seconds 60) = rtt + seconds 60" using rtt by (intro wrap64_id) (auto simp: budget_consts)
  have e: "wrap64 (st_boot (cv_start c) + min (seconds 89) (rtt + seconds 60)) = st_boot (cv_start c) + min (seconds 89) (rtt + seconds 60)"
    using rtt by (intro captured_plus [OF st]) (auto simp: seconds_def)
  have ex: "e = \<lparr>ex_guard = \<lparr>bg_clock = cv_clock c, bg_origin = re_origin r,
       bg_deadline = st_boot (cv_start c) + min (seconds 89) (rtt + seconds 60), bg_kind = executionPhase,
       bg_actionID = rr_ActionID (cl_Request cl), bg_digest = dg, bg_containerID = cid, bg_operation = rr_Operation (cl_Request cl)\<rparr>,
     ex_delivery = \<lparr>dl_StartedAt = st_goTime (cv_start c), dl_ReceivedAt = st_goTime (cv_start c) + rtt,
       dl_LeaseDeadline = st_goTime (cv_start c) + seconds 119\<rparr>, ex_start = cv_start c\<rparr>"
    using assms(1) r(1) now chk dg by (auto simp: AcceptClaim_def Let_def m e split: if_splits)
  have "accepted c r cl rtt cid now e"
    using chk rtt(1) unfolding accepted_def ex accept_checks_def marshal_claim_def serverBracket_def
      continuous_iff [OF co cn] continuous_iff [OF st cn] captured_diff [OF st cn]
    by (auto simp: dg Sub_def budget_consts split: option.splits if_splits)
  then show ?thesis using r(1) now by blast
qed

text \<open>A check of an execution's context that succeeds, and the reading it was made with.\<close>

lemma checked_facts:
  assumes "checked (execution_Context (Some e) p) kind read = Some b" "captured (bg_clock (ex_guard e)) (bg_origin (ex_guard e))"
  shows "b = ex_guard e \<and> (\<exists>now. Capture (bg_clock b) read = Some now \<and> captured (bg_clock b) now
           \<and> drift (bg_origin b) now \<and> st_boot now < bg_deadline b)"
proof -
  obtain q where p: "p = Some q" using assms(1) by (auto simp: checked_def execution_Context_def split: option.splits)
  have b: "b = ex_guard e" using assms(1) by (auto simp: p checked_def execution_Context_def split: option.splits if_splits)
  obtain now where now: "Capture (bg_clock b) read = Some now" and c: "continuous (bg_origin b) now" "st_boot now < bg_deadline b"
    using assms(1) by (auto simp: p b checked_def execution_Context_def split: option.splits if_splits)
  have "captured (bg_clock b) now" using Capture_captured [OF now] by simp
  then show ?thesis using c now assms(2) by (auto simp: b continuous_iff)
qed

lemma CheckMutation_facts:
  assumes "CheckMutation (execution_Context (Some e) p) cid op read" "captured (bg_clock (ex_guard e)) (bg_origin (ex_guard e))"
  shows "bg_containerID (ex_guard e) = cid \<and> bg_operation (ex_guard e) = op
    \<and> (\<exists>now. Capture (bg_clock (ex_guard e)) read = Some now \<and> drift (bg_origin (ex_guard e)) now
         \<and> st_boot now < bg_deadline (ex_guard e))"
  using assms by (auto simp: CheckMutation_def split: option.splits dest!: checked_facts)

text \<open>The native reading never wraps into a plausible value.\<close>

lemma nativeReading_exact:
  assumes "nativeReading g w (Some (sec, nsec)) = Some r" "Capture c (Some r) = Some s"
  shows "st_boot s = sec * nano_per_second + nsec"
proof -
  have b: "0 \<le> sec" "0 \<le> nsec" "nsec < nano_per_second" "sec \<le> MaxDuration div nano_per_second"
    and r: "rd_boot r = wrap64 (wrap64 (sec * nano_per_second) + nsec)"
    using assms(1) by (auto simp: nativeReading_def split: if_splits)
  have s: "st_reading s = r" and ge: "0 \<le> rd_boot r"
    using Capture_captured [OF assms(2)] by (auto simp: captured_def)
  have le: "sec * nano_per_second \<le> MaxDuration" using b(1,4) by (simp add: MaxDuration_def)
  have w: "wrap64 (sec * nano_per_second) = sec * nano_per_second"
    using le b(1) by (intro wrap64_id) (auto simp: MinDuration_def)
  show ?thesis
  proof (cases "sec * nano_per_second + nsec \<le> MaxDuration")
    case True
    then show ?thesis using b(1,2) unfolding s r w by (intro wrap64_id) (auto simp: MinDuration_def)
  next
    case False
    have "wrap64 (sec * nano_per_second + nsec) = wrap64 (sec * nano_per_second + nsec - 2 ^ 64)"
      unfolding wrap64_def
      by (rule arg_cong [where f = sint], unfold word_of_int_eq_iff take_bit_eq_mod) (simp add: mod_diff_right_eq [symmetric])
    also have "\<dots> = sec * nano_per_second + nsec - 2 ^ 64"
      using False le b(2,3) by (intro wrap64_id) (auto simp: MinDuration_def MaxDuration_def)
    finally show ?thesis using ge le b(3) unfolding r w by (simp add: MaxDuration_def)
  qed
qed

end
