(* ===== verification/BrokerPolicy.thy ===== *)
theory BrokerPolicy
  imports ProtocolLocal ActionBudget
begin

text \<open>
  The private policy of the action broker, \<^verbatim>\<open>internal/actionbroker/policy.go\<close>, \<^verbatim>\<open>policy_binding.go\<close>,
  \<^verbatim>\<open>broker_files.go\<close> and \<^verbatim>\<open>policyEntries\<close> of \<^verbatim>\<open>control_linux.go\<close>: the mappings from approved targets to
  containers, the loops that validate them, the canonical document, the resolution of a remote receipt
  to one mapping, and the entries a policy advertises. Operations that only return \<^verbatim>\<open>ErrPolicy\<close> return
  whether they succeed.
\<close>

section \<open>Documents\<close>

definition policyBytes :: nat where "policyBytes = 2 * 1024 * 1024"

record mapping_document =
  md_ServerID :: string
  md_OwnerUserID :: string
  md_ConnectorInstanceID :: string
  md_TargetID :: string
  md_EngineGeneration :: string
  md_ContainerID :: string
  md_PolicyRevision :: string
  md_CapabilityRevision :: string
  md_Operation :: operation
  md_Parameters :: parameters
  md_MappingRevision :: string

record policy_document =
  pd_Version :: string
  pd_ServerID :: string
  pd_OwnerUserID :: string
  pd_ConnectorInstanceID :: string
  pd_Revision :: string
  pd_Current :: "string list option"
  pd_Mappings :: "mapping_document list option"

abbreviation localHex :: "string \<Rightarrow> nat \<Rightarrow> bool" where "localHex \<equiv> hex_string"

definition localID :: "string \<Rightarrow> string \<Rightarrow> bool" where
  "localID s prefix \<longleftrightarrow>
     length s = length prefix + 32 \<and> take (length prefix) s = prefix \<and> localHex (drop (length prefix) s) 32"

definition localRevision :: "string \<Rightarrow> nat option" where
  "localRevision s =
     (if length s = 0 \<or> 19 < length s \<or> hd s < CHR ''1'' \<or> CHR ''9'' < hd s then None
      else if \<not> digits s \<or> 2 ^ 64 \<le> dec_val s then None
      else let n = dec_val s in if n \<le> 2 ^ 63 - 1 \<and> show_nat n = s then Some n else None)"

definition mapping_json :: "mapping_document \<Rightarrow> json" where
  "mapping_json m =
     JObj ([(''serverId'', JStr (md_ServerID m)), (''ownerUserId'', JStr (md_OwnerUserID m)),
       (''connectorInstanceId'', JStr (md_ConnectorInstanceID m)), (''targetId'', JStr (md_TargetID m)),
       (''engineGeneration'', JStr (md_EngineGeneration m)), (''containerId'', JStr (md_ContainerID m)),
       (''policyRevision'', JStr (md_PolicyRevision m)), (''capabilityRevision'', JStr (md_CapabilityRevision m)),
       (''operation'', JStr (operation_text (md_Operation m))), (''parameters'', parameters_json (md_Parameters m))] @
       (if md_MappingRevision m = [] then [] else [(''mappingRevision'', JStr (md_MappingRevision m))]))"

text \<open>\<^verbatim>\<open>json.Marshal\<close> fails on a grace period that cannot be encoded.\<close>

definition marshal_mapping :: "mapping_document \<Rightarrow> string option" where
  "marshal_mapping m =
     (if grace_MarshalJSON (pa_StopGraceSeconds (md_Parameters m)) = None then None else Some (json_print (mapping_json m)))"

definition semantic :: "mapping_document \<Rightarrow> string" where
  "semantic m = (case marshal_mapping (m\<lparr>md_MappingRevision := []\<rparr>) of None \<Rightarrow> [] | Some raw \<Rightarrow> raw)"

definition displayAlias :: "string \<Rightarrow> string" where
  "displayAlias container = ''ctr_'' @ hex_encode (take 8 (sha256 (bytes_of container)))"

definition validMapping :: "mapping_document \<Rightarrow> bool \<Rightarrow> bool" where
  "validMapping m revisionRequired \<longleftrightarrow>
     localID (md_ServerID m) ''srv_'' \<and> localID (md_OwnerUserID m) ''usr_'' \<and> localID (md_ConnectorInstanceID m) ''agent_''
     \<and> localID (md_TargetID m) ''hlt_'' \<and> localHex (md_EngineGeneration m) 32 \<and> localHex (md_ContainerID m) 64
     \<and> localRevision (md_PolicyRevision m) \<noteq> None \<and> localRevision (md_CapabilityRevision m) \<noteq> None
     \<and> (\<not> revisionRequired \<or> localRevision (md_MappingRevision m) \<noteq> None)
     \<and> ParameterDigest (md_Operation m) (md_Parameters m) \<noteq> None
     \<and> (case marshal_mapping m of None \<Rightarrow> False | Some raw \<Rightarrow> length raw \<le> 1024)"

section \<open>Validation\<close>

definition physical_text :: "mapping_document \<Rightarrow> string" where
  "physical_text m = md_EngineGeneration m @ '':'' @ md_ContainerID m"

definition pair_text :: "mapping_document \<Rightarrow> string" where
  "pair_text m = md_TargetID m @ '':'' @ operation_text (md_Operation m)"

text \<open>The loop over the mappings; its result is the map from revisions to mappings.\<close>

fun check_mappings ::
  "policy_document \<Rightarrow> nat \<Rightarrow> nat \<Rightarrow> string list \<Rightarrow> (string \<rightharpoonup> string) \<Rightarrow> (string \<rightharpoonup> mapping_document) \<Rightarrow>
   mapping_document list \<Rightarrow> (string \<rightharpoonup> mapping_document) option" where
  "check_mappings p head previous bySemantic targetBinding byRevision [] = Some byRevision"
| "check_mappings p head previous bySemantic targetBinding byRevision (m # ms) =
     (case localRevision (md_MappingRevision m) of
        None \<Rightarrow> None
      | Some n \<Rightarrow>
          if n \<le> previous \<or> head < n \<or> \<not> validMapping m True \<or> md_ServerID m \<noteq> pd_ServerID p
             \<or> md_OwnerUserID m \<noteq> pd_OwnerUserID p \<or> md_ConnectorInstanceID m \<noteq> pd_ConnectorInstanceID p then None
          else if semantic m \<in> set bySemantic then None
          else if (case targetBinding (md_TargetID m) of None \<Rightarrow> False | Some old \<Rightarrow> old \<noteq> physical_text m) then None
          else check_mappings p head n (semantic m # bySemantic) (targetBinding(md_TargetID m \<mapsto> physical_text m))
                 (byRevision(md_MappingRevision m \<mapsto> m)) ms)"

text \<open>A missing key of a Go map reads as the empty string.\<close>

definition lookup :: "(string \<rightharpoonup> string) \<Rightarrow> string \<Rightarrow> string" where
  "lookup f k = (case f k of None \<Rightarrow> [] | Some v \<Rightarrow> v)"

fun check_current ::
  "(string \<rightharpoonup> mapping_document) \<Rightarrow> nat \<Rightarrow> string list \<Rightarrow> (string \<rightharpoonup> string) \<Rightarrow> (string \<rightharpoonup> string) \<Rightarrow> string list \<Rightarrow> bool" where
  "check_current byRevision previous pairs aliases physicalTargets [] = True"
| "check_current byRevision previous pairs aliases physicalTargets (r # rs) =
     (case (localRevision r, byRevision r) of
        (Some n, Some m) \<Rightarrow>
          if n \<le> previous then False
          else
            let a = displayAlias (md_ContainerID m); ph = physical_text m; t = md_TargetID m
            in if pair_text m \<in> set pairs \<or> (lookup aliases a \<noteq> [] \<and> lookup aliases a \<noteq> t)
                  \<or> (lookup physicalTargets ph \<noteq> [] \<and> lookup physicalTargets ph \<noteq> t) then False
               else check_current byRevision n (pair_text m # pairs) (aliases(a \<mapsto> t)) (physicalTargets(ph \<mapsto> t)) rs
      | _ \<Rightarrow> False)"

definition validatePolicy :: "policy_document \<Rightarrow> bool" where
  "validatePolicy p =
     (case (localRevision (pd_Revision p), pd_Current p, pd_Mappings p) of
        (Some head, Some current, Some mappings) \<Rightarrow>
          if pd_Version p \<noteq> ''observer-action-policy/v1'' \<or> \<not> localID (pd_ServerID p) ''srv_''
             \<or> \<not> localID (pd_OwnerUserID p) ''usr_'' \<or> \<not> localID (pd_ConnectorInstanceID p) ''agent_''
             \<or> 32 < length current \<or> 1032 < length mappings then False
          else (case check_mappings p head 0 [] Map.empty Map.empty mappings of
              None \<Rightarrow> False
            | Some byRevision \<Rightarrow>
                if \<not> check_current byRevision 0 [] Map.empty Map.empty current then False
                else \<not> 1000 < int (length mappings) - int (length current))
      | _ \<Rightarrow> False)"

section \<open>The canonical document\<close>

fun shape_value :: "nat \<Rightarrow> json \<Rightarrow> bool" where
  "shape_value depth (JArr vs) \<longleftrightarrow> depth < 8 \<and> length vs \<le> 1032 \<and> (\<forall>v \<in> set vs. shape_value (Suc depth) v)"
| "shape_value depth (JObj ms) \<longleftrightarrow>
     depth < 8 \<and> length ms \<le> 16 \<and> distinct (map fst ms) \<and> (\<forall>(k, v) \<in> set ms. shape_value (Suc depth) v)"
| "shape_value depth _ \<longleftrightarrow> True"

definition shape_char :: "char \<Rightarrow> bool" where
  "shape_char c \<longleftrightarrow> \<not> (c < CHR 0x21 \<or> CHR 0x7E < c \<or> c = backslash)"

definition policyShape :: "string \<Rightarrow> json option" where
  "policyShape raw =
     (if length raw = 0 \<or> policyBytes < length raw then None
      else if \<not> list_all shape_char raw then None
      else (case json_parse raw of None \<Rightarrow> None | Some v \<Rightarrow> if shape_value 0 v then Some v else None))"

text \<open>
  Decoding into the structs. Texts that differ from the canonical ones in the names, the order or the
  presence of members are refused by the final comparison.
\<close>

definition mapping_names :: "string list" where
  "mapping_names = [''serverId'', ''ownerUserId'', ''connectorInstanceId'', ''targetId'', ''engineGeneration'', ''containerId'',
     ''policyRevision'', ''capabilityRevision'', ''operation'', ''parameters'', ''mappingRevision'']"

definition unmarshal_mapping :: "json \<Rightarrow> mapping_document option" where
  "unmarshal_mapping v =
     (case v of
        JObj ms \<Rightarrow>
          if \<not> set (map fst ms) \<subseteq> set mapping_names then None
          else do {
            server \<leftarrow> as_str (member ms ''serverId'');
            owner \<leftarrow> as_str (member ms ''ownerUserId'');
            connector \<leftarrow> as_str (member ms ''connectorInstanceId'');
            target \<leftarrow> as_str (member ms ''targetId'');
            generation \<leftarrow> as_str (member ms ''engineGeneration'');
            container \<leftarrow> as_str (member ms ''containerId'');
            policy \<leftarrow> as_str (member ms ''policyRevision'');
            capability \<leftarrow> as_str (member ms ''capabilityRevision'');
            op \<leftarrow> as_str (member ms ''operation'');
            params \<leftarrow> unmarshal_parameters (member ms ''parameters'');
            mapping \<leftarrow> as_str (member ms ''mappingRevision'');
            Some \<lparr>md_ServerID = server, md_OwnerUserID = owner, md_ConnectorInstanceID = connector, md_TargetID = target,
                  md_EngineGeneration = generation, md_ContainerID = container, md_PolicyRevision = policy,
                  md_CapabilityRevision = capability, md_Operation = text_operation op, md_Parameters = params,
                  md_MappingRevision = mapping\<rparr>
          }
      | _ \<Rightarrow> None)"

definition as_slice :: "(json \<Rightarrow> 'a option) \<Rightarrow> json \<Rightarrow> 'a list option option" where
  "as_slice f v =
     (case v of JNull \<Rightarrow> Some None | JArr vs \<Rightarrow> map_option Some (those (map f vs)) | _ \<Rightarrow> None)"

definition policy_names :: "string list" where
  "policy_names = [''version'', ''serverId'', ''ownerUserId'', ''connectorInstanceId'', ''revision'', ''current'', ''mappings'']"

definition unmarshal_policy :: "json \<Rightarrow> policy_document option" where
  "unmarshal_policy v =
     (case v of
        JObj ms \<Rightarrow>
          if \<not> set (map fst ms) \<subseteq> set policy_names then None
          else do {
            version \<leftarrow> as_str (member ms ''version'');
            server \<leftarrow> as_str (member ms ''serverId'');
            owner \<leftarrow> as_str (member ms ''ownerUserId'');
            connector \<leftarrow> as_str (member ms ''connectorInstanceId'');
            rev \<leftarrow> as_str (member ms ''revision'');
            current \<leftarrow> as_slice as_str (member ms ''current'');
            mappings \<leftarrow> as_slice unmarshal_mapping (member ms ''mappings'');
            Some \<lparr>pd_Version = version, pd_ServerID = server, pd_OwnerUserID = owner, pd_ConnectorInstanceID = connector,
                  pd_Revision = rev, pd_Current = current, pd_Mappings = mappings\<rparr>
          }
      | _ \<Rightarrow> None)"

text \<open>The slices of a document, empty where they are \<^verbatim>\<open>nil\<close>.\<close>

definition pd_mappings :: "policy_document \<Rightarrow> mapping_document list" where
  "pd_mappings p = (case pd_Mappings p of None \<Rightarrow> [] | Some ms \<Rightarrow> ms)"

definition pd_current :: "policy_document \<Rightarrow> string list" where
  "pd_current p = (case pd_Current p of None \<Rightarrow> [] | Some rs \<Rightarrow> rs)"

definition slice_json :: "('a \<Rightarrow> json) \<Rightarrow> 'a list option \<Rightarrow> json" where
  "slice_json f x = (case x of None \<Rightarrow> JNull | Some xs \<Rightarrow> JArr (map f xs))"

definition policy_json :: "policy_document \<Rightarrow> json" where
  "policy_json p =
     JObj [(''version'', JStr (pd_Version p)), (''serverId'', JStr (pd_ServerID p)), (''ownerUserId'', JStr (pd_OwnerUserID p)),
       (''connectorInstanceId'', JStr (pd_ConnectorInstanceID p)), (''revision'', JStr (pd_Revision p)),
       (''current'', slice_json JStr (pd_Current p)), (''mappings'', slice_json mapping_json (pd_Mappings p))]"

definition marshal_policy :: "policy_document \<Rightarrow> string option" where
  "marshal_policy p =
     (if list_all (\<lambda>m. grace_MarshalJSON (pa_StopGraceSeconds (md_Parameters m)) \<noteq> None) (pd_mappings p)
      then Some (json_print (policy_json p)) else None)"

definition decodePolicy :: "string \<Rightarrow> policy_document option" where
  "decodePolicy raw =
     do {
       v \<leftarrow> policyShape raw;
       p \<leftarrow> unmarshal_policy v;
       if \<not> validatePolicy p then None
       else if marshal_policy p \<noteq> Some raw then None
       else Some p
     }"

section \<open>Keys, receipts and entries\<close>

definition mappingForKey :: "action_key \<Rightarrow> mapping_document option" where
  "mappingForKey k =
     (if CanonicalJournalMetadata k = None then None
      else
        let r = jm_Request (ak_Metadata k);
            grace = (if ar_Operation r = Start then \<lparr>gr_Seconds = 0, gr_Null = True\<rparr>
                     else \<lparr>gr_Seconds = ar_GraceSeconds r, gr_Null = False\<rparr>);
            m = \<lparr>md_ServerID = ar_ServerID r, md_OwnerUserID = ar_OwnerID r, md_ConnectorInstanceID = ar_InstallationID r,
                 md_TargetID = ar_TargetID r, md_EngineGeneration = jm_EngineGeneration (ak_Metadata k),
                 md_ContainerID = jm_ContainerID (ak_Metadata k), md_PolicyRevision = show_nat (unat (ar_PolicyRevision r)),
                 md_CapabilityRevision = show_nat (unat (ar_CapabilityRevision r)), md_Operation = ar_Operation r,
                 md_Parameters = \<lparr>pa_FormatVersion = 1, pa_StopGraceSeconds = grace\<rparr>, md_MappingRevision = []\<rparr>
        in if ar_OwnerID r \<noteq> ar_ActorID r \<or> \<not> validMapping m False then None else Some m)"

record resolved_binding =
  rb_key :: action_key
  rb_binding :: action_binding
  rb_mappingRevision :: string
  rb_remoteDigest :: bytes

definition mapping_matches :: "policy_document \<Rightarrow> request_receipt \<Rightarrow> bool \<Rightarrow> mapping_document \<Rightarrow> bool" where
  "mapping_matches p r current m \<longleftrightarrow>
     \<not> (md_TargetID m \<noteq> rr_TargetID r \<or> md_Operation m \<noteq> rr_Operation r \<or> md_PolicyRevision m \<noteq> rr_PolicyRevision r
        \<or> md_CapabilityRevision m \<noteq> rr_CapabilityRevision r \<or> md_Parameters m \<noteq> rr_Parameters r
        \<or> (current \<and> md_MappingRevision m \<notin> set (pd_current p)))"

text \<open>The loop over the mappings: \<open>None\<close> when a second one matches.\<close>

fun select_mapping ::
  "(mapping_document \<Rightarrow> bool) \<Rightarrow> mapping_document option \<Rightarrow> mapping_document list \<Rightarrow> mapping_document option option" where
  "select_mapping f selected [] = Some selected"
| "select_mapping f selected (m # ms) =
     (if \<not> f m then select_mapping f selected ms
      else if selected \<noteq> None then None
      else select_mapping f (Some m) ms)"

text \<open>An instant or a number that does not parse is the zero value.\<close>

definition receipt_time :: "string \<Rightarrow> gotime" where
  "receipt_time s = (case ParseHTTPTime s of None \<Rightarrow> 0 | Some t \<Rightarrow> t)"

definition receipt_number :: "string \<Rightarrow> uint64" where
  "receipt_number s = (if s = [] \<or> \<not> digits s then 0 else if 2 ^ 64 \<le> dec_val s then 2 ^ 64 - 1 else of_nat (dec_val s))"

definition receipt_request :: "request_receipt \<Rightarrow> action_request" where
  "receipt_request r =
     \<lparr>ar_ActionID = rr_ActionID r, ar_ServerID = rr_ServerID r, ar_InstallationID = rr_ConnectorInstanceID r,
      ar_OwnerID = rr_OwnerUserID r, ar_ActorID = rr_ActorUserID r, ar_TargetID = rr_TargetID r, ar_Operation = rr_Operation r,
      ar_GraceSeconds = gr_Seconds (pa_StopGraceSeconds (rr_Parameters r)), ar_PolicyRevision = receipt_number (rr_PolicyRevision r),
      ar_CapabilityRevision = receipt_number (rr_CapabilityRevision r), ar_CreatedAt = receipt_time (rr_RequestedAt r),
      ar_ExpiresAt = receipt_time (rr_ExpiresAt r)\<rparr>"

definition receipt_binding :: "request_receipt \<Rightarrow> mapping_document \<Rightarrow> action_binding" where
  "receipt_binding r m =
     \<lparr>ab_ServerID = rr_ServerID r, ab_InstallationID = rr_ConnectorInstanceID r, ab_OwnerID = rr_OwnerUserID r,
      ab_TargetID = rr_TargetID r, ab_EngineGeneration = md_EngineGeneration m, ab_ContainerID = md_ContainerID m,
      ab_PolicyRevision = receipt_number (rr_PolicyRevision r), ab_CapabilityRevision = receipt_number (rr_CapabilityRevision r),
      ab_GraceSeconds = gr_Seconds (pa_StopGraceSeconds (rr_Parameters r)), ab_Operations = [rr_Operation r]\<rparr>"

definition resolveReceipt :: "policy_document \<Rightarrow> request_receipt \<Rightarrow> bool \<Rightarrow> resolved_binding option" where
  "resolveReceipt p r current =
     (if \<not> validatePolicy p \<or> \<not> ValidateRequest r \<or> rr_ServerID r \<noteq> pd_ServerID p \<or> rr_OwnerUserID r \<noteq> pd_OwnerUserID p
         \<or> rr_ConnectorInstanceID r \<noteq> pd_ConnectorInstanceID p then None
      else case select_mapping (mapping_matches p r current) None (pd_mappings p) of
        Some (Some m) \<Rightarrow>
          if rr_TargetKey r \<noteq> displayAlias (md_ContainerID m) then None
          else do {
            key \<leftarrow> NewJournalKey (receipt_request r) (receipt_binding r m);
            digest \<leftarrow> ReceiptDigest r;
            Some \<lparr>rb_key = key, rb_binding = receipt_binding r m, rb_mappingRevision = md_MappingRevision m, rb_remoteDigest = digest\<rparr>
          }
      | _ \<Rightarrow> None)"

text \<open>
  The advertised entries, sorted by target and operation; no two current mappings share both, so the
  order is determined.
\<close>

definition current_mappings :: "policy_document \<Rightarrow> mapping_document list" where
  "current_mappings p = filter (\<lambda>m. md_MappingRevision m \<in> set (pd_current p)) (pd_mappings p)"

definition mapping_entry :: "mapping_document \<Rightarrow> entry option" where
  "mapping_entry m =
     (case ParameterDigest (md_Operation m) (md_Parameters m) of
        None \<Rightarrow> None
      | Some hash \<Rightarrow> Some
          \<lparr>et_TargetID = md_TargetID m, et_TargetKey = displayAlias (md_ContainerID m), et_Operation = md_Operation m,
           et_Parameters = md_Parameters m, et_ParameterSHA256 = hash, et_PolicyRevision = md_PolicyRevision m,
           et_CapabilityRevision = md_CapabilityRevision m\<rparr>)"

definition policyEntries :: "policy_document \<Rightarrow> (entry list \<times> bytes) option" where
  "policyEntries p =
     (if \<not> validatePolicy p then None
      else do {
        unsorted \<leftarrow> those (map mapping_entry (current_mappings p));
        let entries = sort_key entry_key unsorted;
        if \<not> ValidateEntries (Some entries) then None
        else if list_all (\<lambda>e. grace_MarshalJSON (pa_StopGraceSeconds (et_Parameters e)) \<noteq> None) entries
        then Some (entries, sha256 (bytes_of (json_print (JArr (map entry_json entries)))))
        else None
      })"

section \<open>The engine approval and the journal's references\<close>

definition engineDocumentLimit :: nat where "engineDocumentLimit = 4096"

record engine_approval =
  ea_generation :: string
  ea_Device :: uint64
  ea_Inode :: uint64
  ea_GroupID :: uint32
  ea_digest :: bytes

text \<open>\<open>strconv.ParseUint\<close> of a text that is the decimal numeral of its value, below \<open>2 ^ bits\<close>.\<close>

definition exact_uint :: "nat \<Rightarrow> string \<Rightarrow> nat option" where
  "exact_uint bits s =
     (if s = [] \<or> \<not> digits s \<or> 2 ^ bits \<le> dec_val s \<or> show_nat (dec_val s) \<noteq> s then None else Some (dec_val s))"

definition approval_fields :: "string list" where
  "approval_fields = [''version'', ''engine_generation'', ''socket_device'', ''socket_inode'', ''socket_group_id'']"

definition approval_text :: "json \<Rightarrow> string option" where
  "approval_text v = (case v of JStr s \<Rightarrow> Some s | _ \<Rightarrow> None)"

definition decodeEngineApproval :: "string \<Rightarrow> engine_approval option" where
  "decodeEngineApproval raw =
     (if length raw = 0 \<or> engineDocumentLimit < length raw \<or> \<not> utf8_valid raw then None
      else case json_parse raw of
        Some (JObj ms) \<Rightarrow>
          if map fst ms \<noteq> approval_fields then None
          else do {
            values \<leftarrow> those (map (approval_text \<circ> snd) ms);
            device \<leftarrow> exact_uint 64 (values ! 2);
            inode \<leftarrow> exact_uint 64 (values ! 3);
            group \<leftarrow> exact_uint 32 (values ! 4);
            if values ! 0 \<noteq> ''observer-action-engine/v1'' \<or> \<not> localHex (values ! 1) 32 \<or> inode = 0 \<or> group = 0 then None
            else Some \<lparr>ea_generation = values ! 1, ea_Device = of_nat device, ea_Inode = of_nat inode, ea_GroupID = of_nat group,
                       ea_digest = sha256 (bytes_of raw)\<rparr>
          }
      | _ \<Rightarrow> None)"

definition validateEnginePolicy :: "policy_document \<Rightarrow> string \<Rightarrow> bool" where
  "validateEnginePolicy p generation =
     (if \<not> validatePolicy p \<or> \<not> localHex generation 32 then False
      else list_all (\<lambda>m. \<not> (md_MappingRevision m \<in> set (pd_current p) \<and> md_EngineGeneration m \<noteq> generation)) (pd_mappings p))"

definition validateMappingReferences :: "policy_document \<Rightarrow> action_key list \<Rightarrow> bool" where
  "validateMappingReferences p keys =
     (if \<not> validatePolicy p \<or> 1000 < length keys then False
      else list_all (\<lambda>k. case mappingForKey k of None \<Rightarrow> False | Some m \<Rightarrow> semantic m \<in> semantic ` set (pd_mappings p)) keys)"

definition requireEngineGeneration :: "action_key \<Rightarrow> string \<Rightarrow> bool" where
  "requireEngineGeneration k generation \<longleftrightarrow>
     \<not> (CanonicalJournalMetadata k = None \<or> \<not> localHex generation 32 \<or> jm_EngineGeneration (ak_Metadata k) \<noteq> generation)"

end
