(* ===== verification/BrokerPolicySpec.thy ===== *)
theory BrokerPolicySpec
  imports BrokerPolicy
begin

text \<open>
  What the policy of the action broker means: the specification \<open>policy_spec\<close> that the validation loops
  decide, the round trip of the canonical document, and what a resolved receipt says of the mapping it
  was resolved to.
\<close>

section \<open>What the validation accepts\<close>

text \<open>A loop that fills a map and refuses a second value for a key accepts the lists on which the key determines the value.\<close>

definition determines :: "('k \<rightharpoonup> 'v) \<Rightarrow> ('a \<Rightarrow> 'k) \<Rightarrow> ('a \<Rightarrow> 'v) \<Rightarrow> 'a list \<Rightarrow> bool" where
  "determines t f g xs \<longleftrightarrow>
     (\<forall>x \<in> set xs. \<forall>v. t (f x) = Some v \<longrightarrow> v = g x) \<and> (\<forall>x \<in> set xs. \<forall>y \<in> set xs. f x = f y \<longrightarrow> g x = g y)"

lemma determines_Cons:
  "determines t f g (x # xs) \<longleftrightarrow> (\<forall>v. t (f x) = Some v \<longrightarrow> v = g x) \<and> determines (t(f x \<mapsto> g x)) f g xs"
proof -
  have look: "(\<forall>v. (t(f x \<mapsto> g x)) (f y) = Some v \<longrightarrow> v = g y) \<longleftrightarrow>
      (f y = f x \<longrightarrow> g y = g x) \<and> (f y \<noteq> f x \<longrightarrow> (\<forall>v. t (f y) = Some v \<longrightarrow> v = g y))" for y
    by (cases "f y = f x") auto
  have upd: "determines (t(f x \<mapsto> g x)) f g xs \<longleftrightarrow>
      (\<forall>y \<in> set xs. f y = f x \<longrightarrow> g y = g x) \<and> (\<forall>y \<in> set xs. f y \<noteq> f x \<longrightarrow> (\<forall>v. t (f y) = Some v \<longrightarrow> v = g y))
      \<and> (\<forall>y \<in> set xs. \<forall>z \<in> set xs. f y = f z \<longrightarrow> g y = g z)"
    unfolding determines_def look by blast
  have "(\<forall>y \<in> set xs. \<forall>v. t (f y) = Some v \<longrightarrow> v = g y) \<longleftrightarrow>
      (\<forall>y \<in> set xs. f y \<noteq> f x \<longrightarrow> (\<forall>v. t (f y) = Some v \<longrightarrow> v = g y))"
    if "\<forall>v. t (f x) = Some v \<longrightarrow> v = g x" "\<forall>y \<in> set xs. f y = f x \<longrightarrow> g y = g x"
    using that by metis
  moreover have "determines t f g (x # xs) \<longleftrightarrow>
      (\<forall>v. t (f x) = Some v \<longrightarrow> v = g x) \<and> (\<forall>y \<in> set xs. f y = f x \<longrightarrow> g y = g x)
      \<and> (\<forall>y \<in> set xs. \<forall>v. t (f y) = Some v \<longrightarrow> v = g y) \<and> (\<forall>y \<in> set xs. \<forall>z \<in> set xs. f y = f z \<longrightarrow> g y = g z)"
    unfolding determines_def by (simp add: ball_conj_distrib eq_commute) blast
  ultimately show ?thesis unfolding upd by argo
qed

lemma determines_Nil [simp]: "determines t f g []"
  by (simp add: determines_def)

lemma localRevision_iff: "localRevision s = Some n \<longleftrightarrow> 1 \<le> n \<and> n \<le> 2 ^ 63 - 1 \<and> s = show_nat n"
proof -
  have "localRevision s = Some n \<longleftrightarrow> revision s \<and> n = dec_val s \<and> show_nat n = s"
    by (auto simp: localRevision_def revision_def Let_def split: if_splits)
  also have "\<dots> \<longleftrightarrow> 1 \<le> n \<and> n \<le> 2 ^ 63 - 1 \<and> s = show_nat n"
    unfolding revision_iff by (auto simp del: One_nat_def)
  finally show ?thesis .
qed

abbreviation mapping_number :: "mapping_document \<Rightarrow> nat" where
  "mapping_number m \<equiv> dec_val (md_MappingRevision m)"

definition mapping_of_policy :: "policy_document \<Rightarrow> nat \<Rightarrow> mapping_document \<Rightarrow> bool" where
  "mapping_of_policy p head m \<longleftrightarrow>
     validMapping m True \<and> mapping_number m \<le> head \<and> md_ServerID m = pd_ServerID p \<and> md_OwnerUserID m = pd_OwnerUserID p
     \<and> md_ConnectorInstanceID m = pd_ConnectorInstanceID p"

lemma validMapping_number:
  "validMapping m True \<Longrightarrow> localRevision (md_MappingRevision m) = Some (mapping_number m)"
  by (auto simp: validMapping_def localRevision_iff)

lemma check_mappings_iff:
  "check_mappings p head prev sem tb br ms = Some br' \<longleftrightarrow>
     list_all (mapping_of_policy p head) ms \<and> sorted_wrt (<) (prev # map mapping_number ms)
     \<and> distinct (map semantic ms) \<and> set (map semantic ms) \<inter> set sem = {}
     \<and> determines tb md_TargetID physical_text ms \<and> br' = fold (\<lambda>m b. b(md_MappingRevision m \<mapsto> m)) ms br"
proof (induction ms arbitrary: prev sem tb br)
  case Nil
  then show ?case by auto
next
  case (Cons m ms)
  show ?case
  proof (cases "localRevision (md_MappingRevision m)")
    case None
    then show ?thesis by (auto simp: mapping_of_policy_def dest: validMapping_number)
  next
    case (Some n)
    then have n: "n = mapping_number m" by (auto simp: localRevision_iff)
    have tb: "(case tb (md_TargetID m) of None \<Rightarrow> False | Some old \<Rightarrow> old \<noteq> physical_text m)
        \<longleftrightarrow> \<not> (\<forall>v. tb (md_TargetID m) = Some v \<longrightarrow> v = physical_text m)" by (auto split: option.splits)
    have "check_mappings p head prev sem tb br (m # ms) = Some br' \<longleftrightarrow>
        mapping_of_policy p head m \<and> prev < n \<and> semantic m \<notin> set sem \<and> (\<forall>v. tb (md_TargetID m) = Some v \<longrightarrow> v = physical_text m)
        \<and> check_mappings p head n (semantic m # sem) (tb(md_TargetID m \<mapsto> physical_text m)) (br(md_MappingRevision m \<mapsto> m)) ms = Some br'"
      unfolding check_mappings.simps Some option.case tb mapping_of_policy_def n by auto
    then show ?thesis
      unfolding Cons.IH determines_Cons fold_simps n by (auto dest: order.strict_trans)
  qed
qed

lemma fold_revisions:
  assumes "distinct (map md_MappingRevision ms)"
  shows "fold (\<lambda>m b. b(md_MappingRevision m \<mapsto> m)) ms br r = Some m \<longleftrightarrow>
     (m \<in> set ms \<and> md_MappingRevision m = r) \<or> (r \<notin> md_MappingRevision ` set ms \<and> br r = Some m)"
  using assms
proof (induction ms arbitrary: br)
  case (Cons x ms)
  then show ?case by (auto split: if_splits)
qed auto

text \<open>The second loop, on the mappings its revisions name.\<close>

definition named_by :: "(string \<rightharpoonup> mapping_document) \<Rightarrow> string list \<Rightarrow> mapping_document list" where
  "named_by br rs = map (\<lambda>r. the (br r)) rs"

abbreviation alias_of :: "mapping_document \<Rightarrow> string" where "alias_of m \<equiv> displayAlias (md_ContainerID m)"

lemma lookup_other:
  "[] \<notin> ran f \<Longrightarrow> \<not> (lookup f k \<noteq> [] \<and> lookup f k \<noteq> t) \<longleftrightarrow> (\<forall>v. f k = Some v \<longrightarrow> v = t)"
  by (auto simp: lookup_def ran_def split: option.splits)

lemma ran_update_nonempty: "[] \<notin> ran f \<Longrightarrow> t \<noteq> [] \<Longrightarrow> [] \<notin> ran (f(k \<mapsto> t))"
  by (auto simp: ran_def split: if_splits)

lemma check_current_iff:
  assumes "[] \<notin> ran al" "[] \<notin> ran ph" "\<And>r m. br r = Some m \<Longrightarrow> md_TargetID m \<noteq> []"
  shows "check_current br prev pairs al ph rs \<longleftrightarrow>
     (\<forall>r \<in> set rs. localRevision r \<noteq> None \<and> br r \<noteq> None) \<and> sorted_wrt (<) (prev # map dec_val rs)
     \<and> distinct (map pair_text (named_by br rs)) \<and> set (map pair_text (named_by br rs)) \<inter> set pairs = {}
     \<and> determines al alias_of md_TargetID (named_by br rs) \<and> determines ph physical_text md_TargetID (named_by br rs)"
  using assms(1,2)
proof (induction rs arbitrary: prev pairs al ph)
  case Nil
  then show ?case by (simp add: named_by_def)
next
  case (Cons r rs)
  show ?case
  proof (cases "localRevision r = None \<or> br r = None")
    case True
    then show ?thesis by (cases "localRevision r"; cases "br r") simp_all
  next
    case False
    then obtain n m where n: "localRevision r = Some n" and m: "br r = Some m" by auto
    have d: "n = dec_val r" using n by (auto simp: localRevision_iff)
    have t: "md_TargetID m \<noteq> []" by (rule assms(3) [OF m])
    have nb: "named_by br (r # rs) = m # named_by br rs" by (simp add: named_by_def m)
    note IH = Cons.IH [OF ran_update_nonempty [OF Cons.prems(1) t] ran_update_nonempty [OF Cons.prems(2) t]]
    show ?thesis
      unfolding check_current.simps n m prod.case option.case Let_def nb determines_Cons IH
      using lookup_other [OF Cons.prems(1), of "alias_of m" "md_TargetID m"] lookup_other [OF Cons.prems(2), of "physical_text m" "md_TargetID m"]
      by (auto simp: d n m dest: order.strict_trans)
  qed
qed

text \<open>The texts the loops compare determine what they are made of.\<close>

lemma localID_nonempty: "localID s p \<Longrightarrow> s \<noteq> []"
  by (auto simp: localID_def)

lemma physical_text_eq:
  assumes "length (md_EngineGeneration m) = 32" "length (md_EngineGeneration m') = 32"
  shows "physical_text m = physical_text m' \<longleftrightarrow> md_EngineGeneration m = md_EngineGeneration m' \<and> md_ContainerID m = md_ContainerID m'"
  using assms by (simp add: physical_text_def)

lemma pair_text_eq:
  assumes "validMapping m b" "validMapping m' b'"
  shows "pair_text m = pair_text m' \<longleftrightarrow> md_TargetID m = md_TargetID m' \<and> md_Operation m = md_Operation m'"
proof -
  have l: "length (md_TargetID m) = length (md_TargetID m')" using assms by (auto simp: validMapping_def localID_def)
  have k: "known_operation (md_Operation m)" "known_operation (md_Operation m')"
    using assms by (auto simp: validMapping_def ParameterDigest_def Let_def known_operation_def split: if_splits)
  then have "operation_text (md_Operation m) = operation_text (md_Operation m') \<longleftrightarrow> md_Operation m = md_Operation m'"
    by (auto simp: known_operation_def)
  then show ?thesis using l by (auto simp: pair_text_def)
qed

section \<open>Round trips\<close>

text \<open>Texts of printable characters that JSON does not escape.\<close>

definition plain_char :: "char \<Rightarrow> bool" where
  "plain_char c \<longleftrightarrow> shape_char c \<and> c \<notin> {dquote, CHR ''<'', CHR ''>'', CHR ''&''}"

definition plain :: "string \<Rightarrow> bool" where
  "plain s \<longleftrightarrow> list_all plain_char s"

lemma plain_hex: "lower_hex c \<Longrightarrow> plain_char c" "is_digit c \<Longrightarrow> plain_char c"
  by (auto simp: lower_hex_def is_digit_def plain_char_def shape_char_def less_eq_char_def less_char_def dquote_def backslash_def)

lemma plain_texts [simp]:
  "plain []" "plain (s @ t) \<longleftrightarrow> plain s \<and> plain t" "plain (c # s) \<longleftrightarrow> plain_char c \<and> plain s"
  by (auto simp: plain_def)

lemma plain_localHex: "localHex s n \<Longrightarrow> plain s"
  by (auto simp: plain_def hex_string_def list_all_iff plain_hex)

lemma plain_localID:
  assumes "localID s pre" "plain pre"
  shows "plain s"
proof -
  have "s = pre @ drop (length pre) s" using assms(1) by (metis append_take_drop_id localID_def)
  then show ?thesis using assms plain_localHex by (metis localID_def plain_texts(2))
qed

lemma plain_show_nat [simp]: "plain (show_nat n)"
  using digits_show_nat [of n] by (auto simp: digits_def plain_def list_all_iff plain_hex)

lemma plain_localRevision: "localRevision s \<noteq> None \<Longrightarrow> plain s"
  by (auto simp: localRevision_iff)

lemma plain_char_escape:
  assumes "plain_char c"
  shows "escape_char c = [c]"
proof -
  have ge: "33 \<le> (of_char c :: nat)" using assms by (simp add: plain_char_def shape_char_def less_char_def not_less)
  then have "c \<noteq> CHR 0x08" "c \<noteq> CHR 0x0C" "c \<noteq> CHR 0x0A" "c \<noteq> CHR 0x0D" "c \<noteq> CHR 0x09" by auto
  then show ?thesis using ge assms by (simp add: escape_char_def plain_char_def shape_char_def)
qed

lemma plain_escape: "plain s \<Longrightarrow> json_string s = dquote # s @ [dquote]"
  by (induction s) (auto simp: json_string_def plain_char_escape)

fun plain_json :: "json \<Rightarrow> bool" where
  "plain_json (JStr s) \<longleftrightarrow> plain s"
| "plain_json (JNum s) \<longleftrightarrow> plain s"
| "plain_json (JArr vs) \<longleftrightarrow> (\<forall>v \<in> set vs. plain_json v)"
| "plain_json (JObj ms) \<longleftrightarrow> (\<forall>(k, v) \<in> set ms. plain k \<and> plain_json v)"
| "plain_json _ \<longleftrightarrow> True"

definition shaped :: "string \<Rightarrow> bool" where
  "shaped s \<longleftrightarrow> list_all shape_char s"

lemma shaped_simps [simp]:
  "shaped []" "shaped (s @ t) \<longleftrightarrow> shaped s \<and> shaped t" "shaped (c # s) \<longleftrightarrow> shape_char c \<and> shaped s"
  by (auto simp: shaped_def)

lemma plain_shaped: "plain s \<Longrightarrow> shaped s"
  by (auto simp: plain_def shaped_def list_all_iff plain_char_def)

lemma shaped_join: "\<forall>x \<in> set xs. shaped x \<Longrightarrow> shaped (join '','' xs)"
  by (induction "'',''" xs rule: join.induct) (auto simp: shape_char_def less_char_def backslash_def)

lemma shaped_print: "plain_json v \<Longrightarrow> shaped (json_print v)"
proof (induction v)
  case (JArr vs)
  then show ?case by (auto intro!: shaped_join simp: shape_char_def less_char_def backslash_def)
next
  case (JObj ms)
  then have "\<forall>x \<in> set (map member_text ms). shaped x"
    by (force simp: plain_escape plain_shaped shape_char_def less_char_def backslash_def dquote_def)
  then show ?case using shaped_join by (auto simp: shape_char_def less_char_def backslash_def)
qed (auto simp: plain_escape plain_shaped shape_char_def less_char_def backslash_def dquote_def)

lemma parameters_json_ok:
  assumes "ParameterDigest op p = Some h"
  shows "plain_json (parameters_json p)" "wf_json (parameters_json p)" "d < 8 \<Longrightarrow> shape_value d (parameters_json p)"
proof -
  have one: "pa_FormatVersion p = 1" by (rule ParameterDigest_valid(2) [OF assms])
  then show "plain_json (parameters_json p)" "d < 8 \<Longrightarrow> shape_value d (parameters_json p)"
    using grace_short [of "pa_StopGraceSeconds p"]
    by (auto simp: parameters_json_def int_text_def plain_char_def shape_char_def less_char_def backslash_def dquote_def)
  show "wf_json (parameters_json p)" by (rule strict_wf [OF parameters_roundtrip(3) [OF assms, of 0]]) simp
qed

lemma known_plain: "known_operation op \<Longrightarrow> plain (operation_text op)"
  by (auto simp: known_operation_def plain_char_def shape_char_def less_char_def backslash_def dquote_def)

lemma mapping_json_ok:
  assumes "validMapping m b" "r = [] \<or> localRevision r \<noteq> None"
  shows "unmarshal_mapping (mapping_json (m\<lparr>md_MappingRevision := r\<rparr>)) = Some (m\<lparr>md_MappingRevision := r\<rparr>)"
    "plain_json (mapping_json (m\<lparr>md_MappingRevision := r\<rparr>))" "wf_json (mapping_json (m\<lparr>md_MappingRevision := r\<rparr>))"
    "d + 2 \<le> 8 \<Longrightarrow> shape_value d (mapping_json (m\<lparr>md_MappingRevision := r\<rparr>))"
proof -
  obtain h where h: "ParameterDigest (md_Operation m) (md_Parameters m) = Some h"
    using assms(1) by (auto simp: validMapping_def)
  note par = parameters_json_ok [OF h] parameters_roundtrip [OF h]
  have op: "known_operation (md_Operation m)" by (rule ParameterDigest_valid(1) [OF h])
  have ids: "plain (md_ServerID m)" "plain (md_OwnerUserID m)" "plain (md_ConnectorInstanceID m)" "plain (md_TargetID m)"
    "plain (md_EngineGeneration m)" "plain (md_ContainerID m)" "plain (md_PolicyRevision m)" "plain (md_CapabilityRevision m)" "plain r"
    using assms plain_localID [of "md_ServerID m" "''srv_''"] plain_localID [of "md_OwnerUserID m" "''usr_''"]
      plain_localID [of "md_ConnectorInstanceID m" "''agent_''"] plain_localID [of "md_TargetID m" "''hlt_''"]
    by (auto simp: validMapping_def plain_localHex plain_localRevision plain_char_def shape_char_def less_char_def backslash_def dquote_def)
  show "plain_json (mapping_json (m\<lparr>md_MappingRevision := r\<rparr>))"
    using ids par(1) known_plain [OF op]
    by (auto simp: mapping_json_def plain_char_def shape_char_def less_char_def backslash_def dquote_def)
  show "wf_json (mapping_json (m\<lparr>md_MappingRevision := r\<rparr>))" using par(2) by (auto simp: mapping_json_def)
  show "shape_value d (mapping_json (m\<lparr>md_MappingRevision := r\<rparr>))" if "d + 2 \<le> 8"
    using par(3) [of "Suc d"] that by (auto simp: mapping_json_def)
  show "unmarshal_mapping (mapping_json (m\<lparr>md_MappingRevision := r\<rparr>)) = Some (m\<lparr>md_MappingRevision := r\<rparr>)"
    using par(4) text_operation_text [OF op]
    by (auto simp: unmarshal_mapping_def mapping_json_def mapping_names_def member_Cons member_def)
qed

lemma mapping_marshals:
  assumes "validMapping m b"
  shows "marshal_mapping (m\<lparr>md_MappingRevision := r\<rparr>) = Some (json_print (mapping_json (m\<lparr>md_MappingRevision := r\<rparr>)))"
  using assms by (auto simp: validMapping_def marshal_mapping_def dest!: ParameterDigest_valid(3))

text \<open>Two valid mappings have the same semantics exactly if they differ at most in the revision.\<close>

lemma semantic_eq:
  assumes "validMapping m b" "validMapping m' b'"
  shows "semantic m = semantic m' \<longleftrightarrow> m\<lparr>md_MappingRevision := []\<rparr> = m'\<lparr>md_MappingRevision := []\<rparr>"
proof
  assume "semantic m = semantic m'"
  then have "json_print (mapping_json (m\<lparr>md_MappingRevision := []\<rparr>)) = json_print (mapping_json (m'\<lparr>md_MappingRevision := []\<rparr>))"
    by (simp add: semantic_def mapping_marshals [OF assms(1)] mapping_marshals [OF assms(2)])
  then have "mapping_json (m\<lparr>md_MappingRevision := []\<rparr>) = mapping_json (m'\<lparr>md_MappingRevision := []\<rparr>)"
    using json_roundtrip mapping_json_ok(3) assms by (metis option.inject)
  then show "m\<lparr>md_MappingRevision := []\<rparr> = m'\<lparr>md_MappingRevision := []\<rparr>"
    using mapping_json_ok(1) [OF assms(1) disjI1, OF refl] mapping_json_ok(1) [OF assms(2) disjI1, OF refl] by (metis option.inject)
qed (simp add: semantic_def)

section \<open>The specification of a policy\<close>

text \<open>
  The mappings are in the order of their revisions, none repeats another under a new revision, and a target
  is one container of one engine. Among the current ones a target has at most one mapping for an
  operation, and a container and its alias belong to one target.
\<close>

definition same_container :: "mapping_document \<Rightarrow> mapping_document \<Rightarrow> bool" where
  "same_container m m' \<longleftrightarrow> md_EngineGeneration m = md_EngineGeneration m' \<and> md_ContainerID m = md_ContainerID m'"

definition mappings_spec :: "policy_document \<Rightarrow> nat \<Rightarrow> mapping_document list \<Rightarrow> bool" where
  "mappings_spec p head ms \<longleftrightarrow>
     list_all (mapping_of_policy p head) ms \<and> sorted_wrt (<) (map mapping_number ms)
     \<and> (\<forall>m \<in> set ms. \<forall>m' \<in> set ms. m\<lparr>md_MappingRevision := []\<rparr> = m'\<lparr>md_MappingRevision := []\<rparr> \<longrightarrow> m = m')
     \<and> (\<forall>m \<in> set ms. \<forall>m' \<in> set ms. md_TargetID m = md_TargetID m' \<longrightarrow> same_container m m')"

definition current_spec :: "string list \<Rightarrow> mapping_document list \<Rightarrow> bool" where
  "current_spec cur ms \<longleftrightarrow>
     set cur \<subseteq> md_MappingRevision ` set ms \<and> sorted_wrt (<) (map dec_val cur)
     \<and> (let C = {m \<in> set ms. md_MappingRevision m \<in> set cur}
        in (\<forall>m \<in> C. \<forall>m' \<in> C. md_TargetID m = md_TargetID m' \<longrightarrow> md_Operation m = md_Operation m' \<longrightarrow> m = m')
          \<and> (\<forall>m \<in> C. \<forall>m' \<in> C. alias_of m = alias_of m' \<longrightarrow> md_TargetID m = md_TargetID m')
          \<and> (\<forall>m \<in> C. \<forall>m' \<in> C. same_container m m' \<longrightarrow> md_TargetID m = md_TargetID m'))"

definition policy_spec :: "policy_document \<Rightarrow> bool" where
  "policy_spec p \<longleftrightarrow>
     (\<exists>head cur ms. localRevision (pd_Revision p) = Some head \<and> pd_Current p = Some cur \<and> pd_Mappings p = Some ms
        \<and> pd_Version p = ''observer-action-policy/v1'' \<and> localID (pd_ServerID p) ''srv_'' \<and> localID (pd_OwnerUserID p) ''usr_''
        \<and> localID (pd_ConnectorInstanceID p) ''agent_''
        \<and> length cur \<le> 32 \<and> length ms \<le> 1032 \<and> length ms \<le> length cur + 1000
        \<and> mappings_spec p head ms \<and> current_spec cur ms)"

lemma determines_empty: "determines Map.empty f g xs \<longleftrightarrow> (\<forall>x \<in> set xs. \<forall>y \<in> set xs. f x = f y \<longrightarrow> g x = g y)"
  by (simp add: determines_def)

lemma distinct_map_sorted: "sorted_wrt (<) (map f xs) \<Longrightarrow> distinct xs" for f :: "'a \<Rightarrow> nat"
  by (metis distinct_map strict_sorted_iff)

lemma mapping_of_policy_facts:
  assumes "mapping_of_policy p head m"
  shows "0 < mapping_number m" "md_MappingRevision m = show_nat (mapping_number m)" "length (md_EngineGeneration m) = 32"
    "md_TargetID m \<noteq> []" "validMapping m True"
  using assms validMapping_number [of m] localID_nonempty
  by (auto simp: mapping_of_policy_def validMapping_def localRevision_iff hex_string_def)

lemma mappings_spec_iff:
  "check_mappings p head 0 [] Map.empty Map.empty ms = Some br \<longleftrightarrow>
     mappings_spec p head ms \<and> br = fold (\<lambda>m b. b(md_MappingRevision m \<mapsto> m)) ms Map.empty"
proof (cases "list_all (mapping_of_policy p head) ms \<and> sorted_wrt (<) (map mapping_number ms)")
  case True
  then have v: "m \<in> set ms \<Longrightarrow> mapping_of_policy p head m" for m by (auto simp: list_all_iff)
  have "distinct (map semantic ms) \<longleftrightarrow>
      (\<forall>m \<in> set ms. \<forall>m' \<in> set ms. m\<lparr>md_MappingRevision := []\<rparr> = m'\<lparr>md_MappingRevision := []\<rparr> \<longrightarrow> m = m')"
    unfolding distinct_map inj_on_def using distinct_map_sorted True semantic_eq mapping_of_policy_facts(5) [OF v] by metis
  moreover have "determines Map.empty md_TargetID physical_text ms \<longleftrightarrow>
      (\<forall>m \<in> set ms. \<forall>m' \<in> set ms. md_TargetID m = md_TargetID m' \<longrightarrow> same_container m m')"
    unfolding determines_empty same_container_def using physical_text_eq mapping_of_policy_facts(3) [OF v] by metis
  moreover have "sorted_wrt (<) (0 # map mapping_number ms)"
    using True mapping_of_policy_facts(1) [OF v] by auto
  ultimately show ?thesis using True by (simp add: check_mappings_iff mappings_spec_def)
qed (auto simp: check_mappings_iff mappings_spec_def)

lemma current_spec_iff:
  assumes "mappings_spec p head ms"
  shows "check_current (fold (\<lambda>m b. b(md_MappingRevision m \<mapsto> m)) ms Map.empty) 0 [] Map.empty Map.empty cur \<longleftrightarrow> current_spec cur ms"
proof -
  define br where "br = fold (\<lambda>m b. b(md_MappingRevision m \<mapsto> m)) ms Map.empty"
  have v: "m \<in> set ms \<Longrightarrow> mapping_of_policy p head m" for m using assms by (auto simp: mappings_spec_def list_all_iff)
  have dm: "distinct (map md_MappingRevision ms)"
    using assms distinct_map_sorted [of mapping_number ms] unfolding distinct_map inj_on_def mappings_spec_def
    by (metis distinct_map inj_onD strict_sorted_iff)
  have br: "br r = Some m \<longleftrightarrow> m \<in> set ms \<and> md_MappingRevision m = r" for r m
    using fold_revisions [OF dm, of Map.empty r m] by (simp add: br_def)
  have named: "br r \<noteq> None \<longleftrightarrow> r \<in> md_MappingRevision ` set ms" for r
    using br by (auto simp del: not_None_eq)
  have ne: "md_TargetID m \<noteq> []" if "br r = Some m" for r m
    using that v br mapping_of_policy_facts(4) by blast
  have "check_current br 0 [] Map.empty Map.empty cur \<longleftrightarrow> current_spec cur ms"
  proof (cases "set cur \<subseteq> md_MappingRevision ` set ms \<and> sorted_wrt (<) (map dec_val cur)")
    case True
    have the: "\<exists>m \<in> set ms. the (br r) = m \<and> md_MappingRevision m = r" if "r \<in> set cur" for r
    proof -
      have "br r \<noteq> None" using True that named by blast
      then obtain m where m: "br r = Some m" by blast
      have "the (br r) = m" by (simp only: m option.sel)
      then show ?thesis using br [THEN iffD1, OF m] by blast
    qed
    let ?C = "{m \<in> set ms. md_MappingRevision m \<in> set cur}"
    have C: "set (named_by br cur) = ?C"
    proof
      show "set (named_by br cur) \<subseteq> ?C"
      proof
        fix m assume "m \<in> set (named_by br cur)"
        then obtain r where "r \<in> set cur" "m = the (br r)" unfolding named_by_def by auto
        then show "m \<in> ?C" using the [of r] by auto
      qed
      show "?C \<subseteq> set (named_by br cur)"
      proof
        fix m assume "m \<in> ?C"
        then have m: "br (md_MappingRevision m) = Some m" and c: "md_MappingRevision m \<in> set cur" using br by auto
        have "m = the (br (md_MappingRevision m))" by (simp only: m option.sel)
        then show "m \<in> set (named_by br cur)" unfolding named_by_def set_map using c by (rule image_eqI)
      qed
    qed
    have inj: "inj_on (\<lambda>r. the (br r)) (set cur)" 
    proof (rule inj_onI)
      fix r r' assume "r \<in> set cur" "r' \<in> set cur" "the (br r) = the (br r')"
      then show "r = r'" using the [of r] the [of r'] by metis
    qed
    have dn: "distinct (named_by br cur)"
      unfolding named_by_def distinct_map using inj distinct_map_sorted [of dec_val cur] True by blast
    have pos: "localRevision r \<noteq> None \<and> 0 < dec_val r" if r: "r \<in> set cur" for r
    proof -
      obtain m where "m \<in> set ms" "md_MappingRevision m = r" using True r by auto
      then show ?thesis using mapping_of_policy_facts(1,5) [OF v, of m] validMapping_number [of m] by auto
    qed
    then have zero: "sorted_wrt (<) (0 # map dec_val cur)" "\<forall>r \<in> set cur. localRevision r \<noteq> None" using True by auto
    have pairs: "distinct (map pair_text (named_by br cur)) \<longleftrightarrow>
        (\<forall>m \<in> ?C. \<forall>m' \<in> ?C. md_TargetID m = md_TargetID m' \<longrightarrow> md_Operation m = md_Operation m' \<longrightarrow> m = m')"
      unfolding distinct_map inj_on_def C using dn pair_text_eq mapping_of_policy_facts(5) [OF v]
      by (metis (no_types, lifting) mem_Collect_eq)
    have phys: "determines Map.empty physical_text md_TargetID (named_by br cur) \<longleftrightarrow>
        (\<forall>m \<in> ?C. \<forall>m' \<in> ?C. same_container m m' \<longrightarrow> md_TargetID m = md_TargetID m')"
      unfolding determines_empty C same_container_def using physical_text_eq mapping_of_policy_facts(3) [OF v]
      by (metis (no_types, lifting) mem_Collect_eq)
    have al: "determines Map.empty alias_of md_TargetID (named_by br cur) \<longleftrightarrow>
        (\<forall>m \<in> ?C. \<forall>m' \<in> ?C. alias_of m = alias_of m' \<longrightarrow> md_TargetID m = md_TargetID m')"
      unfolding determines_empty C by simp
    have "check_current br 0 [] Map.empty Map.empty cur \<longleftrightarrow>
        distinct (map pair_text (named_by br cur)) \<and> determines Map.empty alias_of md_TargetID (named_by br cur)
        \<and> determines Map.empty physical_text md_TargetID (named_by br cur)"
      using check_current_iff [of Map.empty Map.empty br 0 "[]" cur] ne zero True named by auto
    then show ?thesis
      unfolding current_spec_def pairs phys al Let_def using True by simp
  next
    case False
    have "\<not> check_current br 0 [] Map.empty Map.empty cur"
    proof
      assume "check_current br 0 [] Map.empty Map.empty cur"
      then have "\<forall>r \<in> set cur. br r \<noteq> None" "sorted_wrt (<) (0 # map dec_val cur)"
        using check_current_iff [of Map.empty Map.empty br 0 "[]" cur, OF _ _ ne] by simp_all
      then show False using False named by auto
    qed
    then show ?thesis using False unfolding current_spec_def by blast
  qed
  then show ?thesis unfolding br_def .
qed

lemma validatePolicy_iff: "validatePolicy p \<longleftrightarrow> policy_spec p"
proof -
  have chk: "(case check_mappings p head 0 [] Map.empty Map.empty ms of None \<Rightarrow> False
       | Some br \<Rightarrow> if \<not> check_current br 0 [] Map.empty Map.empty cur then False else \<not> 1000 < int (length ms) - int (length cur)) \<longleftrightarrow>
     mappings_spec p head ms \<and> current_spec cur ms \<and> length ms \<le> length cur + 1000" for head ms cur
  proof (cases "check_mappings p head 0 [] Map.empty Map.empty ms")
    case None
    then show ?thesis using mappings_spec_iff [of p head ms] by auto
  next
    case (Some br)
    then have "mappings_spec p head ms" "br = fold (\<lambda>m b. b(md_MappingRevision m \<mapsto> m)) ms Map.empty"
      using mappings_spec_iff by blast+
    then show ?thesis using current_spec_iff [of p head ms cur] Some by auto
  qed
  show ?thesis unfolding validatePolicy_def policy_spec_def chk by (auto split: option.splits)
qed

section \<open>The canonical document round trips\<close>

lemma length_join_le: "\<forall>x \<in> set xs. length x \<le> k \<Longrightarrow> length (join '','' xs) \<le> length xs * (k + 1)"
  by (induction "'',''" xs rule: join.induct) auto

lemma slice_roundtrip:
  assumes "\<forall>x \<in> set xs. f (g x) = Some x"
  shows "as_slice f (slice_json g (Some xs)) = Some (Some xs)"
proof -
  have "those (map f (map g xs)) = Some xs" using assms by (induction xs) auto
  then show ?thesis by (simp add: as_slice_def slice_json_def)
qed

lemma policy_json_ok:
  assumes "validatePolicy p"
  shows "unmarshal_policy (policy_json p) = Some p" "plain_json (policy_json p)" "wf_json (policy_json p)"
    "shape_value 0 (policy_json p)" "length (json_print (policy_json p)) \<le> policyBytes" "marshal_policy p = Some (json_print (policy_json p))"
proof -
  obtain head cur ms where hd: "localRevision (pd_Revision p) = Some head" and cur: "pd_Current p = Some cur" and ms: "pd_Mappings p = Some ms"
    and ver: "pd_Version p = ''observer-action-policy/v1''" and ids: "localID (pd_ServerID p) ''srv_''" "localID (pd_OwnerUserID p) ''usr_''"
      "localID (pd_ConnectorInstanceID p) ''agent_''" and len: "length cur \<le> 32" "length ms \<le> 1032"
    and spec: "mappings_spec p head ms" "current_spec cur ms"
    using assms unfolding validatePolicy_iff policy_spec_def by blast
  have v: "validMapping m True" "m\<lparr>md_MappingRevision := md_MappingRevision m\<rparr> = m" if "m \<in> set ms" for m
    using spec(1) that mapping_of_policy_facts(5) by (auto simp: mappings_spec_def list_all_iff)
  have rev: "localRevision (md_MappingRevision m) \<noteq> None" if "m \<in> set ms" for m
    using v(1) [OF that] by (auto simp: validMapping_def)
  have mj: "unmarshal_mapping (mapping_json m) = Some m" "plain_json (mapping_json m)" "wf_json (mapping_json m)"
    "shape_value 2 (mapping_json m)" if "m \<in> set ms" for m
    using mapping_json_ok(1-3) [OF v(1) [OF that] disjI2 [OF rev [OF that]]] mapping_json_ok(4) [OF v(1) [OF that] disjI2 [OF rev [OF that]], of 2]
    unfolding v(2) [OF that] by simp_all
  have cr: "localRevision r \<noteq> None" if r: "r \<in> set cur" for r
  proof -
    obtain m where "m \<in> set ms" "md_MappingRevision m = r" using spec(2) r unfolding current_spec_def by blast
    then show ?thesis using rev by blast
  qed
  have pl: "plain ''observer-action-policy/v1''" "plain (pd_ServerID p)" "plain (pd_OwnerUserID p)" "plain (pd_ConnectorInstanceID p)" "plain (pd_Revision p)"
    using ids [THEN plain_localID] hd plain_localRevision
    by (auto simp: plain_char_def shape_char_def less_char_def backslash_def dquote_def)
  show "unmarshal_policy (policy_json p) = Some p"
    using slice_roundtrip [of cur as_str JStr] slice_roundtrip [of ms unmarshal_mapping mapping_json] mj(1)
    by (simp add: unmarshal_policy_def policy_json_def policy_names_def cur [symmetric] ms [symmetric])
  show "plain_json (policy_json p)"
    using pl mj(2) cr plain_localRevision
    by (auto simp: policy_json_def slice_json_def cur ms ver plain_char_def shape_char_def less_char_def backslash_def dquote_def)
  show "wf_json (policy_json p)" using mj(3) by (auto simp: policy_json_def slice_json_def cur ms)
  show "shape_value 0 (policy_json p)" using mj(4) len by (auto simp: policy_json_def slice_json_def cur ms numeral_2_eq_2)
  have grace: "grace_MarshalJSON (pa_StopGraceSeconds (md_Parameters m)) \<noteq> None" if "m \<in> set ms" for m
    using v(1) [OF that] ParameterDigest_valid(3) by (auto simp: validMapping_def)
  then show "marshal_policy p = Some (json_print (policy_json p))"
    by (simp add: marshal_policy_def pd_mappings_def ms list_all_iff)
  have l: "length (json_print (mapping_json m)) \<le> 1024" if "m \<in> set ms" for m
    using v(1) [OF that] grace [OF that] by (simp add: validMapping_def marshal_mapping_def)
  have lc: "length (json_print (JStr r)) \<le> 21" if "r \<in> set cur" for r
    using cr [OF that] plain_localRevision [OF cr [OF that]] by (auto simp: plain_escape localRevision_def split: if_splits)
  have "length (join '','' (map (json_print \<circ> mapping_json) ms)) \<le> 1032 * 1025" "length (join '','' (map (json_print \<circ> JStr) cur)) \<le> 32 * 22"
    using length_join_le [of "map (json_print \<circ> mapping_json) ms" 1024] length_join_le [of "map (json_print \<circ> JStr) cur" 21] l lc len by auto
  moreover have "length (pd_ServerID p) = 36" "length (pd_OwnerUserID p) = 36" "length (pd_ConnectorInstanceID p) = 38" "length (pd_Revision p) \<le> 19"
    using ids hd by (auto simp: localID_def localRevision_def split: if_splits)
  ultimately show "length (json_print (policy_json p)) \<le> policyBytes"
    using pl by (simp add: policy_json_def slice_json_def cur ms ver plain_escape policyBytes_def plain_char_def shape_char_def less_char_def
        backslash_def dquote_def)
qed

lemma decodePolicy_iff: "decodePolicy raw = Some p \<longleftrightarrow> validatePolicy p \<and> raw = json_print (policy_json p)"
proof
  assume "decodePolicy raw = Some p"
  then show "validatePolicy p \<and> raw = json_print (policy_json p)"
    using policy_json_ok(6) [of p] by (auto simp: decodePolicy_def bind_eq_Some_conv split: if_splits)
next
  assume p: "validatePolicy p \<and> raw = json_print (policy_json p)"
  then have v: "validatePolicy p" and raw: "raw = json_print (policy_json p)" by auto
  have "raw \<noteq> []" unfolding raw by (simp add: policy_json_def)
  then have "policyShape raw = Some (policy_json p)"
    using policy_json_ok [OF v] shaped_print [of "policy_json p"] json_roundtrip [of "policy_json p"]
    by (simp add: policyShape_def shaped_def raw)
  then show "decodePolicy raw = Some p"
    using policy_json_ok [OF v] v by (simp add: decodePolicy_def raw)
qed

section \<open>Resolution\<close>

lemma select_mapping_Some:
  "select_mapping f sel ms = Some (Some m) \<longleftrightarrow>
     (sel = Some m \<and> filter f ms = []) \<or> (sel = None \<and> filter f ms = [m])"
proof (induction ms arbitrary: sel)
  case (Cons x ms)
  then show ?case by (cases sel) auto
qed auto

text \<open>The mapping a receipt resolves to, and what the resolved key and binding say.\<close>

lemma resolveReceipt_facts:
  assumes "resolveReceipt p r current = Some rb"
  obtains m where "filter (mapping_matches p r current) (pd_mappings p) = [m]" "rb_mappingRevision rb = md_MappingRevision m"
    "rb_binding rb = receipt_binding r m" "NewJournalKey (receipt_request r) (receipt_binding r m) = Some (rb_key rb)"
    "ReceiptDigest r = Some (rb_remoteDigest rb)" "rr_TargetKey r = alias_of m" "validatePolicy p" "ValidateRequest r"
    "ak_ActionID (rb_key rb) = rr_ActionID r" "ak_TargetID (rb_key rb) = rr_TargetID r"
    "jm_EngineGeneration (ak_Metadata (rb_key rb)) = md_EngineGeneration m" "jm_ContainerID (ak_Metadata (rb_key rb)) = md_ContainerID m"
    "jm_Request (ak_Metadata (rb_key rb)) = receipt_request r"
proof -
  obtain m k d where sel: "select_mapping (mapping_matches p r current) None (pd_mappings p) = Some (Some m)"
    and a: "rr_TargetKey r = alias_of m" and k: "NewJournalKey (receipt_request r) (receipt_binding r m) = Some k"
    and d: "ReceiptDigest r = Some d"
    and rb: "rb = \<lparr>rb_key = k, rb_binding = receipt_binding r m, rb_mappingRevision = md_MappingRevision m, rb_remoteDigest = d\<rparr>"
    and v: "validatePolicy p" "ValidateRequest r"
    using assms by (auto simp: resolveReceipt_def bind_eq_Some_conv split: option.splits if_splits)
  have key: "ak_ActionID k = rr_ActionID r" "ak_TargetID k = rr_TargetID r" "jm_EngineGeneration (ak_Metadata k) = md_EngineGeneration m"
    "jm_ContainerID (ak_Metadata k) = md_ContainerID m" "jm_Request (ak_Metadata k) = receipt_request r"
    using k by (auto simp: NewJournalKey_def Let_def receipt_request_def receipt_binding_def split: if_splits)
  show thesis using that [of m] sel a k d v key by (simp add: select_mapping_Some rb)
qed

end
