(* ===== verification/BrokerState.thy ===== *)
theory BrokerState
  imports BrokerPolicySpec JournalRun
begin

text \<open>
  The state of the action broker, \<^verbatim>\<open>internal/actionbroker/reservations_linux.go\<close>, \<^verbatim>\<open>control_linux.go\<close>, and the
  state operations of \<^verbatim>\<open>conversation_linux.go\<close>, \<^verbatim>\<open>execution_linux.go\<close> and \<^verbatim>\<open>run_linux.go\<close>: readiness and the
  control conversation that establishes it, live reservations, and the claims they are bound to. Every
  operation holds the mutex of the state, so each is one step.

  Reservations and control conversations are compared by address: they live in lists, and a handle is
  an index. A handle \<open>None\<close> is \<^verbatim>\<open>nil\<close>. The hook \<^verbatim>\<open>afterControlSample\<close> is \<^verbatim>\<open>nil\<close> outside of tests.
\<close>

section \<open>The state\<close>

datatype broker_err =
    BErrBusy
  | BErrNoEligibleTarget
  | BErrRecoveryRequired
  | BErrUnavailable
  | BErrPolicy

record reservation =
  rv_nonce :: string
  rv_policyHead :: string
  rv_targets :: "string list"
  rv_conversation :: conversation
  rv_bound :: "resolved_binding option"
  rv_claimTried :: bool

record control_conversation =
  cc_query :: snapshot_query
  cc_head :: string
  cc_entriesDigest :: bytes
  cc_send :: bstamp

record broker_state =
  bs_executionClosed :: bool
  bs_journal :: journal
  bs_policy :: policy_document
  bs_clock :: clock_ref
  bs_readiness :: "readiness option"
  bs_readyHead :: string
  bs_readyEntriesDigest :: bytes
  bs_readyPublicationID :: string
  bs_readySnapshotRevision :: string
  bs_readySnapshotDigest :: string
  bs_control :: "nat option"
  bs_controls :: "control_conversation list"
  bs_quiescing :: bool
  bs_live :: "(string \<times> nat) list"
  bs_reservations :: "reservation list"
  bs_recoveryRequired :: bool

text \<open>
  The answers of the outside during one operation: the journal's, the context's when the journal asks it,
  the context handed to the delivery check with the reading made there, a reading of the clock, what the
  context says at the end, and the random bytes.
\<close>

record broker_io =
  bi_journal :: journal_io
  bi_snapshot_err :: "nat \<Rightarrow> bool"
  bi_delivery :: "bctx option"
  bi_delivery_reading :: "reading option"
  bi_reading :: "reading option"
  bi_ctx_err :: "nat \<Rightarrow> bool"
  bi_random :: "bytes option"

definition reservation_at :: "broker_state \<Rightarrow> nat \<Rightarrow> reservation" where
  "reservation_at b h = bs_reservations b ! h"

text \<open>\<open>b.live[r.nonce] == r\<close>.\<close>

definition is_live :: "broker_state \<Rightarrow> nat \<Rightarrow> bool" where
  "is_live b h \<longleftrightarrow> h < length (bs_reservations b) \<and> map_of (bs_live b) (rv_nonce (reservation_at b h)) = Some h"

definition live_handles :: "broker_state \<Rightarrow> nat list" where
  "live_handles b = map snd (bs_live b)"

definition on_reservation :: "(reservation \<Rightarrow> reservation) \<Rightarrow> nat \<Rightarrow> broker_state \<Rightarrow> broker_state" where
  "on_reservation f h b = b\<lparr>bs_reservations := (bs_reservations b)[h := f (reservation_at b h)]\<rparr>"

definition forget :: "nat \<Rightarrow> broker_state \<Rightarrow> broker_state" where
  "forget h b = b\<lparr>bs_live := filter (\<lambda>(n, _). n \<noteq> rv_nonce (reservation_at b h)) (bs_live b)\<rparr>"

definition bound_keys :: "broker_state \<Rightarrow> action_key list" where
  "bound_keys b = map rb_key (List.map_filter (\<lambda>h. rv_bound (reservation_at b h)) (live_handles b))"

section \<open>Snapshots and eligible targets\<close>

definition policy_binding :: "policy_document \<Rightarrow> journal_binding" where
  "policy_binding p = \<lparr>jb_ServerID = pd_ServerID p, jb_InstallationID = pd_ConnectorInstanceID p, jb_OwnerID = pd_OwnerUserID p\<rparr>"

definition record_open :: "admission_record \<Rightarrow> bool" where
  "record_open r \<longleftrightarrow> am_HasIntent r \<and> IsZero (am_TerminalAt r)"

definition broker_snapshot :: "broker_io \<Rightarrow> broker_state \<Rightarrow> (broker_err + admission_snapshot) \<times> broker_state" where
  "broker_snapshot io b =
     (case AdmissionSnapshot (bi_journal io) (bi_snapshot_err io) (bs_journal b) of
        Inl _ \<Rightarrow> (Inl BErrRecoveryRequired, b)
      | Inr s \<Rightarrow>
          if as_Binding s \<noteq> policy_binding (bs_policy b) then (Inl BErrRecoveryRequired, b)
          else
            let owned = map ak_ActionID (bound_keys b);
                b' = (if list_ex (\<lambda>r. (record_open r \<or> am_Active r) \<and> ak_ActionID (am_Key r) \<notin> set owned) (as_Records s)
                      then b\<lparr>bs_recoveryRequired := True\<rparr> else b)
            in if bs_recoveryRequired b' then (Inl BErrRecoveryRequired, b') else (Inr s, b'))"

definition newBrokerState :: "broker_io \<Rightarrow> policy_document \<Rightarrow> journal option \<Rightarrow> clock_ref \<Rightarrow> broker_err + broker_state" where
  "newBrokerState io p j clock =
     (case j of
        None \<Rightarrow> Inl BErrPolicy
      | Some j \<Rightarrow>
          if \<not> validatePolicy p \<or> clock = None then Inl BErrPolicy
          else
            let b = \<lparr>bs_executionClosed = False, bs_journal = j, bs_policy = p, bs_clock = clock, bs_readiness = None,
                     bs_readyHead = [], bs_readyEntriesDigest = zero_digest, bs_readyPublicationID = [],
                     bs_readySnapshotRevision = [], bs_readySnapshotDigest = [], bs_control = None, bs_controls = [],
                     bs_quiescing = False, bs_live = [], bs_reservations = [], bs_recoveryRequired = False\<rparr>
            in case broker_snapshot io b of (Inl e, _) \<Rightarrow> Inl e | (Inr _, b') \<Rightarrow> Inr b')"

definition physicalMatch :: "action_key \<Rightarrow> mapping_document \<Rightarrow> bool" where
  "physicalMatch k m \<longleftrightarrow>
     ak_TargetID k = md_TargetID m
     \<or> (jm_EngineGeneration (ak_Metadata k) = md_EngineGeneration m \<and> jm_ContainerID (ak_Metadata k) = md_ContainerID m)"

definition record_blocks :: "gotime \<Rightarrow> mapping_document \<Rightarrow> admission_record \<Rightarrow> bool" where
  "record_blocks observed m r \<longleftrightarrow>
     physicalMatch (am_Key r) m
     \<and> (record_open r
        \<or> (am_Code r = Started \<or> am_Code r = Stopped \<or> am_Code r = Restarted) \<and> observed < am_TerminalAt r + seconds 30)"

definition live_blocks :: "broker_state \<Rightarrow> nat option \<Rightarrow> mapping_document \<Rightarrow> nat \<Rightarrow> bool" where
  "live_blocks b except m h \<longleftrightarrow>
     Some h \<noteq> except \<and> (case rv_bound (reservation_at b h) of None \<Rightarrow> False | Some rb \<Rightarrow> physicalMatch (rb_key rb) m)"

definition eligible :: "admission_snapshot \<Rightarrow> nat option \<Rightarrow> broker_state \<Rightarrow> string list" where
  "eligible s except b =
     (let free = (\<lambda>m. \<not> list_ex (live_blocks b except m) (live_handles b) \<and> \<not> list_ex (record_blocks (as_ObservedAt s) m) (as_Records s))
      in sort (remdups (map md_TargetID (filter free (current_mappings (bs_policy b))))))"

text \<open>\<^verbatim>\<open>sort.SearchStrings\<close>: the loop of \<^verbatim>\<open>sort.Search\<close> on the interval from \<open>i\<close> to \<open>j\<close>.\<close>

function search_strings :: "string list \<Rightarrow> string \<Rightarrow> nat \<Rightarrow> nat \<Rightarrow> nat" where
  "search_strings xs x i j =
     (if i < j then
        (let h = (i + j) div 2
         in if \<not> x \<le> xs ! h then search_strings xs x (h + 1) j else search_strings xs x i h)
      else i)"
  by pat_completeness auto
termination
  by (relation "measure (\<lambda>(xs, x, i, j). j - i)") auto

declare search_strings.simps [simp del]

definition containsTarget :: "string list \<Rightarrow> string \<Rightarrow> bool" where
  "containsTarget targets target =
     (let index = search_strings targets target 0 (length targets)
      in index < length targets \<and> targets ! index = target)"

section \<open>Reservations\<close>

definition control_publication :: "broker_state \<Rightarrow> string option" where
  "control_publication b = map_option (\<lambda>c. sq_PublicationID (cc_query (bs_controls b ! c))) (bs_control b)"

definition freshNonce :: "bytes option \<Rightarrow> broker_state \<Rightarrow> string option" where
  "freshNonce random b =
     (case random of
        None \<Rightarrow> None
      | Some bytes \<Rightarrow>
          if bytes = replicate 16 0 then None
          else let fresh = hex_encode bytes
            in if map_of (bs_live b) fresh \<noteq> None \<or> control_publication b = Some fresh then None else Some fresh)"

definition logical_count :: "admission_snapshot \<Rightarrow> broker_state \<Rightarrow> nat" where
  "logical_count s b =
     (let stored_ids = map (\<lambda>r. ak_ActionID (am_Key r)) (as_Records s)
      in length (as_Records s) + length (filter (\<lambda>h. case rv_bound (reservation_at b h) of
             None \<Rightarrow> True | Some rb \<Rightarrow> ak_ActionID (rb_key rb) \<notin> set stored_ids) (live_handles b)))"

definition ready_current :: "broker_state \<Rightarrow> bool" where
  "ready_current b =
     (case policyEntries (bs_policy b) of
        None \<Rightarrow> False
      | Some (_, digest) \<Rightarrow> \<not> (bs_readyHead b \<noteq> pd_Revision (bs_policy b) \<or> bs_readyEntriesDigest b \<noteq> digest))"

definition reserve :: "broker_io \<Rightarrow> broker_state \<Rightarrow> (broker_err + nat) \<times> broker_state" where
  "reserve io b =
     (if bs_quiescing b \<or> bs_executionClosed b then (Inl BErrRecoveryRequired, b)
      else if \<not> ready_current b then (Inl BErrUnavailable, b\<lparr>bs_readiness := None\<rparr>)
      else case broker_snapshot io b of
        (Inl e, b1) \<Rightarrow> (Inl e, b1)
      | (Inr s, b1) \<Rightarrow>
          if 2 \<le> length (bs_live b1) then (Inl BErrBusy, b1)
          else if 1000 \<le> logical_count s b1 then (Inl BErrBusy, b1)
          else
            let targets = eligible s None b1
            in if targets = [] then (Inl BErrNoEligibleTarget, b1)
               else (case Begin (bs_clock b1) (bs_readiness b1) (bi_reading io) of
                   None \<Rightarrow> (Inl BErrUnavailable, b1)
                 | Some conversation \<Rightarrow>
                     (case freshNonce (bi_random io) b1 of
                        None \<Rightarrow> (Inl BErrUnavailable, b1)
                      | Some fresh \<Rightarrow>
                          let h = length (bs_reservations b1);
                              r = \<lparr>rv_nonce = fresh, rv_policyHead = pd_Revision (bs_policy b1), rv_targets = targets,
                                   rv_conversation = conversation, rv_bound = None, rv_claimTried = False\<rparr>
                          in (Inr h, b1\<lparr>bs_reservations := bs_reservations b1 @ [r], bs_live := (fresh, h) # bs_live b1\<rparr>))))"

definition releaseUnclaimed :: "broker_io \<Rightarrow> nat option \<Rightarrow> broker_state \<Rightarrow> broker_err option \<times> broker_state" where
  "releaseUnclaimed io r b =
     (case r of
        None \<Rightarrow> (Some BErrRecoveryRequired, b)
      | Some h \<Rightarrow>
          if \<not> is_live b h \<or> rv_claimTried (reservation_at b h)
             \<or> \<not> CheckDelivery (bi_delivery io) (bi_delivery_reading io) (rv_conversation (reservation_at b h))
          then (Some BErrRecoveryRequired, b)
          else (None, forget h b))"

text \<open>The second half of \<^verbatim>\<open>bindClaim\<close>, from the records of the snapshot on.\<close>

definition bind_resolved ::
  "broker_io \<Rightarrow> nat \<Rightarrow> claim \<Rightarrow> duration \<Rightarrow> admission_snapshot \<Rightarrow> broker_state \<Rightarrow>
   (broker_err + bound_execution \<times> execution \<times> resolved_binding) \<times> broker_state" where
  "bind_resolved io h claim rtt s b =
     (if list_ex (\<lambda>x. ak_ActionID (am_Key x) = rr_ActionID (cl_Request claim)) (as_Records s) then (Inl BErrRecoveryRequired, b)
      else case resolveReceipt (bs_policy b) (cl_Request claim) True of
        None \<Rightarrow> (Inl BErrRecoveryRequired, b)
      | Some resolved \<Rightarrow>
          if \<not> containsTarget (rv_targets (reservation_at b h)) (ak_TargetID (rb_key resolved))
             \<or> \<not> containsTarget (eligible s (Some h) b) (ak_TargetID (rb_key resolved)) then (Inl BErrRecoveryRequired, b)
          else if \<not> CheckDelivery (bi_delivery io) (bi_delivery_reading io) (rv_conversation (reservation_at b h))
          then (Inl BErrRecoveryRequired, b)
          else (case AcceptClaim claim rtt (ab_ContainerID (rb_binding resolved)) (bi_reading io) (rv_conversation (reservation_at b h)) of
              (None, c) \<Rightarrow> (Inl BErrRecoveryRequired, on_reservation (rv_conversation_update (\<lambda>_. c)) h b)
            | (Some execution, c) \<Rightarrow>
                let b' = on_reservation (rv_conversation_update (\<lambda>_. c)) h b
                in if bi_ctx_err io 0 then (Inl BErrRecoveryRequired, b')
                   else (case BindExecution (rb_key resolved) (rb_remoteDigest resolved) (bs_journal b') of
                       None \<Rightarrow> (Inl BErrRecoveryRequired, b')
                     | Some bound \<Rightarrow>
                         (Inr (bound, execution, resolved), on_reservation (rv_bound_update (\<lambda>_. Some resolved)) h b'))))"

definition bindClaim ::
  "broker_io \<Rightarrow> nat option \<Rightarrow> claim \<Rightarrow> duration \<Rightarrow> broker_state \<Rightarrow>
   (broker_err + bound_execution \<times> execution \<times> resolved_binding) \<times> broker_state" where
  "bindClaim io r claim rtt b =
     (case r of
        None \<Rightarrow> (Inl BErrRecoveryRequired, b)
      | Some h \<Rightarrow>
          if \<not> is_live b h \<or> rv_claimTried (reservation_at b h) \<or> rv_policyHead (reservation_at b h) \<noteq> pd_Revision (bs_policy b)
             \<or> bs_quiescing b \<or> bs_executionClosed b then (Inl BErrRecoveryRequired, b)
          else (case broker_snapshot io (on_reservation (rv_claimTried_update (\<lambda>_. True)) h b) of
              (Inl _, b') \<Rightarrow> (Inl BErrRecoveryRequired, b')
            | (Inr s, b') \<Rightarrow> bind_resolved io h claim rtt s b'))"

text \<open>The loop of \<^verbatim>\<open>finish\<close> over the records: \<open>None\<close> when the action is still active.\<close>

fun finish_records :: "string option \<Rightarrow> bool \<Rightarrow> admission_record list \<Rightarrow> bool option" where
  "finish_records action confirmed [] = Some confirmed"
| "finish_records action confirmed (r # rs) =
     (if action = Some (ak_ActionID (am_Key r)) then
        (if am_Active r then None else finish_records action (\<not> IsZero (am_TerminalAt r)) rs)
      else finish_records action confirmed rs)"

definition broker_finish :: "broker_io \<Rightarrow> nat option \<Rightarrow> broker_state \<Rightarrow> broker_err option \<times> broker_state" where
  "broker_finish io r b =
     (case r of
        None \<Rightarrow> (Some BErrRecoveryRequired, b)
      | Some h \<Rightarrow>
          if \<not> is_live b h \<or> \<not> rv_claimTried (reservation_at b h) then (Some BErrRecoveryRequired, b)
          else (case AdmissionSnapshot (bi_journal io) (\<lambda>_. False) (bs_journal b) of
              Inl _ \<Rightarrow> (Some BErrRecoveryRequired, b\<lparr>bs_recoveryRequired := True\<rparr>)
            | Inr s \<Rightarrow>
                (case finish_records (map_option (\<lambda>rb. ak_ActionID (rb_key rb)) (rv_bound (reservation_at b h))) False (as_Records s) of
                   None \<Rightarrow> (Some BErrBusy, b)
                 | Some confirmed \<Rightarrow>
                     (None, forget h (if confirmed then b else b\<lparr>bs_recoveryRequired := True\<rparr>)))))"

definition broker_abandon :: "nat option \<Rightarrow> broker_state \<Rightarrow> broker_state" where
  "broker_abandon r b =
     (case r of
        None \<Rightarrow> b
      | Some h \<Rightarrow> if is_live b h then forget h (b\<lparr>bs_recoveryRequired := True\<rparr>) else b)"

text \<open>\<^verbatim>\<open>executionConsumer.abandon\<close>: the flag is set in its own critical section, then \<^verbatim>\<open>finish\<close> runs.\<close>

definition require_recovery :: "broker_state \<Rightarrow> broker_state" where
  "require_recovery b = b\<lparr>bs_recoveryRequired := True\<rparr>"

section \<open>Control conversations\<close>

definition beginControl :: "broker_io \<Rightarrow> broker_state \<Rightarrow> (broker_err + nat) \<times> broker_state" where
  "beginControl io b =
     (if bs_quiescing b \<or> bs_executionClosed b then (Inl BErrRecoveryRequired, b)
      else if bs_control b \<noteq> None then (Inl BErrBusy, b)
      else case broker_snapshot io b of
        (Inl e, b1) \<Rightarrow> (Inl e, b1)
      | (Inr s, b1) \<Rightarrow>
          if 1000 \<le> length (as_Records s) + length (bs_live b1) then (Inl BErrBusy, b1)
          else (case policyEntries (bs_policy b1) of
              None \<Rightarrow> (Inl BErrPolicy, b1)
            | Some (entries, digest) \<Rightarrow>
                (case freshNonce (bi_random io) b1 of
                   None \<Rightarrow> (Inl BErrUnavailable, b1)
                 | Some fresh \<Rightarrow>
                     (case Capture (bs_clock b1) (bi_reading io) of
                        None \<Rightarrow> (Inl BErrUnavailable, b1)
                      | Some sent \<Rightarrow>
                          let p = bs_policy b1; c = length (bs_controls b1);
                              control = \<lparr>cc_query = \<lparr>sq_ServerID = pd_ServerID p, sq_OwnerUserID = pd_OwnerUserID p,
                                           sq_ConnectorInstanceID = pd_ConnectorInstanceID p, sq_PublicationID = fresh,
                                           sq_Entries = Some entries\<rparr>,
                                         cc_head = pd_Revision p, cc_entriesDigest = digest, cc_send = sent\<rparr>
                          in (Inr c, b1\<lparr>bs_readiness := None, bs_control := Some c, bs_controls := bs_controls b1 @ [control]\<rparr>)))))"

definition completeControl :: "broker_io \<Rightarrow> nat option \<Rightarrow> snapshot_reply \<Rightarrow> broker_state \<Rightarrow> broker_err option \<times> broker_state" where
  "completeControl io c reply b =
     (if c = None \<or> bs_control b \<noteq> c then (Some BErrRecoveryRequired, b)
      else
        let conv = bs_controls b ! the c;
            b1 = b\<lparr>bs_control := None, bs_readiness := None\<rparr>
        in if bi_ctx_err io 0 \<or> bs_quiescing b \<or> bs_executionClosed b \<or> cc_head conv \<noteq> pd_Revision (bs_policy b)
           then (Some BErrRecoveryRequired, b1)
           else case (policyEntries (bs_policy b), sp_Receipt reply) of
             (Some (_, digest), Some receipt) \<Rightarrow>
               if digest \<noteq> cc_entriesDigest conv \<or> \<not> MatchSnapshotReply (cc_query conv) reply then (Some BErrRecoveryRequired, b1)
               else (case (Capture (bs_clock b) (bi_reading io), ParseHTTPTime (sr_AdvertisedAt receipt)) of
                   (Some recv, Some server) \<Rightarrow>
                     (case ObserveControlTime (bs_clock b) server (cc_send conv) recv of
                        None \<Rightarrow> (Some BErrRecoveryRequired, b1)
                      | Some ready \<Rightarrow>
                          if bi_ctx_err io 1 then (Some BErrRecoveryRequired, b1)
                          else (None, b1\<lparr>bs_readiness := Some ready, bs_readyHead := cc_head conv, bs_readyEntriesDigest := digest,
                                  bs_readyPublicationID := sr_PublicationID receipt,
                                  bs_readySnapshotRevision := sr_SnapshotRevision receipt,
                                  bs_readySnapshotDigest := sr_SnapshotDigest receipt\<rparr>))
                 | _ \<Rightarrow> (Some BErrRecoveryRequired, b1))
           | _ \<Rightarrow> (Some BErrRecoveryRequired, b1))"

definition cancelControl :: "nat option \<Rightarrow> broker_state \<Rightarrow> broker_state" where
  "cancelControl c b = (if c \<noteq> None \<and> bs_control b = c then b\<lparr>bs_control := None, bs_readiness := None\<rparr> else b)"

section \<open>What the conversations ask\<close>

definition readinessCurrent :: "broker_io \<Rightarrow> broker_state \<Rightarrow> bool" where
  "readinessCurrent io b =
     (if \<not> ready_current b \<or> bs_quiescing b \<or> bs_executionClosed b then False
      else Begin (bs_clock b) (bs_readiness b) (bi_reading io) \<noteq> None)"

definition approvalFor :: "nat option \<Rightarrow> broker_state \<Rightarrow> broker_err + approval_snapshot" where
  "approvalFor r b =
     (case r of
        None \<Rightarrow> Inl BErrRecoveryRequired
      | Some h \<Rightarrow>
          if \<not> is_live b h \<or> bs_quiescing b \<or> bs_executionClosed b \<or> rv_policyHead (reservation_at b h) \<noteq> pd_Revision (bs_policy b)
          then Inl BErrRecoveryRequired
          else (case policyEntries (bs_policy b) of
              None \<Rightarrow> Inl BErrPolicy
            | Some (entries, _) \<Rightarrow>
                Inr \<lparr>asn_ServerID = pd_ServerID (bs_policy b), asn_OwnerUserID = pd_OwnerUserID (bs_policy b),
                     asn_ConnectorInstanceID = pd_ConnectorInstanceID (bs_policy b),
                     asn_Entries = map LocalFromEntry (filter (\<lambda>e. containsTarget (rv_targets (reservation_at b h)) (et_TargetID e)) entries)\<rparr>))"

record invocation =
  iv_reservation :: nat
  iv_claim :: claim
  iv_journal :: bound_execution
  iv_execution :: execution
  iv_resolved :: resolved_binding

definition currentInvocation :: "invocation option \<Rightarrow> broker_state \<Rightarrow> bool" where
  "currentInvocation invoked b =
     (if bs_executionClosed b then False
      else case invoked of
        None \<Rightarrow> False
      | Some i \<Rightarrow>
          if \<not> is_live b (iv_reservation i) \<or> bs_quiescing b \<or> bs_executionClosed b
             \<or> pd_Revision (bs_policy b) \<noteq> rv_policyHead (reservation_at b (iv_reservation i)) then False
          else (case resolveReceipt (bs_policy b) (cl_Request (iv_claim i)) True of
              None \<Rightarrow> False
            | Some resolved \<Rightarrow>
                \<not> (ak_Fingerprint (rb_key resolved) \<noteq> ak_Fingerprint (rb_key (iv_resolved i))
                   \<or> rb_remoteDigest resolved \<noteq> rb_remoteDigest (iv_resolved i)
                   \<or> rb_mappingRevision resolved \<noteq> rb_mappingRevision (iv_resolved i))))"

definition marshal_report :: "report \<Rightarrow> string option" where
  "marshal_report r =
     (if grace_MarshalJSON (pa_StopGraceSeconds (rr_Parameters (rp_Request r))) = None then None else Some (json_print (report_json r)))"

text \<open>The first record of the action decides what is reported of it.\<close>

definition retainedReport :: "broker_io \<Rightarrow> invocation \<Rightarrow> broker_state \<Rightarrow> report option" where
  "retainedReport io i b =
     (case AdmissionSnapshot (bi_journal io) (bi_snapshot_err io) (bs_journal b) of
        Inl _ \<Rightarrow> None
      | Inr s \<Rightarrow>
          (case List.find (\<lambda>r. ak_ActionID (am_Key r) = rr_ActionID (cl_Request (iv_claim i))) (as_Records s) of
             None \<Rightarrow> None
           | Some r \<Rightarrow>
               if ak_Fingerprint (am_Key r) \<noteq> ak_Fingerprint (rb_key (iv_resolved i)) \<or> am_Active r then None
               else if IsZero (am_TerminalAt r) \<and> (\<not> am_HasIntent r \<or> am_Code r \<noteq> OutcomeUnknown) then None
               else
                 let report = \<lparr>rp_Request = cl_Request (iv_claim i), rp_ExecutionLeaseID = cl_ExecutionLeaseID (iv_claim i),
                       rp_ResultCode = am_Code r,
                       rp_EvidenceKind = (if IsZero (am_TerminalAt r) then ''QUIESCED_INTENT'' else ''RETAINED_TERMINAL''),
                       rp_CorrelationID = cl_CorrelationID (iv_claim i)\<rparr>
                 in Option.bind (marshal_report report) DecodeReport))"

text \<open>
  The end of a run: the fence of \<^verbatim>\<open>stopAdmission\<close> is an atomic flag of this state, and the rest is skipped while
  another operation holds the mutex. The contexts that are canceled with the fence are answers of the outside.
\<close>

definition stopAdmission :: "broker_state \<Rightarrow> broker_state" where
  "stopAdmission b = b\<lparr>bs_executionClosed := True\<rparr>"

definition quiesce :: "broker_state \<Rightarrow> broker_state" where
  "quiesce b = b\<lparr>bs_quiescing := True, bs_readiness := None\<rparr>"

end
