(* ===== verification/BrokerRun.thy ===== *)
theory BrokerRun
  imports BrokerState
begin

text \<open>
  Runs of the action broker. A run starts from a state the constructor accepts and takes the operations of
  the broker and of its journal in any order. The invariant \<open>broker_inv\<close> says what every reachable state
  keeps: few live reservations with nonces of their own, conversations and readiness that were made from
  captured stamps, and bound reservations that do not share a target or a container.
\<close>

section \<open>Binary search\<close>

lemma search_strings_bounds:
  assumes "sorted xs" "i \<le> j" "j \<le> length xs" "\<forall>k < i. xs ! k < x" "\<forall>k. j \<le> k \<longrightarrow> k < length xs \<longrightarrow> x \<le> xs ! k"
  shows "search_strings xs x i j \<le> length xs \<and> (\<forall>k < search_strings xs x i j. xs ! k < x)
    \<and> (\<forall>k. search_strings xs x i j \<le> k \<longrightarrow> k < length xs \<longrightarrow> x \<le> xs ! k)"
  using assms
proof (induction xs x i j rule: search_strings.induct)
  case (1 xs x i j)
  define h where "h = (i + j) div 2"
  show ?case
  proof (cases "i < j")
    case False
    then have "search_strings xs x i j = i" by (subst search_strings.simps) simp
    then show ?thesis using "1.prems" False by simp
  next
    case True
    then have h: "i \<le> h" "h < j" by (auto simp: h_def)
    show ?thesis
    proof (cases "x \<le> xs ! h")
      case le: True
      have up: "\<forall>k. h \<le> k \<longrightarrow> k < length xs \<longrightarrow> x \<le> xs ! k"
        using le "1.prems"(1) by (metis order.trans sorted_nth_mono)
      have "search_strings xs x i h \<le> length xs \<and> (\<forall>k < search_strings xs x i h. xs ! k < x)
          \<and> (\<forall>k. search_strings xs x i h \<le> k \<longrightarrow> k < length xs \<longrightarrow> x \<le> xs ! k)"
        by (rule "1.IH"(2) [OF True h_def]) (use le h up "1.prems" in auto)
      moreover have "search_strings xs x i j = search_strings xs x i h"
        using True le by (subst search_strings.simps) (simp add: h_def Let_def)
      ultimately show ?thesis by simp
    next
      case gt: False
      have low: "\<forall>k < h + 1. xs ! k < x"
      proof (intro allI impI)
        fix k assume "k < h + 1"
        then have "xs ! k \<le> xs ! h" using "1.prems"(1,3) h by (intro sorted_nth_mono) auto
        then show "xs ! k < x" using gt by simp
      qed
      have "search_strings xs x (h + 1) j \<le> length xs \<and> (\<forall>k < search_strings xs x (h + 1) j. xs ! k < x)
          \<and> (\<forall>k. search_strings xs x (h + 1) j \<le> k \<longrightarrow> k < length xs \<longrightarrow> x \<le> xs ! k)"
        by (rule "1.IH"(1) [OF True h_def]) (use gt h low "1.prems" in auto)
      moreover have "search_strings xs x i j = search_strings xs x (h + 1) j"
        using True gt by (subst search_strings.simps) (simp add: h_def Let_def)
      ultimately show ?thesis by simp
    qed
  qed
qed

lemma containsTarget_iff:
  assumes "sorted xs"
  shows "containsTarget xs x \<longleftrightarrow> x \<in> set xs"
proof -
  let ?r = "search_strings xs x 0 (length xs)"
  have b: "?r \<le> length xs" "\<forall>k < ?r. xs ! k < x" "\<forall>k. ?r \<le> k \<longrightarrow> k < length xs \<longrightarrow> x \<le> xs ! k"
    using search_strings_bounds [OF assms, of 0 "length xs" x] by auto
  show ?thesis
  proof
    assume "containsTarget xs x"
    then show "x \<in> set xs" by (metis containsTarget_def nth_mem)
  next
    assume "x \<in> set xs"
    then obtain k where k: "k < length xs" "xs ! k = x" by (metis in_set_conv_nth)
    then have "?r \<le> k" using b(2) by (metis less_irrefl not_le)
    then have "xs ! ?r \<le> x" "x \<le> xs ! ?r" using k b(3) assms by (auto intro: sorted_nth_mono)
    then show "containsTarget xs x" using \<open>?r \<le> k\<close> k by (auto simp: containsTarget_def Let_def)
  qed
qed

lemma eligible_contains:
  assumes "containsTarget (eligible s e b) t"
  obtains m where "m \<in> set (current_mappings (bs_policy b))" "md_TargetID m = t"
    "\<forall>h \<in> set (live_handles b). \<not> live_blocks b e m h" "\<forall>r \<in> set (as_Records s). \<not> record_blocks (as_ObservedAt s) m r"
proof -
  have "t \<in> set (eligible s e b)" using assms containsTarget_iff [of "eligible s e b"] by (simp add: eligible_def Let_def)
  then show thesis using that by (auto simp: eligible_def Let_def list_ex_iff)
qed

section \<open>Frames\<close>

lemma broker_snapshot_cases:
  assumes "broker_snapshot io b = (x, b')"
  shows "b' = b\<lparr>bs_recoveryRequired := bs_recoveryRequired b'\<rparr>"
    "x = Inr s \<Longrightarrow> b' = b \<and> \<not> bs_recoveryRequired b \<and> as_Binding s = policy_binding (bs_policy b)
       \<and> AdmissionSnapshot (bi_journal io) (bi_snapshot_err io) (bs_journal b) = Inr s
       \<and> (\<forall>r \<in> set (as_Records s). record_open r \<or> am_Active r \<longrightarrow> ak_ActionID (am_Key r) \<in> set (map ak_ActionID (bound_keys b)))"
  using assms by (auto simp: broker_snapshot_def Let_def list_ex_iff split: sum.splits if_splits)

lemma snapshot_Inr:
  assumes "broker_snapshot io b = (Inr s, b')"
  shows "b' = b"
  using broker_snapshot_cases(2) [OF assms] by simp

section \<open>Runs\<close>

inductive broker_step :: "broker_state \<Rightarrow> broker_state \<Rightarrow> bool" where
  reserve: "reserve io b = (x, b') \<Longrightarrow> broker_step b b'"
| release: "releaseUnclaimed io h b = (e, b') \<Longrightarrow> broker_step b b'"
| bind: "bindClaim io h cl rtt b = (y, b') \<Longrightarrow> broker_step b b'"
| finish: "broker_finish io h b = (e, b') \<Longrightarrow> broker_step b b'"
| abandon: "broker_step b (broker_abandon h b)"
| recovery: "broker_step b (require_recovery b)"
| begin_control: "beginControl io b = (x, b') \<Longrightarrow> broker_step b b'"
| complete_control: "completeControl io c reply b = (e, b') \<Longrightarrow> broker_step b b'"
| cancel_control: "broker_step b (cancelControl c b)"
| stop: "broker_step b (stopAdmission b)"
| quiesce: "broker_step b (quiesce b)"
| journal: "journal_step (policy_binding (bs_policy b)) (bs_journal b, I) (j', I') \<Longrightarrow> broker_step b (b\<lparr>bs_journal := j'\<rparr>)"

inductive_cases broker_stepE: "broker_step b b'"

inductive broker_run :: "broker_state \<Rightarrow> bool" where
  start: "newBrokerState io p (Some j) clock = Inr b \<Longrightarrow> broker_run b"
| step: "broker_run b \<Longrightarrow> broker_step b b' \<Longrightarrow> broker_run b'"

section \<open>Live and bound reservations\<close>

definition live_ok :: "broker_state \<Rightarrow> bool" where
  "live_ok b \<longleftrightarrow>
     distinct (map fst (bs_live b)) \<and> length (bs_live b) \<le> 2
     \<and> (\<forall>(n, h) \<in> set (bs_live b). h < length (bs_reservations b) \<and> rv_nonce (reservation_at b h) = n)"

definition bound_ok :: "broker_state \<Rightarrow> bool" where
  "bound_ok b \<longleftrightarrow>
     (\<forall>h < length (bs_reservations b). \<forall>rb. rv_bound (reservation_at b h) = Some rb \<longrightarrow>
        rv_claimTried (reservation_at b h) \<and> (\<exists>q. resolveReceipt (bs_policy b) q True = Some rb))"

definition apart :: "action_key \<Rightarrow> action_key \<Rightarrow> bool" where
  "apart k l \<longleftrightarrow> ak_TargetID k \<noteq> ak_TargetID l \<and> \<not> same_physical k l"

definition exclusive :: "broker_state \<Rightarrow> bool" where
  "exclusive b \<longleftrightarrow>
     (\<forall>h \<in> set (live_handles b). \<forall>h' \<in> set (live_handles b). \<forall>x y. h \<noteq> h' \<longrightarrow>
        rv_bound (reservation_at b h) = Some x \<longrightarrow> rv_bound (reservation_at b h') = Some y \<longrightarrow> apart (rb_key x) (rb_key y))"

definition core_inv :: "broker_state \<Rightarrow> bool" where
  "core_inv b \<longleftrightarrow> validatePolicy (bs_policy b) \<and> live_ok b \<and> bound_ok b \<and> exclusive b"

lemmas core_defs = core_inv_def live_ok_def bound_ok_def exclusive_def live_handles_def reservation_at_def

lemma core_frame:
  assumes "core_inv b" "bs_policy b' = bs_policy b" "bs_live b' = bs_live b" "bs_reservations b' = bs_reservations b"
  shows "core_inv b'"
  using assms by (simp add: core_defs)

lemma core_fields [simp]:
  "core_inv (b\<lparr>bs_recoveryRequired := x\<rparr>) = core_inv b" "core_inv (b\<lparr>bs_executionClosed := x\<rparr>) = core_inv b"
  "core_inv (b\<lparr>bs_journal := j\<rparr>) = core_inv b" "core_inv (b\<lparr>bs_readiness := r\<rparr>) = core_inv b"
  "core_inv (b\<lparr>bs_control := c\<rparr>) = core_inv b" "core_inv (b\<lparr>bs_controls := cs\<rparr>) = core_inv b"
  "core_inv (b\<lparr>bs_quiescing := x\<rparr>) = core_inv b" "core_inv (b\<lparr>bs_readyHead := t\<rparr>) = core_inv b"
  "core_inv (b\<lparr>bs_readyEntriesDigest := d\<rparr>) = core_inv b" "core_inv (b\<lparr>bs_readyPublicationID := t\<rparr>) = core_inv b"
  "core_inv (b\<lparr>bs_readySnapshotRevision := t\<rparr>) = core_inv b" "core_inv (b\<lparr>bs_readySnapshotDigest := t\<rparr>) = core_inv b"
  by (simp_all add: core_defs)

lemma is_live_handle: "is_live b h \<Longrightarrow> h \<in> set (live_handles b) \<and> h < length (bs_reservations b)"
  by (force simp: is_live_def live_handles_def dest: map_of_SomeD)

lemma apart_sym: "apart k l \<Longrightarrow> apart l k"
  by (auto simp: apart_def same_physical_def)

lemma core_forget:
  assumes "core_inv b"
  shows "core_inv (forget h b)"
proof -
  let ?b = "forget h b"
  have sub: "set (bs_live ?b) \<subseteq> set (bs_live b)" and len: "length (bs_live ?b) \<le> length (bs_live b)"
    and d: "distinct (map fst (bs_live b)) \<Longrightarrow> distinct (map fst (bs_live ?b))"
    by (auto simp: forget_def distinct_map_filter)
  have same: "bs_reservations ?b = bs_reservations b" "bs_policy ?b = bs_policy b" "reservation_at ?b = reservation_at b"
    by (auto simp: forget_def reservation_at_def)
  have handles: "set (live_handles ?b) \<subseteq> set (live_handles b)" using sub by (auto simp: live_handles_def)
  have "live_ok ?b" using assms sub len d unfolding core_inv_def live_ok_def same by fastforce
  moreover have "bound_ok ?b" using assms unfolding core_inv_def bound_ok_def same by blast
  moreover have "exclusive ?b" using assms handles unfolding core_inv_def exclusive_def same by blast
  ultimately show ?thesis using assms unfolding core_inv_def same by blast
qed

lemma reservation_at_update:
  "reservation_at (on_reservation f h b) k = (if k = h \<and> h < length (bs_reservations b) then f (reservation_at b h) else reservation_at b k)"
  by (cases "h < length (bs_reservations b)") (auto simp: on_reservation_def reservation_at_def nth_list_update list_update_beyond)

lemma on_reservation_sel [simp]:
  "bs_live (on_reservation f h b) = bs_live b" "bs_policy (on_reservation f h b) = bs_policy b"
  "length (bs_reservations (on_reservation f h b)) = length (bs_reservations b)" "live_handles (on_reservation f h b) = live_handles b"
  "bs_journal (on_reservation f h b) = bs_journal b" "bs_clock (on_reservation f h b) = bs_clock b"
  "bs_readiness (on_reservation f h b) = bs_readiness b" "bs_controls (on_reservation f h b) = bs_controls b"
  by (simp_all add: on_reservation_def live_handles_def)

lemma core_update:
  assumes "core_inv b" "\<And>r. rv_nonce (f r) = rv_nonce r" "\<And>r. rv_bound (f r) = rv_bound r" "\<And>r. rv_claimTried r \<Longrightarrow> rv_claimTried (f r)"
  shows "core_inv (on_reservation f h b)"
  using assms unfolding core_inv_def live_ok_def bound_ok_def exclusive_def
  by (auto simp: reservation_at_update)

lemma core_bind:
  assumes "core_inv b" "rv_claimTried (reservation_at b h)" "resolveReceipt (bs_policy b) q True = Some rb"
    and "\<And>h' y. h' \<in> set (live_handles b) \<Longrightarrow> h' \<noteq> h \<Longrightarrow> rv_bound (reservation_at b h') = Some y \<Longrightarrow> apart (rb_key rb) (rb_key y)"
  shows "core_inv (on_reservation (rv_bound_update (\<lambda>_. Some rb)) h b)"
  using assms apart_sym unfolding core_inv_def live_ok_def bound_ok_def exclusive_def
  by (auto simp: reservation_at_update)

lemma core_new:
  assumes "core_inv b" "length (bs_live b) < 2" "map_of (bs_live b) (rv_nonce r) = None" "rv_bound r = None"
  shows "core_inv (b\<lparr>bs_reservations := bs_reservations b @ [r], bs_live := (rv_nonce r, length (bs_reservations b)) # bs_live b\<rparr>)"
proof -
  have n: "rv_nonce r \<notin> fst ` set (bs_live b)" using assms(3) by (simp add: map_of_eq_None_iff)
  have lt: "h < length (bs_reservations b)" if "(m, h) \<in> set (bs_live b)" for m h
    using assms(1) that by (auto simp: core_inv_def live_ok_def)
  show ?thesis
    using assms n unfolding core_defs
    by (auto simp: nth_append less_Suc_eq dest: lt split: if_splits)
qed

text \<open>A claim that is bound, with everything that was checked.\<close>

abbreviation tried :: "nat \<Rightarrow> broker_state \<Rightarrow> broker_state" where
  "tried h b \<equiv> on_reservation (rv_claimTried_update (\<lambda>_. True)) h b"

definition binds ::
  "broker_io \<Rightarrow> nat \<Rightarrow> claim \<Rightarrow> duration \<Rightarrow> broker_state \<Rightarrow> admission_snapshot \<Rightarrow> bound_execution \<Rightarrow> execution \<Rightarrow> resolved_binding \<Rightarrow> bool" where
  "binds io h cl rtt b s bound e rb \<longleftrightarrow>
     is_live b h \<and> \<not> rv_claimTried (reservation_at b h) \<and> rv_policyHead (reservation_at b h) = pd_Revision (bs_policy b)
     \<and> \<not> bs_quiescing b \<and> \<not> bs_executionClosed b
     \<and> AdmissionSnapshot (bi_journal io) (bi_snapshot_err io) (bs_journal b) = Inr s \<and> as_Binding s = policy_binding (bs_policy b)
     \<and> (\<forall>x \<in> set (as_Records s). ak_ActionID (am_Key x) \<noteq> rr_ActionID (cl_Request cl))
     \<and> resolveReceipt (bs_policy b) (cl_Request cl) True = Some rb
     \<and> containsTarget (rv_targets (reservation_at b h)) (ak_TargetID (rb_key rb))
     \<and> containsTarget (eligible s (Some h) (tried h b)) (ak_TargetID (rb_key rb))
     \<and> fst (AcceptClaim cl rtt (ab_ContainerID (rb_binding rb)) (bi_reading io) (rv_conversation (reservation_at b h))) = Some e
     \<and> BindExecution (rb_key rb) (rb_remoteDigest rb) (bs_journal b) = Some bound"

lemma bind_resolved_cases:
  assumes "bind_resolved io h cl rtt s b = (y, b')"
  shows "(b' = b \<and> (\<exists>e. y = Inl e))
    \<or> (\<exists>c cid x. (\<exists>e. y = Inl e) \<and> b' = on_reservation (rv_conversation_update (\<lambda>_. c)) h b
         \<and> AcceptClaim cl rtt cid (bi_reading io) (rv_conversation (reservation_at b h)) = (x, c))
    \<or> (\<exists>c bound e rb. y = Inr (bound, e, rb)
         \<and> AcceptClaim cl rtt (ab_ContainerID (rb_binding rb)) (bi_reading io) (rv_conversation (reservation_at b h)) = (Some e, c)
         \<and> b' = on_reservation (rv_bound_update (\<lambda>_. Some rb)) h (on_reservation (rv_conversation_update (\<lambda>_. c)) h b)
         \<and> (\<forall>x \<in> set (as_Records s). ak_ActionID (am_Key x) \<noteq> rr_ActionID (cl_Request cl))
         \<and> resolveReceipt (bs_policy b) (cl_Request cl) True = Some rb
         \<and> containsTarget (rv_targets (reservation_at b h)) (ak_TargetID (rb_key rb))
         \<and> containsTarget (eligible s (Some h) b) (ak_TargetID (rb_key rb))
         \<and> BindExecution (rb_key rb) (rb_remoteDigest rb) (bs_journal b) = Some bound)"
proof (cases "resolveReceipt (bs_policy b) (cl_Request cl) True")
  case None
  then show ?thesis using assms by (auto simp: bind_resolved_def split: if_splits)
next
  case (Some rb)
  obtain x c where a: "AcceptClaim cl rtt (ab_ContainerID (rb_binding rb)) (bi_reading io) (rv_conversation (reservation_at b h)) = (x, c)"
    by fastforce
  show ?thesis
  proof (cases x)
    case None
    then show ?thesis using assms Some a by (auto simp: bind_resolved_def Let_def split: if_splits)
  next
    case (Some e)
    then show ?thesis
      using assms a \<open>resolveReceipt _ _ _ = _\<close>
      by (cases "BindExecution (rb_key rb) (rb_remoteDigest rb) (bs_journal b)") (auto simp: bind_resolved_def Let_def list_ex_iff split: if_splits)
  qed
qed

lemma bindClaim_cases:
  assumes "bindClaim io r cl rtt b = (y, b')"
  shows "(b' = b \<and> (\<exists>e. y = Inl e))
    \<or> (\<exists>h. r = Some h \<and> (\<exists>e. y = Inl e) \<and> b' = (tried h b)\<lparr>bs_recoveryRequired := bs_recoveryRequired b'\<rparr>)
    \<or> (\<exists>h c cid x. r = Some h \<and> (\<exists>e. y = Inl e) \<and> b' = on_reservation (rv_conversation_update (\<lambda>_. c)) h (tried h b)
         \<and> AcceptClaim cl rtt cid (bi_reading io) (rv_conversation (reservation_at b h)) = (x, c))
    \<or> (\<exists>h s c bound e rb. r = Some h \<and> y = Inr (bound, e, rb) \<and> binds io h cl rtt b s bound e rb
         \<and> AcceptClaim cl rtt (ab_ContainerID (rb_binding rb)) (bi_reading io) (rv_conversation (reservation_at b h)) = (Some e, c)
         \<and> b' = on_reservation (rv_bound_update (\<lambda>_. Some rb)) h (on_reservation (rv_conversation_update (\<lambda>_. c)) h (tried h b)))"
proof (cases "\<exists>h. r = Some h \<and> is_live b h \<and> \<not> rv_claimTried (reservation_at b h)
     \<and> rv_policyHead (reservation_at b h) = pd_Revision (bs_policy b) \<and> \<not> bs_quiescing b \<and> \<not> bs_executionClosed b")
  case False
  then have "b' = b \<and> (\<exists>e. y = Inl e)" using assms by (auto simp: bindClaim_def split: option.splits if_splits)
  then show ?thesis by blast
next
  case True
  then obtain h where r: "r = Some h" and ok: "is_live b h" "\<not> rv_claimTried (reservation_at b h)"
    "rv_policyHead (reservation_at b h) = pd_Revision (bs_policy b)" "\<not> bs_quiescing b" "\<not> bs_executionClosed b" by blast
  then have lt: "h < length (bs_reservations b)" using is_live_handle by blast
  obtain z b2 where z: "broker_snapshot io (tried h b) = (z, b2)" by fastforce
  show ?thesis
  proof (cases z)
    case (Inl x)
    then have "b' = b2" "\<exists>e. y = Inl e" using assms ok z by (auto simp: bindClaim_def r)
    then show ?thesis using broker_snapshot_cases(1) [OF z] r by blast
  next
    case (Inr s)
    note sn = broker_snapshot_cases(2) [OF z Inr]
    then have tail: "bind_resolved io h cl rtt s (tried h b) = (y, b')" using assms ok z Inr by (simp add: bindClaim_def r)
    have conv: "rv_conversation (reservation_at (tried h b) h) = rv_conversation (reservation_at b h)"
      "rv_targets (reservation_at (tried h b) h) = rv_targets (reservation_at b h)"
      using lt by (simp_all add: reservation_at_update)
    have flag: "tried h b = (tried h b)\<lparr>bs_recoveryRequired := bs_recoveryRequired (tried h b)\<rparr>" by simp
    show ?thesis
      using bind_resolved_cases [OF tail]
    proof (elim disjE exE conjE, goal_cases)
      case (1 e)
      then show ?thesis using r flag by blast
    next
      case (2 c cid x e)
      then show ?thesis using r unfolding conv by blast
    next
      case (3 c bound e rb)
      then have "binds io h cl rtt b s bound e rb" using ok sn by (auto simp: binds_def conv)
      then show ?thesis using 3 r unfolding conv by blast
    qed
  qed
qed

text \<open>The mapping a bound claim was resolved to, and why no other live reservation shares its target or container.\<close>

lemma validatePolicy_target:
  assumes "validatePolicy p" "m \<in> set (pd_mappings p)" "m' \<in> set (pd_mappings p)" "md_TargetID m = md_TargetID m'"
  shows "same_container m m'"
  using assms unfolding validatePolicy_iff policy_spec_def mappings_spec_def pd_mappings_def by (metis option.case(2))

lemma binds_mapping:
  assumes "binds io h cl rtt b s bound e rb"
  obtains m where "filter (mapping_matches (bs_policy b) (cl_Request cl) True) (pd_mappings (bs_policy b)) = [m]"
    "m \<in> set (current_mappings (bs_policy b))" "rb_binding rb = receipt_binding (cl_Request cl) m"
    "ak_TargetID (rb_key rb) = rr_TargetID (cl_Request cl)" "ak_ActionID (rb_key rb) = rr_ActionID (cl_Request cl)"
    "jm_EngineGeneration (ak_Metadata (rb_key rb)) = md_EngineGeneration m" "jm_ContainerID (ak_Metadata (rb_key rb)) = md_ContainerID m"
    "\<forall>k \<in> set (live_handles b). k \<noteq> h \<longrightarrow> \<not> live_blocks b None m k" "\<forall>r \<in> set (as_Records s). \<not> record_blocks (as_ObservedAt s) m r"
    "validatePolicy (bs_policy b)"
proof -
  have r: "resolveReceipt (bs_policy b) (cl_Request cl) True = Some rb"
    and el: "containsTarget (eligible s (Some h) (tried h b)) (ak_TargetID (rb_key rb))"
    using assms by (auto simp: binds_def)
  from r obtain m where m: "filter (mapping_matches (bs_policy b) (cl_Request cl) True) (pd_mappings (bs_policy b)) = [m]"
    "rb_binding rb = receipt_binding (cl_Request cl) m" "validatePolicy (bs_policy b)"
    "ak_ActionID (rb_key rb) = rr_ActionID (cl_Request cl)" "ak_TargetID (rb_key rb) = rr_TargetID (cl_Request cl)"
    "jm_EngineGeneration (ak_Metadata (rb_key rb)) = md_EngineGeneration m" "jm_ContainerID (ak_Metadata (rb_key rb)) = md_ContainerID m"
    by (rule resolveReceipt_facts) blast
  have "m \<in> set (filter (mapping_matches (bs_policy b) (cl_Request cl) True) (pd_mappings (bs_policy b)))" by (simp add: m(1))
  then have mem: "m \<in> set (pd_mappings (bs_policy b))" and mm: "mapping_matches (bs_policy b) (cl_Request cl) True m" by auto
  have cur: "m \<in> set (current_mappings (bs_policy b))" and tg: "md_TargetID m = rr_TargetID (cl_Request cl)"
    using mem mm by (auto simp: current_mappings_def mapping_matches_def)
  from el obtain n where n: "n \<in> set (current_mappings (bs_policy (tried h b)))" "md_TargetID n = ak_TargetID (rb_key rb)"
    "\<forall>k \<in> set (live_handles (tried h b)). \<not> live_blocks (tried h b) (Some h) n k"
    "\<forall>r \<in> set (as_Records s). \<not> record_blocks (as_ObservedAt s) n r"
    by (rule eligible_contains)
  have sc: "same_container n m"
    using validatePolicy_target [OF m(3) _ mem] n(1,2) m(5) tg by (auto simp: current_mappings_def)
  have pm: "physicalMatch k n = physicalMatch k m" for k
    using sc n(2) m(5) tg by (auto simp: physicalMatch_def same_container_def)
  have "\<not> live_blocks b None m k" if "k \<in> set (live_handles b)" "k \<noteq> h" for k
    using n(3) that by (auto simp: live_blocks_def pm reservation_at_update split: option.splits)
  moreover have "\<forall>r \<in> set (as_Records s). \<not> record_blocks (as_ObservedAt s) m r" using n(4) by (simp add: record_blocks_def pm)
  ultimately show thesis using that m cur by blast
qed

lemma core_bindClaim:
  assumes "core_inv b" "bindClaim io r cl rtt b = (y, b')"
  shows "core_inv b'"
  using bindClaim_cases [OF assms(2)]
proof (elim disjE exE conjE)
  assume "b' = b"
  then show ?thesis using assms(1) by simp
next
  fix h assume "b' = (tried h b)\<lparr>bs_recoveryRequired := bs_recoveryRequired b'\<rparr>"
  then show ?thesis using core_update [OF assms(1), of "rv_claimTried_update (\<lambda>_. True)" h] by (metis core_fields(1) reservation.select_convs reservation.surjective reservation.update_convs(6))
next
  fix h c assume "b' = on_reservation (rv_conversation_update (\<lambda>_. c)) h (tried h b)"
  then show ?thesis by (auto intro!: core_update assms(1))
next
  fix h s c bound e rb
  assume b': "b' = on_reservation (rv_bound_update (\<lambda>_. Some rb)) h (on_reservation (rv_conversation_update (\<lambda>_. c)) h (tried h b))"
    and bi: "binds io h cl rtt b s bound e rb"
  let ?c = "on_reservation (rv_conversation_update (\<lambda>_. c)) h (tried h b)"
  have lt: "h < length (bs_reservations b)" using bi is_live_handle by (auto simp: binds_def)
  from bi obtain m where m: "ak_TargetID (rb_key rb) = rr_TargetID (cl_Request cl)"
    "jm_EngineGeneration (ak_Metadata (rb_key rb)) = md_EngineGeneration m" "jm_ContainerID (ak_Metadata (rb_key rb)) = md_ContainerID m"
    "\<forall>k \<in> set (live_handles b). k \<noteq> h \<longrightarrow> \<not> live_blocks b None m k" "md_TargetID m = rr_TargetID (cl_Request cl)"
    by (rule binds_mapping) (auto simp: mapping_matches_def dest!: filter_eq_ConsD)
  show ?thesis
    unfolding b'
  proof (rule core_bind)
    show "core_inv ?c" by (auto intro!: core_update assms(1))
    show "rv_claimTried (reservation_at ?c h)" using lt by (simp add: reservation_at_update)
    show "resolveReceipt (bs_policy ?c) (cl_Request cl) True = Some rb" using bi by (simp add: binds_def)
    fix k y assume k: "k \<in> set (live_handles ?c)" "k \<noteq> h" "rv_bound (reservation_at ?c k) = Some y"
    then have "\<not> live_blocks b None m k" "rv_bound (reservation_at b k) = Some y" using m(4) by (simp_all add: reservation_at_update)
    then show "apart (rb_key rb) (rb_key y)"
      using m by (auto simp: live_blocks_def physicalMatch_def apart_def same_physical_def)
  qed
qed

section \<open>Time\<close>

text \<open>Readiness, control conversations and reservations hold stamps that the broker's clock captured.\<close>

definition time_inv :: "broker_state \<Rightarrow> bool" where
  "time_inv b \<longleftrightarrow>
     bs_clock b \<noteq> None \<and> (\<forall>r. bs_readiness b = Some r \<longrightarrow> readiness_ok r \<and> re_clock r = bs_clock b)
     \<and> list_all (\<lambda>c. captured (bs_clock b) (cc_send c)) (bs_controls b)
     \<and> (\<forall>c. bs_control b = Some c \<longrightarrow> c < length (bs_controls b))
     \<and> list_all (\<lambda>r. conversation_ok (rv_conversation r) \<and> cv_clock (rv_conversation r) = bs_clock b) (bs_reservations b)"

lemma time_fields [simp]:
  "time_inv (b\<lparr>bs_recoveryRequired := x\<rparr>) = time_inv b" "time_inv (b\<lparr>bs_executionClosed := x\<rparr>) = time_inv b"
  "time_inv (b\<lparr>bs_journal := j\<rparr>) = time_inv b" "time_inv (b\<lparr>bs_live := l\<rparr>) = time_inv b"
  by (simp_all add: time_inv_def)

lemma time_drop:
  "time_inv b \<Longrightarrow> time_inv (b\<lparr>bs_readiness := None\<rparr>)" "time_inv b \<Longrightarrow> time_inv (b\<lparr>bs_control := None, bs_readiness := None\<rparr>)"
  "time_inv b \<Longrightarrow> time_inv (b\<lparr>bs_quiescing := x, bs_readiness := None\<rparr>)"
  by (auto simp: time_inv_def)

lemma time_forget [simp]: "time_inv (forget h b) = time_inv b"
  by (simp add: forget_def)

lemma time_update:
  assumes "time_inv b"
    and "h < length (bs_reservations b) \<Longrightarrow> conversation_ok (rv_conversation (reservation_at b h)) \<Longrightarrow>
      cv_clock (rv_conversation (reservation_at b h)) = bs_clock b \<Longrightarrow>
      conversation_ok (rv_conversation (f (reservation_at b h))) \<and> cv_clock (rv_conversation (f (reservation_at b h))) = bs_clock b"
  shows "time_inv (on_reservation f h b)"
proof (cases "h < length (bs_reservations b)")
  case True
  have old: "list_all (\<lambda>r. conversation_ok (rv_conversation r) \<and> cv_clock (rv_conversation r) = bs_clock b) (bs_reservations b)"
    using assms(1) by (simp add: time_inv_def)
  then have "conversation_ok (rv_conversation (reservation_at b h)) \<and> cv_clock (rv_conversation (reservation_at b h)) = bs_clock b"
    using True by (auto simp: list_all_length reservation_at_def)
  then have "conversation_ok (rv_conversation (f (reservation_at b h))) \<and> cv_clock (rv_conversation (f (reservation_at b h))) = bs_clock b"
    using assms(2) True by blast
  then have "list_all (\<lambda>r. conversation_ok (rv_conversation r) \<and> cv_clock (rv_conversation r) = bs_clock b)
      ((bs_reservations b)[h := f (reservation_at b h)])"
    using old set_update_subset_insert [of "bs_reservations b" h] unfolding list_all_iff by blast
  then show ?thesis using assms(1) by (simp add: time_inv_def on_reservation_def)
next
  case False
  then show ?thesis using assms(1) by (simp add: on_reservation_def not_less list_update_beyond)
qed

lemma time_conversation:
  "time_inv b \<Longrightarrow> is_live b h \<Longrightarrow> conversation_ok (rv_conversation (reservation_at b h)) \<and> cv_clock (rv_conversation (reservation_at b h)) = bs_clock b"
  by (auto simp: time_inv_def is_live_def reservation_at_def list_all_length)

lemma AcceptClaim_conversation:
  "AcceptClaim cl rtt cid read c = (x, c') \<Longrightarrow> conversation_ok c \<Longrightarrow> conversation_ok c' \<and> cv_clock c' = cv_clock c"
  using AcceptClaim_keeps AcceptClaim_used by fastforce

lemma time_bindClaim:
  assumes "time_inv b" "bindClaim io r cl rtt b = (y, b')"
  shows "time_inv b'"
proof -
  have t: "time_inv (tried h b)" for h by (rule time_update [OF assms(1)]) simp
  have c: "time_inv (on_reservation (rv_conversation_update (\<lambda>_. c)) h (tried h b))"
    if "AcceptClaim cl rtt cid (bi_reading io) (rv_conversation (reservation_at b h)) = (x, c)" for h c cid x
    using that by (intro time_update [OF t]) (auto simp: reservation_at_update dest: AcceptClaim_conversation)
  show ?thesis
    using bindClaim_cases [OF assms(2)]
  proof (elim disjE exE conjE, goal_cases)
    case (2 h e)
    then show ?thesis using t [of h] by (metis time_fields(1))
  next
    case (4 h s c bound e rb)
    have "time_inv (on_reservation (rv_bound_update (\<lambda>_. Some rb)) h (on_reservation (rv_conversation_update (\<lambda>_. c)) h (tried h b)))"
      by (rule time_update [OF c [OF 4(4)]]) simp
    then show ?thesis using 4 by simp
  qed (use assms(1) c in blast)+
qed

section \<open>Every step keeps the invariant\<close>

definition broker_inv :: "broker_state \<Rightarrow> bool" where
  "broker_inv b \<longleftrightarrow> core_inv b \<and> time_inv b"

lemma broker_snapshot_inv:
  assumes "broker_inv b" "broker_snapshot io b = (x, b')"
  shows "broker_inv b'"
  using broker_snapshot_cases(1) [OF assms(2)] assms(1) unfolding broker_inv_def by (metis core_fields(1) time_fields(1))

lemma reserve_inv:
  assumes "broker_inv b" "reserve io b = (x, b')"
  shows "broker_inv b'"
proof (cases "bs_quiescing b \<or> bs_executionClosed b \<or> \<not> ready_current b")
  case True
  then show ?thesis using assms by (auto simp: reserve_def broker_inv_def time_drop split: if_splits)
next
  case False
  obtain z b1 where z: "broker_snapshot io b = (z, b1)" by fastforce
  note i1 = broker_snapshot_inv [OF assms(1) z]
  show ?thesis
  proof (cases "\<exists>s v n. z = Inr s \<and> length (bs_live b1) < 2 \<and> Begin (bs_clock b1) (bs_readiness b1) (bi_reading io) = Some v
      \<and> freshNonce (bi_random io) b1 = Some n \<and> b' \<noteq> b1")
    case True
    then obtain s v n where s: "z = Inr s" and l: "length (bs_live b1) < 2"
      and v: "Begin (bs_clock b1) (bs_readiness b1) (bi_reading io) = Some v" and n: "freshNonce (bi_random io) b1 = Some n" and ne: "b' \<noteq> b1"
      by blast
    define r where "r = \<lparr>rv_nonce = n, rv_policyHead = pd_Revision (bs_policy b1), rv_targets = eligible s None b1,
       rv_conversation = v, rv_bound = None, rv_claimTried = False\<rparr>"
    have b': "b' = b1\<lparr>bs_reservations := bs_reservations b1 @ [r], bs_live := (rv_nonce r, length (bs_reservations b1)) # bs_live b1\<rparr>"
      using assms(2) False z s l v n ne by (auto simp: reserve_def Let_def r_def split: if_splits)
    have fresh: "map_of (bs_live b1) (rv_nonce r) = None"
      using n by (auto simp: freshNonce_def Let_def r_def split: option.splits if_splits)
    obtain ready where ready: "bs_readiness b1 = Some ready" using v by (auto simp: Begin_def split: option.splits)
    have "readiness_ok ready" using i1 ready by (auto simp: broker_inv_def time_inv_def)
    then have "conversation_ok v \<and> cv_clock v = bs_clock b1" using Begin_ok v ready by metis
    then have "time_inv b'" using i1 by (auto simp: b' broker_inv_def time_inv_def r_def)
    moreover have "core_inv b'"
      unfolding b' by (rule core_new) (use i1 l fresh in \<open>auto simp: broker_inv_def r_def\<close>)
    ultimately show ?thesis by (simp add: broker_inv_def)
  next
    case no: False
    have "b' = b1"
    proof (cases z)
      case (Inr s)
      then show ?thesis using assms(2) False z no by (auto simp: reserve_def Let_def split: option.splits if_splits)
    qed (use assms(2) False z in \<open>auto simp: reserve_def\<close>)
    then show ?thesis using i1 by simp
  qed
qed

lemma beginControl_inv:
  assumes "broker_inv b" "beginControl io b = (x, b')"
  shows "broker_inv b'"
proof (cases "bs_quiescing b \<or> bs_executionClosed b \<or> bs_control b \<noteq> None")
  case True
  then show ?thesis using assms by (auto simp: beginControl_def split: if_splits)
next
  case False
  obtain z b1 where z: "broker_snapshot io b = (z, b1)" by fastforce
  note i1 = broker_snapshot_inv [OF assms(1) z]
  show ?thesis
  proof (cases "b' = b1")
    case False
    then obtain sent q hd dg where c: "Capture (bs_clock b1) (bi_reading io) = Some sent"
      and b': "b' = b1\<lparr>bs_readiness := None, bs_control := Some (length (bs_controls b1)),
        bs_controls := bs_controls b1 @ [\<lparr>cc_query = q, cc_head = hd, cc_entriesDigest = dg, cc_send = sent\<rparr>]\<rparr>"
      using assms(2) z \<open>\<not> (bs_quiescing b \<or> bs_executionClosed b \<or> bs_control b \<noteq> None)\<close>
      by (auto simp: beginControl_def Let_def split: sum.splits option.splits prod.splits if_splits)
    have "core_inv b'" using i1 by (simp add: b' broker_inv_def)
    moreover have "time_inv b'" using i1 Capture_captured [OF c] by (auto simp: b' broker_inv_def time_inv_def)
    ultimately show ?thesis by (simp add: broker_inv_def)
  qed (use i1 in simp)
qed

lemma completeControl_inv:
  assumes "broker_inv b" "completeControl io c reply b = (e, b')"
  shows "broker_inv b'"
proof (cases "c = None \<or> bs_control b \<noteq> c")
  case True
  then show ?thesis using assms by (auto simp: completeControl_def)
next
  case False
  then obtain k where k: "c = Some k" "bs_control b = Some k" by auto
  let ?b = "b\<lparr>bs_control := None, bs_readiness := None\<rparr>"
  have i: "broker_inv ?b" using assms(1) time_drop(2) by (simp add: broker_inv_def)
  show ?thesis
  proof (cases "b' = ?b")
    case False
    then obtain server recv ready where recv: "Capture (bs_clock b) (bi_reading io) = Some recv"
      and ready: "ObserveControlTime (bs_clock b) server (cc_send (bs_controls b ! k)) recv = Some ready"
      and b': "bs_readiness b' = Some ready" "bs_policy b' = bs_policy b" "bs_live b' = bs_live b" "bs_reservations b' = bs_reservations b"
        "bs_clock b' = bs_clock b" "bs_control b' = None" "bs_controls b' = bs_controls b"
      using assms(2) k by (auto simp: completeControl_def Let_def split: option.splits prod.splits if_splits)
    have "captured (bs_clock b) (cc_send (bs_controls b ! k))"
      using assms(1) k by (auto simp: broker_inv_def time_inv_def list_all_length)
    then have "readiness_ok ready \<and> re_clock ready = bs_clock b"
      using ObserveServerTime_ok [OF ObserveControlTime_server [OF ready]] Capture_captured [OF recv] by blast
    then have "time_inv b'" using i by (auto simp: b' broker_inv_def time_inv_def)
    moreover have "core_inv b'" by (rule core_frame [of b]) (use assms(1) b' in \<open>auto simp: broker_inv_def\<close>)
    ultimately show ?thesis by (simp add: broker_inv_def)
  qed (use i in simp)
qed

lemma forget_inv: "broker_inv b \<Longrightarrow> broker_inv (forget h b)"
  by (simp add: broker_inv_def core_forget)

lemma flag_inv: "broker_inv b \<Longrightarrow> broker_inv (b\<lparr>bs_recoveryRequired := x\<rparr>)"
  by (simp add: broker_inv_def)

lemma broker_step_inv:
  assumes "broker_step b b'" "broker_inv b"
  shows "broker_inv b'"
  using assms
proof (induction rule: broker_step.induct)
  case (bind io h cl rtt b y b')
  then show ?case using core_bindClaim time_bindClaim by (auto simp: broker_inv_def)
next
  case (release io h b e b')
  then show ?case by (auto simp: releaseUnclaimed_def forget_inv split: option.splits if_splits)
next
  case (finish io h b e b')
  then show ?case by (auto simp: broker_finish_def intro: forget_inv flag_inv split: option.splits if_splits sum.splits)
next
  case (abandon b h)
  then show ?case by (auto simp: broker_abandon_def intro: forget_inv flag_inv split: option.splits)
next
  case (cancel_control b c)
  then show ?case by (auto simp: cancelControl_def broker_inv_def time_drop)
next
  case (quiesce b)
  then show ?case by (simp add: quiesce_def broker_inv_def time_drop)
qed (auto simp: require_recovery_def stopAdmission_def broker_inv_def
      intro: reserve_inv [unfolded broker_inv_def, THEN conjunct1] reserve_inv [unfolded broker_inv_def, THEN conjunct2]
        beginControl_inv [unfolded broker_inv_def, THEN conjunct1] beginControl_inv [unfolded broker_inv_def, THEN conjunct2]
        completeControl_inv [unfolded broker_inv_def, THEN conjunct1] completeControl_inv [unfolded broker_inv_def, THEN conjunct2])

lemma broker_run_inv: "broker_run b \<Longrightarrow> broker_inv b"
proof (induction rule: broker_run.induct)
  case (start io p j clock b)
  define b0 where "b0 = \<lparr>bs_executionClosed = False, bs_journal = j, bs_policy = p, bs_clock = clock, bs_readiness = None,
     bs_readyHead = [], bs_readyEntriesDigest = zero_digest, bs_readyPublicationID = [],
     bs_readySnapshotRevision = [], bs_readySnapshotDigest = [], bs_control = None, bs_controls = [],
     bs_quiescing = False, bs_live = [], bs_reservations = [], bs_recoveryRequired = False\<rparr>"
  have v: "validatePolicy p" "clock \<noteq> None" and s: "\<exists>s. broker_snapshot io b0 = (Inr s, b)"
    using start unfolding b0_def by (auto simp: newBrokerState_def Let_def split: if_splits prod.splits sum.splits)
  have "broker_inv b0"
    using v by (simp add: b0_def broker_inv_def core_defs time_inv_def)
  then show ?case using s broker_snapshot_inv by blast
qed (use broker_step_inv in blast)

end
