(* ===== verification/BrokerExecution.thy ===== *)
theory BrokerExecution
  imports BrokerRun ActionWorld
begin

text \<open>
  The handlers of the action broker, \<^verbatim>\<open>internal/actionbroker/execution_linux.go\<close>, \<^verbatim>\<open>execution_sources_linux.go\<close> and the
  conversations of \<^verbatim>\<open>conversation_linux.go\<close> and \<^verbatim>\<open>owned_conversation_linux.go\<close>: a worker's connection is served by selecting
  an invocation and executing it with the action core, whose collaborators are the broker's own wrappers.

  A handler is a program over a world that holds the state of the broker. Before each of its calls the other
  handlers may have moved that state. What the outside answers comes from an oracle, numbered by the calls:
  clocks, contexts, random bytes, the policy file, the socket, the engine and the database. Contexts that
  are derived from one another carry the same guard, so a call only needs to know when its own is done.
\<close>

section \<open>The world of a handler\<close>

record exec_oracle =
  xo_now :: "nat \<Rightarrow> gotime"
  xo_ctx_err :: "nat \<Rightarrow> ctx \<Rightarrow> bool"
  xo_until :: "nat \<Rightarrow> ctx \<Rightarrow> duration option"
  xo_done :: "nat \<Rightarrow> nat \<Rightarrow> bool"
  xo_reading :: "nat \<Rightarrow> reading option"
  xo_late_reading :: "nat \<Rightarrow> reading option"
  xo_random :: "nat \<Rightarrow> bytes option"
  xo_policy :: "nat \<Rightarrow> policy_document option"
  xo_journal :: "nat \<Rightarrow> journal_io"
  xo_write :: "nat \<Rightarrow> envelope \<Rightarrow> bool"
  xo_read :: "nat \<Rightarrow> envelope option"
  xo_admitted :: "nat \<Rightarrow> bool"
  xo_inspect :: "nat \<Rightarrow> string \<Rightarrow> container_state option"
  xo_call :: "nat \<Rightarrow> operation \<Rightarrow> string \<Rightarrow> uint8 \<Rightarrow> bool"
  xo_others :: "nat \<Rightarrow> broker_state \<times> string list \<Rightarrow> broker_state \<times> string list"

text \<open>What an execution does outside: decisions it accepted, and engine calls with the reading of the check before.\<close>

datatype exec_effect =
    Permitted nat string execution_decision
  | Mutated operation string uint8 "reading option"

record exec_world =
  xw_broker :: broker_state
  xw_log :: "string list"
  xw_trace :: "nat action_event list"
  xw_effects :: "exec_effect list"
  xw_checkpoint :: nat
  xw_lastChallenge :: string
  xw_ticks :: nat

definition exec_others :: "exec_oracle \<Rightarrow> exec_world \<Rightarrow> exec_world" where
  "exec_others orc w =
     (case xo_others orc (xw_ticks w) (xw_broker w, xw_log w) of
        (b, I) \<Rightarrow> w\<lparr>xw_broker := b, xw_log := I, xw_ticks := Suc (xw_ticks w)\<rparr>)"

definition xtick :: "exec_oracle \<Rightarrow> (exec_world, nat) state" where
  "xtick orc = do { w \<leftarrow> State_Monad.get; State_Monad.set (exec_others orc w); ret (xw_ticks w) }"

definition xask :: "exec_oracle \<Rightarrow> (nat \<Rightarrow> 'a) \<Rightarrow> (exec_world, 'a) state" where
  "xask orc f = do { n \<leftarrow> xtick orc; ret (f n) }"

definition call_ctx :: "exec_oracle \<Rightarrow> nat \<Rightarrow> bctx" where
  "call_ctx orc n = \<lparr>cx_err = xo_done orc n, cx_deadline = None, cx_guard = None\<rparr>"

definition exec_io :: "exec_oracle \<Rightarrow> nat \<Rightarrow> broker_io" where
  "exec_io orc n =
     \<lparr>bi_journal = xo_journal orc n, bi_snapshot_err = xo_done orc n, bi_delivery = Some (call_ctx orc n),
      bi_delivery_reading = xo_reading orc n, bi_reading = xo_late_reading orc n, bi_ctx_err = xo_done orc n,
      bi_random = xo_random orc n\<rparr>"

definition ask_broker :: "exec_oracle \<Rightarrow> (broker_io \<Rightarrow> broker_state \<Rightarrow> 'a) \<Rightarrow> (exec_world, 'a) state" where
  "ask_broker orc f = do { n \<leftarrow> xtick orc; w \<leftarrow> State_Monad.get; ret (f (exec_io orc n) (xw_broker w)) }"

definition on_broker :: "exec_oracle \<Rightarrow> (broker_io \<Rightarrow> broker_state \<Rightarrow> 'a \<times> broker_state) \<Rightarrow> (exec_world, 'a) state" where
  "on_broker orc f = do {
     n \<leftarrow> xtick orc;
     w \<leftarrow> State_Monad.get;
     let (x, b') = f (exec_io orc n) (xw_broker w);
     State_Monad.set (w\<lparr>xw_broker := b'\<rparr>);
     ret x
   }"

definition on_journal ::
  "exec_oracle \<Rightarrow> (journal_io \<Rightarrow> journal \<Rightarrow> 'a \<times> journal) \<Rightarrow> (journal \<Rightarrow> 'a \<Rightarrow> string list) \<Rightarrow> (exec_world, 'a) state" where
  "on_journal orc f logged = do {
     n \<leftarrow> xtick orc;
     w \<leftarrow> State_Monad.get;
     let j = bs_journal (xw_broker w);
     let (x, j') = f (xo_journal orc n) j;
     State_Monad.set (w\<lparr>xw_broker := (xw_broker w)\<lparr>bs_journal := j'\<rparr>, xw_log := xw_log w @ logged j x\<rparr>);
     ret x
   }"

text \<open>A chain of checks stops at the first that fails.\<close>

definition andalso :: "(exec_world, bool) state \<Rightarrow> (exec_world, bool) state \<Rightarrow> (exec_world, bool) state" where
  "andalso m n = do { ok \<leftarrow> m; if ok then n else ret False }"

definition emit :: "nat action_event \<Rightarrow> (exec_world, unit) state" where
  "emit e = State_Monad.update (\<lambda>w. w\<lparr>xw_trace := xw_trace w @ [e]\<rparr>)"

definition effect :: "exec_effect \<Rightarrow> (exec_world, unit) state" where
  "effect x = State_Monad.update (\<lambda>w. w\<lparr>xw_effects := xw_effects w @ [x]\<rparr>)"

section \<open>Is the execution still current?\<close>

definition validateJournalMappings :: "journal_io \<Rightarrow> (nat \<Rightarrow> bool) \<Rightarrow> journal \<Rightarrow> policy_document \<Rightarrow> string \<Rightarrow> bool" where
  "validateJournalMappings io err j p generation =
     (case AdmissionSnapshot io err j of
        Inl _ \<Rightarrow> False
      | Inr s \<Rightarrow>
          if as_Binding s \<noteq> policy_binding p then False
          else if list_ex (\<lambda>r. \<not> requireEngineGeneration (am_Key r) generation) (as_Records s) then False
          else validateMappingReferences p (map am_Key (as_Records s)))"

definition currentSource :: "exec_oracle \<Rightarrow> string \<Rightarrow> (exec_world, bool) state" where
  "currentSource orc generation = do {
     n \<leftarrow> xtick orc;
     if xo_done orc n 0 then ret False
     else case xo_policy orc n of
         None \<Rightarrow> ret False
       | Some p \<Rightarrow>
           if \<not> validatePolicy p then ret False
           else do {
             want \<leftarrow> ask_broker orc (\<lambda>_ b. marshal_policy (bs_policy b));
             let got = marshal_policy p;
             if want = None \<or> got = None \<or> want \<noteq> got then ret False
             else do {
               n \<leftarrow> xtick orc;
               w \<leftarrow> State_Monad.get;
               ret (validateJournalMappings (xo_journal orc n) (xo_done orc n) (bs_journal (xw_broker w)) p generation
                    \<and> \<not> xo_done orc n 3)
             }
           }
   }"

definition check_execution :: "exec_oracle \<Rightarrow> invocation \<Rightarrow> (exec_world, bool) state" where
  "check_execution orc i =
     xask orc (\<lambda>n. CheckExecution (execution_Context (Some (iv_execution i)) (Some (call_ctx orc n)))
       (ak_ActionID (rb_key (iv_resolved i))) (rb_remoteDigest (iv_resolved i)) (xo_reading orc n))"

definition currentExecution :: "exec_oracle \<Rightarrow> string \<Rightarrow> invocation \<Rightarrow> (exec_world, bool) state" where
  "currentExecution orc generation i =
     andalso (ask_broker orc (\<lambda>_ b. \<not> bs_executionClosed b))
       (andalso (check_execution orc i)
         (andalso (currentSource orc generation)
           (andalso (ask_broker orc (\<lambda>_ b. currentInvocation (Some i) b)) (check_execution orc i))))"

section \<open>Authority\<close>

text \<open>\<open>None\<close> is a payload that cannot be encoded.\<close>

definition writeLocal :: "exec_oracle \<Rightarrow> string \<Rightarrow> string \<Rightarrow> string \<Rightarrow> string option \<Rightarrow> (exec_world, bool) state" where
  "writeLocal orc kind conv ordinal payload =
     (case payload of
        None \<Rightarrow> ret False
      | Some raw \<Rightarrow>
          xask orc (\<lambda>n. xo_write orc n \<lparr>env_Version = WorkerVersion, env_Kind = kind, env_ConversationNonce = conv,
            env_Ordinal = ordinal, env_Payload = raw\<rparr>))"

definition marshal_check :: "check_request \<Rightarrow> string option" where
  "marshal_check c =
     (if grace_MarshalJSON (pa_StopGraceSeconds (rr_Parameters (ch_Request c))) = None then None else Some (json_print (check_json c)))"

text \<open>From the sent challenge to the accepted decision.\<close>

definition authority_reply ::
  "exec_oracle \<Rightarrow> string \<Rightarrow> invocation \<Rightarrow> string \<Rightarrow> nat \<Rightarrow> string \<Rightarrow> bstamp \<Rightarrow> (exec_world, bool) state" where
  "authority_reply orc generation i conv checkpoint challenge sent = do {
     reply \<leftarrow> xask orc (xo_read orc);
     case reply of
       None \<Rightarrow> ret False
     | Some env \<Rightarrow>
         if env_Version env \<noteq> WorkerVersion \<or> env_Kind env \<noteq> ''AUTHORITY_REPLY'' \<or> env_ConversationNonce env \<noteq> conv
            \<or> env_Ordinal env \<noteq> show_nat (checkpoint + 2) then ret False
         else case DecodeExecutionDecision (env_Payload env) of
             None \<Rightarrow> ret False
           | Some decision \<Rightarrow>
               if \<not> MatchExecutionDecision (iv_claim i) (show_nat checkpoint) challenge decision then ret False
               else do {
                 recv \<leftarrow> ask_broker orc (\<lambda>io b. Capture (bs_clock b) (bi_reading io));
                 case (recv, ParseHTTPTime (ed_CheckedAt decision)) of
                   (Some recv, Some checkedAt) \<Rightarrow> do {
                     ok \<leftarrow> andalso (xask orc (\<lambda>n. \<not> xo_done orc n 0))
                       (andalso (xask orc (\<lambda>n. CheckDecision (Some (iv_execution i)) sent recv checkedAt (xo_reading orc n)))
                         (currentExecution orc generation i));
                     if \<not> ok then ret False
                     else do { effect (Permitted checkpoint challenge decision); ret True }
                   }
                 | _ \<Rightarrow> ret False
               }
   }"

definition authority_exchange ::
  "exec_oracle \<Rightarrow> string \<Rightarrow> invocation \<Rightarrow> nat \<Rightarrow> string \<Rightarrow> (exec_world, bool) state" where
  "authority_exchange orc generation i checkpoint challenge = do {
     sent \<leftarrow> ask_broker orc (\<lambda>io b. Capture (bs_clock b) (bi_reading io));
     case sent of
       None \<Rightarrow> ret False
     | Some sent \<Rightarrow> do {
         conv \<leftarrow> ask_broker orc (\<lambda>_ b. rv_nonce (reservation_at b (iv_reservation i)));
         written \<leftarrow> writeLocal orc ''AUTHORITY_CHALLENGE'' conv (show_nat (checkpoint + 2)) (marshal_check
           \<lparr>ch_Request = cl_Request (iv_claim i), ch_ExecutionLeaseID = cl_ExecutionLeaseID (iv_claim i),
            ch_Checkpoint = show_nat checkpoint, ch_CheckNonce = challenge\<rparr>);
         if \<not> written then ret False
         else authority_reply orc generation i conv checkpoint challenge sent
       }
   }"

definition authority_Check ::
  "exec_oracle \<Rightarrow> string \<Rightarrow> invocation \<Rightarrow> action_request \<Rightarrow> action_binding \<Rightarrow> (exec_world, bool) state" where
  "authority_Check orc generation i r b = do {
     w \<leftarrow> State_Monad.get;
     if 2 \<le> xw_checkpoint w then ret False
     else do {
       ok \<leftarrow> currentExecution orc generation i;
       if \<not> ok then ret False
       else if map_option ak_Fingerprint (NewJournalKey r b) \<noteq> Some (ak_Fingerprint (rb_key (iv_resolved i))) then ret False
       else do {
         fresh \<leftarrow> ask_broker orc (\<lambda>io b. freshNonce (bi_random io) b);
         case fresh of
           None \<Rightarrow> ret False
         | Some challenge \<Rightarrow> do {
             w \<leftarrow> State_Monad.get;
             if challenge = xw_lastChallenge w then ret False
             else do {
               State_Monad.update (\<lambda>w. w\<lparr>xw_lastChallenge := challenge, xw_checkpoint := xw_checkpoint w + 1\<rparr>);
               authority_exchange orc generation i (xw_checkpoint w + 1) challenge
             }
           }
       }
     }
   }"

section \<open>Journal and engine\<close>

definition source_Acquire :: "exec_oracle \<Rightarrow> string \<Rightarrow> invocation \<Rightarrow> action_key \<Rightarrow> (exec_world, nat acquired) state" where
  "source_Acquire orc generation i k = do {
     ok \<leftarrow> currentExecution orc generation i;
     if \<not> ok then ret AcquireFailed
     else do {
       x \<leftarrow> on_journal orc (\<lambda>io. bound_Acquire io (iv_journal i) k) (\<lambda>_ _. []);
       case acquired_of x of
         Acquired h \<Rightarrow> do {
           ok \<leftarrow> currentExecution orc generation i;
           if ok then ret (Acquired h)
           else do { on_journal orc (\<lambda>_ j. ((), attempt_Close h j)) (\<lambda>_ _. []); ret AcquireFailed }
         }
       | y \<Rightarrow> ret y
     }
   }"

definition source_Existing :: "exec_oracle \<Rightarrow> string \<Rightarrow> invocation \<Rightarrow> nat \<Rightarrow> (exec_world, code) state" where
  "source_Existing orc generation i h = do {
     ok \<leftarrow> currentExecution orc generation i;
     if \<not> ok then ret Unavailable
     else do {
       c \<leftarrow> ask_broker orc (\<lambda>_ b. Existing h (bs_journal b));
       ok \<leftarrow> currentExecution orc generation i;
       ret (if ok then c else Unavailable)
     }
   }"

definition source_Intent :: "exec_oracle \<Rightarrow> string \<Rightarrow> invocation \<Rightarrow> nat \<Rightarrow> (exec_world, bool) state" where
  "source_Intent orc generation i h = do {
     ok \<leftarrow> currentExecution orc generation i;
     if \<not> ok then ret False
     else do {
       x \<leftarrow> on_journal orc (\<lambda>io. Intent io h) (\<lambda>j. dispatched j h True);
       if x \<noteq> None then ret False else currentExecution orc generation i
     }
   }"

definition source_Finish :: "exec_oracle \<Rightarrow> string \<Rightarrow> invocation \<Rightarrow> nat \<Rightarrow> code \<Rightarrow> (exec_world, bool) state" where
  "source_Finish orc generation i h c = do {
     ok \<leftarrow> currentExecution orc generation i;
     if \<not> ok then ret False
     else do {
       x \<leftarrow> on_journal orc (\<lambda>io. Finish io h c) (\<lambda>_ _. []);
       if x \<noteq> None then ret False else currentExecution orc generation i
     }
   }"

definition phase_Inspect :: "exec_oracle \<Rightarrow> string \<Rightarrow> invocation \<Rightarrow> string \<Rightarrow> (exec_world, container_state option) state" where
  "phase_Inspect orc generation i s =
     (if s \<noteq> ab_ContainerID (rb_binding (iv_resolved i)) then ret None
      else do {
        ok \<leftarrow> currentExecution orc generation i;
        if \<not> ok then ret None
        else do {
          x \<leftarrow> xask orc (\<lambda>n. xo_inspect orc n s);
          case x of
            None \<Rightarrow> ret None
          | Some state \<Rightarrow> do { ok \<leftarrow> currentExecution orc generation i; ret (if ok then Some state else None) }
        }
      })"

definition check_mutation :: "exec_oracle \<Rightarrow> invocation \<Rightarrow> string \<Rightarrow> operation \<Rightarrow> (exec_world, bool \<times> reading option) state" where
  "check_mutation orc i s op =
     xask orc (\<lambda>n. (CheckMutation (execution_Context (Some (iv_execution i)) (Some (call_ctx orc n))) s op (xo_reading orc n),
       xo_reading orc n))"

text \<open>The call itself and the checks after it.\<close>

definition mutate_called ::
  "exec_oracle \<Rightarrow> string \<Rightarrow> invocation \<Rightarrow> string \<Rightarrow> operation \<Rightarrow> uint8 \<Rightarrow> reading option \<Rightarrow> (exec_world, bool) state" where
  "mutate_called orc generation i s op grace read = do {
     effect (Mutated op s grace read);
     called \<leftarrow> xask orc (\<lambda>n. xo_call orc n op s grace);
     if \<not> called then ret False
     else do {
       ok \<leftarrow> currentExecution orc generation i;
       if \<not> ok then ret False
       else do { (ok, _) \<leftarrow> check_mutation orc i s op; ret ok }
     }
   }"

definition phase_mutate :: "exec_oracle \<Rightarrow> string \<Rightarrow> invocation \<Rightarrow> string \<Rightarrow> operation \<Rightarrow> uint8 \<Rightarrow> (exec_world, bool) state" where
  "phase_mutate orc generation i s op grace =
     (if s \<noteq> ab_ContainerID (rb_binding (iv_resolved i)) \<or> op \<noteq> rr_Operation (cl_Request (iv_claim i))
         \<or> grace \<noteq> ar_GraceSeconds (key_request (rb_key (iv_resolved i))) then ret False
      else do {
        ok \<leftarrow> currentExecution orc generation i;
        if \<not> ok then ret False
        else do {
          (ok, read) \<leftarrow> check_mutation orc i s op;
          if \<not> ok \<or> \<not> (op = Start \<or> op = Stop \<or> op = Restart) then ret False
          else mutate_called orc generation i s op grace read
        }
      })"

text \<open>The methods of the engine, chosen by the switch of the core, which has no default.\<close>

definition phase_call :: "exec_oracle \<Rightarrow> string \<Rightarrow> invocation \<Rightarrow> operation \<Rightarrow> string \<Rightarrow> uint8 \<Rightarrow> (exec_world, bool) state" where
  "phase_call orc generation i op s grace =
     (case op of
        Start \<Rightarrow> phase_mutate orc generation i s Start 0
      | Stop \<Rightarrow> phase_mutate orc generation i s Stop grace
      | Restart \<Rightarrow> phase_mutate orc generation i s Restart grace
      | OtherOperation _ \<Rightarrow> ret True)"

text \<open>The collaborators of the core; each leaves its event.\<close>

definition noted :: "('a \<Rightarrow> nat action_event) \<Rightarrow> (exec_world, 'a) state \<Rightarrow> (exec_world, 'a) state" where
  "noted ev m = do { x \<leftarrow> m; emit (ev x); ret x }"

definition exec_deps :: "exec_oracle \<Rightarrow> string \<Rightarrow> invocation \<Rightarrow> (exec_world, nat) worker_deps" where
  "exec_deps orc generation i =
     \<lparr>wd_composed = True,
      wd_now = xask orc (xo_now orc),
      wd_ctx_err = (\<lambda>c. xask orc (\<lambda>n. xo_ctx_err orc n c)),
      wd_until = (\<lambda>c. xask orc (\<lambda>n. xo_until orc n c)),
      wd_with_timeout = (\<lambda>_ _. xask orc (\<lambda>_. ())),
      wd_check = (\<lambda>r b. noted EvCheck (authority_Check orc generation i r b)),
      wd_acquire = (\<lambda>k. noted (\<lambda>x. EvAcquire k (acquired_handle x)) (source_Acquire orc generation i k)),
      wd_existing = source_Existing orc generation i,
      wd_intent = (\<lambda>h. noted (EvIntent h) (source_Intent orc generation i h)),
      wd_finish = (\<lambda>h c. noted (EvFinish h c) (source_Finish orc generation i h c)),
      wd_close = (\<lambda>h. noted (\<lambda>_. EvClose h) (on_journal orc (\<lambda>_ j. ((), attempt_Close h j)) (\<lambda>_ _. []))),
      wd_inspect = (\<lambda>s. noted (EvInspect s) (phase_Inspect orc generation i s)),
      wd_call = (\<lambda>op s g t. noted (EvCall op s g t) (phase_call orc generation i op s g))\<rparr>"

section \<open>Executing an invocation\<close>

definition check_report :: "exec_oracle \<Rightarrow> invocation \<Rightarrow> (exec_world, bool) state" where
  "check_report orc i = xask orc (\<lambda>n. CheckReport (Some (iv_execution i)) (Some (call_ctx orc n)) (xo_reading orc n))"

definition consumer_report :: "exec_oracle \<Rightarrow> string \<Rightarrow> invocation \<Rightarrow> (exec_world, report option) state" where
  "consumer_report orc generation i =
     (if ReceiptDigest (cl_Request (iv_claim i)) \<noteq> Some (rb_remoteDigest (iv_resolved i))
         \<or> rr_ActionID (cl_Request (iv_claim i)) \<noteq> ak_ActionID (rb_key (iv_resolved i)) then ret None
      else do {
        ok \<leftarrow> andalso (check_report orc i) (currentSource orc generation);
        if \<not> ok then ret None
        else do {
          report \<leftarrow> ask_broker orc (\<lambda>io b. retainedReport io i b);
          case report of
            None \<Rightarrow> ret None
          | Some r \<Rightarrow> do {
              ok \<leftarrow> andalso (currentSource orc generation) (check_report orc i);
              ret (if ok then Some r else None)
            }
        }
      })"

definition answer_report :: "exec_oracle \<Rightarrow> string \<Rightarrow> invocation \<Rightarrow> (exec_world, bool) state" where
  "answer_report orc generation i = do {
     report \<leftarrow> consumer_report orc generation i;
     case report of
       None \<Rightarrow> ret False
     | Some r \<Rightarrow> do {
         conv \<leftarrow> ask_broker orc (\<lambda>_ b. rv_nonce (reservation_at b (iv_reservation i)));
         andalso (writeLocal orc ''RESULT'' conv ''5'' (marshal_report r))
           (andalso (currentSource orc generation) (check_report orc i))
       }
   }"

definition execute_invocation :: "exec_oracle \<Rightarrow> string \<Rightarrow> invocation \<Rightarrow> (exec_world, bool) state" where
  "execute_invocation orc generation i = do {
     ok \<leftarrow> andalso (currentSource orc generation)
       (andalso (ask_broker orc (\<lambda>_ b. currentInvocation (Some i) b)) (check_execution orc i));
     if \<not> ok then ret False
     else do {
       State_Monad.update (\<lambda>w. w\<lparr>xw_checkpoint := 0, xw_lastChallenge := []\<rparr>);
       Execute (exec_deps orc generation i) (key_request (rb_key (iv_resolved i))) (rb_binding (iv_resolved i))
         (execution_Delivery (Some (iv_execution i)));
       answer_report orc generation i
     }
   }"

definition finish_reservation :: "exec_oracle \<Rightarrow> invocation \<Rightarrow> (exec_world, broker_err option) state" where
  "finish_reservation orc i = on_broker orc (\<lambda>io. broker_finish io (Some (iv_reservation i)))"

definition consumer_abandon :: "exec_oracle \<Rightarrow> invocation \<Rightarrow> (exec_world, unit) state" where
  "consumer_abandon orc i = do {
     on_broker orc (\<lambda>_ b. ((), require_recovery b));
     finish_reservation orc i;
     ret ()
   }"

definition consumer_execute :: "exec_oracle \<Rightarrow> string \<Rightarrow> invocation \<Rightarrow> (exec_world, broker_err option) state" where
  "consumer_execute orc generation i = do {
     ok \<leftarrow> execute_invocation orc generation i;
     (if ok then ret () else on_broker orc (\<lambda>_ b. ((), require_recovery b)));
     err \<leftarrow> finish_reservation orc i;
     ret (if ok \<and> err = None then None else Some BErrRecoveryRequired)
   }"

section \<open>Selecting an invocation\<close>

definition marshal_query :: "snapshot_query \<Rightarrow> string option" where
  "marshal_query q =
     (if list_all (\<lambda>e. grace_MarshalJSON (pa_StopGraceSeconds (et_Parameters e)) \<noteq> None) (case sq_Entries q of None \<Rightarrow> [] | Some es \<Rightarrow> es)
      then Some (json_print (snapshot_query_json q)) else None)"

text \<open>The control conversation that makes the broker ready.\<close>

definition control_exchange :: "exec_oracle \<Rightarrow> nat \<Rightarrow> (exec_world, broker_err + invocation option) state" where
  "control_exchange orc c = do {
     q \<leftarrow> ask_broker orc (\<lambda>_ b. cc_query (bs_controls b ! c));
     written \<leftarrow> writeLocal orc ''SNAPSHOT_QUERY'' (sq_PublicationID q) ''1'' (marshal_query q);
     if \<not> written then ret (Inl BErrRecoveryRequired)
     else do {
       reply \<leftarrow> xask orc (xo_read orc);
       case reply of
         None \<Rightarrow> ret (Inl BErrRecoveryRequired)
       | Some env \<Rightarrow>
           if env_Version env \<noteq> WorkerVersion \<or> env_Kind env \<noteq> ''SNAPSHOT_REPLY'' \<or> env_Ordinal env \<noteq> ''2''
              \<or> env_ConversationNonce env \<noteq> sq_PublicationID q then ret (Inl BErrRecoveryRequired)
           else case DecodeSnapshotReply (env_Payload env) of
               None \<Rightarrow> ret (Inl BErrRecoveryRequired)
             | Some value \<Rightarrow> do {
                 e \<leftarrow> on_broker orc (\<lambda>io. completeControl io (Some c) value);
                 ret (case e of None \<Rightarrow> Inr None | Some e \<Rightarrow> Inl e)
               }
     }
   }"

definition select_control :: "exec_oracle \<Rightarrow> (exec_world, broker_err + invocation option) state" where
  "select_control orc = do {
     x \<leftarrow> on_broker orc beginControl;
     case x of
       Inl e \<Rightarrow> ret (Inl e)
     | Inr c \<Rightarrow> do {
         result \<leftarrow> control_exchange orc c;
         on_broker orc (\<lambda>_ b. ((), cancelControl (Some c) b));
         ret result
       }
   }"

definition check_delivery :: "exec_oracle \<Rightarrow> nat \<Rightarrow> (exec_world, bool) state" where
  "check_delivery orc h =
     ask_broker orc (\<lambda>io b. CheckDelivery (bi_delivery io) (bi_delivery_reading io) (rv_conversation (reservation_at b h)))"

text \<open>What the worker delivered.\<close>

definition select_delivered :: "exec_oracle \<Rightarrow> nat \<Rightarrow> envelope \<Rightarrow> (exec_world, broker_err + invocation option) state" where
  "select_delivered orc h env =
     (if env_Kind env = ''NO_CLAIM'' then do {
        e \<leftarrow> on_broker orc (\<lambda>io. releaseUnclaimed io (Some h));
        ret (case e of None \<Rightarrow> Inr None | Some e \<Rightarrow> Inl e)
      }
      else if env_Kind env \<noteq> ''CLAIMED_EXECUTE'' then ret (Inl BErrRecoveryRequired)
      else case DecodeClaimedExecute (env_Payload env) of
          None \<Rightarrow> ret (Inl BErrRecoveryRequired)
        | Some claimed \<Rightarrow>
            (case ParseInt64 (ce_ClaimRTTNanos claimed) of
               None \<Rightarrow> ret (Inl BErrRecoveryRequired)
             | Some rtt \<Rightarrow> do {
                 ok \<leftarrow> check_delivery orc h;
                 if \<not> ok then ret (Inl BErrRecoveryRequired)
                 else do {
                   y \<leftarrow> on_broker orc (\<lambda>io. bindClaim io (Some h) (ce_Claim claimed) rtt);
                   ret (case y of
                       Inl e \<Rightarrow> Inl e
                     | Inr (bound, e, resolved) \<Rightarrow>
                         Inr (Some \<lparr>iv_reservation = h, iv_claim = ce_Claim claimed, iv_journal = bound, iv_execution = e, iv_resolved = resolved\<rparr>))
                 }
               }))"

definition select_answer :: "exec_oracle \<Rightarrow> nat \<Rightarrow> string \<Rightarrow> (exec_world, broker_err + invocation option) state" where
  "select_answer orc h conv = do {
     delivery \<leftarrow> xask orc (xo_read orc);
     case delivery of
       None \<Rightarrow> ret (Inl BErrRecoveryRequired)
     | Some env \<Rightarrow> do {
         ok \<leftarrow> check_delivery orc h;
         if \<not> ok \<or> env_Version env \<noteq> WorkerVersion \<or> env_ConversationNonce env \<noteq> conv \<or> env_Ordinal env \<noteq> ''2''
         then ret (Inl BErrRecoveryRequired)
         else select_delivered orc h env
       }
   }"

definition select_reserved :: "exec_oracle \<Rightarrow> nat \<Rightarrow> (exec_world, broker_err + invocation option) state" where
  "select_reserved orc h = do {
     a \<leftarrow> ask_broker orc (\<lambda>_ b. approvalFor (Some h) b);
     case a of
       Inl _ \<Rightarrow> ret (Inl BErrRecoveryRequired)
     | Inr approval \<Rightarrow> do {
         ok \<leftarrow> andalso (ask_broker orc (\<lambda>io b. DeliveryContext (bi_delivery io) (bi_delivery_reading io) (bi_ctx_err io)
                 (rv_conversation (reservation_at b h)) \<noteq> None)) (check_delivery orc h);
         conv \<leftarrow> ask_broker orc (\<lambda>_ b. rv_nonce (reservation_at b h));
         ok \<leftarrow> andalso (ret ok) (andalso
           (writeLocal orc ''APPROVAL_SNAPSHOT'' conv ''1'' (Some (json_print (approval_snapshot_json approval))))
           (check_delivery orc h));
         if \<not> ok then ret (Inl BErrRecoveryRequired)
         else select_answer orc h conv
       }
   }"

definition selectWorkerInvocation :: "exec_oracle \<Rightarrow> (exec_world, broker_err + invocation option) state" where
  "selectWorkerInvocation orc = do {
     ready \<leftarrow> ask_broker orc readinessCurrent;
     if \<not> ready then select_control orc
     else do {
       x \<leftarrow> on_broker orc reserve;
       case x of
         Inl e \<Rightarrow> ret (Inl e)
       | Inr h \<Rightarrow> do {
           result \<leftarrow> select_reserved orc h;
           (case result of
              Inl _ \<Rightarrow> on_broker orc (\<lambda>_ b. ((), broker_abandon (Some h) b))
            | Inr _ \<Rightarrow> ret ());
           ret result
         }
     }
   }"

definition serve_selected :: "exec_oracle \<Rightarrow> string \<Rightarrow> invocation option \<Rightarrow> (exec_world, broker_err option) state" where
  "serve_selected orc generation selected = do {
     ok \<leftarrow> currentSource orc generation;
     if \<not> ok then do {
       (case selected of None \<Rightarrow> ret () | Some i \<Rightarrow> consumer_abandon orc i);
       ret (Some BErrRecoveryRequired)
     }
     else (case selected of None \<Rightarrow> ret None | Some i \<Rightarrow> consumer_execute orc generation i)
   }"

text \<open>One connection of a worker; \<open>xo_admitted\<close> tells whether the registry lets it past its greeting.\<close>

definition serveOwned :: "exec_oracle \<Rightarrow> string \<Rightarrow> (exec_world, broker_err option) state" where
  "serveOwned orc generation = do {
     greeting \<leftarrow> xask orc (xo_read orc);
     if (case greeting of None \<Rightarrow> True | Some env \<Rightarrow> env_Version env \<noteq> WorkerVersion \<or> env_Kind env \<noteq> ''BEGIN'')
     then ret (Some BErrRecoveryRequired)
     else do {
       admitted \<leftarrow> xask orc (xo_admitted orc);
       if \<not> admitted then ret None
       else do {
         ok \<leftarrow> currentSource orc generation;
         if \<not> ok then ret (Some BErrRecoveryRequired)
         else do {
           x \<leftarrow> selectWorkerInvocation orc;
           case x of
             Inl e \<Rightarrow> ret (Some e)
           | Inr selected \<Rightarrow> serve_selected orc generation selected
         }
       }
     }
   }"

end
