(* ===== verification/BudgetLease.thy ===== *)
theory BudgetLease
  imports ActionBudget
begin

text \<open>
  What a check of an execution's time budget is worth. The checks before a journal commit, before a write
  to the engine and after an authority decision share one contract, the locale \<open>budget_check\<close>: when the
  check succeeds, the clock was just read, continuously with the origin of the conversation and before the
  deadline of the execution. From it follows that the check happened inside the lease, whichever of the
  three clocks tells the time.
\<close>

locale budget_check =
  fixes check :: "execution \<Rightarrow> reading option \<Rightarrow> bool"
  assumes in_time: "check e read \<Longrightarrow> captured (bg_clock (ex_guard e)) (bg_origin (ex_guard e)) \<Longrightarrow>
    \<exists>now. Capture (bg_clock (ex_guard e)) read = Some now \<and> drift (bg_origin (ex_guard e)) now \<and> st_boot now < bg_deadline (ex_guard e)"
begin

lemma inside_lease:
  assumes "conversation_ok c" "AcceptClaim cl rtt cid read c = (Some e, c')" "check e read'"
  shows "\<exists>now claimed. read' = Some now \<and> ParseHTTPTime (cl_ClaimedAt cl) = Some claimed
     \<and> rd_boot now < st_boot (cv_start c) + seconds 89
     \<and> rd_goTime now < dl_LeaseDeadline (ex_delivery e) - seconds 29
     \<and> rd_wall now < claimed + seconds 95"
proof -
  obtain r st where r: "cv_readiness c = Some r" and acc: "accepted c r cl rtt cid st e"
    using AcceptClaim_accepted [OF assms(2,1)] by blast
  have o: "captured (cv_clock c) (re_origin r)" "drift (re_origin r) (cv_start c)"
    using assms(1) r by (auto simp: conversation_ok_def readiness_ok_def)
  have "captured (bg_clock (ex_guard e)) (bg_origin (ex_guard e))" using acc o(1) by (simp add: accepted_def)
  then obtain now where now: "Capture (cv_clock c) read' = Some now" "drift (re_origin r) now" "st_boot now < bg_deadline (ex_guard e)"
    using in_time [OF assms(3)] acc by (auto simp: accepted_def)
  obtain claimed where cl: "ParseHTTPTime (cl_ClaimedAt cl) = Some claimed" "st_wall st - skew \<le> claimed" "st_wall (cv_start c) \<le> st_wall st"
    using acc by (auto simp: accepted_def drift_def)
  have boot: "st_boot now < st_boot (cv_start c) + seconds 89" using now(3) acc by (auto simp: accepted_def)
  have lease: "dl_LeaseDeadline (ex_delivery e) = st_goTime (cv_start c) + seconds 119" using acc by (simp add: accepted_def)
  show ?thesis
    using Capture_captured [OF now(1)] cl boot drift_common [OF o(2) now(2)] lease
    by (intro exI [of _ "st_reading now"] exI [of _ claimed]) (auto simp: continuity_def skew_def seconds_def milliseconds_def)
qed

end

interpretation mutation_check: budget_check "\<lambda>e. CheckMutation (execution_Context (Some e) p) cid op" for p cid op
  by unfold_locales (auto dest: CheckMutation_facts)

interpretation commit_check: budget_check "\<lambda>e. CheckExecution (execution_Context (Some e) p) aid dg" for p aid dg
  by unfold_locales (auto simp: CheckExecution_def split: option.splits dest!: checked_facts)

interpretation decision_check: budget_check "\<lambda>e. CheckDecision (Some e) send recv at" for send recv at
  by unfold_locales
    (auto simp: CheckDecision_def CheckExecution_def Let_def split: option.splits if_splits dest!: checked_facts)

end
