(* ===== verification/BrokerServe.thy ===== *)
theory BrokerServe
  imports BrokerExecution BudgetLease
begin

text \<open>
  What serving a connection does to the broker and outside. The handlers only take steps of the broker and of
  its journal, so every invariant of these survives them, and the events of the core together with the
  effects of the wrappers determine under which decisions and when the engine is called.
\<close>

section \<open>Steps of the broker and its journal\<close>

inductive exec_step :: "broker_state \<times> string list \<Rightarrow> broker_state \<times> string list \<Rightarrow> bool" where
  op: "broker_step b b' \<Longrightarrow> bs_journal b' = bs_journal b \<Longrightarrow> exec_step (b, I) (b', I)"
| journal: "journal_step (policy_binding (bs_policy b)) (bs_journal b, I) (j', I') \<Longrightarrow> exec_step (b, I) (b\<lparr>bs_journal := j'\<rparr>, I')"

inductive_cases exec_stepE: "exec_step s t"

lemma broker_snapshot_frame:
  assumes "broker_snapshot io b = (x, b')"
  shows "bs_policy b' = bs_policy b \<and> bs_journal b' = bs_journal b \<and> bs_clock b' = bs_clock b"
proof -
  from broker_snapshot_cases(1) [OF assms] obtain z where "b' = b\<lparr>bs_recoveryRequired := z\<rparr>" by blast
  then show ?thesis by simp
qed

lemma bindClaim_frame:
  assumes "bindClaim io h cl rtt b = (y, b')"
  shows "bs_policy b' = bs_policy b \<and> bs_journal b' = bs_journal b \<and> bs_clock b' = bs_clock b"
  using bindClaim_cases [OF assms]
proof (elim disjE exE conjE)
  fix k assume "b' = (tried k b)\<lparr>bs_recoveryRequired := bs_recoveryRequired b'\<rparr>"
  then obtain z where "b' = (tried k b)\<lparr>bs_recoveryRequired := z\<rparr>" by blast
  then show ?thesis by (simp add: on_reservation_def)
qed (simp_all add: on_reservation_def)

lemma broker_ops_frame:
  "reserve io b = (x, b') \<Longrightarrow> bs_policy b' = bs_policy b \<and> bs_journal b' = bs_journal b \<and> bs_clock b' = bs_clock b"
  "beginControl io b = (x, b') \<Longrightarrow> bs_policy b' = bs_policy b \<and> bs_journal b' = bs_journal b \<and> bs_clock b' = bs_clock b"
  "completeControl io c reply b = (e, b') \<Longrightarrow> bs_policy b' = bs_policy b \<and> bs_journal b' = bs_journal b \<and> bs_clock b' = bs_clock b"
  "releaseUnclaimed io h b = (e, b') \<Longrightarrow> bs_policy b' = bs_policy b \<and> bs_journal b' = bs_journal b \<and> bs_clock b' = bs_clock b"
  "broker_finish io h b = (e, b') \<Longrightarrow> bs_policy b' = bs_policy b \<and> bs_journal b' = bs_journal b \<and> bs_clock b' = bs_clock b"
      apply (auto simp: reserve_def Let_def split: if_splits prod.splits sum.splits option.splits dest!: broker_snapshot_frame) [1]
     apply (auto simp: beginControl_def Let_def split: if_splits prod.splits sum.splits option.splits dest!: broker_snapshot_frame) [1]
    apply (auto simp: completeControl_def Let_def split: if_splits prod.splits option.splits) [1]
   apply (auto simp: releaseUnclaimed_def forget_def split: if_splits option.splits) [1]
  apply (auto simp: broker_finish_def forget_def split: if_splits sum.splits option.splits) [1]
  done

lemma broker_step_policy: "broker_step b b' \<Longrightarrow> bs_policy b' = bs_policy b"
  by (induction rule: broker_step.induct)
    (auto simp: broker_abandon_def forget_def require_recovery_def cancelControl_def stopAdmission_def quiesce_def
      split: option.splits dest!: broker_ops_frame bindClaim_frame)

lemma exec_step_facts:
  assumes "exec_step (b, I) (b', I')"
  shows "bs_policy b' = bs_policy b" "broker_run b \<Longrightarrow> broker_run b'"
    "(journal_step (policy_binding (bs_policy b)))\<^sup>*\<^sup>* (bs_journal b, I) (bs_journal b', I')"
  using assms
  by (auto elim!: exec_stepE intro: broker_run.step broker_step.journal dest: broker_step_policy)

lemma exec_steps_facts:
  assumes "exec_step\<^sup>*\<^sup>* s t"
  shows "bs_policy (fst t) = bs_policy (fst s) \<and> (broker_run (fst s) \<longrightarrow> broker_run (fst t))
    \<and> (journal_step (policy_binding (bs_policy (fst s))))\<^sup>*\<^sup>* (bs_journal (fst s), snd s) (bs_journal (fst t), snd t)"
  using assms
proof (induction rule: rtranclp_induct)
  case (step t u)
  obtain b I b' I' where tu: "t = (b, I)" "u = (b', I')" by fastforce
  from step.hyps(2) [unfolded tu] show ?case
    using exec_step_facts [of b I b' I'] step.IH tu by (auto intro: rtranclp_trans)
qed simp

section \<open>Quiet programs\<close>

text \<open>A quiet program takes steps of the broker and its journal and touches nothing else.\<close>

definition moves :: "exec_world \<Rightarrow> exec_world \<Rightarrow> bool" where
  "moves w w' \<longleftrightarrow>
     exec_step\<^sup>*\<^sup>* (xw_broker w, xw_log w) (xw_broker w', xw_log w') \<and> xw_trace w' = xw_trace w \<and> xw_effects w' = xw_effects w
     \<and> xw_checkpoint w' = xw_checkpoint w \<and> xw_lastChallenge w' = xw_lastChallenge w"

lemma moves_refl [simp]: "moves w w" by (simp add: moves_def)

lemma moves_trans: "moves u v \<Longrightarrow> moves v w \<Longrightarrow> moves u w"
  by (auto simp: moves_def)

definition exec_ok :: "exec_oracle \<Rightarrow> bool" where
  "exec_ok orc \<longleftrightarrow> (\<forall>n s. exec_step\<^sup>*\<^sup>* s (xo_others orc n s)) \<and> (\<forall>n. 0 < ji_now (xo_journal orc n))"

definition quiet :: "(exec_world, 'a) state \<Rightarrow> bool" where
  "quiet m \<longleftrightarrow> (\<forall>w. wp m (\<lambda>_. moves w) w)"

lemma quietD: "quiet m \<Longrightarrow> wp m (\<lambda>_. moves w) w" by (simp add: quiet_def)

named_theorems quiet_intros \<open>programs that are quiet\<close>

lemma quiet_ret [quiet_intros]: "quiet (ret x)" by (simp add: quiet_def wp_simps)

lemma quiet_get [quiet_intros]: "quiet State_Monad.get" by (simp add: quiet_def wp_simps)

lemma quiet_bind [quiet_intros]:
  assumes "quiet m" "\<And>x. quiet (f x)"
  shows "quiet (State_Monad.bind m f)"
  unfolding quiet_def wp_bind
proof
  fix w
  show "wp m (\<lambda>x. wp (f x) (\<lambda>_. moves w)) w"
    by (rule wp_mono [OF quietD [OF assms(1)]]) (rule wp_mono [OF quietD [OF assms(2)]], erule (1) moves_trans)
qed

lemma quiet_if [quiet_intros]: "quiet m \<Longrightarrow> quiet n \<Longrightarrow> quiet (if c then m else n)" by simp

lemma quiet_option [quiet_intros]: "quiet m \<Longrightarrow> (\<And>y. quiet (f y)) \<Longrightarrow> quiet (case x of None \<Rightarrow> m | Some y \<Rightarrow> f y)"
  by (cases x) simp_all

lemma quiet_sum [quiet_intros]: "(\<And>y. quiet (f y)) \<Longrightarrow> (\<And>y. quiet (g y)) \<Longrightarrow> quiet (case x of Inl y \<Rightarrow> f y | Inr y \<Rightarrow> g y)"
  by (cases x) simp_all

lemma quiet_prod [quiet_intros]: "(\<And>a b. quiet (f a b)) \<Longrightarrow> quiet (case x of (a, b) \<Rightarrow> f a b)"
  by (cases x) simp

lemma quiet_acquired [quiet_intros]:
  "quiet l \<Longrightarrow> quiet m \<Longrightarrow> quiet n \<Longrightarrow> (\<And>h. quiet (f h)) \<Longrightarrow>
     quiet (case x of AcquireConflict \<Rightarrow> l | AcquireUnresolved \<Rightarrow> m | AcquireFailed \<Rightarrow> n | Acquired h \<Rightarrow> f h)"
  by (cases x) simp_all

lemma quiet_tick [quiet_intros]: "exec_ok orc \<Longrightarrow> quiet (xtick orc)"
  by (auto simp: quiet_def xtick_def wp_simps exec_others_def moves_def exec_ok_def split: prod.splits) (metis)

lemma quiet_ask [quiet_intros]: "exec_ok orc \<Longrightarrow> quiet (xask orc f)"
  unfolding xask_def by (intro quiet_intros)

lemma quiet_ask_broker [quiet_intros]: "exec_ok orc \<Longrightarrow> quiet (ask_broker orc f)"
  unfolding ask_broker_def by (intro quiet_intros)

lemma quiet_andalso [quiet_intros]: "quiet m \<Longrightarrow> quiet n \<Longrightarrow> quiet (andalso m n)"
  unfolding andalso_def by (intro quiet_intros)

lemma quiet_on_broker:
  assumes ok: "exec_ok orc" and f: "\<And>io b x b'. f io b = (x, b') \<Longrightarrow> broker_step b b' \<and> bs_journal b' = bs_journal b"
  shows "quiet (on_broker orc f)"
proof -
  have "wp (do { w \<leftarrow> State_Monad.get; let (x, b') = f (exec_io orc n) (xw_broker w); State_Monad.set (w\<lparr>xw_broker := b'\<rparr>); ret x })
      (\<lambda>_. moves w) w" for n w
    using f [of "exec_io orc n" "xw_broker w", OF surjective_pairing]
    by (auto simp: wp_simps Let_def moves_def intro!: r_into_rtranclp exec_step.op split: prod.splits)
  then have "quiet (do { w \<leftarrow> State_Monad.get; let (x, b') = f (exec_io orc n) (xw_broker w); State_Monad.set (w\<lparr>xw_broker := b'\<rparr>); ret x })" for n
    by (simp add: quiet_def)
  then show ?thesis unfolding on_broker_def by (rule quiet_bind [OF quiet_tick [OF ok]])
qed

lemma quiet_on_journal:
  assumes ok: "exec_ok orc"
    and f: "\<And>b io j I x j'. f io j = (x, j') \<Longrightarrow> 0 < ji_now io \<Longrightarrow> (journal_step b)\<^sup>=\<^sup>= (j, I) (j', I @ g j x)"
  shows "quiet (on_journal orc f g)"
proof -
  let ?m = "\<lambda>n. do { w \<leftarrow> State_Monad.get; let j = bs_journal (xw_broker w); let (x, j') = f (xo_journal orc n) j;
      State_Monad.set (w\<lparr>xw_broker := (xw_broker w)\<lparr>bs_journal := j'\<rparr>, xw_log := xw_log w @ g j x\<rparr>); ret x }"
  have now: "0 < ji_now (xo_journal orc n)" for n using ok by (simp add: exec_ok_def)
  have "exec_step\<^sup>*\<^sup>* (b, I) (b\<lparr>bs_journal := j'\<rparr>, I @ g (bs_journal b) x)" if "f (xo_journal orc n) (bs_journal b) = (x, j')" for n b I x j'
    using f [OF that now, of "policy_binding (bs_policy b)" I]
    by (auto intro: r_into_rtranclp exec_step.journal)
  then have "quiet (?m n)" for n
    by (auto simp: quiet_def wp_simps Let_def moves_def split: prod.splits)
  then show ?thesis unfolding on_journal_def by (rule quiet_bind [OF quiet_tick [OF ok]])
qed

text \<open>The handlers' calls.\<close>

lemma broker_calls_journal [simp]:
  "bs_journal (broker_abandon h b) = bs_journal b" "bs_journal (require_recovery b) = bs_journal b"
  "bs_journal (cancelControl c b) = bs_journal b"
  by (auto simp: broker_abandon_def forget_def require_recovery_def cancelControl_def split: option.splits)

lemma quiet_ops [quiet_intros]:
  assumes "exec_ok orc"
  shows "quiet (on_broker orc reserve)" "quiet (on_broker orc beginControl)"
    "quiet (on_broker orc (\<lambda>io. completeControl io c value))" "quiet (on_broker orc (\<lambda>_ b. ((), cancelControl c b)))"
    "quiet (on_broker orc (\<lambda>io. releaseUnclaimed io h))" "quiet (on_broker orc (\<lambda>io. bindClaim io h cl rtt))"
    "quiet (on_broker orc (\<lambda>_ b. ((), broker_abandon h b)))" "quiet (on_broker orc (\<lambda>_ b. ((), require_recovery b)))"
    "quiet (on_broker orc (\<lambda>io. broker_finish io h))"
  by (auto intro!: quiet_on_broker [OF assms] intro: broker_step.intros dest: broker_ops_frame bindClaim_frame)

lemma bound_Acquire_step:
  assumes "bound_Acquire io be k j = (x, j')" "0 < ji_now io"
  shows "(journal_step b)\<^sup>=\<^sup>= (j, I) (j', I)"
  using assms by (auto simp: bound_Acquire_def split: if_splits intro: journal_step.acquire)

lemma quiet_journal_ops [quiet_intros]:
  assumes "exec_ok orc"
  shows "quiet (on_journal orc (\<lambda>io. bound_Acquire io be k) (\<lambda>_ _. []))" "quiet (on_journal orc (\<lambda>io. Intent io h) (\<lambda>j. dispatched j h True))"
    "quiet (on_journal orc (\<lambda>io. Finish io h c) (\<lambda>_ _. []))" "quiet (on_journal orc (\<lambda>_ j. ((), attempt_Close h j)) (\<lambda>_ _. []))"
  by (auto intro!: quiet_on_journal [OF assms] intro: journal_step.intros dest: bound_Acquire_step)

lemma quiet_source [quiet_intros]: "exec_ok orc \<Longrightarrow> quiet (currentSource orc generation)"
  unfolding currentSource_def Let_def by (intro quiet_intros)

lemma quiet_checks [quiet_intros]:
  "exec_ok orc \<Longrightarrow> quiet (check_execution orc i)" "exec_ok orc \<Longrightarrow> quiet (check_mutation orc i s op)"
  "exec_ok orc \<Longrightarrow> quiet (check_report orc i)" "exec_ok orc \<Longrightarrow> quiet (check_delivery orc h)"
  unfolding check_execution_def check_mutation_def check_report_def check_delivery_def by (intro quiet_intros; assumption)+

lemma quiet_current [quiet_intros]: "exec_ok orc \<Longrightarrow> quiet (currentExecution orc generation i)"
  unfolding currentExecution_def by (intro quiet_intros)

lemma quiet_writeLocal [quiet_intros]: "exec_ok orc \<Longrightarrow> quiet (writeLocal orc kind conv ordinal payload)"
  unfolding writeLocal_def by (intro quiet_intros)

lemma quiet_report [quiet_intros]: "exec_ok orc \<Longrightarrow> quiet (consumer_report orc generation i)"
  unfolding consumer_report_def by (intro quiet_intros)

lemma quiet_finish [quiet_intros]:
  "exec_ok orc \<Longrightarrow> quiet (finish_reservation orc i)" "exec_ok orc \<Longrightarrow> quiet (consumer_abandon orc i)"
  unfolding finish_reservation_def consumer_abandon_def by (intro quiet_intros; assumption)+

lemma quiet_control [quiet_intros]: "exec_ok orc \<Longrightarrow> quiet (select_control orc)"
  unfolding select_control_def control_exchange_def by (intro quiet_intros)

lemma quiet_delivered [quiet_intros]: "exec_ok orc \<Longrightarrow> quiet (select_delivered orc h env)"
  unfolding select_delivered_def by (intro quiet_intros)

lemma quiet_reserved [quiet_intros]: "exec_ok orc \<Longrightarrow> quiet (select_reserved orc h)"
  unfolding select_reserved_def select_answer_def by (intro quiet_intros)

lemma quiet_select [quiet_intros]: "exec_ok orc \<Longrightarrow> quiet (selectWorkerInvocation orc)"
  unfolding selectWorkerInvocation_def by (intro quiet_intros)

lemma quiet_sources [quiet_intros]:
  assumes "exec_ok orc"
  shows "quiet (source_Acquire orc generation i k)" "quiet (source_Existing orc generation i h)" "quiet (source_Intent orc generation i h)"
    "quiet (source_Finish orc generation i h c)" "quiet (phase_Inspect orc generation i s)"
  unfolding source_Acquire_def source_Existing_def source_Intent_def source_Finish_def phase_Inspect_def
  by (intro quiet_intros assms)+

section \<open>The events of the core\<close>

abbreviation traced :: "nat action_event list \<Rightarrow> exec_world \<Rightarrow> bool" where
  "traced t w \<equiv> xw_trace w = t"

lemma traced_prims [pres_intros]:
  "preserves (traced t) (xtick orc)" "preserves (traced t) (xask orc f)" "preserves (traced t) (ask_broker orc g)"
  "preserves (traced t) (on_broker orc h)" "preserves (traced t) (on_journal orc k l)" "preserves (traced t) (effect x)"
  by (auto simp: preserves_def xtick_def xask_def ask_broker_def on_broker_def on_journal_def effect_def exec_others_def wp_simps Let_def
      split: prod.splits)

lemma traced_andalso [pres_intros]: "preserves P m \<Longrightarrow> preserves P n \<Longrightarrow> preserves P (andalso m n)"
  unfolding andalso_def by (intro pres_intros)

lemma traced_acquired [pres_intros]:
  "preserves P l \<Longrightarrow> preserves P m \<Longrightarrow> preserves P n \<Longrightarrow> (\<And>h. preserves P (f h)) \<Longrightarrow>
     preserves P (case x of AcquireConflict \<Rightarrow> l | AcquireUnresolved \<Rightarrow> m | AcquireFailed \<Rightarrow> n | Acquired h \<Rightarrow> f h)"
  by (cases x) simp_all

lemma traced_calls [pres_intros]:
  "preserves (traced t) (check_execution orc i)" "preserves (traced t) (check_mutation orc i s op)"
  "preserves (traced t) (writeLocal orc kind conv ordinal payload)"
  unfolding check_execution_def check_mutation_def writeLocal_def by (intro pres_intros)+

lemma traced_current [pres_intros]: "preserves (traced t) (currentExecution orc generation i)"
  unfolding currentExecution_def currentSource_def Let_def by (intro pres_intros)

lemma traced_wrappers [pres_intros]:
  "preserves (traced t) (source_Acquire orc generation i k)" "preserves (traced t) (source_Existing orc generation i h)"
  "preserves (traced t) (source_Intent orc generation i h)" "preserves (traced t) (source_Finish orc generation i h c)"
  "preserves (traced t) (phase_Inspect orc generation i s)" "preserves (traced t) (phase_mutate orc generation i s op g)"
  unfolding source_Acquire_def source_Existing_def source_Intent_def source_Finish_def phase_Inspect_def phase_mutate_def
    mutate_called_def
  by (intro pres_intros)+

lemma traced_call [pres_intros]: "preserves (traced t) (phase_call orc generation i op s g)"
  unfolding phase_call_def by (cases op) (auto intro: pres_intros)

lemma traced_authority [pres_intros]: "preserves (traced t) (authority_Check orc generation i r b)"
  unfolding authority_Check_def authority_exchange_def authority_reply_def by (intro pres_intros) auto

lemma wp_traced: "(\<And>t. preserves (traced t) m) \<Longrightarrow> wp m (\<lambda>_ w'. xw_trace w' = xw_trace w) w"
  by (simp add: preserves_def)

lemma wp_noted_trace: "(\<And>t. preserves (traced t) m) \<Longrightarrow> wp (noted ev m) (\<lambda>x w'. xw_trace w' = xw_trace w @ [ev x]) w"
  unfolding noted_def emit_def wp_simps by (rule wp_mono [OF wp_traced]) auto

interpretation srv: worker_env "exec_deps orc generation i" xw_trace for orc generation i
  by unfold_locales (auto simp: exec_deps_def intro!: wp_traced wp_noted_trace intro: pres_intros)

section \<open>Decisions and engine calls\<close>

text \<open>The journal as the action world sees it.\<close>

definition journal_world :: "exec_world \<Rightarrow> action_world" where
  "journal_world w = \<lparr>wo_journal = bs_journal (xw_broker w), wo_log = xw_log w, wo_trace = xw_trace w, wo_ticks = 0\<rparr>"

lemma journal_world_sel [simp]:
  "wo_journal (journal_world w) = bs_journal (xw_broker w)" "wo_log (journal_world w) = xw_log w" "wo_trace (journal_world w) = xw_trace w"
  by (simp_all add: journal_world_def)

text \<open>The effects that an event of the core stands for.\<close>

definition contrib :: "nat action_event \<Rightarrow> exec_effect list \<Rightarrow> bool" where
  "contrib e g \<longleftrightarrow>
     (case e of
        EvCheck ok \<Rightarrow> if ok then \<exists>c ch d. g = [Permitted c ch d] else g = []
      | EvCall op s grace t ok \<Rightarrow> g = [] \<or> (\<exists>grace' read. g = [Mutated op s grace' read])
      | _ \<Rightarrow> g = [])"

fun good :: "invocation \<Rightarrow> exec_effect \<Rightarrow> bool" where
  "good i (Permitted c ch d) \<longleftrightarrow> MatchExecutionDecision (iv_claim i) (show_nat c) ch d"
| "good i (Mutated op s grace read) \<longleftrightarrow>
     (\<exists>parent. CheckMutation (execution_Context (Some (iv_execution i)) parent) s op read)
     \<and> grace = ar_GraceSeconds (key_request (rb_key (iv_resolved i)))"

fun permits_of :: "exec_effect list \<Rightarrow> (nat \<times> string) list" where
  "permits_of [] = []"
| "permits_of (Permitted c ch d # xs) = (c, ch) # permits_of xs"
| "permits_of (Mutated op s grace read # xs) = permits_of xs"

lemma permits_of_append [simp]: "permits_of (xs @ ys) = permits_of xs @ permits_of ys"
  by (induction xs rule: permits_of.induct) simp_all

text \<open>The first \<open>cp\<close> challenges were made, the last of them \<open>ch\<close>; consecutive challenges differ.\<close>

definition challenged :: "nat \<Rightarrow> string \<Rightarrow> (nat \<times> string) list \<Rightarrow> bool" where
  "challenged cp ch ps \<longleftrightarrow>
     (cp = 0 \<and> ps = []) \<or> (cp = 1 \<and> (ps = [] \<or> ps = [(1, ch)]))
     \<or> (cp = 2 \<and> (ps = [] \<or> ps = [(2, ch)] \<or> (\<exists>first. first \<noteq> ch \<and> (ps = [(1, first)] \<or> ps = [(1, first), (2, ch)]))))"

text \<open>A challenge is open while it has no decision.\<close>

definition unanswered :: "nat \<Rightarrow> string \<Rightarrow> (nat \<times> string) list \<Rightarrow> bool" where
  "unanswered cp ch ps \<longleftrightarrow> (cp = 1 \<and> ps = []) \<or> (cp = 2 \<and> (ps = [] \<or> (\<exists>first. first \<noteq> ch \<and> ps = [(1, first)])))"

lemma unanswered_cases:
  "unanswered cp ch ps \<Longrightarrow> challenged cp ch ps" "unanswered cp ch ps \<Longrightarrow> challenged cp ch (ps @ [(cp, ch)])"
  "challenged cp ch ps \<Longrightarrow> cp < 2 \<Longrightarrow> ch \<noteq> ch' \<Longrightarrow> unanswered (Suc cp) ch' ps"
  by (auto simp: unanswered_def challenged_def)

definition serving ::
  "invocation \<Rightarrow> policy_document \<Rightarrow> nat action_event list \<Rightarrow> exec_effect list \<Rightarrow> string list \<Rightarrow>
   exec_effect list \<Rightarrow> (nat \<Rightarrow> string \<Rightarrow> (nat \<times> string) list \<Rightarrow> bool) \<Rightarrow> exec_world \<Rightarrow> bool" where
  "serving i p t0 f0 l0 g C w \<longleftrightarrow>
     broker_run (xw_broker w) \<and> bs_policy (xw_broker w) = p \<and> world_inv (policy_binding p) t0 l0 (journal_world w)
     \<and> (\<exists>es gs. xw_trace w = t0 @ es \<and> xw_effects w = f0 @ concat gs @ g \<and> list_all2 contrib es gs \<and> list_all (good i) (concat gs @ g)
          \<and> C (xw_checkpoint w) (xw_lastChallenge w) (permits_of (concat gs @ g)))"

abbreviation served :: "invocation \<Rightarrow> policy_document \<Rightarrow> nat action_event list \<Rightarrow> exec_effect list \<Rightarrow> string list \<Rightarrow> exec_world \<Rightarrow> bool" where
  "served i p t0 f0 l0 \<equiv> serving i p t0 f0 l0 [] challenged"

lemma serving_moves:
  assumes s: "serving i p t0 f0 l0 g C w" and m: "moves w w'"
  shows "serving i p t0 f0 l0 g C w'"
proof -
  have "exec_step\<^sup>*\<^sup>* (xw_broker w, xw_log w) (xw_broker w', xw_log w')" using m by (simp add: moves_def)
  from exec_steps_facts [OF this] s have f: "bs_policy (xw_broker w') = p" "broker_run (xw_broker w')"
    "(journal_step (policy_binding p))\<^sup>*\<^sup>* (bs_journal (xw_broker w), xw_log w) (bs_journal (xw_broker w'), xw_log w')"
    by (auto simp: serving_def)
  have "world_inv (policy_binding p) t0 l0 (journal_world w)" using s by (simp add: serving_def)
  from world_inv_steps [OF this, of "bs_journal (xw_broker w')" "xw_log w'" 0] f(3)
  have "world_inv (policy_binding p) t0 l0 (journal_world w')" using m by (simp add: journal_world_def moves_def)
  then show ?thesis using s m f by (simp add: serving_def moves_def)
qed

lemma wp_quiet: "quiet m \<Longrightarrow> (\<And>x w'. moves w w' \<Longrightarrow> Q x w') \<Longrightarrow> wp m Q w"
  by (rule wp_mono [OF quietD]) auto

lemma quiet_serving: "quiet m \<Longrightarrow> preserves (serving i p t0 f0 l0 g C) m"
  by (auto simp: preserves_def intro: wp_quiet serving_moves)

text \<open>An event closes the effects it stands for.\<close>

lemma serving_emit:
  assumes s: "serving i p t0 f0 l0 g C w" and c: "contrib e g"
    and "\<And>k h. e = EvAcquire k (Some h) \<Longrightarrow> h < length (j_attempts (bs_journal (xw_broker w))) \<and>
           CanonicalJournalMetadata k = Some (handle_raw (bs_journal (xw_broker w)) h)"
    and "\<And>h. e = EvIntent h True \<Longrightarrow> h < length (j_attempts (bs_journal (xw_broker w))) \<and>
           handle_raw (bs_journal (xw_broker w)) h \<in> set (drop (length l0) (xw_log w))"
  shows "serving i p t0 f0 l0 [] C (w\<lparr>xw_trace := xw_trace w @ [e]\<rparr>)"
proof -
  from s obtain es gs where es: "xw_trace w = t0 @ es" "xw_effects w = f0 @ concat gs @ g" "list_all2 contrib es gs"
    "list_all (good i) (concat gs @ g)" "C (xw_checkpoint w) (xw_lastChallenge w) (permits_of (concat gs @ g))"
    by (auto simp: serving_def)
  have "world_inv (policy_binding p) t0 l0 (journal_world w)" using s by (simp add: serving_def)
  from world_inv_event [OF this, of e] assms(3,4)
  have "world_inv (policy_binding p) t0 l0 ((journal_world w)\<lparr>wo_trace := xw_trace w @ [e]\<rparr>)" by simp
  moreover have "list_all2 contrib (es @ [e]) (gs @ [g])" using es(3) c by (simp add: list_all2_appendI)
  ultimately show ?thesis
    using s es by (auto simp: serving_def journal_world_def intro!: exI [of _ "es @ [e]"] exI [of _ "gs @ [g]"])
qed

text \<open>The calls whose events speak of the journal.\<close>

lemma moves_journal:
  assumes "moves w w'"
  shows "handles_kept (bs_journal (xw_broker w)) (bs_journal (xw_broker w'))" "\<exists>new. xw_log w' = xw_log w @ new"
proof -
  have "exec_step\<^sup>*\<^sup>* (xw_broker w, xw_log w) (xw_broker w', xw_log w')" using assms by (simp add: moves_def)
  from exec_steps_facts [OF this] have "(journal_step (policy_binding (bs_policy (xw_broker w))))\<^sup>*\<^sup>*
    (bs_journal (xw_broker w), xw_log w) (bs_journal (xw_broker w'), xw_log w')" by simp
  from journal_steps_handles [OF this] show "handles_kept (bs_journal (xw_broker w)) (bs_journal (xw_broker w'))"
    "\<exists>new. xw_log w' = xw_log w @ new" by auto
qed

definition recorded :: "action_key \<Rightarrow> nat acquired \<Rightarrow> exec_world \<Rightarrow> bool" where
  "recorded k x w \<longleftrightarrow> (\<forall>h. x = Acquired h \<longrightarrow> h < length (j_attempts (bs_journal (xw_broker w))) \<and>
     CanonicalJournalMetadata k = Some (handle_raw (bs_journal (xw_broker w)) h))"

definition intent_logged :: "nat \<Rightarrow> nat \<Rightarrow> exec_world \<Rightarrow> bool" where
  "intent_logged h n w \<longleftrightarrow> h < length (j_attempts (bs_journal (xw_broker w))) \<and> handle_raw (bs_journal (xw_broker w)) h \<in> set (drop n (xw_log w))"

lemma recorded_moves: "recorded k x w \<Longrightarrow> moves w w' \<Longrightarrow> recorded k x w'"
  using moves_journal(1) by (fastforce simp: recorded_def handles_kept_def)

lemma intent_logged_moves: "intent_logged h n w \<Longrightarrow> moves w w' \<Longrightarrow> intent_logged h n w'"
  using moves_journal by (fastforce simp: intent_logged_def handles_kept_def)

lemma wp_on_journal:
  assumes ok: "exec_ok orc" and f: "\<And>n j x j'. f (xo_journal orc n) j = (x, j') \<Longrightarrow> R x j' (g j x)"
  shows "wp (on_journal orc f g) (\<lambda>x w'. \<exists>pre. R x (bs_journal (xw_broker w')) pre \<and> (\<exists>old. xw_log w' = xw_log w @ old @ pre)) w"
proof -
  have "wp (xtick orc) (\<lambda>_ w'. \<exists>old. xw_log w' = xw_log w @ old) w"
    by (rule wp_quiet [OF quiet_tick [OF ok]]) (rule moves_journal(2))
  then show ?thesis
    unfolding on_journal_def wp_bind
    by (rule wp_mono) (use f [OF surjective_pairing] in \<open>force simp: wp_simps Let_def split_beta\<close>)
qed

lemma acquire_recorded:
  assumes ok: "exec_ok orc"
  shows "wp (on_journal orc (\<lambda>io. bound_Acquire io be k) (\<lambda>_ _. [])) (\<lambda>x w'. moves w w' \<and> recorded k (acquired_of x) w') w"
proof -
  let ?R = "\<lambda>x j' (_ :: string list). \<forall>h. acquired_of x = Acquired h \<longrightarrow> h < length (j_attempts j') \<and>
      CanonicalJournalMetadata k = Some (handle_raw j' h)"
  have "?R x j' []" if "bound_Acquire (xo_journal orc n) be k j = (x, j')" for n j x j'
    using that acquire_attempts [of "xo_journal orc n" k "Some (be_guard be)" j x j']
    by (auto simp: bound_Acquire_def acquired_of_def handle_raw_def split: sum.splits if_splits)
  then have "wp (on_journal orc (\<lambda>io. bound_Acquire io be k) (\<lambda>_ _. [])) (\<lambda>x w'. recorded k (acquired_of x) w') w"
    by (intro wp_mono [OF wp_on_journal [OF ok, where R = ?R]]) (auto simp: recorded_def)
  from wp_conj [OF quietD [OF quiet_journal_ops(1) [OF ok]] this] show ?thesis .
qed

lemma Intent_logged:
  assumes ok: "exec_ok orc"
  shows "wp (on_journal orc (\<lambda>io. Intent io h) (\<lambda>j. dispatched j h True))
    (\<lambda>x w'. moves w w' \<and> (x = None \<longrightarrow> intent_logged h (length (xw_log w)) w')) w"
proof -
  let ?R = "\<lambda>x j' pre. x = None \<longrightarrow> h < length (j_attempts j') \<and> handle_raw j' h \<in> set pre"
  have "?R x j' (dispatched j h True x)" if i: "Intent (xo_journal orc n) h j = (x, j')" for n j x j'
  proof
    assume "x = None"
    then have "h < length (j_attempts j)"
      using i by (auto simp: Intent_def transition_def attempt_at_def split: option.splits if_splits)
    then show "h < length (j_attempts j') \<and> handle_raw j' h \<in> set (dispatched j h True x)"
      using transition_handles i \<open>x = None\<close> by (fastforce simp: Intent_def handles_kept_def dispatched_def handle_raw_def)
  qed
  then have "wp (on_journal orc (\<lambda>io. Intent io h) (\<lambda>j. dispatched j h True))
      (\<lambda>x w'. x = None \<longrightarrow> intent_logged h (length (xw_log w)) w') w"
    by (intro wp_mono [OF wp_on_journal [OF ok, where R = ?R]]) (auto simp: intent_logged_def)
  from wp_conj [OF quietD [OF quiet_journal_ops(2) [OF ok]] this] show ?thesis .
qed

lemma wp_quiet_after:
  assumes "quiet m" "moves w u" "\<And>x w'. moves w w' \<Longrightarrow> moves u w' \<Longrightarrow> Q x w'"
  shows "wp m Q u"
  by (rule wp_quiet [OF assms(1)]) (use assms(2,3) moves_trans in blast)

lemma source_Acquire_recorded:
  assumes ok: "exec_ok orc"
  shows "wp (source_Acquire orc generation i k) (\<lambda>x w'. moves w w' \<and> recorded k x w') w"
proof -
  let ?Q = "\<lambda>x w'. moves w w' \<and> recorded k x w'"
  have settle: "wp (case x of
         Acquired h \<Rightarrow> do {
           ok \<leftarrow> currentExecution orc generation i;
           if ok then ret (Acquired h)
           else do { on_journal orc (\<lambda>_ j. ((), attempt_Close h j)) (\<lambda>_ _. []); ret AcquireFailed }
         }
       | y \<Rightarrow> ret y) ?Q v" if v: "moves w v" "recorded k x v" for x v
  proof (cases x)
    case (Acquired h)
    have closed: "wp (do { on_journal orc (\<lambda>_ j. ((), attempt_Close h j)) (\<lambda>_ _. []); ret AcquireFailed }) ?Q u" if "moves w u" for u
      unfolding wp_simps by (rule wp_quiet_after [OF quiet_journal_ops(4) [OF ok] that]) (simp add: recorded_def)
    have kept: "recorded k (Acquired h) u" if "moves v u" for u
      using v(2) recorded_moves that unfolding Acquired by blast
    show ?thesis
      unfolding Acquired using closed kept
      by (auto simp: wp_simps intro!: wp_quiet_after [OF quiet_current [OF ok] v(1)])
  qed (use v in \<open>auto simp: wp_simps recorded_def\<close>)
  have acq: "wp (on_journal orc (\<lambda>io. bound_Acquire io (iv_journal i) k) (\<lambda>_ _. [])) (\<lambda>x u. moves w u \<and> recorded k (acquired_of x) u) v"
    if "moves w v" for v
    by (rule wp_mono [OF acquire_recorded [OF ok]]) (use that moves_trans in blast)
  show ?thesis
    unfolding source_Acquire_def wp_bind
    by (rule wp_quiet [OF quiet_current [OF ok]])
      (auto simp: wp_return recorded_def [of k AcquireFailed] wp_bind intro!: wp_mono [OF acq] settle)
qed

lemma source_Intent_logged:
  assumes ok: "exec_ok orc"
  shows "wp (source_Intent orc generation i h) (\<lambda>x w'. moves w w' \<and> (x \<longrightarrow> intent_logged h (length (xw_log w)) w')) w"
proof -
  have after: "intent_logged h (length (xw_log w)) u" if "moves w v" "intent_logged h (length (xw_log v)) u" for u v
    using moves_journal(2) [OF that(1)] that(2) set_drop_subset_set_drop [of "length (xw_log w)" "length (xw_log v)" "xw_log u"]
    by (auto simp: intent_logged_def)
  have fin: "wp (currentExecution orc generation i) (\<lambda>x w'. moves w w' \<and> (x \<longrightarrow> intent_logged h (length (xw_log w)) w')) u"
    if "moves w u" "intent_logged h (length (xw_log w)) u" for u
    using that by (auto intro!: wp_quiet_after [OF quiet_current [OF ok]] intro: intent_logged_moves)
  have int: "wp (on_journal orc (\<lambda>io. Intent io h) (\<lambda>j. dispatched j h True))
      (\<lambda>x w'. moves w w' \<and> (x = None \<longrightarrow> intent_logged h (length (xw_log w)) w')) v" if "moves w v" for v
    by (rule wp_mono [OF Intent_logged [OF ok]]) (use that moves_trans after in blast)
  show ?thesis
    unfolding source_Intent_def wp_bind
    by (rule wp_quiet [OF quiet_current [OF ok]]) (auto simp: wp_return wp_bind intro!: wp_mono [OF int] intro: fin)
qed

section \<open>What the core's collaborators keep\<close>

lemma keeps_noted:
  assumes "\<And>w. served i p t0 f0 l0 w \<Longrightarrow> wp m (\<lambda>x w'. \<exists>g. contrib (ev x) g \<and> serving i p t0 f0 l0 g challenged w'
      \<and> (\<forall>k h. ev x = EvAcquire k (Some h) \<longrightarrow> recorded k (Acquired h) w') \<and> (\<forall>h. ev x = EvIntent h True \<longrightarrow> intent_logged h (length l0) w')) w"
  shows "preserves (served i p t0 f0 l0) (noted ev m)"
proof -
  have "wp (noted ev m) (\<lambda>_. served i p t0 f0 l0) w" if "served i p t0 f0 l0 w" for w
    unfolding noted_def emit_def wp_simps
    by (rule wp_mono [OF assms [OF that]])
      (auto intro!: serving_emit simp: recorded_def intent_logged_def)
  then show ?thesis by (simp add: preserves_def)
qed

lemma keeps_quiet_noted:
  assumes "quiet m" "\<And>x. contrib (ev x) []" "\<And>x k h. ev x \<noteq> EvAcquire k (Some h)" "\<And>x h. ev x \<noteq> EvIntent h True"
  shows "preserves (served i p t0 f0 l0) (noted ev m)"
  by (rule keeps_noted, rule wp_quiet [OF assms(1)]) (use assms(2-4) serving_moves in blast)

lemma keeps_Acquire:
  assumes "exec_ok orc"
  shows "preserves (served i p t0 f0 l0) (noted (\<lambda>x. EvAcquire k (acquired_handle x)) (source_Acquire orc generation i k))"
proof (rule keeps_noted, rule wp_mono [OF source_Acquire_recorded [OF assms]], elim conjE)
  fix w x w' assume *: "served i p t0 f0 l0 w" "moves w w'" "recorded k x w'"
  have "recorded k (Acquired h) w'" if "acquired_handle x = Some h" for h using *(3) that by (cases x) auto
  then show "\<exists>g. contrib (EvAcquire k (acquired_handle x)) g \<and> serving i p t0 f0 l0 g challenged w'
      \<and> (\<forall>k' h. EvAcquire k (acquired_handle x) = EvAcquire k' (Some h) \<longrightarrow> recorded k' (Acquired h) w')
      \<and> (\<forall>h. EvAcquire k (acquired_handle x) = EvIntent h True \<longrightarrow> intent_logged h (length l0) w')"
    using serving_moves [OF *(1,2)] by (auto simp: contrib_def)
qed

lemma keeps_Intent:
  assumes "exec_ok orc"
  shows "preserves (served i p t0 f0 l0) (noted (EvIntent h) (source_Intent orc generation i h))"
proof (rule keeps_noted, rule wp_mono [OF source_Intent_logged [OF assms]], elim conjE)
  fix w x w' assume *: "served i p t0 f0 l0 w" "moves w w'" "x \<longrightarrow> intent_logged h (length (xw_log w)) w'"
  obtain new where "xw_log w = l0 @ new" using *(1) by (auto simp: serving_def world_inv_def)
  then have "x \<longrightarrow> intent_logged h (length l0) w'"
    using *(3) set_drop_subset_set_drop [of "length l0" "length (xw_log w)" "xw_log w'"] by (auto simp: intent_logged_def)
  then show "\<exists>g. contrib (EvIntent h x) g \<and> serving i p t0 f0 l0 g challenged w'
      \<and> (\<forall>k' h'. EvIntent h x = EvAcquire k' (Some h') \<longrightarrow> recorded k' (Acquired h') w')
      \<and> (\<forall>h'. EvIntent h x = EvIntent h' True \<longrightarrow> intent_logged h' (length l0) w')"
    using serving_moves [OF *(1,2)] by (auto simp: contrib_def)
qed

text \<open>A check: the challenge is open until its decision is accepted.\<close>

definition asked :: "invocation \<Rightarrow> policy_document \<Rightarrow> nat action_event list \<Rightarrow> exec_effect list \<Rightarrow> string list \<Rightarrow>
    nat \<Rightarrow> string \<Rightarrow> exec_world \<Rightarrow> bool" where
  "asked i p t0 f0 l0 c ch w \<longleftrightarrow> serving i p t0 f0 l0 [] unanswered w \<and> xw_checkpoint w = c \<and> xw_lastChallenge w = ch"

lemma asked_moves: "asked i p t0 f0 l0 c ch w \<Longrightarrow> moves w w' \<Longrightarrow> asked i p t0 f0 l0 c ch w'"
  using serving_moves by (auto simp: asked_def moves_def)

lemma wp_asked:
  assumes "asked i p t0 f0 l0 c ch w" "quiet m" "\<And>x w'. asked i p t0 f0 l0 c ch w' \<Longrightarrow> Q x w'"
  shows "wp m Q w"
  by (rule wp_quiet [OF assms(2)]) (use assms(1,3) asked_moves in blast)

lemma wp_asked_bind:
  assumes "asked i p t0 f0 l0 c ch w" "quiet m" "\<And>x w'. asked i p t0 f0 l0 c ch w' \<Longrightarrow> wp (k x) Q w'"
  shows "wp (State_Monad.bind m k) Q w"
  unfolding wp_bind by (rule wp_asked [OF assms(1,2)]) (rule assms(3))

lemma serving_weaken:
  "serving i p t0 f0 l0 g C w \<Longrightarrow> (\<And>ps. C (xw_checkpoint w) (xw_lastChallenge w) ps \<Longrightarrow> C' (xw_checkpoint w) (xw_lastChallenge w) ps)
     \<Longrightarrow> serving i p t0 f0 l0 g C' w"
  by (auto simp: serving_def)

lemma asked_refused: "asked i p t0 f0 l0 c ch w \<Longrightarrow> served i p t0 f0 l0 w"
  unfolding asked_def by (auto intro: serving_weaken unanswered_cases(1))

lemma serving_effect:
  assumes s: "serving i p t0 f0 l0 [] C w" and "good i x"
    and "\<And>ps. C (xw_checkpoint w) (xw_lastChallenge w) ps \<Longrightarrow> C' (xw_checkpoint w) (xw_lastChallenge w) (ps @ permits_of [x])"
  shows "serving i p t0 f0 l0 [x] C' (w\<lparr>xw_effects := xw_effects w @ [x]\<rparr>)"
proof -
  from s obtain es gs where es: "xw_trace w = t0 @ es" "xw_effects w = f0 @ concat gs" "list_all2 contrib es gs"
    "list_all (good i) (concat gs)" "C (xw_checkpoint w) (xw_lastChallenge w) (permits_of (concat gs))"
    by (auto simp: serving_def)
  then show ?thesis
    using s assms(2) assms(3) [OF es(5)] by (auto simp: serving_def journal_world_def)
qed

lemma asked_permitted:
  assumes "asked i p t0 f0 l0 c ch w" "MatchExecutionDecision (iv_claim i) (show_nat c) ch d"
  shows "serving i p t0 f0 l0 [Permitted c ch d] challenged (w\<lparr>xw_effects := xw_effects w @ [Permitted c ch d]\<rparr>)"
  using assms by (auto simp: asked_def intro!: serving_effect [where C = unanswered] unanswered_cases(2))

definition check_post :: "invocation \<Rightarrow> policy_document \<Rightarrow> nat action_event list \<Rightarrow> exec_effect list \<Rightarrow> string list \<Rightarrow> bool \<Rightarrow> exec_world \<Rightarrow> bool" where
  "check_post i p t0 f0 l0 x w \<longleftrightarrow> (\<exists>g. contrib (EvCheck x) g \<and> serving i p t0 f0 l0 g challenged w)"

lemma check_post_cases:
  "served i p t0 f0 l0 w \<Longrightarrow> check_post i p t0 f0 l0 False w"
  "serving i p t0 f0 l0 [Permitted c ch d] challenged w \<Longrightarrow> check_post i p t0 f0 l0 True w"
  by (auto simp: check_post_def contrib_def)

lemma authority_reply_post:
  assumes ok: "exec_ok orc" and a: "asked i p t0 f0 l0 c ch w"
  shows "wp (authority_reply orc generation i conv c ch sent) (check_post i p t0 f0 l0) w"
proof -
  note no = check_post_cases(1) [OF asked_refused]
  have permit: "wp (do { effect (Permitted c ch d); ret True }) (check_post i p t0 f0 l0) w"
    if "asked i p t0 f0 l0 c ch w" "MatchExecutionDecision (iv_claim i) (show_nat c) ch d" for w d
    unfolding effect_def wp_simps by (rule check_post_cases(2) [OF asked_permitted [OF that]])
  have final: "wp (do { ok \<leftarrow> m; if \<not> ok then ret False else do { effect (Permitted c ch d); ret True } }) (check_post i p t0 f0 l0) w"
    if "asked i p t0 f0 l0 c ch w" "MatchExecutionDecision (iv_claim i) (show_nat c) ch d" "quiet m" for w d m
    unfolding wp_bind by (rule wp_asked [OF that(1,3)]) (auto simp: wp_return no permit [OF _ that(2)])
  show ?thesis
    unfolding authority_reply_def
    by (rule wp_asked_bind [OF a quiet_ask [OF ok]])
      (auto simp: wp_return no split: option.splits intro!: final wp_asked_bind [OF _ quiet_ask_broker [OF ok]] quiet_intros ok)
qed

text \<open>Before the exchange the challenge is recorded.\<close>

lemma authority_exchange_post:
  assumes ok: "exec_ok orc" and a: "asked i p t0 f0 l0 c ch w"
  shows "wp (authority_exchange orc generation i c ch) (check_post i p t0 f0 l0) w"
proof -
  note no = check_post_cases(1) [OF asked_refused]
  show ?thesis
    unfolding authority_exchange_def
    by (rule wp_asked_bind [OF a quiet_ask_broker [OF ok]])
      (auto simp: wp_return no split: option.splits intro!: authority_reply_post [OF ok] wp_asked_bind [OF _ quiet_ask_broker [OF ok]]
        wp_asked_bind [OF _ quiet_writeLocal [OF ok]])
qed

lemma asked_begin:
  assumes "served i p t0 f0 l0 w" "xw_checkpoint w < 2" "ch \<noteq> xw_lastChallenge w"
  shows "asked i p t0 f0 l0 (xw_checkpoint w + 1) ch (w\<lparr>xw_lastChallenge := ch, xw_checkpoint := xw_checkpoint w + 1\<rparr>)"
  using assms unanswered_cases(3) [of "xw_checkpoint w" "xw_lastChallenge w" _ ch] by (auto simp: asked_def serving_def journal_world_def)

lemma authority_challenge_post:
  assumes ok: "exec_ok orc" and s: "served i p t0 f0 l0 w" and "xw_checkpoint w < 2"
  shows "wp (do {
      w \<leftarrow> State_Monad.get;
      if ch = xw_lastChallenge w then ret False
      else do {
        State_Monad.update (\<lambda>w. w\<lparr>xw_lastChallenge := ch, xw_checkpoint := xw_checkpoint w + 1\<rparr>);
        authority_exchange orc generation i (xw_checkpoint w + 1) ch
      } }) (check_post i p t0 f0 l0) w"
  using authority_exchange_post [OF ok asked_begin [OF s assms(3), of ch]] check_post_cases(1) [OF s]
  by (auto simp: wp_simps)

lemma served_bind:
  assumes "served i p t0 f0 l0 w" "quiet m" "\<And>x w'. served i p t0 f0 l0 w' \<Longrightarrow> moves w w' \<Longrightarrow> wp (k x) Q w'"
  shows "wp (State_Monad.bind m k) Q w"
  unfolding wp_bind by (rule wp_quiet [OF assms(2)]) (use assms(1,3) serving_moves in blast)

lemma authority_Check_post:
  assumes ok: "exec_ok orc" and s: "served i p t0 f0 l0 w"
  shows "wp (authority_Check orc generation i r b) (check_post i p t0 f0 l0) w"
proof (cases "2 \<le> xw_checkpoint w")
  case True
  then show ?thesis using check_post_cases(1) [OF s] by (simp add: authority_Check_def wp_simps)
next
  case False
  have fresh: "wp (do { fresh \<leftarrow> ask_broker orc f; case fresh of None \<Rightarrow> ret False | Some challenge \<Rightarrow> do {
      w \<leftarrow> State_Monad.get;
      if challenge = xw_lastChallenge w then ret False
      else do {
        State_Monad.update (\<lambda>w. w\<lparr>xw_lastChallenge := challenge, xw_checkpoint := xw_checkpoint w + 1\<rparr>);
        authority_exchange orc generation i (xw_checkpoint w + 1) challenge
      } } }) (check_post i p t0 f0 l0) v" if v: "served i p t0 f0 l0 v" "xw_checkpoint v < 2" for v f
    by (rule served_bind [OF v(1) quiet_ask_broker [OF ok]])
      (use v(2) in \<open>auto simp: wp_return check_post_cases(1) moves_def split: option.splits intro!: authority_challenge_post [OF ok]\<close>)
  have "wp (do { ok \<leftarrow> currentExecution orc generation i;
       if \<not> ok then ret False
       else if map_option ak_Fingerprint (NewJournalKey r b) \<noteq> Some (ak_Fingerprint (rb_key (iv_resolved i))) then ret False
       else do { fresh \<leftarrow> ask_broker orc (\<lambda>io b. freshNonce (bi_random io) b); case fresh of None \<Rightarrow> ret False | Some challenge \<Rightarrow> do {
      w \<leftarrow> State_Monad.get;
      if challenge = xw_lastChallenge w then ret False
      else do {
        State_Monad.update (\<lambda>w. w\<lparr>xw_lastChallenge := challenge, xw_checkpoint := xw_checkpoint w + 1\<rparr>);
        authority_exchange orc generation i (xw_checkpoint w + 1) challenge
      } } } }) (check_post i p t0 f0 l0) w"
    by (rule served_bind [OF s quiet_current [OF ok]])
      (use False fresh in \<open>simp add: wp_return check_post_cases(1) moves_def\<close>)
  then show ?thesis using False by (simp add: authority_Check_def wp_bind wp_get)
qed

lemma keeps_Check: "exec_ok orc \<Longrightarrow> preserves (served i p t0 f0 l0) (noted EvCheck (authority_Check orc generation i r b))"
  by (rule keeps_noted) (rule wp_mono [OF authority_Check_post], auto simp: check_post_def)

text \<open>An engine call.\<close>

definition call_post :: "invocation \<Rightarrow> policy_document \<Rightarrow> nat action_event list \<Rightarrow> exec_effect list \<Rightarrow> string list \<Rightarrow>
    operation \<Rightarrow> string \<Rightarrow> exec_world \<Rightarrow> bool" where
  "call_post i p t0 f0 l0 op s w \<longleftrightarrow>
     served i p t0 f0 l0 w \<or> (\<exists>grace read. serving i p t0 f0 l0 [Mutated op s grace read] challenged w)"

lemma call_post_moves: "call_post i p t0 f0 l0 op s w \<Longrightarrow> moves w w' \<Longrightarrow> call_post i p t0 f0 l0 op s w'"
  using serving_moves by (fastforce simp: call_post_def)

lemma quiet_call_post: "quiet m \<Longrightarrow> call_post i p t0 f0 l0 op s w \<Longrightarrow> wp m (\<lambda>_. call_post i p t0 f0 l0 op s) w"
  by (auto intro: wp_quiet call_post_moves)

lemma wp_check_mutation:
  assumes ok: "exec_ok orc" and s: "served i p t0 f0 l0 w"
  shows "wp (check_mutation orc i s op) (\<lambda>x w'. served i p t0 f0 l0 w' \<and>
    (fst x \<longrightarrow> (\<exists>parent. CheckMutation (execution_Context (Some (iv_execution i)) parent) s op (snd x)))) w"
proof (rule wp_conj)
  show "wp (check_mutation orc i s op) (\<lambda>_. served i p t0 f0 l0) w"
    using serving_moves [OF s] by (blast intro: wp_quiet [OF quiet_checks(2) [OF ok]])
  show "wp (check_mutation orc i s op)
      (\<lambda>x _. fst x \<longrightarrow> (\<exists>parent. CheckMutation (execution_Context (Some (iv_execution i)) parent) s op (snd x))) w"
    by (auto simp: check_mutation_def xask_def xtick_def wp_simps Let_def)
qed

lemma phase_mutate_post:
  assumes ok: "exec_ok orc" and s: "served i p t0 f0 l0 w"
  shows "wp (phase_mutate orc generation i s op grace) (\<lambda>_. call_post i p t0 f0 l0 op s) w"
proof (cases "s \<noteq> ab_ContainerID (rb_binding (iv_resolved i)) \<or> op \<noteq> rr_Operation (cl_Request (iv_claim i))
         \<or> grace \<noteq> ar_GraceSeconds (key_request (rb_key (iv_resolved i)))")
  case True
  then show ?thesis using s by (simp add: phase_mutate_def wp_return call_post_def)
next
  case False
  have no: "call_post i p t0 f0 l0 op s v" if "served i p t0 f0 l0 v" for v using that by (simp add: call_post_def)
  have called: "wp (mutate_called orc generation i s op grace read) (\<lambda>_. call_post i p t0 f0 l0 op s) v"
    if v: "served i p t0 f0 l0 v" "CheckMutation (execution_Context (Some (iv_execution i)) parent) s op read" for v read parent
  proof -
    have "serving i p t0 f0 l0 [Mutated op s grace read] challenged (v\<lparr>xw_effects := xw_effects v @ [Mutated op s grace read]\<rparr>)"
      using False v by (auto intro!: serving_effect)
    then have posted: "call_post i p t0 f0 l0 op s (v\<lparr>xw_effects := xw_effects v @ [Mutated op s grace read]\<rparr>)"
      by (auto simp: call_post_def)
    show ?thesis
      unfolding mutate_called_def effect_def wp_bind [of "State_Monad.update f" for f] wp_update
      by (rule quiet_call_post [OF _ posted]) (intro quiet_intros ok)
  qed
  have checked: "wp (do { (ok, read) \<leftarrow> check_mutation orc i s op;
          if \<not> ok \<or> \<not> (op = Start \<or> op = Stop \<or> op = Restart) then ret False
          else mutate_called orc generation i s op grace read }) (\<lambda>_. call_post i p t0 f0 l0 op s) v" if v: "served i p t0 f0 l0 v" for v
    unfolding wp_bind
    by (rule wp_mono [OF wp_check_mutation [OF ok v]]) (auto simp: wp_return intro!: no called split: prod.splits)
  show ?thesis
    unfolding phase_mutate_def if_not_P [OF False]
    by (rule served_bind [OF s quiet_current [OF ok]]) (use checked in \<open>simp add: wp_return no\<close>)
qed

lemma call_post_contrib:
  assumes "call_post i p t0 f0 l0 op s w"
  shows "\<exists>g. contrib (EvCall op s grace t x) g \<and> serving i p t0 f0 l0 g challenged w"
  using assms by (auto simp: call_post_def contrib_def)

lemma phase_call_post:
  assumes "exec_ok orc" "served i p t0 f0 l0 w"
  shows "wp (phase_call orc generation i op s grace) (\<lambda>_. call_post i p t0 f0 l0 op s) w"
  using phase_mutate_post [OF assms] assms(2) by (cases op) (auto simp: phase_call_def wp_return call_post_def)

lemma keeps_Call: "exec_ok orc \<Longrightarrow> preserves (served i p t0 f0 l0) (noted (EvCall op s grace t) (phase_call orc generation i op s grace))"
  by (rule keeps_noted) (rule wp_mono [OF phase_call_post], auto dest!: call_post_contrib)

interpretation kept: worker_keeps "exec_deps orc generation i" "\<lambda>w. exec_ok orc \<longrightarrow> served i p t0 f0 l0 w" for orc generation i p t0 f0 l0
proof -
  let ?P = "\<lambda>w. exec_ok orc \<longrightarrow> served i p t0 f0 l0 w"
  have imp: "preserves ?P m" if "exec_ok orc \<Longrightarrow> preserves (served i p t0 f0 l0) m" for m :: "(exec_world, 'x) state"
    using that by (cases "exec_ok orc") (auto simp: preserves_def intro: wpI)
  note silent = quiet_serving [OF quiet_ask] quiet_serving [OF quiet_sources(2)]
  show "worker_keeps (exec_deps orc generation i) ?P"
    by unfold_locales
      (auto simp: exec_deps_def contrib_def intro!: imp keeps_Check keeps_Acquire keeps_Intent keeps_Call silent keeps_quiet_noted
        intro: quiet_intros)
qed

section \<open>The lease of a bound claim\<close>

lemma bindClaim_Inr:
  assumes "bindClaim io (Some h) cl rtt b = (Inr (bound, e, rb), b')"
  obtains s c where "binds io h cl rtt b s bound e rb"
    "AcceptClaim cl rtt (ab_ContainerID (rb_binding rb)) (bi_reading io) (rv_conversation (reservation_at b h)) = (Some e, c)"
    "b' = on_reservation (rv_bound_update (\<lambda>_. Some rb)) h (on_reservation (rv_conversation_update (\<lambda>_. c)) h (tried h b))"
  using bindClaim_cases [OF assms] by auto

lemma DecodeClaim_lease:
  assumes "DecodeClaim raw = Some cl" "ParseHTTPTime (cl_ClaimedAt cl) = Some claimed"
  shows "\<exists>lease. ParseHTTPTime (cl_LeaseExpiresAt cl) = Some lease \<and> Sub lease claimed = seconds 120"
proof -
  have "valid_claim cl" using assms(1) decode_claim_valid by (auto simp: DecodeClaim_def bind_eq_Some_conv)
  then show ?thesis using assms(2) by (auto simp: valid_claim_def split: option.splits)
qed

lemma bound_mutation:
  assumes "broker_run b" "bindClaim io (Some h) cl rtt b = (Inr (bound, e, rb), b')"
    and "CheckMutation (execution_Context (Some e) parent) cid op read"
  shows "\<exists>now lease. read = Some now \<and> ParseHTTPTime (cl_LeaseExpiresAt cl) = Some lease
     \<and> cid = ab_ContainerID (rb_binding rb) \<and> op = rr_Operation (cl_Request cl)
     \<and> rd_boot now < st_boot (cv_start (rv_conversation (reservation_at b h))) + seconds 89
     \<and> rd_goTime now + seconds 29 < dl_LeaseDeadline (execution_Delivery (Some e))
     \<and> rd_wall now + seconds 25 < lease"
proof -
  let ?c = "rv_conversation (reservation_at b h)"
  from assms(2) obtain s c where s: "binds io h cl rtt b s bound e rb"
    and acc: "AcceptClaim cl rtt (ab_ContainerID (rb_binding rb)) (bi_reading io) ?c = (Some e, c)"
    by (rule bindClaim_Inr)
  have ok: "conversation_ok ?c"
    using broker_run_inv [OF assms(1)] time_conversation s by (auto simp: broker_inv_def binds_def)
  from mutation_check.inside_lease [OF ok acc assms(3)] obtain now claimed where now: "read = Some now"
    "ParseHTTPTime (cl_ClaimedAt cl) = Some claimed" "rd_boot now < st_boot (cv_start ?c) + seconds 89"
    "rd_goTime now < dl_LeaseDeadline (execution.ex_delivery e) - seconds 29" "rd_wall now < claimed + seconds 95"
    by blast
  obtain r st where r: "cv_readiness ?c = Some r" "accepted ?c r cl rtt (ab_ContainerID (rb_binding rb)) st e"
    using AcceptClaim_accepted [OF acc ok] by blast
  then have "captured (bg_clock (ex_guard e)) (bg_origin (ex_guard e))"
    using ok by (auto simp: accepted_def conversation_ok_def readiness_ok_def)
  from CheckMutation_facts [OF assms(3) this] have call: "cid = ab_ContainerID (rb_binding rb)" "op = rr_Operation (cl_Request cl)"
    using r(2) by (auto simp: accepted_def)
  have "DecodeClaim (json_print (claim_json cl)) = Some cl" using r(2) by (simp add: accepted_def)
  from DecodeClaim_lease [OF this now(2)] obtain lease
    where lease: "ParseHTTPTime (cl_LeaseExpiresAt cl) = Some lease" "Sub lease claimed = seconds 120" by blast
  then have "lease = claimed + seconds 120" by (auto simp: Sub_def seconds_def MaxDuration_def MinDuration_def split: if_splits)
  then show ?thesis using now lease call by (auto simp: execution_Delivery_def seconds_def)
qed

section \<open>Serving a connection\<close>

definition exec_start :: "exec_world \<Rightarrow> bool" where
  "exec_start w \<longleftrightarrow> broker_run (xw_broker w) \<and> journal_run (policy_binding (bs_policy (xw_broker w))) (bs_journal (xw_broker w), xw_log w)"

text \<open>An invocation that a reachable broker bound.\<close>

definition bound_invocation :: "invocation \<Rightarrow> bool" where
  "bound_invocation i \<longleftrightarrow>
     (\<exists>b io rtt b'. broker_run b \<and>
        bindClaim io (Some (iv_reservation i)) (iv_claim i) rtt b = (Inr (iv_journal i, iv_execution i, iv_resolved i), b'))"

lemma exec_start_moves: "exec_start w \<Longrightarrow> moves w w' \<Longrightarrow> exec_start w'"
  using exec_steps_facts [of "(xw_broker w, xw_log w)" "(xw_broker w', xw_log w')"] journal_run_steps
  by (auto simp: exec_start_def moves_def)

lemma wp_start_bind:
  assumes "exec_start w" "quiet m" "\<And>x w'. exec_start w' \<Longrightarrow> wp (k x) Q w'"
  shows "wp (State_Monad.bind m k) Q w"
  unfolding wp_bind by (rule wp_quiet [OF assms(2)]) (use assms(1,3) exec_start_moves in blast)

lemma wp_always: "(\<And>x w'. Q x w') \<Longrightarrow> wp m Q w"
  by (auto intro: wpI)

definition selects :: "broker_err + invocation option \<Rightarrow> exec_world \<Rightarrow> bool" where
  "selects x w \<longleftrightarrow> (\<forall>i. x = Inr (Some i) \<longrightarrow> bound_invocation i)"

lemma bind_selects:
  assumes ok: "exec_ok orc" and s: "exec_start w"
  shows "wp (do { y \<leftarrow> on_broker orc (\<lambda>io. bindClaim io (Some h) cl rtt);
      ret (case y of Inl e \<Rightarrow> Inl e | Inr (bound, e, resolved) \<Rightarrow>
        Inr (Some \<lparr>iv_reservation = h, iv_claim = cl, iv_journal = bound, iv_execution = e, iv_resolved = resolved\<rparr>)) }) selects w"
proof -
  let ?r = "\<lambda>y. case y of Inl e \<Rightarrow> Inl e | Inr (bound, e, resolved) \<Rightarrow>
    Inr (Some \<lparr>iv_reservation = h, iv_claim = cl, iv_journal = bound, iv_execution = e, iv_resolved = resolved\<rparr>)"
  have "selects (?r y) u" if "bindClaim io (Some h) cl rtt b = (y, b')" "broker_run b" for io b y b' u
    using that by (auto simp: selects_def bound_invocation_def split: sum.splits)
  then have "wp (do { w \<leftarrow> State_Monad.get;
     let (x, b') = bindClaim (exec_io orc n) (Some h) cl rtt (xw_broker w);
     State_Monad.set (w\<lparr>xw_broker := b'\<rparr>);
     ret x }) (\<lambda>y u. selects (?r y) u) v" if "exec_start v" for n v
    using that by (cases "bindClaim (exec_io orc n) (Some h) cl rtt (xw_broker v)") (auto simp: wp_simps Let_def exec_start_def)
  then have "wp (on_broker orc (\<lambda>io. bindClaim io (Some h) cl rtt)) (\<lambda>y u. selects (?r y) u) w"
    unfolding on_broker_def by (intro wp_start_bind [OF s quiet_tick [OF ok]])
  then show ?thesis unfolding wp_bind wp_return .
qed

lemma select_delivered_selects:
  assumes ok: "exec_ok orc" and s: "exec_start w"
  shows "wp (select_delivered orc h env) selects w"
proof -
  have none: "wp (do { e \<leftarrow> m; ret (case e of None \<Rightarrow> Inr None | Some e \<Rightarrow> Inl e) }) selects v" for v and m :: "(exec_world, broker_err option) state"
    unfolding wp_simps by (rule wp_always) (auto simp: selects_def split: option.splits)
  have bind: "wp (do { ok \<leftarrow> check_delivery orc h;
       if \<not> ok then ret (Inl BErrRecoveryRequired)
       else do { y \<leftarrow> on_broker orc (\<lambda>io. bindClaim io (Some h) cl rtt);
        ret (case y of Inl e \<Rightarrow> Inl e | Inr (bound, e, resolved) \<Rightarrow>
          Inr (Some \<lparr>iv_reservation = h, iv_claim = cl, iv_journal = bound, iv_execution = e, iv_resolved = resolved\<rparr>)) } }) selects w" for cl rtt
    by (rule wp_start_bind [OF s quiet_checks(4) [OF ok]]) (use bind_selects [OF ok] in \<open>simp add: wp_return selects_def\<close>)
  show ?thesis
    unfolding select_delivered_def
    by (auto simp: none bind wp_return selects_def split: option.splits)
qed

lemma select_reserved_selects:
  assumes ok: "exec_ok orc" and s: "exec_start w"
  shows "wp (select_reserved orc h) selects w"
proof -
  have no: "selects (Inl e) v" for e v by (simp add: selects_def)
  have answer: "wp (select_answer orc h conv) selects v" if v: "exec_start v" for v conv
    unfolding select_answer_def
    by (rule wp_start_bind [OF v quiet_ask [OF ok]])
      (auto simp: wp_return no split: option.splits intro!: wp_start_bind [OF _ quiet_checks(4) [OF ok]] select_delivered_selects [OF ok])
  have approved: "wp (do { ok \<leftarrow> m; conv \<leftarrow> ask_broker orc f; ok \<leftarrow> n ok conv;
         if \<not> ok then ret (Inl BErrRecoveryRequired) else select_answer orc h conv }) selects v"
    if v: "exec_start v" "quiet m" "\<And>ok conv. quiet (n ok conv)" for v m f n
    by (rule wp_start_bind [OF v(1,2)], rule wp_start_bind [OF _ quiet_ask_broker [OF ok]], assumption,
        rule wp_start_bind [OF _ v(3)], assumption) (simp add: wp_return no answer)
  show ?thesis
    unfolding select_reserved_def
    by (rule wp_start_bind [OF s quiet_ask_broker [OF ok]])
      (auto simp: wp_return no split: sum.splits intro!: approved quiet_intros ok)
qed

lemma selectWorkerInvocation_selects:
  assumes ok: "exec_ok orc" and s: "exec_start w"
  shows "wp (selectWorkerInvocation orc) (\<lambda>x w'. selects x w' \<and> moves w w') w"
proof (rule wp_conj [OF _ quietD [OF quiet_select [OF ok]]])
  have no: "selects (Inl e) v" "selects (Inr None) v" for e v by (simp_all add: selects_def)
  have control: "wp (select_control orc) selects v" for v
    unfolding select_control_def control_exchange_def wp_simps
    by (intro wp_always) (auto simp: wp_simps no split: sum.splits option.splits intro!: wp_always)
  have reserved: "wp (do { result \<leftarrow> select_reserved orc h;
      (case result of Inl _ \<Rightarrow> on_broker orc (\<lambda>_ b. ((), broker_abandon (Some h) b)) | Inr _ \<Rightarrow> ret ());
      ret result }) selects v" if v: "exec_start v" for v h
    unfolding wp_bind wp_return
    by (rule wp_mono [OF select_reserved_selects [OF ok v]])
      (auto simp: selects_def wp_return split: sum.splits intro!: wp_always)
  have admitted: "wp (do { x \<leftarrow> on_broker orc reserve; case x of Inl e \<Rightarrow> ret (Inl e) | Inr h \<Rightarrow> do { result \<leftarrow> select_reserved orc h;
      (case result of Inl _ \<Rightarrow> on_broker orc (\<lambda>_ b. ((), broker_abandon (Some h) b)) | Inr _ \<Rightarrow> ret ());
      ret result } }) selects v" if v: "exec_start v" for v
    by (rule wp_start_bind [OF v quiet_ops(1) [OF ok]]) (auto simp: wp_return no reserved split: sum.splits)
  show "wp (selectWorkerInvocation orc) selects w"
    unfolding selectWorkerInvocation_def
    by (rule wp_start_bind [OF s quiet_ask_broker [OF ok]]) (use control admitted in simp)
qed

text \<open>An engine call in the effects comes last, after two decisions, with its intent logged.\<close>

lemma exec_trace_mutated:
  assumes "exec_trace r b es c" "list_all2 contrib es gs" "Mutated op s grace read \<in> set (concat gs)"
  shows "\<exists>k h c1 ch1 d1 c2 ch2 d2. concat gs = [Permitted c1 ch1 d1, Permitted c2 ch2 d2, Mutated op s grace read]
    \<and> NewJournalKey r b = Some k \<and> EvAcquire k (Some h) \<in> set es \<and> EvIntent h True \<in> set es"
  using assms by (elim exec_traceE) (auto simp: list_all2_Cons1 contrib_def split: if_splits)

definition authorised :: "invocation \<Rightarrow> string list \<Rightarrow> exec_effect list \<Rightarrow> bool" where
  "authorised i new fx \<longleftrightarrow>
     (\<forall>op s grace read. Mutated op s grace read \<in> set fx \<longrightarrow>
        (\<exists>first d second d' k raw.
           fx = [Permitted 1 first d, Permitted 2 second d', Mutated op s grace read] \<and> first \<noteq> second \<and> list_all (good i) fx
           \<and> NewJournalKey (key_request (rb_key (iv_resolved i))) (rb_binding (iv_resolved i)) = Some k
           \<and> CanonicalJournalMetadata k = Some raw \<and> raw \<in> set new))"

lemma challenged_two: "challenged cp ch [(c1, ch1), (c2, ch2)] \<Longrightarrow> c1 = 1 \<and> c2 = 2 \<and> ch1 \<noteq> ch2"
  by (auto simp: challenged_def)

lemma served_authorised:
  assumes s: "served i p t0 f0 l0 w" and t: "xw_trace w = t0 @ es"
    and e: "es = [] \<or> exec_trace (key_request (rb_key (iv_resolved i))) (rb_binding (iv_resolved i)) es c"
  obtains fx new where "xw_effects w = f0 @ fx" "xw_log w = l0 @ new" "distinct (l0 @ new)" "authorised i new fx"
proof -
  from s t obtain gs where gs: "xw_effects w = f0 @ concat gs" "list_all2 contrib es gs" "list_all (good i) (concat gs)"
    "challenged (xw_checkpoint w) (xw_lastChallenge w) (permits_of (concat gs))"
    by (auto simp: serving_def)
  from s t obtain new where new: "xw_log w = l0 @ new"
    "\<And>k h. EvAcquire k (Some h) \<in> set es \<Longrightarrow> CanonicalJournalMetadata k = Some (handle_raw (bs_journal (xw_broker w)) h)"
    "\<And>h. EvIntent h True \<in> set es \<Longrightarrow> handle_raw (bs_journal (xw_broker w)) h \<in> set new"
    by (auto simp: serving_def world_inv_def)
  have run: "journal_run (policy_binding p) (bs_journal (xw_broker w), xw_log w)"
    using s by (simp add: serving_def world_inv_def)
  then have "distinct (l0 @ new)" using journal_run_inv [OF run] new(1) by (simp add: journal_inv_def)
  moreover have "authorised i new (concat gs)"
    unfolding authorised_def
  proof (intro allI impI)
    fix op s grace read assume m: "Mutated op s grace read \<in> set (concat gs)"
    then have "es \<noteq> []" using gs(2) by auto
    with e have "exec_trace (key_request (rb_key (iv_resolved i))) (rb_binding (iv_resolved i)) es c" by simp
    from exec_trace_mutated [OF this gs(2) m] obtain k h c1 ch1 d1 c2 ch2 d2 where
      x: "concat gs = [Permitted c1 ch1 d1, Permitted c2 ch2 d2, Mutated op s grace read]"
      "NewJournalKey (key_request (rb_key (iv_resolved i))) (rb_binding (iv_resolved i)) = Some k" "EvAcquire k (Some h) \<in> set es" "EvIntent h True \<in> set es"
      by blast
    from gs(4) x(1) have "c1 = 1 \<and> c2 = 2 \<and> ch1 \<noteq> ch2" using challenged_two by simp
    then show "\<exists>first d second d' k raw.
        concat gs = [Permitted 1 first d, Permitted 2 second d', Mutated op s grace read] \<and> first \<noteq> second \<and> list_all (good i) (concat gs)
        \<and> NewJournalKey (key_request (rb_key (iv_resolved i))) (rb_binding (iv_resolved i)) = Some k
        \<and> CanonicalJournalMetadata k = Some raw \<and> raw \<in> set new"
      using x gs(3) new(2) [OF x(3)] new(3) [OF x(4)] by blast
  qed
  ultimately show thesis using that gs(1) new(1) by blast
qed

lemma served_start:
  assumes "exec_start w"
  shows "served i (bs_policy (xw_broker w)) (xw_trace w) (xw_effects w) (xw_log w) (w\<lparr>xw_checkpoint := 0, xw_lastChallenge := []\<rparr>)"
  using assms by (auto simp: serving_def exec_start_def world_inv_def challenged_def)

text \<open>What executing an invocation has done, whatever follows.\<close>

definition executed :: "invocation \<Rightarrow> exec_world \<Rightarrow> exec_world \<Rightarrow> bool" where
  "executed i w w' \<longleftrightarrow>
     (\<exists>fx new. xw_effects w' = xw_effects w @ fx \<and> xw_log w' = xw_log w @ new \<and> distinct (xw_log w @ new) \<and> authorised i new fx)"

lemma executed_moves:
  assumes "exec_start w" "moves w w'"
  shows "executed i w w'"
proof -
  from moves_journal(2) [OF assms(2)] obtain new where new: "xw_log w' = xw_log w @ new" by blast
  have "journal_run (policy_binding (bs_policy (xw_broker w'))) (bs_journal (xw_broker w'), xw_log w')"
    using exec_start_moves [OF assms] by (simp add: exec_start_def)
  from journal_run_inv [OF this] show ?thesis
    using assms(2) new by (auto simp: executed_def authorised_def journal_inv_def moves_def)
qed

lemma executed_after:
  assumes "moves w v" "executed i v w'"
  shows "executed i w w'"
proof -
  from moves_journal(2) [OF assms(1)] obtain mid where mid: "xw_log v = xw_log w @ mid" by blast
  from assms(2) obtain fx new where x: "xw_effects w' = xw_effects v @ fx" "xw_log w' = xw_log v @ new" "distinct (xw_log v @ new)"
    "authorised i new fx" by (auto simp: executed_def)
  have "authorised i (mid @ new) fx" using x(4) by (fastforce simp: authorised_def)
  then show ?thesis using x mid assms(1) by (auto simp: executed_def moves_def)
qed

definition core_done :: "invocation \<Rightarrow> exec_world \<Rightarrow> exec_world \<Rightarrow> bool" where
  "core_done i w w' \<longleftrightarrow>
     (\<exists>p es c. served i p (xw_trace w) (xw_effects w) (xw_log w) w' \<and> xw_trace w' = xw_trace w @ es \<and>
        exec_trace (key_request (rb_key (iv_resolved i))) (rb_binding (iv_resolved i)) es c)"

lemma core_done_moves: "core_done i w v \<Longrightarrow> moves v w' \<Longrightarrow> core_done i w w'"
  using serving_moves by (fastforce simp: core_done_def moves_def)

lemma core_done_executed: "core_done i w w' \<Longrightarrow> executed i w w'"
  unfolding core_done_def executed_def by (blast elim: served_authorised)

lemma Execute_done:
  assumes ok: "exec_ok orc" and s: "exec_start w"
  shows "wp (do { State_Monad.update (\<lambda>w. w\<lparr>xw_checkpoint := 0, xw_lastChallenge := []\<rparr>);
      Execute (exec_deps orc generation i) (key_request (rb_key (iv_resolved i))) (rb_binding (iv_resolved i)) d }) 
    (\<lambda>_. core_done i w) w"
proof -
  let ?r = "key_request (rb_key (iv_resolved i))" and ?b = "rb_binding (iv_resolved i)" and ?p = "bs_policy (xw_broker w)"
  let ?w = "w\<lparr>xw_checkpoint := 0, xw_lastChallenge := []\<rparr>"
  have "wp (Execute (exec_deps orc generation i) ?r ?b d)
      (\<lambda>c w'. (exec_ok orc \<longrightarrow> served i ?p (xw_trace w) (xw_effects w) (xw_log w) w') \<and> (\<exists>es. xw_trace w' = xw_trace ?w @ es \<and> exec_trace ?r ?b es c)) ?w"
  proof (rule wp_conj)
    show "wp (Execute (exec_deps orc generation i) ?r ?b d) (\<lambda>_ w'. exec_ok orc \<longrightarrow> served i ?p (xw_trace w) (xw_effects w) (xw_log w) w') ?w"
      using kept.keeps_Execute [of orc i ?p "xw_trace w" "xw_effects w" "xw_log w" generation ?r ?b d] served_start [OF s]
      by (simp add: preserves_def)
    show "wp (Execute (exec_deps orc generation i) ?r ?b d) (\<lambda>c w'. \<exists>es. xw_trace w' = xw_trace ?w @ es \<and> exec_trace ?r ?b es c) ?w"
      using srv.emits_Execute [of orc generation i ?r ?b d] unfolding srv.emits_def by blast
  qed
  then show ?thesis unfolding wp_bind wp_update by (rule wp_mono) (use ok in \<open>auto simp: core_done_def\<close>)
qed

lemma quiet_answer: "exec_ok orc \<Longrightarrow> quiet (answer_report orc generation i)"
  unfolding answer_report_def by (intro quiet_intros)

lemma quiet_settled:
  assumes ok: "exec_ok orc"
  shows "quiet (do {
       (if x then ret () else on_broker orc (\<lambda>_ b. ((), require_recovery b)));
       err \<leftarrow> finish_reservation orc i;
       ret (if x \<and> err = None then None else Some BErrRecoveryRequired)
     })"
  by (intro quiet_intros ok)

text \<open>Programs after which a predicate on worlds holds that quiet programs keep.\<close>

definition did :: "invocation \<Rightarrow> exec_world \<Rightarrow> exec_world \<Rightarrow> bool" where
  "did i w w' \<longleftrightarrow> moves w w' \<or> (\<exists>v. moves w v \<and> core_done i v w')"

lemma did_moves: "did i w v \<Longrightarrow> moves v w' \<Longrightarrow> did i w w'"
  using moves_trans core_done_moves by (auto simp: did_def)

lemma did_executed: "exec_start w \<Longrightarrow> did i w w' \<Longrightarrow> executed i w w'"
  using executed_moves core_done_executed executed_after by (auto simp: did_def)

lemma quiet_did: "quiet m \<Longrightarrow> did i w v \<Longrightarrow> wp m (\<lambda>_. did i w) v"
  by (blast intro: wp_quiet did_moves)

lemma execute_did:
  assumes ok: "exec_ok orc" and s: "exec_start w"
  shows "wp (execute_invocation orc generation i) (\<lambda>_. did i w) w"
proof -
  have core: "wp (do { State_Monad.update (\<lambda>w. w\<lparr>xw_checkpoint := 0, xw_lastChallenge := []\<rparr>);
      Execute (exec_deps orc generation i) (key_request (rb_key (iv_resolved i))) (rb_binding (iv_resolved i)) d }) (\<lambda>_. did i w) v"
    if "moves w v" for v d
    by (rule wp_mono [OF Execute_done [OF ok exec_start_moves [OF s that]]]) (use that in \<open>auto simp: did_def\<close>)
  have answered: "wp (do { State_Monad.update (\<lambda>w. w\<lparr>xw_checkpoint := 0, xw_lastChallenge := []\<rparr>);
      Execute (exec_deps orc generation i) (key_request (rb_key (iv_resolved i))) (rb_binding (iv_resolved i)) d;
      answer_report orc generation i }) (\<lambda>_. did i w) v" if v: "moves w v" for v d
    using core [OF v, of d] unfolding wp_bind wp_update by (rule wp_mono) (rule quiet_did [OF quiet_answer [OF ok]])
  have "wp (execute_invocation orc generation i) (\<lambda>_. did i w) v" if v: "moves w v" for v
    unfolding execute_invocation_def
    by (subst wp_bind, rule wp_quiet_after [OF _ v])
      (use answered in \<open>auto simp: wp_return did_def intro!: quiet_intros ok\<close>)
  then show ?thesis by simp
qed

lemma consumer_execute_executed:
  assumes ok: "exec_ok orc" and s: "exec_start w"
  shows "wp (consumer_execute orc generation i) (\<lambda>_. executed i w) w"
proof -
  have "wp (consumer_execute orc generation i) (\<lambda>_. did i w) w"
    unfolding consumer_execute_def wp_bind [of "execute_invocation orc generation i"]
    by (rule wp_mono [OF execute_did [OF ok s]]) (rule quiet_did [OF quiet_settled [OF ok]])
  then show ?thesis by (rule wp_mono) (rule did_executed [OF s])
qed

lemma serveOwned_executed:
  assumes ok: "exec_ok orc" and s: "exec_start w"
  shows "wp (serveOwned orc generation) (\<lambda>_ w'. moves w w' \<or> (\<exists>i. bound_invocation i \<and> executed i w w')) w"
proof -
  let ?Q = "\<lambda>_ w'. moves w w' \<or> (\<exists>i. bound_invocation i \<and> executed i w w')"
  have quiet: "wp m ?Q v" if "quiet m" "moves w v" for v and m :: "(exec_world, broker_err option) state"
    by (rule wp_quiet_after [OF that(1,2)]) blast
  have exec: "wp (consumer_execute orc generation i) ?Q v" if "moves w v" "bound_invocation i" for v i
    by (rule wp_mono [OF consumer_execute_executed [OF ok exec_start_moves [OF s that(1)]]]) (use that executed_after in blast)
  have chosen: "wp (serve_selected orc generation selected) ?Q v"
    if "moves w v" "\<And>i. selected = Some i \<Longrightarrow> bound_invocation i" for v selected
    unfolding serve_selected_def wp_bind [of "currentSource orc generation"]
    by (rule wp_quiet_after [OF quiet_source [OF ok] that(1)])
      (use that(2) in \<open>auto split: option.splits intro!: quiet exec quiet_intros ok\<close>)
  have select: "wp (do { x \<leftarrow> selectWorkerInvocation orc;
      case x of Inl e \<Rightarrow> ret (Some e) | Inr selected \<Rightarrow> serve_selected orc generation selected }) ?Q v" if v: "moves w v" for v
    unfolding wp_bind [of "selectWorkerInvocation orc"]
    by (rule wp_mono [OF selectWorkerInvocation_selects [OF ok exec_start_moves [OF s v]]])
      (use v moves_trans in \<open>auto simp: selects_def wp_return split: sum.splits intro!: chosen\<close>)
  have on: "wp (State_Monad.bind m k) ?Q v" if "quiet m" "moves w v" "\<And>x u. moves w u \<Longrightarrow> wp (k x) ?Q u"
    for v k and m :: "(exec_world, 'x) state"
    unfolding wp_bind by (rule wp_quiet_after [OF that(1,2)]) (rule that(3))
  have current: "wp (do { ok \<leftarrow> currentSource orc generation;
      if \<not> ok then ret (Some BErrRecoveryRequired) else do { x \<leftarrow> selectWorkerInvocation orc;
      case x of Inl e \<Rightarrow> ret (Some e) | Inr selected \<Rightarrow> serve_selected orc generation selected } }) ?Q v" if v: "moves w v" for v
    by (rule on [OF quiet_source [OF ok] v]) (auto simp: wp_return select)
  show ?thesis
    unfolding serveOwned_def
    by (rule on [OF quiet_ask [OF ok]], simp)
      (auto simp: wp_return current intro!: on [OF quiet_ask [OF ok]])
qed

end
