(* ===== verification/BrokerExample.thy ===== *)
theory BrokerExample
  imports BrokerRun BudgetLease ActionExample ProtocolExample
begin

text \<open>
  A concrete run of the broker: a policy with one mapping, the control conversation that makes it ready,
  a reservation and the claim it is bound to. It uses the journal and the action of the journal's example;
  digests stay symbolic.
\<close>

section \<open>The policy\<close>

definition ex_restart :: parameters where
  "ex_restart = \<lparr>pa_FormatVersion = 1, pa_StopGraceSeconds = \<lparr>gr_Seconds = 10, gr_Null = False\<rparr>\<rparr>"

definition ex_mapping :: mapping_document where
  "ex_mapping =
     \<lparr>md_ServerID = ''srv_0123456789abcdef0123456789abcdef'', md_OwnerUserID = ''usr_0123456789abcdef0123456789abcdef'',
      md_ConnectorInstanceID = ''agent_0123456789abcdef0123456789abcdef'', md_TargetID = ''hlt_0123456789abcdef0123456789abcdef'',
      md_EngineGeneration = ''0123456789abcdef0123456789abcdef'',
      md_ContainerID = ''0123456789abcdef0123456789abcdef0123456789abcdef0123456789abcdef'', md_PolicyRevision = ''3'',
      md_CapabilityRevision = ''4'', md_Operation = Restart, md_Parameters = ex_restart, md_MappingRevision = ''1''\<rparr>"

definition ex_policy :: policy_document where
  "ex_policy =
     \<lparr>pd_Version = ''observer-action-policy/v1'', pd_ServerID = ''srv_0123456789abcdef0123456789abcdef'',
      pd_OwnerUserID = ''usr_0123456789abcdef0123456789abcdef'', pd_ConnectorInstanceID = ''agent_0123456789abcdef0123456789abcdef'',
      pd_Revision = ''1'', pd_Current = Some [''1''], pd_Mappings = Some [ex_mapping]\<rparr>"

definition ex_restart_digest :: string where
  "ex_restart_digest = the (ParameterDigest Restart ex_restart)"

lemma ex_restart_digest: "ParameterDigest Restart ex_restart = Some ex_restart_digest" "hex_string ex_restart_digest 64"
proof -
  obtain h where h: "ParameterDigest Restart ex_restart = Some (hex_encode (sha256 h))"
    by (simp add: ParameterDigest_def ex_restart_def Let_def word_less_nat_alt)
  then show "ParameterDigest Restart ex_restart = Some ex_restart_digest" by (simp add: ex_restart_digest_def)
  show "hex_string ex_restart_digest 64" using h hex_string_encode [of "sha256 h"] by (simp add: ex_restart_digest_def)
qed

lemma ex_mapping_valid: "validMapping ex_mapping True"
proof -
  have "localID (md_ServerID ex_mapping) ''srv_''" "localID (md_OwnerUserID ex_mapping) ''usr_''"
    "localID (md_ConnectorInstanceID ex_mapping) ''agent_''" "localID (md_TargetID ex_mapping) ''hlt_''"
    "localHex (md_EngineGeneration ex_mapping) 32" "localHex (md_ContainerID ex_mapping) 64"
    "localRevision (md_PolicyRevision ex_mapping) \<noteq> None" "localRevision (md_CapabilityRevision ex_mapping) \<noteq> None"
    "localRevision (md_MappingRevision ex_mapping) \<noteq> None"
    "case marshal_mapping ex_mapping of None \<Rightarrow> False | Some raw \<Rightarrow> length raw \<le> 1024"
    by code_simp+
  moreover have "ParameterDigest (md_Operation ex_mapping) (md_Parameters ex_mapping) \<noteq> None"
    using ex_restart_digest by (simp add: ex_mapping_def)
  ultimately show ?thesis by (simp add: validMapping_def)
qed

lemma ex_policy_ids:
  "localID (pd_ServerID ex_policy) ''srv_''" "localID (pd_OwnerUserID ex_policy) ''usr_''"
  "localID (pd_ConnectorInstanceID ex_policy) ''agent_''" "localRevision ''1'' = Some 1"
  by code_simp+

lemma ex_policy_valid: "validatePolicy ex_policy"
  using ex_mapping_valid ex_policy_ids
  by (simp add: validatePolicy_def ex_policy_def lookup_def) (simp add: ex_mapping_def lookup_def Let_def)

definition ex_alias :: string where
  "ex_alias = displayAlias (md_ContainerID ex_mapping)"

lemma ex_alias_text: "length ex_alias = 20" "take 4 ex_alias = ''ctr_''" "hex_string (drop 4 ex_alias) 16"
proof -
  let ?h = "hex_encode (take 8 (sha256 (bytes_of (md_ContainerID ex_mapping))))"
  have "hex_string ?h 16" using hex_string_encode [of "take 8 (sha256 (bytes_of (md_ContainerID ex_mapping)))"] by simp
  then show "length ex_alias = 20" "take 4 ex_alias = ''ctr_''" "hex_string (drop 4 ex_alias) 16"
    by (simp_all add: ex_alias_def displayAlias_def hex_string_def)
qed

definition ex_bentry :: entry where
  "ex_bentry =
     \<lparr>et_TargetID = md_TargetID ex_mapping, et_TargetKey = ex_alias, et_Operation = Restart, et_Parameters = ex_restart,
      et_ParameterSHA256 = ex_restart_digest, et_PolicyRevision = ''3'', et_CapabilityRevision = ''4''\<rparr>"

definition ex_entries_digest :: bytes where
  "ex_entries_digest = sha256 (bytes_of (json_print (JArr [entry_json ex_bentry])))"

lemma ex_revisions: "revision ''3''" "revision ''4''" "revision ''1''" "is_identifier (md_TargetID ex_mapping) ''hlt_''"
  by code_simp+

lemma ex_entries_valid: "ValidateEntries (Some [ex_bentry])"
  using ex_alias_text ex_restart_digest ex_revisions
  by (simp add: ValidateEntries_def validEntry_def entry_key_def ex_bentry_def)

lemma ex_policy_entries: "policyEntries ex_policy = Some ([ex_bentry], ex_entries_digest)"
proof -
  have cur: "current_mappings ex_policy = [ex_mapping]"
    by (simp add: current_mappings_def pd_current_def pd_mappings_def ex_policy_def ex_mapping_def)
  have "mapping_entry ex_mapping = Some ex_bentry"
    using ex_restart_digest by (simp add: mapping_entry_def ex_bentry_def ex_alias_def) (simp add: ex_mapping_def)
  moreover have "grace_MarshalJSON (pa_StopGraceSeconds (et_Parameters ex_bentry)) \<noteq> None"
    using ParameterDigest_valid(3) [OF ex_restart_digest(1)] by (simp add: ex_bentry_def)
  ultimately show ?thesis
    using ex_policy_valid ex_entries_valid by (simp add: policyEntries_def cur ex_entries_digest_def)
qed

section \<open>The claim\<close>

definition ex_order :: request_receipt where
  "ex_order =
     \<lparr>rr_ActionID = ar_ActionID ex_arequest, rr_ServerID = pd_ServerID ex_policy, rr_OwnerUserID = pd_OwnerUserID ex_policy,
      rr_ActorUserID = pd_OwnerUserID ex_policy, rr_ConnectorInstanceID = pd_ConnectorInstanceID ex_policy, rr_Operation = Restart,
      rr_TargetID = md_TargetID ex_mapping, rr_TargetKey = ex_alias, rr_IdempotencyKeyHash = ex_hex 64,
      rr_PolicyRevision = ''3'', rr_CapabilityRevision = ''4'', rr_Parameters = ex_restart, rr_ParameterSHA256 = ex_restart_digest,
      rr_RequestedAt = ''2021-01-01T00:00:00.000000Z'', rr_ExpiresAt = ''2021-01-01T00:05:00.000000Z'', rr_CorrelationID = ''c''\<rparr>"

definition ex_bclaim :: claim where
  "ex_bclaim =
     \<lparr>cl_Request = ex_order, cl_ExecutionLeaseID = ''hle_'' @ ex_hex 32, cl_ClaimCredentialID = ''hlac_'' @ ex_hex 32,
      cl_ClaimCredentialRevision = ''7'', cl_ClaimedAt = ''2021-01-01T00:00:03.000000Z'',
      cl_LeaseExpiresAt = ''2021-01-01T00:02:03.000000Z'', cl_CorrelationID = ''c''\<rparr>"

lemma ex_order_times:
  "ParseHTTPTime ''2021-01-01T00:00:00.000000Z'' = Some ex_created" "ParseHTTPTime ''2021-01-01T00:05:00.000000Z'' = Some (ex_created + seconds 300)"
  "ParseHTTPTime ''2021-01-01T00:00:03.000000Z'' = Some (ex_created + seconds 3)"
  "ParseHTTPTime ''2021-01-01T00:02:03.000000Z'' = Some (ex_created + seconds 123)"
  "ParseHTTPTime ''2021-01-01T00:01:00.000000Z'' = Some (ex_created + seconds 60)"
  by code_simp+

lemma ex_alias_key: "targetKey ex_alias"
proof -
  obtain d where d: "ex_alias = ''ctr_'' @ d" "hex_string d 16"
    using ex_alias_text append_take_drop_id [of 4 ex_alias] by metis
  have "list_all (\<lambda>c. digits_between (CHR ''a'') (CHR ''z'') c \<or> digits_between (CHR ''0'') (CHR ''9'') c) d"
    using d(2) by (fastforce simp: hex_string_def lower_hex_def list_all_iff digits_between_def less_eq_char_def)
  then show ?thesis
    using ex_alias_text(1) by (auto simp: targetKey_def d(1) list_all_iff digits_between_def less_char_def less_eq_char_def)
qed

lemma ex_order_ids:
  "is_identifier (ar_ActionID ex_arequest) ''hla_''" "is_identifier (pd_ServerID ex_policy) ''srv_''"
  "is_identifier (pd_OwnerUserID ex_policy) ''usr_''" "is_identifier (pd_ConnectorInstanceID ex_policy) ''agent_''"
  by code_simp+

lemma ex_order_valid: "ValidateRequest ex_order"
  using ex_restart_digest ex_texts ex_order_times ex_order_ids ex_revisions ex_alias_key
  by (simp add: ValidateRequest_def ex_order_def Sub_def MinDuration_def MaxDuration_def seconds_def)

lemma ex_bclaim_valid: "valid_claim ex_bclaim" "cl_Request ex_bclaim = ex_order"
  using ex_texts ex_order_times
  by (simp_all add: valid_claim_def ex_bclaim_def ex_order_def Sub_def MinDuration_def MaxDuration_def seconds_def)

lemma ex_order_weight: "weight (request_json ex_order) \<le> 4500"
proof -
  have "length (ar_ActionID ex_arequest) = 36" "length (pd_ServerID ex_policy) = 36" "length (pd_OwnerUserID ex_policy) = 36"
    "length (pd_ConnectorInstanceID ex_policy) = 38" "length (md_TargetID ex_mapping) = 36"
    "weight (parameters_json ex_restart) \<le> 300"
    by code_simp+
  then show ?thesis
    using ex_restart_digest(2) ex_alias_text(1) by (simp add: request_json_def ex_order_def hex_string_def)
qed

lemma ex_bclaim_decodes: "DecodeClaim (json_print (claim_json ex_bclaim)) = Some ex_bclaim"
proof -
  have "weight (claim_json ex_bclaim) \<le> 6000" using ex_order_weight by (simp add: claim_json_def ex_bclaim_def)
  then have "length (json_print (claim_json ex_bclaim)) \<le> MaxEnvelopeBytes"
    using length_print_weight [of "claim_json ex_bclaim"] by (simp add: MaxEnvelopeBytes_def)
  then show ?thesis
    using claim_codec.reread(2) [OF claim_json_ok(1) [of ex_bclaim]] ex_bclaim_valid ex_order_valid
    by (simp add: DecodeClaim_def)
qed

definition ex_order_digest :: bytes where
  "ex_order_digest = the (ReceiptDigest ex_order)"

definition ex_resolved :: resolved_binding where
  "ex_resolved =
     \<lparr>rb_key = ex_key, rb_binding = ex_abinding\<lparr>ab_Operations := [Restart]\<rparr>, rb_mappingRevision = ''1'', rb_remoteDigest = ex_order_digest\<rparr>"

lemma ex_order_resolves: "resolveReceipt ex_policy ex_order True = Some ex_resolved"
proof -
  have rq: "receipt_request ex_order = ex_arequest"
  proof -
    have "receipt_number ''3'' = 3" "receipt_number ''4'' = 4" by code_simp+
    then show ?thesis
      using ex_order_times
      by (simp add: receipt_request_def ex_order_def ex_policy_def ex_mapping_def ex_restart_def receipt_time_def ex_arequest_def
          ex_jbinding_def seconds_def minutes_def)
  qed
  have bi: "receipt_binding ex_order ex_mapping = ex_abinding\<lparr>ab_Operations := [Restart]\<rparr>"
  proof -
    have "receipt_number ''3'' = 3" "receipt_number ''4'' = 4" by code_simp+
    then show ?thesis
      by (simp add: receipt_binding_def ex_order_def ex_policy_def ex_mapping_def ex_restart_def ex_abinding_def ex_jbinding_def)
  qed
  have "valid ex_arequest (ex_abinding\<lparr>ab_Operations := [Restart]\<rparr>) (ar_CreatedAt ex_arequest)" by code_simp
  then have key: "NewJournalKey ex_arequest (ex_abinding\<lparr>ab_Operations := [Restart]\<rparr>) = Some ex_key"
    using ex_canonical by (simp add: NewJournalKey_def Let_def fingerprint_def ex_raw_def [symmetric] ex_key_def [symmetric])
  have sel: "select_mapping (mapping_matches ex_policy ex_order True) None (pd_mappings ex_policy) = Some (Some ex_mapping)"
    using ex_restart_digest
    by (simp add: pd_mappings_def pd_current_def mapping_matches_def ex_policy_def ex_order_def) (simp add: ex_mapping_def)
  have dg: "ReceiptDigest ex_order = Some ex_order_digest"
    using CanonicalRequest_total [OF ex_order_valid] by (simp add: ReceiptDigest_def ex_order_digest_def)
  show ?thesis
    using ex_policy_valid ex_order_valid dg
    by (simp add: resolveReceipt_def sel rq bi key) (simp add: ex_order_def ex_alias_def ex_resolved_def ex_mapping_def)
qed

section \<open>The run\<close>

definition ex_rd :: "int \<Rightarrow> reading" where
  "ex_rd n = \<lparr>rd_goTime = ex_created + seconds n, rd_wall = ex_created + seconds n, rd_boot = seconds (100 + n)\<rparr>"

definition ex_bio :: "int \<Rightarrow> bytes \<Rightarrow> broker_io" where
  "ex_bio n random =
     \<lparr>bi_journal = ex_jio ex_anow, bi_snapshot_err = (\<lambda>_. False), bi_delivery = Some Background,
      bi_delivery_reading = Some (ex_rd n), bi_reading = Some (ex_rd n), bi_ctx_err = (\<lambda>_. False), bi_random = Some random\<rparr>"

definition ex_st :: "int \<Rightarrow> bstamp" where
  "ex_st n = \<lparr>st_clock = Some 0, st_reading = ex_rd n\<rparr>"

definition ex_snap :: admission_snapshot where
  "ex_snap = \<lparr>as_Binding = ex_jbinding, as_ObservedAt = ex_anow, as_Records = []\<rparr>"

definition ex_b0 :: broker_state where
  "ex_b0 =
     \<lparr>bs_executionClosed = False, bs_journal = ex_journal, bs_policy = ex_policy, bs_clock = Some 0, bs_readiness = None,
      bs_readyHead = [], bs_readyEntriesDigest = zero_digest, bs_readyPublicationID = [],
      bs_readySnapshotRevision = [], bs_readySnapshotDigest = [], bs_control = None, bs_controls = [],
      bs_quiescing = False, bs_live = [], bs_reservations = [], bs_recoveryRequired = False\<rparr>"

definition ex_publication :: string where "ex_publication = hex_encode (replicate 16 1)"

definition ex_query :: snapshot_query where
  "ex_query =
     \<lparr>sq_ServerID = pd_ServerID ex_policy, sq_OwnerUserID = pd_OwnerUserID ex_policy,
      sq_ConnectorInstanceID = pd_ConnectorInstanceID ex_policy, sq_PublicationID = ex_publication, sq_Entries = Some [ex_bentry]\<rparr>"

definition ex_b1 :: broker_state where
  "ex_b1 =
     ex_b0\<lparr>bs_control := Some 0,
       bs_controls := [\<lparr>cc_query = ex_query, cc_head = ''1'', cc_entriesDigest = ex_entries_digest, cc_send = ex_st 0\<rparr>]\<rparr>"

definition ex_head :: "string \<Rightarrow> snapshot_receipt" where
  "ex_head d =
     \<lparr>sr_PublicationID = ex_publication, sr_SnapshotRevision = ''1'', sr_SnapshotDigest = d,
      sr_AdvertisedAt = ''2021-01-01T00:00:00.000000Z'', sr_ExpiresAt = ''2021-01-01T00:01:00.000000Z''\<rparr>"

text \<open>What the digest of the snapshot is made of; it does not depend on the digest in the receipt.\<close>

definition ex_head_json :: json where
  "ex_head_json =
     JObj [(''server_id'', JStr (pd_ServerID ex_policy)), (''owner_user_id'', JStr (pd_OwnerUserID ex_policy)),
       (''connector_instance_id'', JStr (pd_ConnectorInstanceID ex_policy)), (''snapshot_revision'', JStr ''1''),
       (''advertised_at'', JStr ''2021-01-01T00:00:00.000000Z''), (''expires_at'', JStr ''2021-01-01T00:01:00.000000Z''),
       (''entries'', entries_json (Some [ex_bentry]))]"

definition ex_head_digest :: string where
  "ex_head_digest = hex_encode (sha256 (bytes_of (''platform-container-snapshot/v1'' @ [CHR 0x0A] @ json_print ex_head_json)))"

definition ex_ready :: readiness where
  "ex_ready = \<lparr>re_clock = Some 0, re_origin = ex_st 0, re_recv = ex_st 1\<rparr>"

definition ex_b2 :: broker_state where
  "ex_b2 =
     ex_b1\<lparr>bs_control := None, bs_readiness := Some ex_ready, bs_readyHead := ''1'', bs_readyEntriesDigest := ex_entries_digest,
       bs_readyPublicationID := ex_publication, bs_readySnapshotRevision := ''1'', bs_readySnapshotDigest := ex_head_digest\<rparr>"

definition ex_conversation :: conversation where
  "ex_conversation = \<lparr>cv_clock = Some 0, cv_readiness = Some ex_ready, cv_start = ex_st 2, cv_used = False\<rparr>"

definition ex_reservation :: reservation where
  "ex_reservation =
     \<lparr>rv_nonce = hex_encode (replicate 16 2), rv_policyHead = ''1'', rv_targets = [md_TargetID ex_mapping],
      rv_conversation = ex_conversation, rv_bound = None, rv_claimTried = False\<rparr>"

definition ex_b3 :: broker_state where
  "ex_b3 = ex_b2\<lparr>bs_reservations := [ex_reservation], bs_live := [(hex_encode (replicate 16 2), 0)]\<rparr>"

definition ex_execution :: execution where
  "ex_execution =
     \<lparr>ex_guard = \<lparr>bg_clock = Some 0, bg_origin = ex_st 0, bg_deadline = seconds 163, bg_kind = executionPhase,
        bg_actionID = rr_ActionID ex_order, bg_digest = ex_order_digest, bg_containerID = ab_ContainerID ex_abinding,
        bg_operation = Restart\<rparr>,
      ex_delivery = \<lparr>dl_StartedAt = ex_created + seconds 2, dl_ReceivedAt = ex_created + seconds 2 + seconds 1,
        dl_LeaseDeadline = ex_created + seconds 2 + seconds 119\<rparr>,
      ex_start = ex_st 2\<rparr>"

definition ex_b4 :: broker_state where
  "ex_b4 =
     ex_b3\<lparr>bs_reservations := [ex_reservation\<lparr>rv_claimTried := True, rv_conversation := ex_conversation\<lparr>cv_used := True\<rparr>,
       rv_bound := Some ex_resolved\<rparr>]\<rparr>"

lemma ex_b_sel [simp]:
  "bs_journal ex_b0 = ex_journal" "bs_policy ex_b0 = ex_policy" "bs_recoveryRequired ex_b0 = False" "bs_executionClosed ex_b0 = False"
  "bs_quiescing ex_b0 = False" "bs_control ex_b0 = None" "bs_controls ex_b0 = []" "bs_live ex_b0 = []" "bs_clock ex_b0 = Some 0"
  "bs_readiness ex_b0 = None" "bs_reservations ex_b0 = []"
  by (simp_all add: ex_b0_def)

lemma ex_policy_sel [simp]: "pd_Revision ex_policy = ''1''" "policy_binding ex_policy = ex_jbinding"
  by (simp_all add: ex_policy_def policy_binding_def ex_jbinding_def)

lemma ex_bio_sel [simp]:
  "bi_delivery (ex_bio n r) = Some Background" "bi_delivery_reading (ex_bio n r) = Some (ex_rd n)"
  "bi_reading (ex_bio n r) = Some (ex_rd n)" "bi_ctx_err (ex_bio n r) k = False" "bi_random (ex_bio n r) = Some r"
  by (simp_all add: ex_bio_def)

lemma ex_snap_sel: "as_Binding ex_snap = ex_jbinding" "as_Records ex_snap = []"
  by (simp_all add: ex_snap_def)

lemma ex_admission: "AdmissionSnapshot (bi_journal (ex_bio n r)) (bi_snapshot_err (ex_bio n r)) ex_journal = Inr ex_snap"
  by (simp add: ex_bio_def AdmissionSnapshot_def ex_jio_def ex_journal_def usable_def all_records_def load_def ex_snap_def)

lemma ex_broker_snapshot:
  assumes "bs_journal b = ex_journal" "bs_policy b = ex_policy" "\<not> bs_recoveryRequired b"
  shows "broker_snapshot (ex_bio n r) b = (Inr ex_snap, b)"
  using assms ex_admission by (simp add: broker_snapshot_def ex_snap_sel)

lemma ex_capture: "0 \<le> n \<Longrightarrow> n \<le> 60 \<Longrightarrow> Capture (Some 0) (Some (ex_rd n)) = Some (ex_st n)"
  by (simp add: Capture_def ex_rd_def ex_st_def IsZero_def ex_created_def seconds_def MaxDuration_def)

lemma ex_continuous: "0 \<le> n \<Longrightarrow> n \<le> m \<Longrightarrow> m \<le> 60 \<Longrightarrow> continuous (ex_st n) (ex_st m)"
  by (simp add: continuous_def continuousWithin_def ex_st_def ex_rd_def seconds_def continuity_def milliseconds_def Let_def
      wrap64_id Sub_def MaxDuration_def MinDuration_def)

lemma ex_started: "newBrokerState (ex_bio 0 []) ex_policy (Some ex_journal) (Some 0) = Inr ex_b0"
  using ex_policy_valid ex_broker_snapshot [of ex_b0 0 "[]"] by (simp add: newBrokerState_def Let_def ex_b0_def)

lemma ex_controlled: "beginControl (ex_bio 0 (replicate 16 1)) ex_b0 = (Inr 0, ex_b1)"
proof -
  have "freshNonce (Some (replicate 16 1)) ex_b0 = Some ex_publication"
    by (simp add: freshNonce_def control_publication_def ex_publication_def)
  then show ?thesis
    using ex_broker_snapshot [of ex_b0 0 "replicate 16 1"] ex_policy_entries ex_capture [of 0]
    by (simp add: beginControl_def ex_snap_def Let_def ex_b1_def ex_query_def)
qed

lemma ex_head_length: "length (json_print ex_head_json) \<le> MaxEnvelopeBytes"
proof -
  have "length (pd_ServerID ex_policy) = 36" "length (pd_OwnerUserID ex_policy) = 36" "length (pd_ConnectorInstanceID ex_policy) = 38"
    "length (md_TargetID ex_mapping) = 36" "weight (parameters_json ex_restart) \<le> 300"
    by code_simp+
  then have "weight ex_head_json \<le> MaxEnvelopeBytes"
    using ex_restart_digest(2) ex_alias_text(1)
    by (simp add: ex_head_json_def entries_json_def entry_json_def ex_bentry_def hex_string_def MaxEnvelopeBytes_def)
  then show ?thesis using length_print_weight [of ex_head_json] by linarith
qed

lemma SnapshotDigest_raw:
  assumes "is_identifier server ''srv_''" "is_identifier owner ''usr_''" "is_identifier connector ''agent_''"
    "validSnapshotReceipt r" "ValidateEntries entries"
    "raw = json_print (JObj [(''server_id'', JStr server), (''owner_user_id'', JStr owner), (''connector_instance_id'', JStr connector),
       (''snapshot_revision'', JStr (sr_SnapshotRevision r)), (''advertised_at'', JStr (sr_AdvertisedAt r)),
       (''expires_at'', JStr (sr_ExpiresAt r)), (''entries'', entries_json entries)])"
    "length raw \<le> MaxEnvelopeBytes"
    "d = hex_encode (sha256 (bytes_of (''platform-container-snapshot/v1'' @ [CHR 0x0A] @ raw)))"
  shows "SnapshotDigest server owner connector r entries = Some d"
  using assms(1-5,7,8) unfolding SnapshotDigest_def Let_def assms(6) [symmetric] by simp

lemma ex_head_matches: "MatchSnapshotReply ex_query \<lparr>sp_Outcome = ''OK'', sp_Receipt = Some (ex_head ex_head_digest)\<rparr>"
proof -
  have nonce: "nonce ex_publication" by code_simp
  have "hexValue ex_head_digest 64"
    using hex_string_encode [of "sha256 (bytes_of (''platform-container-snapshot/v1'' @ [CHR 0x0A] @ json_print ex_head_json))"]
    by (simp add: ex_head_digest_def)
  then have rec: "validSnapshotReceipt (ex_head ex_head_digest)"
    using nonce ex_revisions ex_order_times
    by (simp add: nonce_def validSnapshotReceipt_def ex_head_def Sub_def MinDuration_def MaxDuration_def seconds_def)
  have "SnapshotDigest (pd_ServerID ex_policy) (pd_OwnerUserID ex_policy) (pd_ConnectorInstanceID ex_policy) (ex_head ex_head_digest)
      (Some [ex_bentry]) = Some ex_head_digest"
    by (rule SnapshotDigest_raw [where raw = "json_print ex_head_json"])
      (use rec ex_entries_valid ex_order_ids ex_head_length ex_head_digest_def
       in \<open>simp_all only: ex_head_json_def ex_head_def snapshot_receipt.select_convs\<close>)
  then show ?thesis
    using nonce ex_entries_valid ex_order_ids
    by (simp add: MatchSnapshotReply_def ValidateSnapshotQuery_def ex_query_def) (simp add: ex_head_def)
qed

lemma ex_completed:
  "completeControl (ex_bio 1 []) (Some 0) \<lparr>sp_Outcome = ''OK'', sp_Receipt = Some (ex_head ex_head_digest)\<rparr> ex_b1 = (None, ex_b2)"
proof -
  have "ObserveControlTime (Some 0) ex_created (ex_st 0) (ex_st 1) = Some ex_ready"
    using ex_continuous [of 0 1]
    by (simp add: ObserveControlTime_def ObserveServerTime_def serverBracket_def ex_ready_def)
      (simp add: ex_st_def ex_rd_def ex_created_def IsZero_def skew_def seconds_def milliseconds_def wrap64_id Sub_def MaxDuration_def MinDuration_def)
  then show ?thesis
    using ex_policy_entries ex_head_matches ex_capture [of 1] ex_order_times(1)
    by (simp add: completeControl_def ex_b1_def Let_def ex_head_def ex_b2_def)
qed

lemma ex_eligible:
  assumes "bs_policy b = ex_policy" "\<not> list_ex (live_blocks b except ex_mapping) (live_handles b)"
  shows "eligible ex_snap except b = [md_TargetID ex_mapping]"
proof -
  have "current_mappings ex_policy = [ex_mapping]"
    by (simp add: current_mappings_def pd_current_def pd_mappings_def ex_policy_def ex_mapping_def)
  then show ?thesis using assms by (simp add: eligible_def ex_snap_def)
qed

lemma ex_reserved: "reserve (ex_bio 2 (replicate 16 2)) ex_b2 = (Inr 0, ex_b3)"
proof -
  have sel: "bs_journal ex_b2 = ex_journal" "bs_policy ex_b2 = ex_policy" "\<not> bs_recoveryRequired ex_b2" "bs_live ex_b2 = []"
    "bs_clock ex_b2 = Some 0" "bs_readiness ex_b2 = Some ex_ready" "\<not> bs_quiescing ex_b2" "\<not> bs_executionClosed ex_b2"
    "bs_reservations ex_b2 = []" "bs_readyHead ex_b2 = ''1''" "bs_readyEntriesDigest ex_b2 = ex_entries_digest" "bs_control ex_b2 = None"
    by (simp_all add: ex_b2_def ex_b1_def)
  have rd: "ready_current ex_b2" using ex_policy_entries by (simp add: ready_current_def sel)
  have bg: "Begin (Some 0) (Some ex_ready) (Some (ex_rd 2)) = Some ex_conversation"
    using ex_capture [of 2] ex_continuous [of 0 2]
    by (simp add: Begin_def ex_ready_def ex_conversation_def) (simp add: ex_st_def ex_rd_def seconds_def wrap64_id MaxDuration_def MinDuration_def)
  have fn: "freshNonce (Some (replicate 16 2)) ex_b2 = Some (hex_encode (replicate 16 2))"
    by (simp add: freshNonce_def control_publication_def sel)
  have el: "eligible ex_snap None ex_b2 = [md_TargetID ex_mapping]"
    by (rule ex_eligible) (simp_all add: sel live_handles_def)
  show ?thesis
    using ex_broker_snapshot [OF sel(1-3), of 2 "replicate 16 2"]
    by (simp add: reserve_def rd sel logical_count_def live_handles_def el bg fn Let_def ex_snap_sel)
      (simp add: ex_b3_def ex_reservation_def)
qed

lemma ex_accepted:
  "AcceptClaim ex_bclaim (seconds 1) (ab_ContainerID ex_abinding) (Some (ex_rd 4)) ex_conversation
     = (Some ex_execution, ex_conversation\<lparr>cv_used := True\<rparr>)"
proof -
  have "grace_MarshalJSON (pa_StopGraceSeconds (rr_Parameters (cl_Request ex_bclaim))) \<noteq> None"
    using ParameterDigest_valid(3) [OF ex_restart_digest(1)] by (simp add: ex_bclaim_valid ex_order_def)
  then have marshal: "marshal_claim ex_bclaim = Some (json_print (claim_json ex_bclaim))" by (simp add: marshal_claim_def)
  have "fullID (ab_ContainerID ex_abinding)" unfolding fullID_def by code_simp
  moreover have "serverBracket (ex_created + seconds 3) (ex_st 2) (ex_st 4)"
    using ex_continuous [of 2 4]
    by (simp add: serverBracket_def)
      (simp add: ex_st_def ex_rd_def ex_created_def IsZero_def skew_def seconds_def milliseconds_def Sub_def MaxDuration_def MinDuration_def)
  moreover have "ParseHTTPTime (cl_ClaimedAt ex_bclaim) = Some (ex_created + seconds 3)"
    using ex_order_times(3) by (simp add: ex_bclaim_def)
  ultimately have checks: "accept_checks ex_conversation ex_ready ex_bclaim (seconds 1) (ab_ContainerID ex_abinding) (ex_st 4)"
    using ex_continuous [of 0 4] ex_bclaim_decodes
    by (simp add: accept_checks_def marshal ex_conversation_def ex_ready_def)
      (simp add: ex_st_def ex_rd_def seconds_def wrap64_id MaxDuration_def MinDuration_def)
  have dg: "ReceiptDigest ex_order = Some ex_order_digest"
    using CanonicalRequest_total [OF ex_order_valid] by (simp add: ReceiptDigest_def ex_order_digest_def)
  have stamps: "st_boot (ex_st 2) = seconds 102" "st_boot (ex_st 4) = seconds 104" "st_goTime (ex_st 2) = ex_created + seconds 2"
    by (simp_all add: ex_st_def ex_rd_def)
  have stop: "wrap64 (seconds 102 + min (seconds 89) (wrap64 (seconds 1 + seconds 60))) = seconds 163" "\<not> seconds 163 \<le> seconds 104"
    by (simp_all add: seconds_def wrap64_id MaxDuration_def MinDuration_def)
  show ?thesis
    using checks dg stop ex_capture [of 4]
    by (simp add: AcceptClaim_def Let_def ex_conversation_def ex_execution_def ex_bclaim_valid stamps ex_ready_def)
      (simp add: ex_order_def)
qed

lemma ex_bound:
  "BindExecution ex_key d ex_journal = Some \<lparr>be_key = ex_key, be_guard = \<lparr>ec_action = ak_ActionID ex_key, ec_digest = d\<rparr>\<rparr>"
proof -
  have "ar_PolicyRevision ex_arequest \<le> MaxInt64" "ar_CapabilityRevision ex_arequest \<le> MaxInt64"
    "Sub (ex_created + minutes 5) ex_created = seconds 300" "ex_created mod nano_per_second mod 1000 = 0"
    "(ex_created + minutes 5) mod nano_per_second mod 1000 = 0" "ar_ActorID ex_arequest = jb_OwnerID ex_jbinding"
    "j_binding ex_journal = ex_jbinding"
    by (simp_all add: ex_arequest_def MaxInt64_def ex_created_def Sub_def duration_defs MaxDuration_def MinDuration_def ex_journal_def)
  then show ?thesis
    by (simp only: BindExecution_def Let_def ex_key_sel ex_canonical not_less [symmetric] simp_thms if_False option.distinct) simp
qed

lemma ex_claimed:
  "bindClaim (ex_bio 4 r) (Some 0) ex_bclaim (seconds 1) ex_b3
     = (Inr (\<lparr>be_key = ex_key, be_guard = \<lparr>ec_action = ak_ActionID ex_key, ec_digest = ex_order_digest\<rparr>\<rparr>, ex_execution, ex_resolved), ex_b4)"
proof -
  let ?t = "ex_b3\<lparr>bs_reservations := [ex_reservation\<lparr>rv_claimTried := True\<rparr>]\<rparr>"
  have sel: "bs_journal ex_b3 = ex_journal" "bs_policy ex_b3 = ex_policy" "\<not> bs_recoveryRequired ex_b3"
    "bs_live ex_b3 = [(hex_encode (replicate 16 2), 0)]" "\<not> bs_quiescing ex_b3" "\<not> bs_executionClosed ex_b3"
    "bs_reservations ex_b3 = [ex_reservation]"
    by (simp_all add: ex_b3_def ex_b2_def ex_b1_def)
  have tried: "on_reservation (rv_claimTried_update (\<lambda>_. True)) 0 ex_b3 = ?t"
    by (simp add: on_reservation_def sel reservation_at_def)
  have live: "is_live ex_b3 0" by (simp add: is_live_def sel reservation_at_def ex_reservation_def)
  have el: "eligible ex_snap (Some 0) ?t = [md_TargetID ex_mapping]"
    by (rule ex_eligible) (simp_all add: sel live_handles_def live_blocks_def)
  have ct: "containsTarget [md_TargetID ex_mapping] (ar_TargetID ex_arequest)"
    by (simp add: containsTarget_iff) (simp add: ex_mapping_def ex_arequest_def)
  have dl: "CheckDelivery (Some Background) (Some (ex_rd 4)) ex_conversation"
    using ex_capture [of 4] ex_continuous [of 0 4] ex_continuous [of 2 4]
    by (simp add: CheckDelivery_def Background_def ex_conversation_def ex_ready_def)
      (simp add: ex_st_def ex_rd_def seconds_def wrap64_id MaxDuration_def MinDuration_def)
  have rb: "rb_key ex_resolved = ex_key" "rb_remoteDigest ex_resolved = ex_order_digest"
    "ab_ContainerID (rb_binding ex_resolved) = ab_ContainerID ex_abinding"
    by (simp_all add: ex_resolved_def)
  have at: "rv_targets ex_reservation = [md_TargetID ex_mapping]" "rv_conversation ex_reservation = ex_conversation"
    "\<not> rv_claimTried ex_reservation" "rv_policyHead ex_reservation = ''1''"
    by (simp_all add: ex_reservation_def)
  have "bind_resolved (ex_bio 4 r) 0 ex_bclaim (seconds 1) ex_snap ?t
      = (Inr (\<lparr>be_key = ex_key, be_guard = \<lparr>ec_action = ak_ActionID ex_key, ec_digest = ex_order_digest\<rparr>\<rparr>, ex_execution, ex_resolved), ex_b4)"
    using ex_order_resolves ex_accepted ex_bound el ct dl
    by (simp only: bind_resolved_def ex_bclaim_valid ex_snap_sel rb) (simp add: sel rb at reservation_at_def on_reservation_def ex_b4_def Let_def)
  then show ?thesis
    using live ex_broker_snapshot [of ?t 4 r]
    by (simp add: bindClaim_def tried sel reservation_at_def at)
qed

lemma ex_broker_runs: "broker_run ex_b3" "broker_run ex_b4"
proof -
  show 3: "broker_run ex_b3"
    by (rule broker_run.step [OF broker_run.step [OF broker_run.step [OF broker_run.start [OF ex_started] broker_step.begin_control [OF ex_controlled]]
            broker_step.complete_control [OF ex_completed]] broker_step.reserve [OF ex_reserved]])
  show "broker_run ex_b4" by (rule broker_run.step [OF 3 broker_step.bind [OF ex_claimed]])
qed

lemma ex_mutation:
  "CheckMutation (execution_Context (Some ex_execution) (Some Background)) (ab_ContainerID ex_abinding) Restart (Some (ex_rd 10))"
  using ex_capture [of 10] ex_continuous [of 0 10]
  by (simp add: CheckMutation_def checked_def execution_Context_def Background_def ex_execution_def)
    (simp add: ex_st_def ex_rd_def seconds_def wrap64_id MaxDuration_def MinDuration_def)

end
