(* ===== verification/BrokerProperties.thy ===== *)
theory BrokerProperties
  imports BrokerServe BrokerExample
begin

text \<open>
  What the broker promises: which claims it binds, that its live reservations never share a target or a
  container, that an engine call under a bound claim stays inside the lease, and which policy files it reads.
\<close>

text \<open>A reservation whose claim was tried is refused a claim.\<close>

lemma bindClaim_tried:
  assumes "rv_claimTried (reservation_at b h)"
  shows "bindClaim io (Some h) cl rtt b = (Inl BErrRecoveryRequired, b)"
  using assms by (simp add: bindClaim_def)

section \<open>Properties\<close>

text \<open>C4. A claim that is bound in a reachable state was resolved to the only matching mapping of the
  policy, a current one; the journal held no record of its action, and none of its container that is open
  or succeeded less than thirty seconds before; no other live reservation is bound to that target or
  container. The reservation then holds the resolved binding, the journal capability is for its key, and
  the reservation is refused every further claim.\<close>

theorem bound_claim:
  assumes "broker_run b" "bindClaim io (Some h) cl rtt b = (Inr (bound, e, rb), b')"
  shows "\<exists>s m. AdmissionSnapshot (bi_journal io) (bi_snapshot_err io) (bs_journal b) = Inr s
     \<and> filter (mapping_matches (bs_policy b) (cl_Request cl) True) (pd_mappings (bs_policy b)) = [m]
     \<and> m \<in> set (current_mappings (bs_policy b)) \<and> rb_binding rb = receipt_binding (cl_Request cl) m
     \<and> (\<forall>x \<in> set (as_Records s). ak_ActionID (am_Key x) \<noteq> rr_ActionID (cl_Request cl) \<and> \<not> record_blocks (as_ObservedAt s) m x)
     \<and> (\<forall>k \<in> set (live_handles b). k \<noteq> h \<longrightarrow> \<not> live_blocks b None m k)
     \<and> be_key bound = rb_key rb \<and> is_live b' h \<and> rv_bound (reservation_at b' h) = Some rb
     \<and> (\<forall>io' cl' rtt'. bindClaim io' (Some h) cl' rtt' b' = (Inl BErrRecoveryRequired, b'))"
proof -
  from assms(2) obtain s c where s: "binds io h cl rtt b s bound e rb"
    and b': "b' = on_reservation (rv_bound_update (\<lambda>_. Some rb)) h (on_reservation (rv_conversation_update (\<lambda>_. c)) h (tried h b))"
    by (rule bindClaim_Inr)
  from s obtain m where m: "filter (mapping_matches (bs_policy b) (cl_Request cl) True) (pd_mappings (bs_policy b)) = [m]"
    "m \<in> set (current_mappings (bs_policy b))" "rb_binding rb = receipt_binding (cl_Request cl) m"
    "\<forall>k \<in> set (live_handles b). k \<noteq> h \<longrightarrow> \<not> live_blocks b None m k" "\<forall>r \<in> set (as_Records s). \<not> record_blocks (as_ObservedAt s) m r"
    by (rule binds_mapping)
  have live: "is_live b h" and key: "be_key bound = rb_key rb"
    and rec: "AdmissionSnapshot (bi_journal io) (bi_snapshot_err io) (bs_journal b) = Inr s"
      "\<forall>x \<in> set (as_Records s). ak_ActionID (am_Key x) \<noteq> rr_ActionID (cl_Request cl)"
    using s by (auto simp: binds_def BindExecution_def Let_def split: if_splits)
  then have lt: "h < length (bs_reservations b)" using is_live_handle by blast
  have after: "rv_claimTried (reservation_at b' h)" "rv_bound (reservation_at b' h) = Some rb" "is_live b' h"
    using lt live by (simp_all add: b' reservation_at_update is_live_def)
  show ?thesis using m rec key after bindClaim_tried [OF after(1)] by blast
qed

theorem bound_claim_witness:
  "\<exists>s m. AdmissionSnapshot (bi_journal (ex_bio 4 [])) (bi_snapshot_err (ex_bio 4 [])) (bs_journal ex_b3) = Inr s
     \<and> m \<in> set (current_mappings (bs_policy ex_b3)) \<and> rv_bound (reservation_at ex_b4 0) = Some ex_resolved"
  using bound_claim [OF ex_broker_runs(1) ex_claimed] by blast

text \<open>C9. In every reachable state of the broker at most two reservations are live, under different nonces,
  and two of them that are bound have different targets and different containers.\<close>

theorem live_reservations:
  assumes "broker_run b"
  shows "length (bs_live b) \<le> 2 \<and> distinct (map fst (bs_live b))
     \<and> (\<forall>h \<in> set (live_handles b). \<forall>h' \<in> set (live_handles b). \<forall>x y. h \<noteq> h' \<longrightarrow>
          rv_bound (reservation_at b h) = Some x \<longrightarrow> rv_bound (reservation_at b h') = Some y \<longrightarrow>
          ak_TargetID (rb_key x) \<noteq> ak_TargetID (rb_key y) \<and> \<not> same_physical (rb_key x) (rb_key y))"
  using broker_run_inv [OF assms] by (auto simp: broker_inv_def core_inv_def live_ok_def exclusive_def apart_def)

theorem live_reservations_witness:
  "length (bs_live ex_b4) \<le> 2 \<and> bs_live ex_b4 = [(hex_encode (replicate 16 2), 0)] \<and> rv_bound (reservation_at ex_b4 0) = Some ex_resolved"
  using live_reservations [OF ex_broker_runs(2)] by (simp add: ex_b4_def ex_b3_def reservation_at_def)

text \<open>C7. When the budget lets an engine call through under an execution that a reachable broker bound, the
  call is for the container and the operation of the claim, less than 89 seconds of boot time after the
  conversation began, at least 29 seconds before the lease deadline the worker was given, and, by the wall
  clock, at least 25 seconds before the lease of the claim expires.\<close>

theorem mutation_inside_lease:
  assumes "broker_run b" "bindClaim io (Some h) cl rtt b = (Inr (bound, e, rb), b')"
    and "CheckMutation (execution_Context (Some e) parent) cid op read"
  shows "\<exists>now lease. read = Some now \<and> ParseHTTPTime (cl_LeaseExpiresAt cl) = Some lease
     \<and> cid = ab_ContainerID (rb_binding rb) \<and> op = rr_Operation (cl_Request cl)
     \<and> rd_boot now < st_boot (cv_start (rv_conversation (reservation_at b h))) + seconds 89
     \<and> rd_goTime now + seconds 29 < dl_LeaseDeadline (execution_Delivery (Some e))
     \<and> rd_wall now + seconds 25 < lease"
  by (rule bound_mutation [OF assms])

theorem mutation_inside_lease_witness:
  "\<exists>lease. ParseHTTPTime (cl_LeaseExpiresAt ex_bclaim) = Some lease \<and> rd_wall (ex_rd 10) + seconds 25 < lease
     \<and> rd_goTime (ex_rd 10) + seconds 29 < dl_LeaseDeadline (execution_Delivery (Some ex_execution))"
  using mutation_inside_lease [OF ex_broker_runs(1) ex_claimed ex_mutation] by auto

text \<open>C13. The broker reads a policy file exactly when the policy is well formed and the file is its canonical
  encoding: the identities and revisions are in form, mappings are ordered by revision, no two say the
  same, a target has one container, and among the current ones a target and operation, an alias and a
  container each determine the target.\<close>

theorem decodePolicy_exact: "decodePolicy raw = Some p \<longleftrightarrow> policy_spec p \<and> raw = json_print (policy_json p)"
  by (simp only: decodePolicy_iff validatePolicy_iff)

end
