(* ===== verification/ServeExample.thy ===== *)
theory ServeExample
  imports BrokerServe BrokerExample
begin

text \<open>
  A concrete connection: a worker claims the restart of the broker's example, the broker asks it for the two
  decisions, records the intent and calls the engine, whose answer is lost.
\<close>

section \<open>The messages\<close>

definition ex_nonce :: string where "ex_nonce = hex_encode (replicate 16 2)"

definition ex_execute_message :: claimed_execute where
  "ex_execute_message = \<lparr>ce_Claim = ex_bclaim, ce_ClaimRTTNanos = ''1000000000''\<rparr>"

definition ex_challenge :: "nat \<Rightarrow> string" where
  "ex_challenge c = hex_encode (replicate 16 (if c = 1 then 3 else 4))"

definition ex_permit :: "nat \<Rightarrow> execution_decision" where
  "ex_permit c =
     \<lparr>ed_Request = ex_order, ed_ExecutionLeaseID = ''hle_'' @ ex_hex 32, ed_Checkpoint = show_nat c, ed_CheckNonce = ex_challenge c,
      ed_CredentialID = ''hlac_'' @ ex_hex 32, ed_CredentialRevision = ''7'', ed_CheckedAt = ''2021-01-01T00:00:03.000000Z'',
      ed_Decision = ''PERMITTED''\<rparr>"

lemma ex_execute_decodes: "DecodeClaimedExecute (json_print (claimed_execute_json ex_execute_message)) = Some ex_execute_message"
proof -
  have "weight (claimed_execute_json ex_execute_message) \<le> MaxEnvelopeBytes"
    using ex_order_weight
    by (simp add: claimed_execute_json_def ex_execute_message_def claim_json_def ex_bclaim_def MaxEnvelopeBytes_def)
  then have len: "length (json_print (claimed_execute_json ex_execute_message)) \<le> MaxEnvelopeBytes"
    using length_print_weight [of "claimed_execute_json ex_execute_message"] by linarith
  have "valid_rtt ''1000000000''" by code_simp
  then have "decode_claimed_execute (claimed_execute_json ex_execute_message) = Some ex_execute_message"
    using ex_bclaim_valid ex_order_valid by (intro claimed_execute_json_ok(1)) (simp_all add: ex_execute_message_def)
  from claimed_execute_codec.reread(2) [OF this len] show ?thesis by (simp add: DecodeClaimedExecute_def)
qed

lemma ex_rtt: "ParseInt64 ''1000000000'' = Some (seconds 1)"
  by code_simp

lemma ex_nonces: "nonce (ex_challenge 1)" "nonce (ex_challenge 2)" "ex_challenge 1 \<noteq> ex_challenge 2"
  "ex_challenge 1 \<noteq> ex_nonce" "ex_challenge 2 \<noteq> ex_nonce" "ex_challenge 1 \<noteq> []"
proof -
  have texts: "ex_challenge 1 = ''03030303030303030303030303030303''" "ex_challenge 2 = ''04040404040404040404040404040404''"
    "ex_nonce = ''02020202020202020202020202020202''"
    by code_simp+
  have "nonce ''03030303030303030303030303030303''" "nonce ''04040404040404040404040404040404''" by code_simp+
  then show "nonce (ex_challenge 1)" "nonce (ex_challenge 2)" "ex_challenge 1 \<noteq> ex_challenge 2"
    "ex_challenge 1 \<noteq> ex_nonce" "ex_challenge 2 \<noteq> ex_nonce" "ex_challenge 1 \<noteq> []"
    unfolding texts by simp_all
qed

lemma ex_permit_ok:
  assumes "c = 1 \<or> c = 2"
  shows "DecodeExecutionDecision (json_print (decision_json (ex_permit c))) = Some (ex_permit c)"
    "MatchExecutionDecision ex_bclaim (show_nat c) (ex_challenge c) (ex_permit c)"
proof -
  have sh: "show_nat 1 = ''1''" "show_nat 2 = ''2''" by code_simp+
  have len: "length (ex_challenge c) = 32" using hex_string_encode [of "replicate 16 (if c = 1 then 3 else 4)"] by (simp add: ex_challenge_def hex_string_def)
  have "weight (decision_json (ex_permit c)) \<le> MaxEnvelopeBytes"
    using ex_order_weight assms sh len by (auto simp: decision_json_def ex_permit_def MaxEnvelopeBytes_def)
  then have len: "length (json_print (decision_json (ex_permit c))) \<le> MaxEnvelopeBytes"
    using length_print_weight [of "decision_json (ex_permit c)"] by linarith
  have "valid_decision (ex_permit c)"
    using assms sh ex_nonces ex_texts ex_order_times by (auto simp: valid_decision_def ex_permit_def)
  then have "decode_decision (decision_json (ex_permit c)) = Some (ex_permit c)"
    by (rule decision_json_ok) (simp add: ex_permit_def ex_order_valid)
  from decision_codec.reread(2) [OF this len]
  show "DecodeExecutionDecision (json_print (decision_json (ex_permit c))) = Some (ex_permit c)"
    by (simp add: DecodeExecutionDecision_def)
  show "MatchExecutionDecision ex_bclaim (show_nat c) (ex_challenge c) (ex_permit c)"
    using ex_texts ex_order_times by (simp add: MatchExecutionDecision_def ex_permit_def ex_bclaim_def seconds_def)
qed

section \<open>The outside\<close>

definition ex_begin :: envelope where
  "ex_begin = \<lparr>env_Version = WorkerVersion, env_Kind = ''BEGIN'', env_ConversationNonce = [], env_Ordinal = [], env_Payload = []\<rparr>"

definition ex_delivered :: envelope where
  "ex_delivered =
     \<lparr>env_Version = WorkerVersion, env_Kind = ''CLAIMED_EXECUTE'', env_ConversationNonce = ex_nonce, env_Ordinal = ''2'',
      env_Payload = json_print (claimed_execute_json ex_execute_message)\<rparr>"

definition ex_reply :: "nat \<Rightarrow> envelope" where
  "ex_reply c =
     \<lparr>env_Version = WorkerVersion, env_Kind = ''AUTHORITY_REPLY'', env_ConversationNonce = ex_nonce, env_Ordinal = show_nat (c + 2),
      env_Payload = json_print (decision_json (ex_permit c))\<rparr>"

text \<open>
  The clock stands at two seconds until the claim is delivered, then at four; the clocks of the machine are
  not read any more once the engine has been called.
\<close>

definition ex_clock :: "nat \<Rightarrow> reading option" where
  "ex_clock n = (if n < 13 then Some (ex_rd 2) else if n < 164 then Some (ex_rd 4) else None)"

definition ex_xorc :: exec_oracle where
  "ex_xorc =
     \<lparr>xo_now = (\<lambda>_. ex_created + seconds 4), xo_ctx_err = (\<lambda>_ _. False), xo_until = (\<lambda>_ _. None), xo_done = (\<lambda>_ _. False),
      xo_reading = ex_clock, xo_late_reading = ex_clock,
      xo_random = (\<lambda>n. Some (replicate 16 (if n < 10 then 2 else if n < 60 then 3 else 4))),
      xo_policy = (\<lambda>_. Some ex_policy), xo_journal = (\<lambda>_. ex_jio ex_anow), xo_write = (\<lambda>_ _. True),
      xo_read = (\<lambda>n. Some (if n < 10 then ex_begin else if n < 20 then ex_delivered else if n < 60 then ex_reply 1 else ex_reply 2)),
      xo_admitted = (\<lambda>_. True), xo_inspect = (\<lambda>_ _. Some Running), xo_call = (\<lambda>_ _ _ _. False), xo_others = (\<lambda>_ s. s)\<rparr>"

lemma ex_xorc_ok: "exec_ok ex_xorc"
  using ex_times_ordered by (simp add: exec_ok_def ex_xorc_def ex_jio_def)

lemma ex_xo [simp]:
  "xo_now ex_xorc n = ex_created + seconds 4" "xo_ctx_err ex_xorc n c = False" "xo_until ex_xorc n c = None" "xo_done ex_xorc n = (\<lambda>_. False)"
  "xo_reading ex_xorc n = ex_clock n" "xo_late_reading ex_xorc n = ex_clock n" "xo_policy ex_xorc n = Some ex_policy"
  "xo_journal ex_xorc n = ex_jio ex_anow" "xo_write ex_xorc n e = True" "xo_admitted ex_xorc n = True"
  "xo_inspect ex_xorc n c' = Some Running" "xo_call ex_xorc n op c' g = False"
  by (simp_all add: ex_xorc_def)

abbreviation ticked :: "nat \<Rightarrow> exec_world \<Rightarrow> exec_world" where
  "ticked n w \<equiv> w\<lparr>xw_ticks := n + xw_ticks w\<rparr>"

lemma ex_prims:
  "wp (xtick ex_xorc) Q w = Q (xw_ticks w) (ticked 1 w)"
  "wp (xask ex_xorc f) P w = P (f (xw_ticks w)) (ticked 1 w)"
  "wp (ask_broker ex_xorc g) R w = R (g (exec_io ex_xorc (xw_ticks w)) (xw_broker w)) (ticked 1 w)"
  "wp (on_broker ex_xorc h) S w = (case h (exec_io ex_xorc (xw_ticks w)) (xw_broker w) of (x, b) \<Rightarrow> S x ((ticked 1 w)\<lparr>xw_broker := b\<rparr>))"
  "wp (on_journal ex_xorc k l) T w = (case k (ex_jio ex_anow) (bs_journal (xw_broker w)) of (x, j) \<Rightarrow>
     T x ((ticked 1 w)\<lparr>xw_broker := (xw_broker w)\<lparr>bs_journal := j\<rparr>, xw_log := xw_log w @ l (bs_journal (xw_broker w)) x\<rparr>))"
  by (simp_all add: xtick_def xask_def ask_broker_def on_broker_def on_journal_def exec_others_def wp_simps Let_def split_beta)
    (simp_all add: ex_xorc_def)

lemma ex_exec_io: "13 \<le> n \<Longrightarrow> n < 164 \<Longrightarrow> exec_io ex_xorc n = ex_bio 4 (the (xo_random ex_xorc n))"
  "n < 13 \<Longrightarrow> exec_io ex_xorc n = ex_bio 2 (the (xo_random ex_xorc n))"
  by (simp_all add: exec_io_def ex_bio_def call_ctx_def Background_def ex_clock_def)
    (simp_all add: ex_xorc_def)

section \<open>The journal under the claim\<close>

definition ex_commit :: execution_commit where
  "ex_commit = \<lparr>ec_action = ak_ActionID ex_key, ec_digest = ex_order_digest\<rparr>"

definition ex_bound_journal :: bound_execution where
  "ex_bound_journal = \<lparr>be_key = ex_key, be_guard = ex_commit\<rparr>"

definition ex_acquired :: journal where
  "ex_acquired = ex_admitted\<lparr>j_attempts := [new_attempt ex_fresh True (Some ex_commit)]\<rparr>"

definition ex_intended :: journal where
  "ex_intended = ex_dispatched\<lparr>j_attempts := [new_attempt (ex_fresh\<lparr>jr_intent := ex_anow\<rparr>) True (Some ex_commit)]\<rparr>"

lemma ex_bound_acquire: "bound_Acquire (ex_jio ex_anow) ex_bound_journal ex_key ex_journal = (Inr 0, ex_acquired)"
proof -
  have rd: "read_record ex_jbinding (\<lambda>_. False) ex_jdb (ar_ActionID ex_arequest) = Some None" by code_simp
  have fl: "floor_time ex_jbinding (\<lambda>_. False) ex_jdb = Some 0" by code_simp
  have rel: "related ex_jbinding (\<lambda>_. False) ex_jdb ex_key = Some []"
    by (simp add: related_def load_def ex_jdb_def)
  show ?thesis
    using rd fl rel ex_times_ordered ex_row_check ex_canonical
    by (simp add: bound_Acquire_def ex_bound_journal_def acquire_def guard_ok_def Let_def ex_jio_def ex_journal_def usable_def
        transactionGuarded_def acquire_body_def acquire_admit_def active_records_def unknown_count_def permits_def sql_insert_action_def
        ex_jdb_def [symmetric] ex_acquired_def ex_admitted_def ex_fresh_def ex_arow_def [symmetric] new_attempt_def maxRecords_def)
qed

lemma ex_bound_intent: "Intent (ex_jio ex_anow) 0 ex_acquired = (None, ex_intended)"
  using ex_read ex_times_ordered ex_intent_check
  by (simp add: Intent_def transition_def attempt_at_def ex_acquired_def ex_admitted_def new_attempt_def guard_ok_def ex_jio_def usable_def
      ex_journal_def IsZero_def transactionGuarded_def transition_body_def sql_insert_event_def ex_arow_def action_row_for_def
      ex_intent_row_def ex_intended_def ex_dispatched_def)

definition ex_generation :: string where "ex_generation = ab_EngineGeneration ex_abinding"

text \<open>The journals of the run, read as snapshots.\<close>

definition ex_usable :: "journal \<Rightarrow> bool" where
  "ex_usable j \<longleftrightarrow> j \<in> {ex_journal, ex_acquired, ex_intended}"

lemma ex_snapshots:
  assumes "ex_usable j"
  shows "\<exists>t rs. AdmissionSnapshot (ex_jio ex_anow) (\<lambda>_. False) j = Inr \<lparr>as_Binding = ex_jbinding, as_ObservedAt = t, as_Records = rs\<rparr>
    \<and> map am_Key rs \<in> {[], [ex_key]}"
proof -
  have scope: "in_scope AllRecords ex_arow" by simp
  have ev: "bounded_event ex_intent_row" "ew_id ex_intent_row = ar_ActionID ex_arequest"
    using ex_lengths by (simp_all add: bounded_event_def ex_intent_row_def)
  have jd: "jd_actions (j_db ex_acquired) = [ex_arow]" "jd_events (j_db ex_acquired) = []"
    "jd_actions (j_db ex_intended) = [ex_arow]" "jd_events (j_db ex_intended) = [ex_intent_row]"
    by (simp_all add: ex_acquired_def ex_admitted_def ex_intended_def ex_dispatched_def)
  have l: "load ex_jbinding (\<lambda>_. False) (j_db ex_acquired) AllRecords = Some [ex_fresh]"
    "load ex_jbinding (\<lambda>_. False) (j_db ex_intended) AllRecords = Some [ex_fresh\<lparr>jr_intent := ex_anow\<rparr>]"
    using ex_validate ex_row_check ex_validate_event ev by (simp_all add: load_def maxRecords_def jd)
  have bd: "j_binding ex_acquired = ex_jbinding" "j_binding ex_intended = ex_jbinding" "usable ex_acquired" "usable ex_intended"
    by (simp_all add: ex_acquired_def ex_admitted_def ex_intended_def ex_dispatched_def ex_journal_def usable_def)
  have "AdmissionSnapshot (ex_jio ex_anow) (\<lambda>_. False) ex_journal = Inr ex_snap" using ex_admission [of 0 "[]"] by (simp add: ex_bio_def)
  moreover have "AdmissionSnapshot (ex_jio ex_anow) (\<lambda>_. False) ex_acquired =
      Inr \<lparr>as_Binding = ex_jbinding, as_ObservedAt = ex_anow, as_Records = [admission_record_of ex_acquired ex_fresh]\<rparr>"
    "AdmissionSnapshot (ex_jio ex_anow) (\<lambda>_. False) ex_intended =
      Inr \<lparr>as_Binding = ex_jbinding, as_ObservedAt = ex_anow, as_Records = [admission_record_of ex_intended (ex_fresh\<lparr>jr_intent := ex_anow\<rparr>)]\<rparr>"
    using l by (simp_all add: AdmissionSnapshot_def all_records_def ex_jio_def bd)
  ultimately show ?thesis
    using assms by (auto simp: ex_usable_def ex_snap_def admission_record_of_def)
qed

lemma ex_mapping_for_key: "mappingForKey ex_key = Some (ex_mapping\<lparr>md_MappingRevision := []\<rparr>)"
proof -
  have sh: "show_nat (unat (3 :: uint64)) = ''3''" "show_nat (unat (4 :: uint64)) = ''4''" by code_simp+
  have "validMapping (ex_mapping\<lparr>md_MappingRevision := []\<rparr>) False"
  proof -
    have "localID (md_ServerID ex_mapping) ''srv_''" "localID (md_OwnerUserID ex_mapping) ''usr_''"
      "localID (md_ConnectorInstanceID ex_mapping) ''agent_''" "localID (md_TargetID ex_mapping) ''hlt_''"
      "localHex (md_EngineGeneration ex_mapping) 32" "localHex (md_ContainerID ex_mapping) 64"
      "localRevision (md_PolicyRevision ex_mapping) \<noteq> None" "localRevision (md_CapabilityRevision ex_mapping) \<noteq> None"
      "case marshal_mapping (ex_mapping\<lparr>md_MappingRevision := []\<rparr>) of None \<Rightarrow> False | Some raw \<Rightarrow> length raw \<le> 1024"
      by code_simp+
    moreover have "ParameterDigest (md_Operation ex_mapping) (md_Parameters ex_mapping) \<noteq> None"
      using ex_restart_digest by (simp add: ex_mapping_def)
    ultimately show ?thesis by (simp add: validMapping_def)
  qed
  then show ?thesis
    using ex_canonical sh
    by (simp add: mappingForKey_def Let_def)
      (simp add: ex_arequest_def ex_jbinding_def ex_mapping_def ex_restart_def ex_abinding_def ex_key_def)
qed

lemma ex_mappings:
  assumes "ex_usable j"
  shows "validateJournalMappings (ex_jio ex_anow) (\<lambda>_. False) j ex_policy ex_generation"
proof -
  obtain t rs where s: "AdmissionSnapshot (ex_jio ex_anow) (\<lambda>_. False) j = Inr \<lparr>as_Binding = ex_jbinding, as_ObservedAt = t, as_Records = rs\<rparr>"
    and rs: "map am_Key rs \<in> {[], [ex_key]}"
    using ex_snapshots [OF assms] by (elim exE conjE)
  have "localHex ex_generation 32" by code_simp
  then have gen: "requireEngineGeneration ex_key ex_generation"
    using ex_canonical by (simp add: requireEngineGeneration_def ex_generation_def)
  have "semantic (ex_mapping\<lparr>md_MappingRevision := []\<rparr>) \<in> semantic ` set (pd_mappings ex_policy)"
    by (simp add: semantic_def pd_mappings_def ex_policy_def)
  then have "validateMappingReferences ex_policy [ex_key]" "validateMappingReferences ex_policy []"
    using ex_policy_valid ex_mapping_for_key by (simp_all add: validateMappingReferences_def)
  then show ?thesis
    using rs gen by (auto simp: validateJournalMappings_def s list_ex_iff)
qed

lemma ex_source:
  assumes "bs_policy (xw_broker w) = ex_policy" "ex_usable (bs_journal (xw_broker w))"
  shows "wp (currentSource ex_xorc ex_generation) Q w = Q True (ticked 3 w)"
proof -
  obtain raw where "marshal_policy ex_policy = Some raw"
    using ParameterDigest_valid(3) [OF ex_restart_digest(1)] by (simp add: marshal_policy_def pd_mappings_def ex_policy_def ex_mapping_def)
  then show ?thesis
    using assms ex_mappings [OF assms(2)] ex_policy_valid
    by (simp add: currentSource_def wp_simps ex_prims Let_def numeral_3_eq_3 cong: option.case_cong)
qed

section \<open>The invocation\<close>

definition ex_invocation :: invocation where
  "ex_invocation =
     \<lparr>iv_reservation = 0, iv_claim = ex_bclaim, iv_journal = ex_bound_journal, iv_execution = ex_execution, iv_resolved = ex_resolved\<rparr>"

lemma ex_invocation_sel [simp]:
  "iv_reservation ex_invocation = 0" "iv_claim ex_invocation = ex_bclaim" "iv_journal ex_invocation = ex_bound_journal"
  "iv_execution ex_invocation = ex_execution" "iv_resolved ex_invocation = ex_resolved"
  by (simp_all add: ex_invocation_def)

lemma ex_resolved_sel [simp]:
  "rb_key ex_resolved = ex_key" "rb_remoteDigest ex_resolved = ex_order_digest" "ab_ContainerID (rb_binding ex_resolved) = ab_ContainerID ex_abinding"
  by (simp_all add: ex_resolved_def)

definition ex_serving :: "journal \<Rightarrow> broker_state" where
  "ex_serving j = ex_b4\<lparr>bs_journal := j\<rparr>"

lemma ex_serving_sel [simp]:
  "bs_journal (ex_serving j) = j" "bs_policy (ex_serving j) = ex_policy" "bs_executionClosed (ex_serving j) = False"
  "bs_quiescing (ex_serving j) = False" "bs_clock (ex_serving j) = Some 0" "bs_live (ex_serving j) = [(ex_nonce, 0)]"
  "rv_nonce (reservation_at (ex_serving j) 0) = ex_nonce" "(ex_serving j)\<lparr>bs_journal := k\<rparr> = ex_serving k"
  "bs_control (ex_serving j) = None" "bs_reservations (ex_serving j) \<noteq> []"
  by (simp_all add: ex_serving_def ex_b4_def ex_b3_def ex_b2_def ex_b1_def ex_nonce_def reservation_at_def ex_reservation_def)

lemma ex_serving_start: "ex_serving ex_journal = ex_b4"
  by (simp add: ex_serving_def ex_b4_def ex_b3_def ex_b2_def ex_b1_def ex_b0_def)

lemma ex_current_invocation: "currentInvocation (Some ex_invocation) (ex_serving j)"
proof -
  have "is_live (ex_serving j) 0" by (simp add: is_live_def)
  moreover have "rv_policyHead (reservation_at (ex_serving j) 0) = ''1''"
    by (simp add: ex_serving_def ex_b4_def reservation_at_def ex_reservation_def)
  ultimately show ?thesis using ex_order_resolves by (simp add: currentInvocation_def ex_bclaim_valid)
qed

lemma ex_checks:
  assumes "13 \<le> n" "n < 164"
  shows "CheckExecution (execution_Context (Some ex_execution) (Some (call_ctx ex_xorc n))) (ak_ActionID ex_key) ex_order_digest (ex_clock n)"
    "CheckMutation (execution_Context (Some ex_execution) (Some (call_ctx ex_xorc n))) (ab_ContainerID ex_abinding) Restart (ex_clock n)"
    "CheckDecision (Some ex_execution) (ex_st 4) (ex_st 4) (ex_created + seconds 3) (ex_clock n)"
proof -
  have clk: "ex_clock n = Some (ex_rd 4)" using assms by (simp add: ex_clock_def)
  have chk: "checked (execution_Context (Some ex_execution) (Some p)) executionPhase (Some (ex_rd 4)) = Some (ex_guard ex_execution)"
    if "\<And>k. \<not> cx_err p k" for p
    using ex_capture [of 4] ex_continuous [of 0 4] that
    by (simp add: checked_def execution_Context_def ex_execution_def)
      (simp add: ex_st_def ex_rd_def seconds_def wrap64_id MaxDuration_def MinDuration_def)
  have g: "bg_actionID (ex_guard ex_execution) = ar_ActionID ex_arequest" "bg_digest (ex_guard ex_execution) = ex_order_digest"
    "bg_containerID (ex_guard ex_execution) = ab_ContainerID ex_abinding" "bg_operation (ex_guard ex_execution) = Restart"
    "bg_kind (ex_guard ex_execution) = executionPhase" "bg_clock (ex_guard ex_execution) = Some 0" "bg_origin (ex_guard ex_execution) = ex_st 0"
    by (simp_all add: ex_execution_def ex_order_def)
  show "CheckExecution (execution_Context (Some ex_execution) (Some (call_ctx ex_xorc n))) (ak_ActionID ex_key) ex_order_digest (ex_clock n)"
    "CheckMutation (execution_Context (Some ex_execution) (Some (call_ctx ex_xorc n))) (ab_ContainerID ex_abinding) Restart (ex_clock n)"
    by (simp_all add: CheckExecution_def CheckMutation_def clk chk call_ctx_def g)
  have "CheckExecution (execution_Context (Some ex_execution) (Some Background)) (ar_ActionID ex_arequest) ex_order_digest (Some (ex_rd 4))"
    by (simp add: CheckExecution_def chk Background_def g)
  moreover have "serverBracket (ex_created + seconds 3) (ex_st 4) (ex_st 4)"
    using ex_continuous [of 4 4]
    by (simp add: serverBracket_def)
      (simp add: ex_st_def ex_rd_def ex_created_def IsZero_def skew_def seconds_def milliseconds_def Sub_def MaxDuration_def MinDuration_def)
  moreover have "\<not> seconds 5 \<le> wrap64 (st_boot (ex_st 4) - st_boot (ex_st 4))" by (simp add: seconds_def wrap64_id MaxDuration_def MinDuration_def)
  ultimately show "CheckDecision (Some ex_execution) (ex_st 4) (ex_st 4) (ex_created + seconds 3) (ex_clock n)"
    using ex_continuous [of 0 4] by (simp add: CheckDecision_def Let_def g clk) (simp add: ex_st_def)
qed

lemma ex_check_execution:
  assumes "13 \<le> xw_ticks w" "xw_ticks w < 164"
  shows "wp (check_execution ex_xorc ex_invocation) Q w = Q True (ticked 1 w)"
  using ex_checks(1) [OF assms] by (simp add: check_execution_def ex_prims)

lemma ex_current:
  assumes "xw_broker w = ex_serving j" "ex_usable j" "13 \<le> xw_ticks w" "xw_ticks w < 158"
  shows "wp (currentExecution ex_xorc ex_generation ex_invocation) Q w = Q True (ticked 7 w)"
  using assms ex_current_invocation
  by (simp add: currentExecution_def andalso_def wp_simps ex_prims ex_check_execution ex_source)

section \<open>The core's calls\<close>

lemma ex_resolved_key: "NewJournalKey ex_arequest (rb_binding ex_resolved) = Some ex_key"
proof -
  have "valid ex_arequest (ex_abinding\<lparr>ab_Operations := [Restart]\<rparr>) (ar_CreatedAt ex_arequest)" by code_simp
  then show ?thesis
    using ex_canonical by (simp add: NewJournalKey_def Let_def fingerprint_def ex_raw_def [symmetric] ex_key_def [symmetric] ex_resolved_def)
qed

lemma ex_fresh_nonce:
  assumes "c = 1 \<or> c = 2"
  shows "freshNonce (Some (replicate 16 (if c = 1 then 3 else 4))) (ex_serving j) = Some (ex_challenge c)"
proof -
  have hex: "hex_encode (replicate 16 (if c = 1 then 3 else 4)) = ex_challenge c" by (simp only: ex_challenge_def)
  have "ex_challenge c \<noteq> ex_nonce" using assms ex_nonces by auto
  then show ?thesis unfolding freshNonce_def option.case Let_def hex by (simp add: control_publication_def)
qed

lemma ex_marshal_check: "marshal_check \<lparr>ch_Request = ex_order, ch_ExecutionLeaseID = l, ch_Checkpoint = c, ch_CheckNonce = n\<rparr> \<noteq> None"
  using ParameterDigest_valid(3) [OF ex_restart_digest(1)] by (simp add: marshal_check_def ex_order_def)

lemma ex_checked:
  assumes w: "xw_broker w = ex_serving j" "ex_usable j" "13 \<le> xw_ticks w" "xw_ticks w < 130"
    and c: "c = 1 \<or> c = 2" "xw_checkpoint w = c - 1" "xw_lastChallenge w \<noteq> ex_challenge c"
    and t: "xo_random ex_xorc (7 + xw_ticks w) = Some (replicate 16 (if c = 1 then 3 else 4))" "xo_read ex_xorc (11 + xw_ticks w) = Some (ex_reply c)"
  shows "wp (authority_Check ex_xorc ex_generation ex_invocation ex_arequest (rb_binding ex_resolved)) Q w
     = Q True (w\<lparr>xw_lastChallenge := ex_challenge c, xw_checkpoint := c, xw_ticks := 22 + xw_ticks w, xw_effects := xw_effects w @ [Permitted c (ex_challenge c) (ex_permit c)]\<rparr>)"
proof -
  have clk: "ex_clock (n + xw_ticks w) = Some (ex_rd 4)" if "n < 30" for n using w that by (simp add: ex_clock_def)
  have cap: "Capture (Some 0) (Some (ex_rd 4)) = Some (ex_st 4)" using ex_capture [of 4] by simp
  have io: "bi_random (exec_io ex_xorc n) = xo_random ex_xorc n" "bi_reading (exec_io ex_xorc n) = ex_clock n" for n
    by (simp_all add: exec_io_def)
  have rep: "env_Version (ex_reply c) = WorkerVersion" "env_Kind (ex_reply c) = ''AUTHORITY_REPLY''" "env_ConversationNonce (ex_reply c) = ex_nonce"
    "env_Ordinal (ex_reply c) = show_nat (c + 2)" "env_Payload (ex_reply c) = json_print (decision_json (ex_permit c))"
    by (simp_all add: ex_reply_def)
  have at: "ParseHTTPTime (ed_CheckedAt (ex_permit c)) = Some (ex_created + seconds 3)" using ex_order_times by (simp add: ex_permit_def)
  obtain raw where raw: "marshal_check \<lparr>ch_Request = ex_order, ch_ExecutionLeaseID = cl_ExecutionLeaseID ex_bclaim, ch_Checkpoint = show_nat c,
      ch_CheckNonce = ex_challenge c\<rparr> = Some raw"
    using ex_marshal_check by blast
  have suc: "Suc (c - 1) = c" "\<not> 2 \<le> c - 1" "Suc (c - Suc 0) = c" using c(1) by auto
  show ?thesis
    using w c(2,3) t ex_permit_ok [OF c(1)] ex_checks(3) [of "14 + xw_ticks w"] ex_fresh_nonce [OF c(1), of j] raw suc
    by (simp add: authority_Check_def authority_exchange_def authority_reply_def writeLocal_def andalso_def effect_def wp_simps
        ex_prims ex_current ex_resolved_key ex_bclaim_valid io clk cap rep at)
qed

lemma ex_source_calls:
  assumes w: "13 \<le> xw_ticks w" "xw_ticks w < 140"
  shows "xw_broker w = ex_serving ex_journal \<Longrightarrow> wp (source_Acquire ex_xorc ex_generation ex_invocation ex_key) A w =
      A (Acquired 0) (w\<lparr>xw_broker := ex_serving ex_acquired, xw_ticks := 15 + xw_ticks w\<rparr>)"
    "xw_broker w = ex_serving ex_acquired \<Longrightarrow> wp (source_Existing ex_xorc ex_generation ex_invocation 0) C w =
      C NoCode (w\<lparr>xw_ticks := 15 + xw_ticks w\<rparr>)"
    "xw_broker w = ex_serving ex_acquired \<Longrightarrow> wp (source_Intent ex_xorc ex_generation ex_invocation 0) P w =
      P True (w\<lparr>xw_broker := ex_serving ex_intended, xw_log := xw_log w @ [ex_raw], xw_ticks := 15 + xw_ticks w\<rparr>)"
    "xw_broker w = ex_serving ex_acquired \<Longrightarrow> wp (phase_Inspect ex_xorc ex_generation ex_invocation (ab_ContainerID ex_abinding)) S w =
      S (Some Running) (w\<lparr>xw_ticks := 15 + xw_ticks w\<rparr>)"
proof -
  have u: "ex_usable ex_journal" "ex_usable ex_acquired" "ex_usable ex_intended" by (simp_all add: ex_usable_def)
  have ex: "Existing 0 ex_acquired = NoCode" "dispatched ex_acquired 0 True None = [ex_raw]"
    by (simp_all add: Existing_def attempt_at_def dispatched_def ex_acquired_def ex_admitted_def new_attempt_def usable_def ex_journal_def IsZero_def)
  show "xw_broker w = ex_serving ex_journal \<Longrightarrow> wp (source_Acquire ex_xorc ex_generation ex_invocation ex_key) A w =
      A (Acquired 0) (w\<lparr>xw_broker := ex_serving ex_acquired, xw_ticks := 15 + xw_ticks w\<rparr>)"
    using w u ex_bound_acquire
    by (simp add: source_Acquire_def wp_simps ex_prims ex_current [where j = ex_journal] ex_current [where j = ex_acquired] acquired_of_def)
  show "xw_broker w = ex_serving ex_acquired \<Longrightarrow> wp (source_Existing ex_xorc ex_generation ex_invocation 0) C w =
      C NoCode (w\<lparr>xw_ticks := 15 + xw_ticks w\<rparr>)"
    using w u ex by (simp add: source_Existing_def wp_simps ex_prims ex_current [where j = ex_acquired])
  show "xw_broker w = ex_serving ex_acquired \<Longrightarrow> wp (source_Intent ex_xorc ex_generation ex_invocation 0) P w =
      P True (w\<lparr>xw_broker := ex_serving ex_intended, xw_log := xw_log w @ [ex_raw], xw_ticks := 15 + xw_ticks w\<rparr>)"
    using w u ex ex_bound_intent
    by (simp add: source_Intent_def wp_simps ex_prims ex_current [where j = ex_acquired] ex_current [where j = ex_intended])
  show "xw_broker w = ex_serving ex_acquired \<Longrightarrow> wp (phase_Inspect ex_xorc ex_generation ex_invocation (ab_ContainerID ex_abinding)) S w =
      S (Some Running) (w\<lparr>xw_ticks := 15 + xw_ticks w\<rparr>)"
    using w u by (simp add: phase_Inspect_def wp_simps ex_prims ex_current [where j = ex_acquired])
qed

lemma ex_call:
  assumes "13 \<le> xw_ticks w" "xw_ticks w < 157" "xw_broker w = ex_serving ex_intended"
  shows "wp (phase_call ex_xorc ex_generation ex_invocation Restart (ab_ContainerID ex_abinding) 10) P w =
      P False (w\<lparr>xw_effects := xw_effects w @ [Mutated Restart (ab_ContainerID ex_abinding) 10 (Some (ex_rd 4))], xw_ticks := 9 + xw_ticks w\<rparr>)"
proof -
  have "ex_clock (7 + xw_ticks w) = Some (ex_rd 4)" using assms by (simp add: ex_clock_def)
  moreover have "ex_usable ex_intended" by (simp add: ex_usable_def)
  moreover have "rr_Operation ex_order = Restart" "ar_GraceSeconds ex_arequest = 10" by (simp_all add: ex_order_def ex_arequest_def)
  ultimately show ?thesis
    using assms ex_checks(2) [of "7 + xw_ticks w"]
    by (simp add: phase_call_def phase_mutate_def mutate_called_def check_mutation_def effect_def wp_simps ex_prims
        ex_current [where j = ex_intended] ex_bclaim_valid)
qed

abbreviation ex_D :: "(exec_world, nat) worker_deps" where
  "ex_D \<equiv> exec_deps ex_xorc ex_generation ex_invocation"

lemma wp_noted: "wp (noted ev m) Q w = wp m (\<lambda>x w'. Q x (w'\<lparr>xw_trace := xw_trace w' @ [ev x]\<rparr>)) w"
  unfolding noted_def emit_def wp_bind wp_update wp_return ..

lemma ex_deps_calls:
  "wp (wd_now ex_D) Q w = Q (ex_created + seconds 4) (ticked 1 w)" "wp (wd_ctx_err ex_D x) P w = P False (ticked 1 w)"
  "wp (wd_until ex_D x) T w = T None (ticked 1 w)" "wp (wd_with_timeout ex_D x t) U w = U () (ticked 1 w)" "wd_composed ex_D"
  "wd_check ex_D r b = noted EvCheck (authority_Check ex_xorc ex_generation ex_invocation r b)"
  "wd_acquire ex_D k = noted (\<lambda>x. EvAcquire k (acquired_handle x)) (source_Acquire ex_xorc ex_generation ex_invocation k)"
  "wd_existing ex_D h = source_Existing ex_xorc ex_generation ex_invocation h"
  "wd_intent ex_D h = noted (EvIntent h) (source_Intent ex_xorc ex_generation ex_invocation h)"
  "wd_close ex_D h = noted (\<lambda>_. EvClose h) (on_journal ex_xorc (\<lambda>_ j. ((), attempt_Close h j)) (\<lambda>_ _. []))"
  "wd_inspect ex_D s = noted (EvInspect s) (phase_Inspect ex_xorc ex_generation ex_invocation s)"
  "wd_call ex_D op s g t = noted (EvCall op s g t) (phase_call ex_xorc ex_generation ex_invocation op s g)"
  by (simp_all add: exec_deps_def ex_prims)

lemma ex_xleft: "Sub (ex_created + seconds 63) (ex_created + seconds 4) = seconds 59"
  by (simp add: Sub_def seconds_def MaxDuration_def MinDuration_def)

lemma ex_xremaining:
  "wp (remaining ex_D x (ex_created + seconds 4) (ex_created + seconds 63)) Q w = Q (seconds 59) (ticked 2 w)"
  "wp (time_left ex_D x (ex_created + seconds 63)) Q w = Q (seconds 59) (ticked 3 w)"
  by (simp_all add: remaining_def time_left_def wp_simps ex_deps_calls ex_xleft numeral_3_eq_3)

lemma ex_xcallBudget:
  "wp (callBudget ex_D (ex_created + seconds 4) (ex_created + seconds 63) 10) Q w = Q (seconds 45) (ticked 2 w)"
proof -
  have "wrap64 (seconds 59 - seconds 5) = seconds 54"
    by (subst wrap64_id) (simp_all add: seconds_def MinDuration_def MaxDuration_def)
  moreover have "min (seconds 45) (seconds 54) = seconds 45" "\<not> seconds 45 < seconds (uint (10 :: uint8)) + seconds 5"
    by (simp_all add: seconds_def)
  ultimately show ?thesis by (simp add: callBudget_def wp_simps ex_xremaining Let_def)
qed

lemma ex_xend: "earliest (ex_created + minutes 5) [dl_StartedAt (execution_Delivery (Some ex_execution)) + seconds 90,
    dl_ReceivedAt (execution_Delivery (Some ex_execution)) + minutes 1, dl_LeaseDeadline (execution_Delivery (Some ex_execution)) - seconds 30]
   = ex_created + seconds 63"
  by (simp add: execution_Delivery_def ex_execution_def duration_defs)

lemma ex_execute_core:
  "wp (Execute ex_D ex_arequest (rb_binding ex_resolved) (execution_Delivery (Some ex_execution)))
     (\<lambda>c w. xw_effects w = [Permitted 1 (ex_challenge 1) (ex_permit 1), Permitted 2 (ex_challenge 2) (ex_permit 2),
        Mutated Restart (ab_ContainerID ex_abinding) 10 (Some (ex_rd 4))] \<and> c = OutcomeUnknown \<and> xw_log w = [ex_raw] \<and> xw_ticks w = 171)
     \<lparr>xw_broker = ex_serving ex_journal, xw_log = [], xw_trace = [], xw_effects = [], xw_checkpoint = 0, xw_lastChallenge = [], xw_ticks = 25\<rparr>"
proof -
  have pos: "\<not> seconds 59 \<le> 0" "\<not> seconds 45 \<le> 0" "\<not> seconds 59 \<le> seconds 5"
    "\<not> seconds 45 \<le> Sub (ex_created + seconds 4) (ex_created + seconds 4)"
    by (simp_all add: seconds_def Sub_def MaxDuration_def MinDuration_def)
  have sel: "ar_GraceSeconds ex_arequest = 10" by (simp add: ex_arequest_def)
  have "valid ex_arequest (ex_abinding\<lparr>ab_Operations := [Restart]\<rparr>) (ex_created + seconds 4)" by code_simp
  then have valid: "valid ex_arequest (rb_binding ex_resolved) (ex_created + seconds 4)" by (simp add: ex_resolved_def)
  have fresh: "\<not> IsZero (dl_StartedAt (execution_Delivery (Some ex_execution)))"
    "\<not> dl_ReceivedAt (execution_Delivery (Some ex_execution)) < dl_StartedAt (execution_Delivery (Some ex_execution))"
    "\<not> seconds 30 < Sub (dl_ReceivedAt (execution_Delivery (Some ex_execution))) (dl_StartedAt (execution_Delivery (Some ex_execution)))"
    "\<not> ex_created + seconds 4 < dl_ReceivedAt (execution_Delivery (Some ex_execution))"
    by (simp_all add: execution_Delivery_def ex_execution_def IsZero_def ex_created_def seconds_def Sub_def MaxDuration_def MinDuration_def)
  have cls: "classify Restart Running = (Restarted, True)" by (simp add: classify_def)
  have u: "ex_usable ex_journal" "ex_usable ex_acquired" by (simp_all add: ex_usable_def)
  have rnd: "xo_random ex_xorc n = Some (replicate 16 (if n < 10 then 2 else if n < 60 then 3 else 4))"
    "xo_read ex_xorc n = Some (if n < 10 then ex_begin else if n < 20 then ex_delivered else if n < 60 then ex_reply 1 else ex_reply 2)" for n
    by (simp_all add: ex_xorc_def)
  show ?thesis
    using ex_nonces u
    by (simp add: Execute_def execute_attempt_def execute_inspected_def execute_mutation_def call_late_def wp_simps wp_noted ex_deps_calls
        valid fresh ex_xend pos sel Let_def ex_xremaining ex_xcallBudget ex_resolved_key cls ex_source_calls ex_call ex_prims
        ex_checked [where c = 1 and j = ex_journal] ex_checked [where c = 2 and j = ex_acquired] rnd del: earliest.simps)
qed

section \<open>The connection\<close>

definition ex_connected :: "broker_state \<Rightarrow> nat \<Rightarrow> exec_world" where
  "ex_connected b n =
     \<lparr>xw_broker = b, xw_log = [], xw_trace = [], xw_effects = [], xw_checkpoint = 0, xw_lastChallenge = [], xw_ticks = n\<rparr>"

lemma ex_b_frames:
  "bs_policy ex_b2 = ex_policy" "bs_journal ex_b2 = ex_journal" "bs_policy ex_b4 = ex_policy" "bs_journal ex_b4 = ex_journal"
  "bs_policy ex_b3 = ex_policy" "bs_clock ex_b2 = Some 0" "bs_readiness ex_b2 = Some ex_ready" "\<not> bs_quiescing ex_b2" "\<not> bs_executionClosed ex_b2"
  "\<not> bs_quiescing ex_b3" "\<not> bs_executionClosed ex_b3" "rv_nonce (reservation_at ex_b3 0) = ex_nonce"
  "rv_conversation (reservation_at ex_b3 0) = ex_conversation"
  by (simp_all add: ex_b4_def ex_b3_def ex_b2_def ex_b1_def ex_nonce_def reservation_at_def ex_reservation_def)

lemma ex_readiness: "readinessCurrent (ex_bio 2 r) ex_b2"
proof -
  have "ready_current ex_b2" using ex_policy_entries by (simp add: ready_current_def ex_b2_def ex_b1_def)
  moreover have "Begin (Some 0) (Some ex_ready) (Some (ex_rd 2)) = Some ex_conversation"
    using ex_capture [of 2] ex_continuous [of 0 2]
    by (simp add: Begin_def ex_ready_def ex_conversation_def) (simp add: ex_st_def ex_rd_def seconds_def wrap64_id MaxDuration_def MinDuration_def)
  ultimately show ?thesis by (simp add: readinessCurrent_def ex_b_frames)
qed

lemma ex_approval_for: "\<exists>a. approvalFor (Some 0) ex_b3 = Inr a"
proof -
  have "is_live ex_b3 0" by (simp add: is_live_def ex_b_frames) (simp add: ex_b3_def ex_nonce_def)
  moreover have "rv_policyHead (reservation_at ex_b3 0) = ''1''" by (simp add: ex_b3_def reservation_at_def ex_reservation_def)
  ultimately show ?thesis using ex_policy_entries by (simp add: approvalFor_def ex_b_frames)
qed

lemma ex_delivery_checks:
  assumes "n = 2 \<or> n = 4"
  shows "CheckDelivery (Some Background) (Some (ex_rd n)) ex_conversation"
    "DeliveryContext (Some Background) (Some (ex_rd n)) (\<lambda>_. False) ex_conversation \<noteq> None"
proof -
  show "CheckDelivery (Some Background) (Some (ex_rd n)) ex_conversation"
    using assms ex_capture [of n] ex_continuous [of 0 n] ex_continuous [of 2 n]
    by (auto simp: CheckDelivery_def Background_def ex_conversation_def ex_ready_def)
      (simp_all add: ex_st_def ex_rd_def seconds_def wrap64_id MaxDuration_def MinDuration_def)
  then show "DeliveryContext (Some Background) (Some (ex_rd n)) (\<lambda>_. False) ex_conversation \<noteq> None"
    by (simp add: DeliveryContext_def Let_def WithDeadline_def Background_def)
qed

lemma ex_selected: "wp (selectWorkerInvocation ex_xorc) Q (ex_connected ex_b2 5) = Q (Inr (Some ex_invocation)) (ex_connected ex_b4 17)"
proof -
  obtain a where a: "approvalFor (Some 0) ex_b3 = Inr a" using ex_approval_for by blast
  have io: "exec_io ex_xorc n = ex_bio (if n < 13 then 2 else 4) (replicate 16 (if n < 10 then 2 else if n < 60 then 3 else 4))" if "n < 20" for n
    using that ex_exec_io [of n] by (auto simp: ex_xorc_def)
  obtain ctx where ctx: "DeliveryContext (Some Background) (Some (ex_rd 2)) (bi_ctx_err (ex_bio 2 (replicate 16 2))) ex_conversation = Some ctx"
    using ex_delivery_checks(2) [of 2] by (auto simp: ex_bio_def)
  have rd: "xo_read ex_xorc 13 = Some ex_delivered" by (simp add: ex_xorc_def)
  have msg: "env_Version ex_delivered = WorkerVersion" "env_ConversationNonce ex_delivered = ex_nonce" "env_Ordinal ex_delivered = ''2''"
    "env_Kind ex_delivered = ''CLAIMED_EXECUTE''" "env_Payload ex_delivered = json_print (claimed_execute_json ex_execute_message)"
    "ce_Claim ex_execute_message = ex_bclaim" "ce_ClaimRTTNanos ex_execute_message = ''1000000000''"
    by (simp_all add: ex_delivered_def ex_execute_message_def)
  show ?thesis
    using ex_readiness ex_reserved a ctx ex_delivery_checks(1) ex_claimed ex_execute_decodes ex_rtt
    by (simp add: selectWorkerInvocation_def select_reserved_def select_answer_def select_delivered_def check_delivery_def writeLocal_def
        andalso_def wp_simps ex_prims ex_connected_def io ex_b_frames rd msg ex_invocation_def ex_bound_journal_def ex_commit_def)
qed

lemma ex_executed:
  "wp (consumer_execute ex_xorc ex_generation ex_invocation)
     (\<lambda>_ w. xw_effects w = [Permitted 1 (ex_challenge 1) (ex_permit 1), Permitted 2 (ex_challenge 2) (ex_permit 2),
        Mutated Restart (ab_ContainerID ex_abinding) 10 (Some (ex_rd 4))] \<and> xw_log w = [ex_raw]) (ex_connected ex_b4 20)"
proof -
  let ?Q = "\<lambda>w. xw_effects w = [Permitted 1 (ex_challenge 1) (ex_permit 1), Permitted 2 (ex_challenge 2) (ex_permit 2),
        Mutated Restart (ab_ContainerID ex_abinding) 10 (Some (ex_rd 4))] \<and> xw_log w = [ex_raw]"
  have u: "ex_usable ex_journal" by (simp add: ex_usable_def)
  have dg: "ReceiptDigest ex_order = Some ex_order_digest"
    using CanonicalRequest_total [OF ex_order_valid] by (simp add: ReceiptDigest_def ex_order_digest_def)
  have id: "rr_ActionID ex_order = ar_ActionID ex_arequest" by (simp add: ex_order_def)
  have late: "\<not> CheckReport (Some ex_execution) (Some (call_ctx ex_xorc 171)) (ex_clock 171)"
    by (simp add: CheckReport_def ex_clock_def Capture_def Let_def split: option.splits)
  have report: "wp (answer_report ex_xorc ex_generation ex_invocation) (\<lambda>x w. \<not> x \<and> ?Q w) w" if "?Q w" "xw_ticks w = 171" for w
    using that late dg id
    by (simp add: answer_report_def consumer_report_def check_report_def andalso_def wp_simps ex_prims ex_bclaim_valid)
  have core: "wp (execute_invocation ex_xorc ex_generation ex_invocation) (\<lambda>x w. \<not> x \<and> ?Q w) (ex_connected ex_b4 20)"
    unfolding execute_invocation_def
    using ex_current_invocation [of ex_journal] u wp_mono [OF ex_execute_core report]
    by (simp add: andalso_def wp_simps ex_prims ex_source ex_b_frames ex_check_execution ex_connected_def ex_serving_start)
  show ?thesis
    unfolding consumer_execute_def wp_bind [of "execute_invocation ex_xorc ex_generation ex_invocation"]
    by (rule wp_mono [OF core]) (auto simp: finish_reservation_def wp_simps ex_prims split_beta)
qed

lemma ex_served:
  "wp (serveOwned ex_xorc ex_generation)
     (\<lambda>_ w. xw_effects w = [Permitted 1 (ex_challenge 1) (ex_permit 1), Permitted 2 (ex_challenge 2) (ex_permit 2),
        Mutated Restart (ab_ContainerID ex_abinding) 10 (Some (ex_rd 4))] \<and> xw_log w = [ex_raw]) (ex_connected ex_b2 0)"
proof -
  have rd: "xo_read ex_xorc 0 = Some ex_begin" by (simp add: ex_xorc_def)
  have msg: "env_Version ex_begin = WorkerVersion" "env_Kind ex_begin = ''BEGIN''" by (simp_all add: ex_begin_def)
  have u: "ex_usable ex_journal" by (simp add: ex_usable_def)
  have at: "xw_broker (ex_connected b n) = b" "xw_ticks (ex_connected b n) = n" "(ex_connected b n)\<lparr>xw_ticks := m\<rparr> = ex_connected b m" for b n m
    by (simp_all add: ex_connected_def)
  show ?thesis
    unfolding serveOwned_def serve_selected_def
    using ex_executed u by (simp add: wp_simps ex_prims rd msg at ex_source ex_b_frames ex_selected)
qed

lemma ex_connected_start: "exec_start (ex_connected ex_b2 0)"
proof -
  have "broker_run ex_b2"
    by (rule broker_run.step [OF broker_run.step [OF broker_run.start [OF ex_started] broker_step.begin_control [OF ex_controlled]]
          broker_step.complete_control [OF ex_completed]])
  then show ?thesis using ex_runs(1) by (simp add: exec_start_def ex_connected_def ex_b_frames)
qed

end
