(* ===== verification/ServeProperties.thy ===== *)
theory ServeProperties
  imports ServeExample
begin

text \<open>What a worker's connection may bring about outside, from its greeting to its end.\<close>

text \<open>C32. When serving a connection calls the engine, then once and under a claim that a reachable broker bound: after two decisions that
  the broker challenged the worker for, the first and the second checkpoint of that claim under different
  challenges, each permitting it; for the container, the operation and the grace period of the claim; at
  least 25 seconds before its lease expires; and with the intent of its action newly in the journal, where
  no action is dispatched twice. Other connections may move the broker and the journal at any time.\<close>

theorem engine_calls_authorised:
  assumes "exec_ok orc" "exec_start w" "run_state (serveOwned orc generation) w = (x, w')"
    and "Mutated op s grace read \<in> set (drop (length (xw_effects w)) (xw_effects w'))"
  shows "\<exists>i first d second d' k raw new now lease.
     bound_invocation i \<and> xw_effects w' = xw_effects w @ [Permitted 1 first d, Permitted 2 second d', Mutated op s grace read]
     \<and> first \<noteq> second \<and> MatchExecutionDecision (iv_claim i) (show_nat 1) first d
     \<and> MatchExecutionDecision (iv_claim i) (show_nat 2) second d'
     \<and> s = ab_ContainerID (rb_binding (iv_resolved i)) \<and> op = rr_Operation (cl_Request (iv_claim i))
     \<and> grace = ar_GraceSeconds (key_request (rb_key (iv_resolved i)))
     \<and> read = Some now \<and> ParseHTTPTime (cl_LeaseExpiresAt (iv_claim i)) = Some lease \<and> rd_wall now + seconds 25 < lease
     \<and> NewJournalKey (key_request (rb_key (iv_resolved i))) (rb_binding (iv_resolved i)) = Some k
     \<and> CanonicalJournalMetadata k = Some raw
     \<and> xw_log w' = xw_log w @ new \<and> raw \<in> set new \<and> distinct (xw_log w @ new)"
proof -
  from wpD [OF serveOwned_executed [OF assms(1,2)] assms(3)] assms(4) obtain i where i: "bound_invocation i" "executed i w w'"
    by (auto simp: moves_def)
  then obtain fx new where fx: "xw_effects w' = xw_effects w @ fx" "xw_log w' = xw_log w @ new" "distinct (xw_log w @ new)" "authorised i new fx"
    by (auto simp: executed_def)
  have "Mutated op s grace read \<in> set fx" using assms(4) by (simp add: fx(1))
  with fx(4) obtain first d second d' k raw where
    a: "fx = [Permitted 1 first d, Permitted 2 second d', Mutated op s grace read]" "first \<noteq> second" "list_all (good i) fx"
      "NewJournalKey (key_request (rb_key (iv_resolved i))) (rb_binding (iv_resolved i)) = Some k" "CanonicalJournalMetadata k = Some raw" "raw \<in> set new"
    unfolding authorised_def by blast
  then obtain parent where g: "MatchExecutionDecision (iv_claim i) (show_nat 1) first d" "MatchExecutionDecision (iv_claim i) (show_nat 2) second d'"
    "CheckMutation (execution_Context (Some (iv_execution i)) parent) s op read" "grace = ar_GraceSeconds (key_request (rb_key (iv_resolved i)))"
    by auto
  obtain b io rtt b' where "broker_run b"
    "bindClaim io (Some (iv_reservation i)) (iv_claim i) rtt b = (Inr (iv_journal i, iv_execution i, iv_resolved i), b')"
    using i(1) by (auto simp: bound_invocation_def)
  from bound_mutation [OF this g(3)] show ?thesis using i(1) fx a g by blast
qed

theorem engine_calls_authorised_witness:
  "\<exists>x w' i new. run_state (serveOwned ex_xorc ex_generation) (ex_connected ex_b2 0) = (x, w') \<and> bound_invocation i
     \<and> xw_effects w' = [Permitted 1 (ex_challenge 1) (ex_permit 1), Permitted 2 (ex_challenge 2) (ex_permit 2),
         Mutated Restart (ab_ContainerID ex_abinding) 10 (Some (ex_rd 4))]
     \<and> MatchExecutionDecision (iv_claim i) (show_nat 1) (ex_challenge 1) (ex_permit 1) \<and> xw_log w' = new \<and> new \<noteq> []"
proof -
  obtain x w' where run: "run_state (serveOwned ex_xorc ex_generation) (ex_connected ex_b2 0) = (x, w')" by fastforce
  from wpD [OF ex_served this] have w': "xw_effects w' = [Permitted 1 (ex_challenge 1) (ex_permit 1), Permitted 2 (ex_challenge 2) (ex_permit 2),
         Mutated Restart (ab_ContainerID ex_abinding) 10 (Some (ex_rd 4))]" "xw_log w' = [ex_raw]" by auto
  have "Mutated Restart (ab_ContainerID ex_abinding) 10 (Some (ex_rd 4)) \<in> set (drop (length (xw_effects (ex_connected ex_b2 0))) (xw_effects w'))"
    by (simp add: w' ex_connected_def)
  from engine_calls_authorised [OF ex_xorc_ok ex_connected_start run this]
  show ?thesis using run w' by (auto simp: ex_connected_def)
qed

end
