(* ===== verification/EnrollmentCoord.thy ===== *)
theory EnrollmentCoord
  imports UploadState ActionProtocol
begin

text \<open>
  The enrollment coordinator, \<^verbatim>\<open>internal/enrollmentcoord\<close>: one attempt to exchange a grant for a connector
  credential. Its collaborators are parameters that may change a world \<^typ>\<open>'w\<close> of their own. The bytes of
  secrets lie in buffers, one for every slice the coordinator receives or allocates, so that clearing a
  slice is visible. The state also keeps the calls that have effects outside, in order, with whether
  they succeeded.
\<close>

section \<open>Messages and state\<close>

datatype enroll_err =
    EErrConfig
  | EErrCanceled
  | EErrBusy
  | EErrUsed
  | EErrGrant
  | EErrInput
  | EErrRandom
  | EErrAttempt

datatype enroll_outcome = Ready | Retryable | EnrollRejected | RecoveryRequired

datatype exchange_outcome =
    ExchangeAccepted
  | ExchangeRateLimited
  | ExchangeRejected
  | ExchangeAmbiguous
  | OtherExchange string

record enroll_grant =
  eg_ExpectedServerID :: string
  eg_Secret :: bytes

record exchange_response =
  xr_Outcome :: exchange_outcome
  xr_ServerID :: string
  xr_ConnectorSecret :: bytes

datatype enroll_event =
    Began upload_binding bool
  | Exchanged upload_binding bytes bool
  | Created upload_binding bytes bool
  | Provisioned upload_binding bool
  | MarkedReady upload_binding bool

text \<open>
  A collaborator returns what it returns with whether it succeeded: a grant or a response comes even with an
  error, since its secret is cleared then, and so do the random bytes that were read.
\<close>

record 'w enroll_deps =
  en_ctx_err :: "('w, bool) state"
  en_Read :: "('w, enroll_grant \<times> bool) state"
  en_Random :: "('w, bytes \<times> bool) state"
  en_Begin :: "upload_binding \<Rightarrow> ('w, bool) state"
  en_Exchange :: "upload_binding \<Rightarrow> bytes \<Rightarrow> ('w, exchange_response \<times> bool) state"
  en_Create :: "upload_binding \<Rightarrow> bytes \<Rightarrow> ('w, bool) state"
  en_Provision :: "upload_binding \<Rightarrow> ('w, bool) state"
  en_MarkReady :: "upload_binding \<Rightarrow> ('w, bool) state"

record 'w coordinator =
  co_running :: bool
  co_used :: bool
  co_buffers :: "bytes list"
  co_log :: "enroll_event list"
  co_world :: 'w

definition serverIDLength :: nat where "serverIDLength = 36"
definition grantLength :: nat where "grantLength = 47"
definition credentialLength :: nat where "credentialLength = 47"

definition serverPattern :: "string \<Rightarrow> bool" where
  "serverPattern s = prefixed_hex s ''srv_'' 32"

definition connectorPattern :: "string \<Rightarrow> bool" where
  "connectorPattern s = prefixed_hex s ''agent_'' 32"

definition secret_char :: "char \<Rightarrow> bool" where
  "secret_char c \<longleftrightarrow> alphanumeric c \<or> c = CHR ''_'' \<or> c = CHR ''-''"

definition secret_text :: "string \<Rightarrow> bytes \<Rightarrow> bool" where
  "secret_text prefix bs \<longleftrightarrow>
     length bs = 47 \<and> take 4 (string_of bs) = prefix \<and> list_all secret_char (drop 4 (string_of bs))"

definition grantPattern :: "bytes \<Rightarrow> bool" where
  "grantPattern bs = secret_text ''hle_'' bs"

definition credentialPattern :: "bytes \<Rightarrow> bool" where
  "credentialPattern bs = secret_text ''hlc_'' bs"

section \<open>Buffers and calls\<close>

definition alloc :: "bytes \<Rightarrow> ('w coordinator, nat) state" where
  "alloc bs = do {
     s \<leftarrow> State_Monad.get;
     State_Monad.set (s\<lparr>co_buffers := co_buffers s @ [bs]\<rparr>);
     ret (length (co_buffers s))
   }"

definition contents :: "nat \<Rightarrow> ('w coordinator, bytes) state" where
  "contents a = do { s \<leftarrow> State_Monad.get; ret (co_buffers s ! a) }"

definition clear :: "nat \<Rightarrow> ('w coordinator, unit) state" where
  "clear a = State_Monad.update (\<lambda>s. s\<lparr>co_buffers := (co_buffers s)[a := replicate (length (co_buffers s ! a)) 0]\<rparr>)"

definition outside :: "('w, 'a) state \<Rightarrow> ('w coordinator, 'a) state" where
  "outside m = zoom co_world (\<lambda>w s. s\<lparr>co_world := w\<rparr>) m"

definition note_event :: "enroll_event \<Rightarrow> ('w coordinator, unit) state" where
  "note_event e = State_Monad.update (\<lambda>s. s\<lparr>co_log := co_log s @ [e]\<rparr>)"

section \<open>Run\<close>

definition coord_start :: "('w coordinator, enroll_err option) state" where
  "coord_start = do {
     s \<leftarrow> State_Monad.get;
     if co_running s then ret (Some EErrBusy)
     else if co_used s then ret (Some EErrUsed)
     else do { State_Monad.set (s\<lparr>co_running := True, co_used := True\<rparr>); ret None }
   }"

definition coord_finish :: "('w coordinator, unit) state" where
  "coord_finish = State_Monad.update (\<lambda>s. s\<lparr>co_running := False\<rparr>)"

definition fixedPreAttemptError :: "'w enroll_deps \<Rightarrow> enroll_err \<Rightarrow> ('w coordinator, enroll_err + enroll_outcome) state" where
  "fixedPreAttemptError D fallback = do {
     canceled \<leftarrow> outside (en_ctx_err D);
     ret (Inl (if canceled then EErrCanceled else fallback))
   }"

text \<open>From the copied connector secret to the end.\<close>

definition run_credential :: "'w enroll_deps \<Rightarrow> upload_binding \<Rightarrow> nat \<Rightarrow> ('w coordinator, enroll_outcome) state" where
  "run_credential D b secret = do {
     bs \<leftarrow> contents secret;
     if \<not> credentialPattern bs then ret RecoveryRequired
     else do {
       canceled \<leftarrow> outside (en_ctx_err D);
       if canceled then ret RecoveryRequired
       else do {
         credential \<leftarrow> alloc bs;
         created \<leftarrow> outside (en_Create D b bs);
         note_event (Created b bs created);
         clear credential;
         if \<not> created then ret RecoveryRequired
         else do {
           canceled \<leftarrow> outside (en_ctx_err D);
           if canceled then ret RecoveryRequired
           else do {
             provisioned \<leftarrow> outside (en_Provision D b);
             note_event (Provisioned b provisioned);
             if \<not> provisioned then ret RecoveryRequired
             else do {
               canceled \<leftarrow> outside (en_ctx_err D);
               if canceled then ret RecoveryRequired
               else do {
                 marked \<leftarrow> outside (en_MarkReady D b);
                 note_event (MarkedReady b marked);
                 ret (if marked then Ready else RecoveryRequired)
               }
             }
           }
         }
       }
     }
   }"

text \<open>The answer of the exchange; \<open>secret\<close> is the slice that came with it.\<close>

definition run_response ::
  "'w enroll_deps \<Rightarrow> upload_binding \<Rightarrow> exchange_response \<Rightarrow> nat \<Rightarrow> ('w coordinator, enroll_outcome) state" where
  "run_response D b response secret = do {
     bs \<leftarrow> contents secret;
     if xr_Outcome response = ExchangeRateLimited \<or> xr_Outcome response = ExchangeRejected then
       (if xr_ServerID response \<noteq> [] \<or> length bs \<noteq> 0 then do { clear secret; ret RecoveryRequired }
        else ret (if xr_Outcome response = ExchangeRateLimited then Retryable else EnrollRejected))
     else if xr_Outcome response \<noteq> ExchangeAccepted then do { clear secret; ret RecoveryRequired }
     else if xr_ServerID response \<noteq> ub_ServerID b \<or> length bs \<noteq> credentialLength then do { clear secret; ret RecoveryRequired }
     else do {
       copied \<leftarrow> alloc bs;
       clear secret;
       outcome \<leftarrow> run_credential D b copied;
       clear copied;
       ret outcome
     }
   }"

text \<open>From the begun attempt on; \<open>grant\<close> is the coordinator's copy of the grant.\<close>

definition run_exchange :: "'w enroll_deps \<Rightarrow> upload_binding \<Rightarrow> nat \<Rightarrow> ('w coordinator, enroll_outcome) state" where
  "run_exchange D b grant = do {
     canceled \<leftarrow> outside (en_ctx_err D);
     if canceled then ret RecoveryRequired
     else do {
       bs \<leftarrow> contents grant;
       request \<leftarrow> alloc bs;
       (response, ok) \<leftarrow> outside (en_Exchange D b bs);
       note_event (Exchanged b bs ok);
       secret \<leftarrow> alloc (xr_ConnectorSecret response);
       clear request;
       if \<not> ok then do { clear secret; ret RecoveryRequired }
       else run_response D b response secret
     }
   }"

text \<open>With a copy of the grant's secret.\<close>

definition run_granted :: "'w enroll_deps \<Rightarrow> string \<Rightarrow> nat \<Rightarrow> ('w coordinator, enroll_err + enroll_outcome) state" where
  "run_granted D server grant = do {
     bs \<leftarrow> contents grant;
     if \<not> serverPattern server \<or> \<not> grantPattern bs then ret (Inl EErrInput)
     else do {
       (identity, ok) \<leftarrow> outside (en_Random D);
       buffer \<leftarrow> alloc identity;
       if \<not> ok then do { clear buffer; fixedPreAttemptError D EErrRandom }
       else do {
         let b = \<lparr>ub_ServerID = server, ub_ConnectorID = ''agent_'' @ hex_encode identity\<rparr>;
         clear buffer;
         if \<not> connectorPattern (ub_ConnectorID b) then ret (Inl EErrRandom)
         else do {
           begun \<leftarrow> outside (en_Begin D b);
           note_event (Began b begun);
           if \<not> begun then fixedPreAttemptError D EErrAttempt
           else do { outcome \<leftarrow> run_exchange D b grant; ret (Inr outcome) }
         }
       }
     }
   }"

definition run_started :: "'w enroll_deps \<Rightarrow> ('w coordinator, enroll_err + enroll_outcome) state" where
  "run_started D = do {
     canceled \<leftarrow> outside (en_ctx_err D);
     if canceled then ret (Inl EErrCanceled)
     else do {
       (grant, ok) \<leftarrow> outside (en_Read D);
       given \<leftarrow> alloc (eg_Secret grant);
       if \<not> ok then do { clear given; fixedPreAttemptError D EErrGrant }
       else if length (eg_ExpectedServerID grant) \<noteq> serverIDLength \<or> length (eg_Secret grant) \<noteq> grantLength
       then do { clear given; ret (Inl EErrInput) }
       else do {
         copied \<leftarrow> alloc (eg_Secret grant);
         clear given;
         result \<leftarrow> run_granted D (eg_ExpectedServerID grant) copied;
         clear copied;
         ret result
       }
     }
   }"

text \<open>\<^verbatim>\<open>Run\<close>; \<open>present\<close> tells whether the context is not \<^verbatim>\<open>nil\<close>.\<close>

definition coord_Run :: "'w enroll_deps \<Rightarrow> bool \<Rightarrow> ('w coordinator, enroll_err + enroll_outcome) state" where
  "coord_Run D present =
     (if \<not> present then ret (Inl EErrInput)
      else do {
        refused \<leftarrow> coord_start;
        case refused of
          Some e \<Rightarrow> ret (Inl e)
        | None \<Rightarrow> do { result \<leftarrow> run_started D; coord_finish; ret result }
      })"

text \<open>\<^verbatim>\<open>newCoordinator\<close>; \<open>complete\<close> tells that no collaborator is \<^verbatim>\<open>nil\<close>.\<close>

definition newCoordinator :: "bool \<Rightarrow> 'w \<Rightarrow> enroll_err + 'w coordinator" where
  "newCoordinator complete w =
     (if \<not> complete then Inl EErrConfig
      else Inr \<lparr>co_running = False, co_used = False, co_buffers = [], co_log = [], co_world = w\<rparr>)"

section \<open>What a run does\<close>

text \<open>\<open>grew s t z l\<close>: from \<open>s\<close> to \<open>t\<close> the buffers \<open>z\<close> and the calls \<open>l\<close> were added and nothing else changed but the world.\<close>

definition grew :: "'w coordinator \<Rightarrow> 'w coordinator \<Rightarrow> bytes list \<Rightarrow> enroll_event list \<Rightarrow> bool" where
  "grew s t z l \<longleftrightarrow> co_buffers t = co_buffers s @ z \<and> co_log t = co_log s @ l \<and> co_running t = co_running s \<and> co_used t = co_used s"

definition cleared :: "bytes list \<Rightarrow> bool" where
  "cleared z \<longleftrightarrow> list_all (list_all (\<lambda>x. x = 0)) z"

lemma cleared_simps [simp]:
  "cleared []" "cleared (x # z) \<longleftrightarrow> list_all (\<lambda>x. x = 0) x \<and> cleared z" "cleared (z @ y) \<longleftrightarrow> cleared z \<and> cleared y"
  by (auto simp: cleared_def)

lemma zeros_cleared [simp]: "list_all (\<lambda>x. x = 0) (replicate n 0)"
  by (simp add: list_all_iff)

lemma wp_alloc [wp_simps]: "wp (alloc bs) Q s = Q (length (co_buffers s)) (s\<lparr>co_buffers := co_buffers s @ [bs]\<rparr>)"
  by (simp add: alloc_def wp_simps)

lemma wp_contents [wp_simps]: "wp (contents a) Q s = Q (co_buffers s ! a) s"
  by (simp add: contents_def wp_simps)

lemma wp_clear [wp_simps]:
  "wp (clear a) Q s = Q () (s\<lparr>co_buffers := (co_buffers s)[a := replicate (length (co_buffers s ! a)) 0]\<rparr>)"
  by (simp add: clear_def wp_simps)

lemma wp_note [wp_simps]: "wp (note_event e) Q s = Q () (s\<lparr>co_log := co_log s @ [e]\<rparr>)"
  by (simp add: note_event_def wp_simps)

text \<open>Nothing is known of a collaborator but that it only changes its own world.\<close>

lemma wp_outside: "(\<And>x w. Q x (s\<lparr>co_world := w\<rparr>)) \<Longrightarrow> wp (outside m) Q s"
  by (simp add: outside_def wp_simps wp_def split: prod.splits)

lemma grew_trans: "grew s t z l \<Longrightarrow> grew t u z' l' \<Longrightarrow> grew s u (z @ z') (l @ l')"
  by (simp add: grew_def)

definition credential_log :: "upload_binding \<Rightarrow> bytes \<Rightarrow> enroll_outcome \<Rightarrow> enroll_event list \<Rightarrow> bool" where
  "credential_log b bs out l \<longleftrightarrow>
     (out = Ready \<and> credentialPattern bs \<and> l = [Created b bs True, Provisioned b True, MarkedReady b True])
     \<or> (out = RecoveryRequired \<and> (l = [] \<or> credentialPattern bs \<and>
          (l = [Created b bs False] \<or> l = [Created b bs True] \<or> l = [Created b bs True, Provisioned b False]
             \<or> l = [Created b bs True, Provisioned b True] \<or> l = [Created b bs True, Provisioned b True, MarkedReady b False])))"

lemma run_credential_post:
  assumes "a < length (co_buffers s)"
  shows "wp (run_credential D b a) (\<lambda>out t. \<exists>z l. grew s t z l \<and> cleared z \<and> credential_log b (co_buffers s ! a) out l) s"
  unfolding run_credential_def using assms
  by (auto simp: wp_simps grew_def credential_log_def nth_append intro!: wp_outside)

definition exchange_log :: "upload_binding \<Rightarrow> bytes \<Rightarrow> enroll_outcome \<Rightarrow> enroll_event list \<Rightarrow> bool" where
  "exchange_log b grant out l \<longleftrightarrow>
     (l = [] \<and> out = RecoveryRequired)
     \<or> (l = [Exchanged b grant False] \<and> out = RecoveryRequired)
     \<or> (l = [Exchanged b grant True] \<and> (out = RecoveryRequired \<or> out = Retryable \<or> out = EnrollRejected))
     \<or> (\<exists>secret k. l = Exchanged b grant True # k \<and> credential_log b secret out k)"

lemma run_response_post:
  assumes "a < length (co_buffers s)"
  shows "wp (run_response D b response a) (\<lambda>out t. \<exists>z l bs. co_buffers t = (co_buffers s)[a := replicate (length (co_buffers s ! a)) 0] @ z
      \<and> co_log t = co_log s @ l \<and> co_running t = co_running s \<and> co_used t = co_used s \<and> cleared z
      \<and> (credential_log b bs out l \<or> l = [] \<and> (out = RecoveryRequired \<or> out = Retryable \<or> out = EnrollRejected))) s"
proof -
  let ?bs = "co_buffers s ! a"
  have empty: "length ?bs = 0 \<Longrightarrow> (co_buffers s)[a := []] = co_buffers s" using assms by (metis length_0_conv list_update_id)
  show ?thesis
    unfolding run_response_def using assms empty
    by (auto simp: wp_simps grew_def list_update_append nth_append intro!: wp_mono [OF run_credential_post])
qed

lemma run_exchange_post:
  assumes "a < length (co_buffers s)"
  shows "wp (run_exchange D b a) (\<lambda>out t. \<exists>z l. grew s t z l \<and> cleared z \<and> exchange_log b (co_buffers s ! a) out l) s"
  unfolding run_exchange_def using assms
  by (auto simp: wp_simps grew_def exchange_log_def list_update_append nth_append intro!: wp_outside wp_mono [OF run_response_post])

definition granted_log :: "string \<Rightarrow> bytes \<Rightarrow> enroll_err + enroll_outcome \<Rightarrow> enroll_event list \<Rightarrow> bool" where
  "granted_log server grant result l \<longleftrightarrow>
     (case result of
        Inl e \<Rightarrow> l = [] \<or> (\<exists>b. l = [Began b False])
      | Inr out \<Rightarrow> \<exists>b k. ub_ServerID b = server \<and> serverPattern server \<and> connectorPattern (ub_ConnectorID b) \<and> grantPattern grant
          \<and> l = Began b True # k \<and> exchange_log b grant out k)"

lemma run_granted_post:
  assumes "a < length (co_buffers s)"
  shows "wp (run_granted D server a) (\<lambda>res t. \<exists>z l. grew s t z l \<and> cleared z \<and> granted_log server (co_buffers s ! a) res l) s"
  unfolding run_granted_def fixedPreAttemptError_def Let_def using assms
  by (auto simp: wp_simps grew_def granted_log_def list_update_append nth_append intro!: wp_outside wp_mono [OF run_exchange_post])

definition started_log :: "enroll_err + enroll_outcome \<Rightarrow> enroll_event list \<Rightarrow> bool" where
  "started_log result l \<longleftrightarrow> (case result of Inl e \<Rightarrow> l = [] | Inr out \<Rightarrow> False) \<or> (\<exists>server grant. granted_log server grant result l)"

lemma run_started_post:
  "wp (run_started D) (\<lambda>res t. \<exists>z l. grew s t z l \<and> cleared z \<and> started_log res l) s"
  unfolding run_started_def fixedPreAttemptError_def
  by (auto simp: wp_simps grew_def started_log_def list_update_append nth_append intro!: wp_outside wp_mono [OF run_granted_post])

lemma coord_Run_post:
  assumes "\<not> co_running s" "\<not> co_used s"
  shows "wp (coord_Run D True) (\<lambda>res t. \<exists>z l. co_buffers t = co_buffers s @ z \<and> co_log t = co_log s @ l \<and> \<not> co_running t \<and> co_used t
      \<and> cleared z \<and> started_log res l) s"
  unfolding coord_Run_def coord_start_def coord_finish_def using assms
  by (auto simp: wp_simps grew_def intro!: wp_mono [OF run_started_post])

lemma coord_Run_refused:
  assumes "\<not> co_running s" "co_used s"
  shows "run_state (coord_Run D True) s = (Inl EErrUsed, s)"
  using assms by (simp add: coord_Run_def coord_start_def)

end
