(* ===== verification/EnrollmentProperties.thy ===== *)
theory EnrollmentProperties
  imports EnrollmentCoord
begin

text \<open>
  What one enrollment attempt guarantees, with an attempt that succeeds.
\<close>

definition ex_secret :: "string \<Rightarrow> bytes" where
  "ex_secret prefix = bytes_of (prefix @ replicate 43 (CHR ''x''))"

definition ex_enrollment :: "unit enroll_deps" where
  "ex_enrollment =
     \<lparr>en_ctx_err = State_Monad.return False,
      en_Read = State_Monad.return (\<lparr>eg_ExpectedServerID = ''srv_'' @ replicate 32 (CHR ''a''), eg_Secret = ex_secret ''hle_''\<rparr>, True),
      en_Random = State_Monad.return (replicate 16 7, True), en_Begin = (\<lambda>_. State_Monad.return True),
      en_Exchange = (\<lambda>b _. State_Monad.return
        (\<lparr>xr_Outcome = ExchangeAccepted, xr_ServerID = ub_ServerID b, xr_ConnectorSecret = ex_secret ''hlc_''\<rparr>, True)),
      en_Create = (\<lambda>_ _. State_Monad.return True), en_Provision = (\<lambda>_. State_Monad.return True),
      en_MarkReady = (\<lambda>_. State_Monad.return True)\<rparr>"

definition ex_coordinator :: "unit coordinator" where
  "ex_coordinator = \<lparr>co_running = False, co_used = False, co_buffers = [], co_log = [], co_world = ()\<rparr>"

lemma ex_secret_length: "length (ex_secret p) = length p + 43"
  by (simp add: ex_secret_def)

lemma ex_enrollment_patterns:
  "grantPattern (ex_secret ''hle_'')" "credentialPattern (ex_secret ''hlc_'')" "serverPattern (''srv_'' @ replicate 32 (CHR ''a''))"
  "connectorPattern (''agent_'' @ hex_encode (replicate 16 7))"
  by code_simp+

lemma wp_outside_return [wp_simps]: "wp (outside (State_Monad.return x)) Q s = Q x s"
  by (simp add: outside_def wp_def zoom_def)

lemma ex_enrolls: "fst (run_state (coord_Run ex_enrollment True) ex_coordinator) = Inr Ready"
proof -
  have deps: "en_ctx_err ex_enrollment = State_Monad.return False" "en_Begin ex_enrollment b = State_Monad.return True"
    "en_Create ex_enrollment b bs = State_Monad.return True" "en_Provision ex_enrollment b = State_Monad.return True"
    "en_MarkReady ex_enrollment b = State_Monad.return True" "en_Random ex_enrollment = State_Monad.return (replicate 16 7, True)"
    "en_Read ex_enrollment = State_Monad.return (\<lparr>eg_ExpectedServerID = ''srv_'' @ replicate 32 (CHR ''a''), eg_Secret = ex_secret ''hle_''\<rparr>, True)"
    "en_Exchange ex_enrollment b bs = State_Monad.return
        (\<lparr>xr_Outcome = ExchangeAccepted, xr_ServerID = ub_ServerID b, xr_ConnectorSecret = ex_secret ''hlc_''\<rparr>, True)" for b bs
    by (simp_all add: ex_enrollment_def)
  have "wp (coord_Run ex_enrollment True) (\<lambda>res _. res = Inr Ready) ex_coordinator"
    using ex_enrollment_patterns
    by (simp add: coord_Run_def coord_start_def coord_finish_def run_started_def run_granted_def run_exchange_def run_response_def
        run_credential_def Let_def wp_simps deps ex_coordinator_def ex_secret_length serverIDLength_def grantLength_def credentialLength_def)
  then show ?thesis by (simp add: wp_def split: prod.splits)
qed

section \<open>Properties\<close>

text \<open>C10. One run of a fresh coordinator: an error is returned only while no attempt was begun; readiness is
  returned only after the attempt was begun, the grant exchanged, the credential created, the ledger
  provisioned and the attempt marked, in this order and all for one binding; a retry or a rejection is
  reported only when nothing was created. Whatever the collaborators answer, every buffer that held a secret
  is zero at the end, and a second run is refused and changes nothing.\<close>

theorem enrollment_attempt:
  assumes "newCoordinator complete w = Inr c" "run_state (coord_Run D True) c = (res, t)"
  shows "(\<forall>e. res = Inl e \<longrightarrow> co_log t = [] \<or> (\<exists>b. co_log t = [Began b False]))
     \<and> (res = Inr Ready \<longrightarrow> (\<exists>b grant secret. serverPattern (ub_ServerID b) \<and> connectorPattern (ub_ConnectorID b)
          \<and> grantPattern grant \<and> credentialPattern secret
          \<and> co_log t = [Began b True, Exchanged b grant True, Created b secret True, Provisioned b True, MarkedReady b True]))
     \<and> (res = Inr Retryable \<or> res = Inr EnrollRejected \<longrightarrow> (\<exists>b grant. co_log t = [Began b True, Exchanged b grant True]))
     \<and> (\<forall>buffer \<in> set (co_buffers t). \<forall>x \<in> set buffer. x = 0)
     \<and> run_state (coord_Run D' True) t = (Inl EErrUsed, t)"
proof -
  have c: "\<not> co_running c" "\<not> co_used c" "co_buffers c = []" "co_log c = []"
    using assms(1) by (auto simp: newCoordinator_def split: if_splits)
  from coord_Run_post [OF c(1,2), of D] obtain z l where t: "co_buffers t = z" "co_log t = l" "\<not> co_running t" "co_used t" "cleared z" "started_log res l"
    using assms(2) c(3,4) by (auto simp: wp_def)
  have "\<forall>buffer \<in> set (co_buffers t). \<forall>x \<in> set buffer. x = 0" using t by (simp add: cleared_def list_all_iff)
  moreover have "run_state (coord_Run D' True) t = (Inl EErrUsed, t)" by (rule coord_Run_refused [OF t(3,4)])
  moreover have "res = Inl e \<Longrightarrow> l = [] \<or> (\<exists>b. l = [Began b False])" for e
    using t(6) by (auto simp: started_log_def granted_log_def)
  moreover have "res = Inr Ready \<Longrightarrow> \<exists>b grant secret. serverPattern (ub_ServerID b) \<and> connectorPattern (ub_ConnectorID b)
          \<and> grantPattern grant \<and> credentialPattern secret
          \<and> l = [Began b True, Exchanged b grant True, Created b secret True, Provisioned b True, MarkedReady b True]"
    using t(6) by (auto simp: started_log_def granted_log_def exchange_log_def credential_log_def)
  moreover have "res = Inr Retryable \<or> res = Inr EnrollRejected \<Longrightarrow> \<exists>b grant. l = [Began b True, Exchanged b grant True]"
    using t(6) by (auto simp: started_log_def granted_log_def exchange_log_def credential_log_def)
  ultimately show ?thesis using t(2) by blast
qed

theorem enrollment_attempt_witness:
  "\<exists>t b grant secret. run_state (coord_Run ex_enrollment True) ex_coordinator = (Inr Ready, t)
     \<and> co_log t = [Began b True, Exchanged b grant True, Created b secret True, Provisioned b True, MarkedReady b True]
     \<and> run_state (coord_Run ex_enrollment True) t = (Inl EErrUsed, t)"
proof -
  have c: "newCoordinator True () = Inr ex_coordinator" by (simp add: newCoordinator_def ex_coordinator_def)
  obtain t where t: "run_state (coord_Run ex_enrollment True) ex_coordinator = (Inr Ready, t)"
    using ex_enrolls by (metis prod.collapse)
  show ?thesis using enrollment_attempt [OF c t] t by blast
qed

end
