(* ===== verification/Spec2Isabelle.thy ===== *)
theory Spec2Isabelle
  imports UploadProperties UploadLoopProperties ActionProperties ProtocolProperties BrokerProperties ServeProperties EnrollmentProperties
begin

text \<open>
  A verification of the parts of Home Lab Observer that decide what leaves the host and what is done to
  its containers. The program is written in Go, under \<^verbatim>\<open>src/internal\<close>. Its parts and how they work together:

  \<^item> an installation is enrolled once (\<^verbatim>\<open>enrollmentcoord\<close>), which provisions its upload ledger;
  \<^item> the uploader paces (\<^verbatim>\<open>uploadloop\<close>) an admission machine (\<^verbatim>\<open>uploadstate\<close>) that reserves a sequence number in the
    ledger (\<^verbatim>\<open>uploadledger\<close>, one SQLite row) before it sends a snapshot under it;
  \<^item> for container actions a broker (\<^verbatim>\<open>actionbroker\<close>) holds the local policy, reserves a conversation, binds a claim
    of the platform to one mapping of the policy within a time budget (\<^verbatim>\<open>actionbudget\<close>), and runs the action
    core (\<^verbatim>\<open>actioncore\<close>) on the durable action journal (\<^verbatim>\<open>actionjournal\<close>);
  \<^item> all of them speak the closed messages of \<^verbatim>\<open>actionprotocol\<close>.

  \<^bold>\<open>How code is modelled.\<close> Structs are records, enumerations datatypes (with a constructor for every other
  string where the Go type is a string), slices lists (optional where \<^verbatim>\<open>nil\<close> matters), strings and bytes
  lists, errors values of a sum or option type. Integers that may wrap are words or go through \<open>wrap64\<close>.
  An operation that calls collaborators is a program of the state monad over a world (\<open>Prelude\<close>, with the
  weakest preconditions \<open>wp\<close>); code that only asks (a clock, a context, the operating system, a database) takes
  the answers as arguments. Nothing is assumed of an answer unless a locale or a hypothesis says so. A
  critical section under a mutex is one step, and executions are inductive relations over such steps.

  \<^bold>\<open>Theories.\<close>

  \<^item> \<open>Prelude\<close>: bytes and texts, the monad, the collections \<open>wp_simps\<close>, \<open>wp_intros\<close>, \<open>pres_intros\<close>. \<open>GoTime\<close>: the
    used part of \<^verbatim>\<open>time\<close>, with the calendar, \<^verbatim>\<open>RFC3339Nano\<close> and its round trip. \<open>Sha256\<close>: the hash, of which only the
    length is used. \<open>Json\<close>, \<open>JsonFuel\<close>: \<^verbatim>\<open>encoding/json\<close> on bytes.
  \<^item> \<open>UploadState\<close> (\<^verbatim>\<open>uploadstate/state.go\<close>: \<open>Step\<close> with every branch), \<open>LedgerFiles\<close> and \<open>UploadLedger\<close> (\<^verbatim>\<open>uploadledger\<close>: file
    checks, header, schema, load, commit, open and provision), \<open>UploadRun\<close> (any sequence of steps and
    restarts), \<open>UploadLoop\<close> (\<^verbatim>\<open>uploadloop/loop.go\<close>). The locales \<open>upload_ledger\<close>, \<open>upload_env\<close>, \<open>upload_frame\<close> and \<open>loop_env\<close>
    state what machine and loop need; they are interpreted on the ledger and on the machine.
  \<^item> \<open>ActionCore\<close> (\<^verbatim>\<open>actioncore\<close>: validation, journal keys, \<open>Execute\<close>), \<open>JournalFiles\<close> and \<open>ActionJournal\<close> (\<^verbatim>\<open>actionjournal\<close>: files,
    tables, loader, attempts, pruning, snapshots), \<open>JournalRun\<close> (interleavings and crashes, with the
    invariants), \<open>ActionWorld\<close> (the core on the journal, other users stepping before every call; the locales
    \<open>worker_env\<close> and \<open>worker_keeps\<close> are interpreted there).
  \<^item> \<open>ActionProtocol\<close>, \<open>ProtocolExecution\<close>, \<open>ProtocolRecovery\<close>, \<open>ProtocolSnapshot\<close>, \<open>ProtocolLocal\<close>, \<open>ProtocolEnvelope\<close>
    (\<^verbatim>\<open>actionprotocol\<close>: strict JSON, every message with decoder, validator and encoder, the envelopes). The
    locale \<open>message_codec\<close> is interpreted for every message.
  \<^item> \<open>ActionBudget\<close> (\<^verbatim>\<open>actionbudget\<close>: stamps of three clocks, readiness, conversations, \<open>AcceptClaim\<close>, every check) and
    \<open>BudgetLease\<close> (the locale \<open>budget_check\<close>, interpreted for mutation, commit and decision checks).
  \<^item> \<open>BrokerPolicy\<close> (\<^verbatim>\<open>policy.go\<close>, \<^verbatim>\<open>policy_binding.go\<close>, \<^verbatim>\<open>broker_files.go\<close>), \<open>BrokerPolicySpec\<close> (what the validation loops
    accept), \<open>BrokerState\<close> (\<^verbatim>\<open>reservations_linux.go\<close>, \<^verbatim>\<open>control_linux.go\<close> and the state operations of the
    conversations), \<open>BrokerRun\<close> (any sequence of them and of journal steps, with the invariants).
  \<^item> \<open>BrokerExecution\<close> (\<^verbatim>\<open>owned_conversation_linux.go\<close>, \<^verbatim>\<open>conversation_linux.go\<close>, \<^verbatim>\<open>execution_linux.go\<close>,
    \<^verbatim>\<open>execution_sources_linux.go\<close>: \<open>serveOwned\<close> selects an invocation and runs the action core with the broker's
    wrappers of authority, journal and engine) and \<open>BrokerServe\<close> (what a served connection keeps and does while
    other connections move the broker between any two of its calls; the worker locales are interpreted there again).
  \<^item> \<open>EnrollmentCoord\<close> (\<^verbatim>\<open>enrollmentcoord/coordinator.go\<close>).
  \<^item> \<open>UploadExample\<close>, \<open>ActionExample\<close>, \<open>ProtocolExample\<close>, \<open>BrokerExample\<close> and \<open>ServeExample\<close> hold concrete runs and messages;
    \<open>UploadProperties\<close>, \<open>UploadLoopProperties\<close>, \<open>ActionProperties\<close>, \<open>ProtocolProperties\<close>, \<open>BrokerProperties\<close>, \<open>ServeProperties\<close>
    and \<open>EnrollmentProperties\<close> hold the properties, each stated over the model's own definitions.

  \<^bold>\<open>What is shown.\<close>

  \<^item> Uploads (\<open>UploadProperties\<close>, \<open>UploadLoopProperties\<close>): over every run with crashes, lost and ambiguous commits a sequence number is
    reserved before it is sent and never carries two snapshots; sent snapshots are fresh; a stop
    reason stops the machine for good; a commit is atomic and is read back; the watermark never decreases; files with
    another profile, owner or shape are refused; the loop paces its steps, waits at
    least a second for each of them and backs off.
  \<^item> Messages (\<open>ProtocolProperties\<close>): encoders and decoders are inverse on what is valid, the strict reader stops
    and accepts exactly the bounded texts, retained statuses are read exactly by the table of their states, and
    matching a reply determines what was asked, in its time.
  \<^item> Actions (\<open>ActionProperties\<close>): an action is dispatched at most once over the life of a journal, only after its
    intent is durable, and never while another outcome on its target or container is unknown; the engine
    is called only after the checks; the answer agrees with the journal; pruning keeps what is unresolved; acquiring a
    settled action answers the code on record, and a snapshot lists every action on file once, as recorded.
  \<^item> Broker (\<open>BrokerProperties\<close>): which claims are bound, exclusive live reservations, engine calls inside the lease
    (the composition of policy, journal, budget and protocol), and the policy files that are read.
  \<^item> Serving (\<open>ServeProperties\<close>): from greeting to end, a worker's connection calls the engine at most once, and only
    under a bound claim, after two matching decisions on different challenges, inside the lease and with
    its intent in the journal. \<open>ServeExample\<close> runs such a connection to its engine call.
  \<^item> Enrollment (\<open>EnrollmentProperties\<close>): the order of its effects, its errors, cleared secrets, one attempt.

  \<^bold>\<open>Bounds and fuel.\<close> The JSON reader counts nested values; its fuel is the length of the text, and \<open>JsonFuel\<close>
  shows that more never reads more. The upload loop may run forever: \<open>loop\<close> takes the number of its
  iterations and is \<open>None\<close> when they are used up, and \<open>loop_paces_steps\<close> speaks about every number of iterations. Binary
  search and the calendar terminate by a measure. All other definitions recurse on their data.

  \<^bold>\<open>Not modelled.\<close>

  \<^item> SQLite, the file system, sockets, contexts, clocks and random sources are answers. A \<^verbatim>\<open>COMMIT\<close> that reports
    an error may be durable or not; the tables keep the constraints that the schemas declare.
  \<^item> The validators of snapshot documents (\<^verbatim>\<open>remoteprojection\<close>, \<^verbatim>\<open>combinedprojection\<close>) are parameters of the machine.
  \<^item> Of \<^verbatim>\<open>actionbroker\<close>, the listeners, the registry and joins of worker goroutines, the reading of protected files
    (with \<^verbatim>\<open>openExecutionConsumer\<close>) and the loop of \<^verbatim>\<open>run\<close>. The registry's admission of a connection and the
    policy that the file source returns are answers.
  \<^item> \<^verbatim>\<open>actionengine\<close>, \<^verbatim>\<open>actionipc\<close>, \<^verbatim>\<open>actionremote\<close>, \<^verbatim>\<open>actionworker\<close>, \<^verbatim>\<open>actionprofile\<close>, \<^verbatim>\<open>platformtransport\<close>, the installers and
    start gates (\<^verbatim>\<open>connected*\<close>), collectors, readers, handoffs, history, the local server and the programs under
    \<^verbatim>\<open>src/cmd\<close> are input and output against the operating system, Docker or HTTPS.
  \<^item> The pure packages that shape observations for display or export, the release tools, the web dashboard and
    the scripts take no part in the decisions above and are left out.
\<close>

end
